(* ===== verification/Prelude.thy ===== *)
theory Prelude
  imports Main "HOL-Library.Word"
begin

text \<open>
  Shared vocabulary of the development: the machine integer types of the C code, bytes and
  their big-endian composition into words (the \<open>GETU32\<close>/\<open>PUTU32\<close> and \<open>HOST_c2l\<close>/\<open>HOST_l2c\<close>
  macros and the \<open>htons\<close>/\<open>htonl\<close> conversions all rest on it), exclusive-or of byte strings, and
  the generic lemmas on lists and words that several components need.

  The collection \<open>byte_simps\<close> holds the rewrite rules that take a word built from four bytes
  apart again.
\<close>

unbundle bit_operations_syntax

type_synonym u8 = "8 word"
type_synonym u16 = "16 word"
type_synonym u32 = "32 word"
type_synonym u64 = "64 word"

named_theorems byte_simps

subsection \<open>Four bytes as a word\<close>

definition cat4 :: "u8 \<Rightarrow> u8 \<Rightarrow> u8 \<Rightarrow> u8 \<Rightarrow> u32" where
  "cat4 a b c d =
     push_bit 24 (ucast a) XOR push_bit 16 (ucast b) XOR push_bit 8 (ucast c) XOR ucast d"

definition byte3 :: "u32 \<Rightarrow> u8" where "byte3 w = ucast (drop_bit 24 w)"

definition byte2 :: "u32 \<Rightarrow> u8" where "byte2 w = ucast (drop_bit 16 w)"

definition byte1 :: "u32 \<Rightarrow> u8" where "byte1 w = ucast (drop_bit 8 w)"

definition byte0 :: "u32 \<Rightarrow> u8" where "byte0 w = ucast w"

lemma bit_cat4:
  "bit (cat4 a b c d) n \<longleftrightarrow>
     (if n < 8 then bit d n else if n < 16 then bit c (n - 8)
      else if n < 24 then bit b (n - 16) else n < 32 \<and> bit a (n - 24))"
  by (auto simp: cat4_def bit_simps dest: bit_imp_le_length)

lemma bit_byte:
  "bit (byte3 w) n \<longleftrightarrow> n < 8 \<and> bit w (24 + n)" "bit (byte2 w) n \<longleftrightarrow> n < 8 \<and> bit w (16 + n)"
  "bit (byte1 w) n \<longleftrightarrow> n < 8 \<and> bit w (8 + n)" "bit (byte0 w) n \<longleftrightarrow> n < 8 \<and> bit w n"
  by (auto simp: byte3_def byte2_def byte1_def byte0_def bit_simps ac_simps)

lemma byte_cat4 [byte_simps]:
  "byte3 (cat4 a b c d) = a" "byte2 (cat4 a b c d) = b"
  "byte1 (cat4 a b c d) = c" "byte0 (cat4 a b c d) = d"
  by (auto intro!: bit_word_eqI simp: bit_byte bit_cat4)

lemma cat4_byte [byte_simps]: "cat4 (byte3 w) (byte2 w) (byte1 w) (byte0 w) = w"
  by (rule bit_word_eqI) (auto simp: bit_byte bit_cat4)

lemma cat4_xor:
  "cat4 a b c d XOR cat4 a' b' c' d' = cat4 (a XOR a') (b XOR b') (c XOR c') (d XOR d')"
  by (rule bit_word_eqI) (auto simp: bit_cat4 bit_simps)

lemma cat4_inject [byte_simps]:
  "cat4 a b c d = cat4 a' b' c' d' \<longleftrightarrow> a = a' \<and> b = b' \<and> c = c' \<and> d = d'"
  by (metis byte_cat4)

lemma cat4_cases:
  obtains a b c d where "w = cat4 a b c d"
  using cat4_byte [of w] by metis

lemma byte_xor:
  "byte3 (v XOR w) = byte3 v XOR byte3 w" "byte2 (v XOR w) = byte2 v XOR byte2 w"
  "byte1 (v XOR w) = byte1 v XOR byte1 w" "byte0 (v XOR w) = byte0 v XOR byte0 w"
  by (auto intro!: bit_word_eqI simp: bit_byte bit_simps)

lemma unat_cat4:
  "unat (cat4 a b c d) = unat a * 2 ^ 24 + unat b * 2 ^ 16 + unat c * 2 ^ 8 + unat d"
proof -
  have "cat4 a b c d = push_bit 24 (ucast a) + push_bit 16 (ucast b) + push_bit 8 (ucast c) + ucast d"
  proof -
    have "(push_bit 24 (ucast a) :: u32) AND push_bit 16 (ucast b) = 0"
      by (rule bit_word_eqI) (auto simp: bit_simps dest: bit_imp_le_length)
    moreover have "(push_bit 24 (ucast a) XOR push_bit 16 (ucast b) :: u32) AND push_bit 8 (ucast c) = 0"
      by (rule bit_word_eqI) (auto simp: bit_simps dest: bit_imp_le_length)
    moreover have "((push_bit 24 (ucast a) XOR push_bit 16 (ucast b)) XOR push_bit 8 (ucast c) :: u32)
        AND ucast d = 0"
      by (rule bit_word_eqI) (auto simp: bit_simps dest: bit_imp_le_length)
    ultimately show ?thesis
      by (simp only: cat4_def disjunctive_add_eq_xor) (simp only: xor.assoc)
  qed
  also have "\<dots> = of_nat (unat a * 2 ^ 24 + unat b * 2 ^ 16 + unat c * 2 ^ 8 + unat d)"
    by (simp only: push_bit_eq_mult of_nat_add of_nat_mult of_nat_power of_nat_numeral of_nat_unat)
  finally have eq: "cat4 a b c d = of_nat (unat a * 2 ^ 24 + unat b * 2 ^ 16 + unat c * 2 ^ 8 + unat d)" .
  have "unat a < 2 ^ 8" "unat b < 2 ^ 8" "unat c < 2 ^ 8" "unat d < 2 ^ 8"
    using unsigned_less [of a, where 'a = nat] unsigned_less [of b, where 'a = nat]
      unsigned_less [of c, where 'a = nat] unsigned_less [of d, where 'a = nat] by simp_all
  then have "unat a * 2 ^ 24 + unat b * 2 ^ 16 + unat c * 2 ^ 8 + unat d < 2 ^ 32" by simp
  then show ?thesis
    unfolding eq unsigned_of_nat of_nat_id by (intro take_bit_nat_eq_self) simp
qed

text \<open>The index expressions \<open>(w >> 8*k) & 0xff\<close> and \<open>w >> 24\<close> of the code.\<close>

lemma mask8_eq_byte:
  "(w AND 0xff :: u32) = ucast (byte0 w)" "drop_bit 8 w AND 0xff = ucast (byte1 w)"
  "drop_bit 16 w AND 0xff = ucast (byte2 w)" "drop_bit 24 w = ucast (byte3 w)"
  "byte0 (drop_bit 8 w) = byte1 w" "byte0 (drop_bit 16 w) = byte2 w"
proof -
  have m: "(0xff :: u32) = mask 8" by (simp add: mask_eq_exp_minus_1)
  show "(w AND 0xff :: u32) = ucast (byte0 w)" "drop_bit 8 w AND 0xff = ucast (byte1 w)"
    "drop_bit 16 w AND 0xff = ucast (byte2 w)"
    unfolding m by (rule bit_word_eqI; auto simp: bit_byte bit_simps)+
  show "drop_bit 24 w = ucast (byte3 w)"
    by (rule bit_word_eqI) (auto simp: bit_byte bit_simps dest: bit_imp_le_length)
  show "byte0 (drop_bit 8 w) = byte1 w" "byte0 (drop_bit 16 w) = byte2 w"
    by (rule bit_word_eqI; auto simp: bit_byte bit_simps)+
qed

lemma unat_u8_less [simp]: "unat (b :: u8) < 256"
  using unsigned_less [of b, where 'a = nat] by simp

lemma unat_ucast_u8 [simp]: "unat (ucast (b :: u8) :: u32) = unat b"
  by (simp add: unsigned_ucast_eq take_bit_nat_eq_self less_trans [OF unat_u8_less])

lemma byte_index:
  "unat (drop_bit 8 w AND 0xff :: u32) = unat (byte1 w)"
  "unat (drop_bit 16 w AND 0xff :: u32) = unat (byte2 w)"
  "unat (drop_bit 24 w :: u32) = unat (byte3 w)"
  "unat (w AND 0xff :: u32) = unat (byte0 w)"
  "byte0 (drop_bit 8 w) = byte1 w" "byte0 (drop_bit 16 w) = byte2 w"
  by (simp_all only: mask8_eq_byte unat_ucast_u8)

subsection \<open>Big-endian bytes\<close>

text \<open>\<open>be32\<close> lists the bytes of a word, most significant first: what \<open>PUTU32\<close> and
  \<open>HOST_l2c\<close> store, and what \<open>htonl\<close> leaves in memory.\<close>

definition be32 :: "u32 \<Rightarrow> u8 list" where
  "be32 w = [byte3 w, byte2 w, byte1 w, byte0 w]"

lemma length_be32 [simp]: "length (be32 w) = 4"
  by (simp add: be32_def)

lemma be32_cat4 [byte_simps]: "be32 (cat4 a b c d) = [a, b, c, d]"
  by (simp add: be32_def byte_simps)

lemma be32_inject [simp]: "be32 v = be32 w \<longleftrightarrow> v = w"
proof
  assume "be32 v = be32 w"
  then have "cat4 (byte3 v) (byte2 v) (byte1 v) (byte0 v) =
      cat4 (byte3 w) (byte2 w) (byte1 w) (byte0 w)"
    by (simp add: be32_def)
  then show "v = w" by (simp only: cat4_byte)
qed simp

subsection \<open>Exclusive-or of byte strings\<close>

definition xor_bytes :: "u8 list \<Rightarrow> u8 list \<Rightarrow> u8 list" where
  "xor_bytes xs ys = map2 (XOR) xs ys"

lemma xor_bytes_Nil [simp]: "xor_bytes [] ys = []" "xor_bytes xs [] = []"
  by (simp_all add: xor_bytes_def)

lemma xor_bytes_Cons [simp]: "xor_bytes (x # xs) (y # ys) = (x XOR y) # xor_bytes xs ys"
  by (simp add: xor_bytes_def)

lemma length_xor_bytes [simp]: "length (xor_bytes xs ys) = min (length xs) (length ys)"
  by (simp add: xor_bytes_def)

lemma nth_xor_bytes [simp]:
  "i < length xs \<Longrightarrow> i < length ys \<Longrightarrow> xor_bytes xs ys ! i = xs ! i XOR ys ! i"
  by (simp add: xor_bytes_def)

lemma xor_bytes_append:
  "length xs = length ks \<Longrightarrow>
   xor_bytes (xs @ xs') (ks @ ks') = xor_bytes xs ks @ xor_bytes xs' ks'"
  by (simp add: xor_bytes_def)

lemma xor_bytes_take_key: "xor_bytes xs (take (length xs) ks) = xor_bytes xs ks"
proof (induction xs arbitrary: ks)
  case (Cons x xs)
  then show ?case by (cases ks) simp_all
qed simp

lemma xor_bytes_append_left:
  "length xs \<le> length ks \<Longrightarrow>
   xor_bytes (xs @ ys) ks = xor_bytes xs ks @ xor_bytes ys (drop (length xs) ks)"
proof (induction xs arbitrary: ks)
  case (Cons x xs)
  then show ?case by (cases ks) simp_all
qed simp

lemma xor_bytes_key_append:
  "length xs \<le> length ks \<Longrightarrow> xor_bytes xs (ks @ ks') = xor_bytes xs ks"
proof (induction xs arbitrary: ks)
  case (Cons x xs)
  then show ?case by (cases ks) simp_all
qed simp

lemma xor_cancel_right: "((a :: 'a::len word) XOR b) XOR b = a"
  by (simp add: xor.assoc)

lemma xor_bytes_cancel: "length xs \<le> length ks \<Longrightarrow> xor_bytes (xor_bytes xs ks) ks = xs"
proof (induction xs arbitrary: ks)
  case (Cons x xs)
  then show ?case by (cases ks) (simp_all add: xor_cancel_right)
qed simp

subsection \<open>Lists\<close>

text \<open>\<open>memcpy (p + n, src, length src)\<close> on a buffer that is long enough.\<close>

definition write_at :: "'a list \<Rightarrow> nat \<Rightarrow> 'a list \<Rightarrow> 'a list" where
  "write_at buf n src = take n buf @ src @ drop (n + length src) buf"

lemma length_write_at [simp]:
  "n + length src \<le> length buf \<Longrightarrow> length (write_at buf n src) = length buf"
  by (simp add: write_at_def)

lemma take_write_at [simp]: "n \<le> length buf \<Longrightarrow> take n (write_at buf n src) = take n buf"
  by (simp add: write_at_def)

lemma write_at_all [simp]: "length src = length buf \<Longrightarrow> write_at buf 0 src = src"
  by (simp add: write_at_def)

lemma write_at_append:
  "length xs = n \<Longrightarrow> length src = length ys \<Longrightarrow> write_at (xs @ ys @ zs) n src = xs @ src @ zs"
  by (simp add: write_at_def)

text \<open>Reading and writing \<open>n\<close> bytes (or samples) at an offset, which must lie inside the buffer: an access outside
  it is undefined in C, and \<open>None\<close> here.\<close>

definition read_bytes :: "'a list \<Rightarrow> nat \<Rightarrow> nat \<Rightarrow> 'a list option" where
  "read_bytes buf off n = (if off + n \<le> length buf then Some (take n (drop off buf)) else None)"

definition write_bytes :: "'a list \<Rightarrow> nat \<Rightarrow> 'a list \<Rightarrow> 'a list option" where
  "write_bytes buf off src =
     (if off + length src \<le> length buf then Some (write_at buf off src) else None)"

lemma less_Suc_eq_numeral:
  "n < 4 \<longleftrightarrow> n = 0 \<or> n = 1 \<or> n = 2 \<or> n = (3::nat)"
  by auto

end
