(* ===== verification/Aes_Core.thy ===== *)
theory Aes_Core
  imports Aes_Tables
begin

text \<open>
  The operations of \<open>src/jni/openssl/crypto/aes/aes_core.c\<close> over the tables of theory
  \<open>Aes_Tables\<close>: the key schedules and the block functions of the portable branch (\<open>AES_ASM\<close>
  not defined), the block functions both as the rolled loop that \<open>aes_locl.h\<close> selects and as the
  \<open>FULL_UNROLL\<close> text, and the key schedules of the \<open>AES_ASM\<close> branch, which use \<open>Te4\<close> and
  word-parallel doubling.  The wrappers of \<open>aes_misc.c\<close> are here too.

  \<open>rd_key\<close> is the array \<open>unsigned int rd_key[60]\<close>, updated by index; the moving pointer \<open>rk\<close> is an
  offset into it.  A null pointer is \<open>None\<close>.  All the loops below start from the counters the code
  starts from; the guards are written with \<open>\<ge>\<close> where the code tests \<open>==\<close> on a counter that grows
  by one, which makes the functions total without changing a reachable run.
\<close>

record AES_KEY =
  rd_key :: "u32 list"
  rounds :: nat

definition GETU32 :: "u8 list \<Rightarrow> nat \<Rightarrow> u32" where
  "GETU32 pt i = cat4 (pt ! i) (pt ! (i + 1)) (pt ! (i + 2)) (pt ! (i + 3))"

definition PUTU32 :: "u32 \<Rightarrow> u8 list" where
  "PUTU32 st = [ucast (drop_bit 24 st), ucast (drop_bit 16 st), ucast (drop_bit 8 st), ucast st]"

text \<open>The four masked look-ups that appear in every S-box step of the portable branch.\<close>

definition sub4 :: "u32 \<Rightarrow> u32 \<Rightarrow> u32 \<Rightarrow> u32 \<Rightarrow> u32" where
  "sub4 i j k l =
     (Te2 ! unat i AND 0xff000000) XOR (Te3 ! unat j AND 0x00ff0000) XOR
     (Te0 ! unat k AND 0x0000ff00) XOR (Te1 ! unat l AND 0x000000ff)"

text \<open>\<open>sub4\<close> on the rotated word (\<open>temp >> 16\<close>, \<open>temp >> 8\<close>, \<open>temp\<close>, \<open>temp >> 24\<close>), and on the word
  as it is.\<close>

definition sub_rot :: "u32 \<Rightarrow> u32" where
  "sub_rot temp =
     sub4 (drop_bit 16 temp AND 0xff) (drop_bit 8 temp AND 0xff) (temp AND 0xff) (drop_bit 24 temp)"

definition sub_plain :: "u32 \<Rightarrow> u32" where
  "sub_plain temp =
     sub4 (drop_bit 24 temp) (drop_bit 16 temp AND 0xff) (drop_bit 8 temp AND 0xff) (temp AND 0xff)"

subsection \<open>Encryption key schedule\<close>

text \<open>The bodies of the three \<open>while (1)\<close> loops, one per key size, parametrised by the two S-box
  steps so that the \<open>AES_ASM\<close> branch, whose loops differ only in them, is an instance.  A body is
  split where the loop may return.\<close>

definition body128 :: "(u32 \<Rightarrow> u32) \<Rightarrow> nat \<Rightarrow> nat \<Rightarrow> u32 list \<Rightarrow> u32 list" where
  "body128 sr i p rk =
     (let temp = rk ! (p + 3);
          rk = rk[p + 4 := rk ! p XOR sr temp XOR rcon ! i];
          rk = rk[p + 5 := rk ! (p + 1) XOR rk ! (p + 4)];
          rk = rk[p + 6 := rk ! (p + 2) XOR rk ! (p + 5)]
      in rk[p + 7 := rk ! (p + 3) XOR rk ! (p + 6)])"

function expand128 :: "(u32 \<Rightarrow> u32) \<Rightarrow> nat \<Rightarrow> nat \<Rightarrow> u32 list \<Rightarrow> u32 list" where
  "expand128 sr i p rk =
     (let rk = body128 sr i p rk
      in if i + 1 \<ge> 10 then rk else expand128 sr (i + 1) (p + 4) rk)"
  by pat_completeness auto
termination by (relation "measure (\<lambda>(sr, i, p, rk). 10 - i)") auto

definition body192a :: "(u32 \<Rightarrow> u32) \<Rightarrow> nat \<Rightarrow> nat \<Rightarrow> u32 list \<Rightarrow> u32 list" where
  "body192a sr i p rk =
     (let temp = rk ! (p + 5);
          rk = rk[p + 6 := rk ! p XOR sr temp XOR rcon ! i];
          rk = rk[p + 7 := rk ! (p + 1) XOR rk ! (p + 6)];
          rk = rk[p + 8 := rk ! (p + 2) XOR rk ! (p + 7)]
      in rk[p + 9 := rk ! (p + 3) XOR rk ! (p + 8)])"

definition body192b :: "nat \<Rightarrow> u32 list \<Rightarrow> u32 list" where
  "body192b p rk =
     (let rk = rk[p + 10 := rk ! (p + 4) XOR rk ! (p + 9)]
      in rk[p + 11 := rk ! (p + 5) XOR rk ! (p + 10)])"

function expand192 :: "(u32 \<Rightarrow> u32) \<Rightarrow> nat \<Rightarrow> nat \<Rightarrow> u32 list \<Rightarrow> u32 list" where
  "expand192 sr i p rk =
     (let rk = body192a sr i p rk
      in if i + 1 \<ge> 8 then rk else expand192 sr (i + 1) (p + 6) (body192b p rk))"
  by pat_completeness auto
termination by (relation "measure (\<lambda>(sr, i, p, rk). 8 - i)") auto

definition body256a :: "(u32 \<Rightarrow> u32) \<Rightarrow> nat \<Rightarrow> nat \<Rightarrow> u32 list \<Rightarrow> u32 list" where
  "body256a sr i p rk =
     (let temp = rk ! (p + 7);
          rk = rk[p + 8 := rk ! p XOR sr temp XOR rcon ! i];
          rk = rk[p + 9 := rk ! (p + 1) XOR rk ! (p + 8)];
          rk = rk[p + 10 := rk ! (p + 2) XOR rk ! (p + 9)]
      in rk[p + 11 := rk ! (p + 3) XOR rk ! (p + 10)])"

definition body256b :: "(u32 \<Rightarrow> u32) \<Rightarrow> nat \<Rightarrow> u32 list \<Rightarrow> u32 list" where
  "body256b sp p rk =
     (let temp = rk ! (p + 11);
          rk = rk[p + 12 := rk ! (p + 4) XOR sp temp];
          rk = rk[p + 13 := rk ! (p + 5) XOR rk ! (p + 12)];
          rk = rk[p + 14 := rk ! (p + 6) XOR rk ! (p + 13)]
      in rk[p + 15 := rk ! (p + 7) XOR rk ! (p + 14)])"

function expand256 :: "(u32 \<Rightarrow> u32) \<Rightarrow> (u32 \<Rightarrow> u32) \<Rightarrow> nat \<Rightarrow> nat \<Rightarrow> u32 list \<Rightarrow> u32 list" where
  "expand256 sr sp i p rk =
     (let rk = body256a sr i p rk
      in if i + 1 \<ge> 7 then rk else expand256 sr sp (i + 1) (p + 8) (body256b sp p rk))"
  by pat_completeness auto
termination by (relation "measure (\<lambda>(sr, sp, i, p, rk). 7 - i)") auto

text \<open>\<open>store_words\<close> is the run of assignments \<open>rk[i] = GETU32(userKey + 4*i)\<close> for \<open>i < n\<close>.\<close>

fun store_words :: "nat \<Rightarrow> u8 list \<Rightarrow> u32 list \<Rightarrow> u32 list" where
  "store_words 0 userKey rk = rk"
| "store_words (Suc n) userKey rk = (store_words n userKey rk)[n := GETU32 userKey (4 * n)]"

definition set_encrypt_key_with ::
  "(u32 \<Rightarrow> u32) \<Rightarrow> (u32 \<Rightarrow> u32) \<Rightarrow> u8 list option \<Rightarrow> int \<Rightarrow> AES_KEY option \<Rightarrow> int \<times> AES_KEY option" where
  "set_encrypt_key_with sr sp userKey bits key =
     (case (userKey, key) of
        (Some uk, Some k) \<Rightarrow>
          if bits \<noteq> 128 \<and> bits \<noteq> 192 \<and> bits \<noteq> 256 then (-2, key)
          else if bits = 128 then
            (0, Some (k\<lparr>rounds := 10, rd_key := expand128 sr 0 0 (store_words 4 uk (rd_key k))\<rparr>))
          else if bits = 192 then
            (0, Some (k\<lparr>rounds := 12, rd_key := expand192 sr 0 0 (store_words 6 uk (rd_key k))\<rparr>))
          else
            (0, Some (k\<lparr>rounds := 14, rd_key := expand256 sr sp 0 0 (store_words 8 uk (rd_key k))\<rparr>))
      | _ \<Rightarrow> (-1, key))"

definition private_AES_set_encrypt_key ::
  "u8 list option \<Rightarrow> int \<Rightarrow> AES_KEY option \<Rightarrow> int \<times> AES_KEY option" where
  "private_AES_set_encrypt_key = set_encrypt_key_with sub_rot sub_plain"

definition AES_set_encrypt_key ::
  "u8 list option \<Rightarrow> int \<Rightarrow> AES_KEY option \<Rightarrow> int \<times> AES_KEY option" where
  "AES_set_encrypt_key userKey bits key = private_AES_set_encrypt_key userKey bits key"

subsection \<open>Decryption key schedule\<close>

definition swap_words :: "nat \<Rightarrow> nat \<Rightarrow> u32 list \<Rightarrow> u32 list" where
  "swap_words i j rk = (let temp = rk ! i; rk = rk[i := rk ! j] in rk[j := temp])"

fun reverse_keys :: "nat \<Rightarrow> nat \<Rightarrow> u32 list \<Rightarrow> u32 list" where
  "reverse_keys i j rk =
     (if i < j then
        reverse_keys (i + 4) (j - 4)
          (swap_words (i + 3) (j + 3) (swap_words (i + 2) (j + 2)
            (swap_words (i + 1) (j + 1) (swap_words i j rk))))
      else rk)"

declare reverse_keys.simps [simp del]

text \<open>The inverse MixColumns of one word, through the tables.\<close>

definition inv_mix_word :: "u32 \<Rightarrow> u32" where
  "inv_mix_word w =
     Td0 ! unat (Te1 ! unat (drop_bit 24 w) AND 0xff) XOR
     Td1 ! unat (Te1 ! unat (drop_bit 16 w AND 0xff) AND 0xff) XOR
     Td2 ! unat (Te1 ! unat (drop_bit 8 w AND 0xff) AND 0xff) XOR
     Td3 ! unat (Te1 ! unat (w AND 0xff) AND 0xff)"

function inv_mix_keys :: "(u32 \<Rightarrow> u32) \<Rightarrow> nat \<Rightarrow> nat \<Rightarrow> nat \<Rightarrow> u32 list \<Rightarrow> u32 list" where
  "inv_mix_keys f i n p rk =
     (if i < n then
        let p = p + 4;
            rk = rk[p := f (rk ! p)];
            rk = rk[p + 1 := f (rk ! (p + 1))];
            rk = rk[p + 2 := f (rk ! (p + 2))];
            rk = rk[p + 3 := f (rk ! (p + 3))]
        in inv_mix_keys f (i + 1) n p rk
      else rk)"
  by pat_completeness auto
termination by (relation "measure (\<lambda>(f, i, n, p, rk). n - i)") auto

declare inv_mix_keys.simps [simp del]

definition set_decrypt_key_with ::
  "(u8 list option \<Rightarrow> int \<Rightarrow> AES_KEY option \<Rightarrow> int \<times> AES_KEY option) \<Rightarrow> (u32 \<Rightarrow> u32) \<Rightarrow>
   u8 list option \<Rightarrow> int \<Rightarrow> AES_KEY option \<Rightarrow> int \<times> AES_KEY option" where
  "set_decrypt_key_with set_enc f userKey bits key =
     (case set_enc userKey bits key of
        (status, key') \<Rightarrow>
          if status < 0 then (status, key')
          else (0, map_option (\<lambda>k.
            k\<lparr>rd_key := inv_mix_keys f 1 (rounds k) 0 (reverse_keys 0 (4 * rounds k) (rd_key k))\<rparr>)
            key'))"

definition private_AES_set_decrypt_key ::
  "u8 list option \<Rightarrow> int \<Rightarrow> AES_KEY option \<Rightarrow> int \<times> AES_KEY option" where
  "private_AES_set_decrypt_key = set_decrypt_key_with private_AES_set_encrypt_key inv_mix_word"

definition AES_set_decrypt_key ::
  "u8 list option \<Rightarrow> int \<Rightarrow> AES_KEY option \<Rightarrow> int \<times> AES_KEY option" where
  "AES_set_decrypt_key userKey bits key = private_AES_set_decrypt_key userKey bits key"

subsection \<open>The key schedules of the AES_ASM branch\<close>

definition asm_sub4 :: "u32 \<Rightarrow> u32 \<Rightarrow> u32 \<Rightarrow> u32 \<Rightarrow> u32" where
  "asm_sub4 i j k l =
     push_bit 24 (ucast (Te4 ! unat i)) XOR push_bit 16 (ucast (Te4 ! unat j)) XOR
     push_bit 8 (ucast (Te4 ! unat k)) XOR ucast (Te4 ! unat l)"

definition asm_sub_rot :: "u32 \<Rightarrow> u32" where
  "asm_sub_rot temp =
     asm_sub4 (drop_bit 16 temp AND 0xff) (drop_bit 8 temp AND 0xff) (temp AND 0xff)
       (drop_bit 24 temp)"

definition asm_sub_plain :: "u32 \<Rightarrow> u32" where
  "asm_sub_plain temp =
     asm_sub4 (drop_bit 24 temp) (drop_bit 16 temp AND 0xff) (drop_bit 8 temp AND 0xff)
       (temp AND 0xff)"

definition asm_set_encrypt_key ::
  "u8 list option \<Rightarrow> int \<Rightarrow> AES_KEY option \<Rightarrow> int \<times> AES_KEY option" where
  "asm_set_encrypt_key = set_encrypt_key_with asm_sub_rot asm_sub_plain"

definition ROTATE :: "u32 \<Rightarrow> nat \<Rightarrow> u32" where
  "ROTATE a n = push_bit n a OR drop_bit (32 - n) a"

text \<open>Doubling in GF(2^8) of the four bytes of a word at once.\<close>

definition double4 :: "u32 \<Rightarrow> u32" where
  "double4 tp =
     (let m = tp AND 0x80808080
      in push_bit 1 (tp AND 0x7f7f7f7f) XOR ((m - drop_bit 7 m) AND 0x1b1b1b1b))"

definition asm_inv_mix_word :: "u32 \<Rightarrow> u32" where
  "asm_inv_mix_word tp1 =
     (let tp2 = double4 tp1; tp4 = double4 tp2; tp8 = double4 tp4;
          tp9 = tp8 XOR tp1; tpb = tp9 XOR tp2; tpd = tp9 XOR tp4; tpe = tp8 XOR tp4 XOR tp2
      in tpe XOR ROTATE tpd 16 XOR ROTATE tp9 24 XOR ROTATE tpb 8)"

definition asm_set_decrypt_key ::
  "u8 list option \<Rightarrow> int \<Rightarrow> AES_KEY option \<Rightarrow> int \<times> AES_KEY option" where
  "asm_set_decrypt_key = set_decrypt_key_with asm_set_encrypt_key asm_inv_mix_word"

subsection \<open>One block\<close>

type_synonym quad = "u32 \<times> u32 \<times> u32 \<times> u32"

text \<open>The cipher state is the four variables \<open>s0\<close> to \<open>s3\<close> (or \<open>t0\<close> to \<open>t3\<close>).\<close>

fun load_state :: "u8 list \<Rightarrow> u32 list \<Rightarrow> quad" where
  "load_state inp rk =
     (GETU32 inp 0 XOR rk ! 0, GETU32 inp 4 XOR rk ! 1,
      GETU32 inp 8 XOR rk ! 2, GETU32 inp 12 XOR rk ! 3)"

definition te :: "u32 \<Rightarrow> u32 \<Rightarrow> u32 \<Rightarrow> u32 \<Rightarrow> u32 \<Rightarrow> u32" where
  "te a b c d k =
     Te0 ! unat (drop_bit 24 a) XOR Te1 ! unat (drop_bit 16 b AND 0xff) XOR
     Te2 ! unat (drop_bit 8 c AND 0xff) XOR Te3 ! unat (d AND 0xff) XOR k"

fun te_round :: "u32 list \<Rightarrow> nat \<Rightarrow> quad \<Rightarrow> quad" where
  "te_round rk p (s0, s1, s2, s3) =
     (te s0 s1 s2 s3 (rk ! p), te s1 s2 s3 s0 (rk ! (p + 1)),
      te s2 s3 s0 s1 (rk ! (p + 2)), te s3 s0 s1 s2 (rk ! (p + 3)))"

text \<open>The \<open>for (;;)\<close> loop: two rounds a turn, left in the middle of the turn that brings \<open>r\<close> to 0;
  it returns the \<open>t\<close> variables and the offset \<open>rk\<close> has moved to.  \<open>r\<close> is \<open>rounds >> 1\<close>, at least 5.\<close>

fun enc_loop :: "nat \<Rightarrow> nat \<Rightarrow> u32 list \<Rightarrow> quad \<Rightarrow> quad \<times> nat" where
  "enc_loop 0 p rk s = (s, p)"
| "enc_loop (Suc r) p rk s =
     (let t = te_round rk (p + 4) s; p = p + 8
      in if r = 0 then (t, p) else enc_loop r p rk (te_round rk p t))"

definition te_last :: "u32 \<Rightarrow> u32 \<Rightarrow> u32 \<Rightarrow> u32 \<Rightarrow> u32 \<Rightarrow> u32" where
  "te_last a b c d k =
     sub4 (drop_bit 24 a) (drop_bit 16 b AND 0xff) (drop_bit 8 c AND 0xff) (d AND 0xff) XOR k"

fun enc_final :: "u32 list \<Rightarrow> nat \<Rightarrow> quad \<Rightarrow> u8 list" where
  "enc_final rk p (t0, t1, t2, t3) =
     PUTU32 (te_last t0 t1 t2 t3 (rk ! p)) @ PUTU32 (te_last t1 t2 t3 t0 (rk ! (p + 1))) @
     PUTU32 (te_last t2 t3 t0 t1 (rk ! (p + 2))) @ PUTU32 (te_last t3 t0 t1 t2 (rk ! (p + 3)))"

definition AES_encrypt :: "u8 list \<Rightarrow> AES_KEY \<Rightarrow> u8 list" where
  "AES_encrypt inp key =
     (let rk = rd_key key; (t, p) = enc_loop (rounds key div 2) 0 rk (load_state inp rk)
      in enc_final rk p t)"

definition AES_encrypt_unrolled :: "u8 list \<Rightarrow> AES_KEY \<Rightarrow> u8 list" where
  "AES_encrypt_unrolled inp key =
     (let rk = rd_key key;
          s = load_state inp rk;
          t = te_round rk 4 s;   s = te_round rk 8 t;
          t = te_round rk 12 s;  s = te_round rk 16 t;
          t = te_round rk 20 s;  s = te_round rk 24 t;
          t = te_round rk 28 s;  s = te_round rk 32 t;
          t = te_round rk 36 s;
          t = (if rounds key > 10 then
                 let s = te_round rk 40 t; t = te_round rk 44 s
                 in if rounds key > 12 then
                      let s = te_round rk 48 t in te_round rk 52 s
                    else t
               else t)
      in enc_final rk (4 * rounds key) t)"

definition td :: "u32 \<Rightarrow> u32 \<Rightarrow> u32 \<Rightarrow> u32 \<Rightarrow> u32 \<Rightarrow> u32" where
  "td a b c d k =
     Td0 ! unat (drop_bit 24 a) XOR Td1 ! unat (drop_bit 16 b AND 0xff) XOR
     Td2 ! unat (drop_bit 8 c AND 0xff) XOR Td3 ! unat (d AND 0xff) XOR k"

fun td_round :: "u32 list \<Rightarrow> nat \<Rightarrow> quad \<Rightarrow> quad" where
  "td_round rk p (s0, s1, s2, s3) =
     (td s0 s3 s2 s1 (rk ! p), td s1 s0 s3 s2 (rk ! (p + 1)),
      td s2 s1 s0 s3 (rk ! (p + 2)), td s3 s2 s1 s0 (rk ! (p + 3)))"

fun dec_loop :: "nat \<Rightarrow> nat \<Rightarrow> u32 list \<Rightarrow> quad \<Rightarrow> quad \<times> nat" where
  "dec_loop 0 p rk s = (s, p)"
| "dec_loop (Suc r) p rk s =
     (let t = td_round rk (p + 4) s; p = p + 8
      in if r = 0 then (t, p) else dec_loop r p rk (td_round rk p t))"

definition td_last :: "u32 \<Rightarrow> u32 \<Rightarrow> u32 \<Rightarrow> u32 \<Rightarrow> u32 \<Rightarrow> u32" where
  "td_last a b c d k =
     push_bit 24 (ucast (Td4 ! unat (drop_bit 24 a))) XOR
     push_bit 16 (ucast (Td4 ! unat (drop_bit 16 b AND 0xff))) XOR
     push_bit 8 (ucast (Td4 ! unat (drop_bit 8 c AND 0xff))) XOR
     ucast (Td4 ! unat (d AND 0xff)) XOR k"

fun dec_final :: "u32 list \<Rightarrow> nat \<Rightarrow> quad \<Rightarrow> u8 list" where
  "dec_final rk p (t0, t1, t2, t3) =
     PUTU32 (td_last t0 t3 t2 t1 (rk ! p)) @ PUTU32 (td_last t1 t0 t3 t2 (rk ! (p + 1))) @
     PUTU32 (td_last t2 t1 t0 t3 (rk ! (p + 2))) @ PUTU32 (td_last t3 t2 t1 t0 (rk ! (p + 3)))"

definition AES_decrypt :: "u8 list \<Rightarrow> AES_KEY \<Rightarrow> u8 list" where
  "AES_decrypt inp key =
     (let rk = rd_key key; (t, p) = dec_loop (rounds key div 2) 0 rk (load_state inp rk)
      in dec_final rk p t)"

definition AES_decrypt_unrolled :: "u8 list \<Rightarrow> AES_KEY \<Rightarrow> u8 list" where
  "AES_decrypt_unrolled inp key =
     (let rk = rd_key key;
          s = load_state inp rk;
          t = td_round rk 4 s;   s = td_round rk 8 t;
          t = td_round rk 12 s;  s = td_round rk 16 t;
          t = td_round rk 20 s;  s = td_round rk 24 t;
          t = td_round rk 28 s;  s = td_round rk 32 t;
          t = td_round rk 36 s;
          t = (if rounds key > 10 then
                 let s = td_round rk 40 t; t = td_round rk 44 s
                 in if rounds key > 12 then
                      let s = td_round rk 48 t in td_round rk 52 s
                    else t
               else t)
      in dec_final rk (4 * rounds key) t)"

declare expand128.simps [simp del] expand192.simps [simp del] expand256.simps [simp del]

end
