(* ===== verification/Aes_Spec.thy ===== *)
theory Aes_Spec
  imports Aes_Tables
begin

text \<open>
  The reference cipher: FIPS-197 over a state of four columns of four bytes, with the field
  multiplication of GF(2^8) written out, and the facts that tie the constant tables of
  \<open>aes_core.c\<close> to it.  Nothing here models code; theory \<open>Aes_Core\<close> does.

  \<open>sbox\<close> reads \<open>Te4\<close>, which is the table of FIPS-197; \<open>sbox_is_affine_inverse\<close> shows that it is
  the affine image of the multiplicative inverse.
\<close>

subsection \<open>The field GF(2^8)\<close>

definition xtime :: "u8 \<Rightarrow> u8" where
  "xtime b = push_bit 1 b XOR (if bit b 7 then 0x1b else 0)"

text \<open>\<open>gmul c b\<close> adds up the multiples \<open>x\<^sup>i \<cdot> b\<close> for the bits \<open>i\<close> of \<open>c\<close>.\<close>

fun gmul_bits :: "bool list \<Rightarrow> u8 \<Rightarrow> u8" where
  "gmul_bits [] b = 0"
| "gmul_bits (c # cs) b = (if c then b XOR gmul_bits cs (xtime b) else gmul_bits cs (xtime b))"

definition gmul :: "u8 \<Rightarrow> u8 \<Rightarrow> u8" where
  "gmul c b = gmul_bits (map (bit c) [0, 1, 2, 3, 4, 5, 6, 7]) b"

lemma xtime_xor: "xtime (a XOR b) = xtime a XOR xtime b"
  by (simp add: xtime_def push_bit_xor bit_xor_iff ac_simps)

lemma xtime_0 [simp]: "xtime 0 = 0"
  by (simp add: xtime_def)

lemma gmul_small:
  "gmul 1 b = b"
  "gmul 2 b = xtime b"
  "gmul 3 b = xtime b XOR b"
  "gmul 9 b = xtime (xtime (xtime b)) XOR b"
  "gmul 0xb b = xtime (xtime (xtime b)) XOR xtime b XOR b"
  "gmul 0xd b = xtime (xtime (xtime b)) XOR xtime (xtime b) XOR b"
  "gmul 0xe b = xtime (xtime (xtime b)) XOR xtime (xtime b) XOR xtime b"
  by (simp_all add: gmul_def ac_simps)

subsection \<open>The S-box\<close>

definition sbox :: "u8 \<Rightarrow> u8" where "sbox b = Te4 ! unat b"

definition inv_sbox :: "u8 \<Rightarrow> u8" where "inv_sbox b = Td4 ! unat b"

text \<open>The affine map of FIPS-197, section 5.1.1: \<open>b\<^sub>i\<close> plus the bits at \<open>i + 4 .. i + 7\<close> plus the
  bits of \<open>0x63\<close>; and its inverse.\<close>

definition rotl8 :: "nat \<Rightarrow> u8 \<Rightarrow> u8" where
  "rotl8 n b = push_bit n b OR drop_bit (8 - n) b"

definition affine :: "u8 \<Rightarrow> u8" where
  "affine b = b XOR rotl8 1 b XOR rotl8 2 b XOR rotl8 3 b XOR rotl8 4 b XOR 0x63"

definition inv_affine :: "u8 \<Rightarrow> u8" where
  "inv_affine s = rotl8 1 s XOR rotl8 3 s XOR rotl8 6 s XOR 0x05"

definition bytes256 :: "u8 list" where "bytes256 = map word_of_nat [0..<256]"

lemma length_tables [simp]:
  "length Te0 = 256" "length Te1 = 256" "length Te2 = 256" "length Te3 = 256"
  "length Td0 = 256" "length Td1 = 256" "length Td2 = 256" "length Td3 = 256"
  "length Td4 = 256" "length Te4 = 256"
  by (simp_all add: Te0_def Te1_def Te2_def Te3_def Td0_def Td1_def Td2_def Td3_def Td4_def Te4_def)

lemma nth_bytes256 [simp]: "bytes256 ! unat b = b"
  by (simp add: bytes256_def)

lemma length_bytes256 [simp]: "length bytes256 = 256"
  by (simp add: bytes256_def)

lemma bytes256_eq: "bytes256 = [
    0, 1, 2, 3, 4, 5, 6, 7, 8, 9, 10, 11, 12, 13, 14, 15,
    16, 17, 18, 19, 20, 21, 22, 23, 24, 25, 26, 27, 28, 29, 30, 31,
    32, 33, 34, 35, 36, 37, 38, 39, 40, 41, 42, 43, 44, 45, 46, 47,
    48, 49, 50, 51, 52, 53, 54, 55, 56, 57, 58, 59, 60, 61, 62, 63,
    64, 65, 66, 67, 68, 69, 70, 71, 72, 73, 74, 75, 76, 77, 78, 79,
    80, 81, 82, 83, 84, 85, 86, 87, 88, 89, 90, 91, 92, 93, 94, 95,
    96, 97, 98, 99, 100, 101, 102, 103, 104, 105, 106, 107, 108, 109, 110, 111,
    112, 113, 114, 115, 116, 117, 118, 119, 120, 121, 122, 123, 124, 125, 126, 127,
    128, 129, 130, 131, 132, 133, 134, 135, 136, 137, 138, 139, 140, 141, 142, 143,
    144, 145, 146, 147, 148, 149, 150, 151, 152, 153, 154, 155, 156, 157, 158, 159,
    160, 161, 162, 163, 164, 165, 166, 167, 168, 169, 170, 171, 172, 173, 174, 175,
    176, 177, 178, 179, 180, 181, 182, 183, 184, 185, 186, 187, 188, 189, 190, 191,
    192, 193, 194, 195, 196, 197, 198, 199, 200, 201, 202, 203, 204, 205, 206, 207,
    208, 209, 210, 211, 212, 213, 214, 215, 216, 217, 218, 219, 220, 221, 222, 223,
    224, 225, 226, 227, 228, 229, 230, 231, 232, 233, 234, 235, 236, 237, 238, 239,
    240, 241, 242, 243, 244, 245, 246, 247, 248, 249, 250, 251, 252, 253, 254, 255]"
  by code_simp

text \<open>The table checks below map a named function over a literal table: the simplifier then
  meets each entry as a literal and never the function's body under a binder.\<close>

definition affine_entry :: "u8 \<Rightarrow> u8" where "affine_entry s = affine (inv_affine s)"

definition inverse_entry :: "u8 \<Rightarrow> u8 \<Rightarrow> bool" where
  "inverse_entry b s \<longleftrightarrow> gmul b (inv_affine s) = (if b = 0 then 0 else 1)"

lemma affine_table: "map affine_entry Te4 = Te4"
  by (simp add: Te4_def affine_entry_def affine_def inv_affine_def rotl8_def)

lemma inverse_table:
  "list_all2 inverse_entry bytes256 Te4"
  by (simp add: Te4_def inverse_entry_def bytes256_eq gmul_def xtime_def inv_affine_def rotl8_def)

lemma inv_sbox_table: "map inv_sbox Te4 = bytes256"
  by (simp add: bytes256_eq sbox_def inv_sbox_def Te4_def Td4_def)

lemma sbox_table: "map sbox Td4 = bytes256"
  by (simp add: bytes256_eq sbox_def inv_sbox_def Te4_def Td4_def)

text \<open>An entry of the S-box is the affine image of a byte \<open>i\<close> with \<open>b \<cdot> i = 1\<close> (0 for 0).\<close>

lemma sbox_is_affine_inverse:
  "sbox b = affine (inv_affine (sbox b)) \<and>
   gmul b (inv_affine (sbox b)) = (if b = 0 then 0 else 1)"
proof
  have "map affine_entry Te4 ! unat b = Te4 ! unat b"
    by (simp only: affine_table)
  then show "sbox b = affine (inv_affine (sbox b))"
    by (simp add: sbox_def affine_entry_def)
  show "gmul b (inv_affine (sbox b)) = (if b = 0 then 0 else 1)"
    using list_all2_nthD [OF inverse_table, of "unat b"] by (simp add: sbox_def inverse_entry_def)
qed

lemma inv_sbox_sbox [simp]: "inv_sbox (sbox b) = b"
proof -
  have "map inv_sbox Te4 ! unat b = bytes256 ! unat b"
    by (simp only: inv_sbox_table)
  then show ?thesis by (simp add: sbox_def [of b])
qed

lemma sbox_inv_sbox [simp]: "sbox (inv_sbox b) = b"
proof -
  have "map sbox Td4 ! unat b = bytes256 ! unat b"
    by (simp only: sbox_table)
  then show ?thesis by (simp add: inv_sbox_def [of b])
qed

subsection \<open>What the tables hold\<close>

definition Te0_entry :: "u8 \<Rightarrow> u32" where
  "Te0_entry s = cat4 (gmul 2 s) s s (gmul 3 s)"

definition Te1_entry :: "u8 \<Rightarrow> u32" where
  "Te1_entry s = cat4 (gmul 3 s) (gmul 2 s) s s"

definition Te2_entry :: "u8 \<Rightarrow> u32" where
  "Te2_entry s = cat4 s (gmul 3 s) (gmul 2 s) s"

definition Te3_entry :: "u8 \<Rightarrow> u32" where
  "Te3_entry s = cat4 s s (gmul 3 s) (gmul 2 s)"

definition Td0_entry :: "u8 \<Rightarrow> u32" where
  "Td0_entry s = cat4 (gmul 0xe s) (gmul 9 s) (gmul 0xd s) (gmul 0xb s)"

definition Td1_entry :: "u8 \<Rightarrow> u32" where
  "Td1_entry s = cat4 (gmul 0xb s) (gmul 0xe s) (gmul 9 s) (gmul 0xd s)"

definition Td2_entry :: "u8 \<Rightarrow> u32" where
  "Td2_entry s = cat4 (gmul 0xd s) (gmul 0xb s) (gmul 0xe s) (gmul 9 s)"

definition Td3_entry :: "u8 \<Rightarrow> u32" where
  "Td3_entry s = cat4 (gmul 9 s) (gmul 0xd s) (gmul 0xb s) (gmul 0xe s)"

lemma Te0_map: "Te0 = map Te0_entry Te4"
  by (simp add: Te0_def Te4_def Te0_entry_def gmul_small cat4_def xtime_def)

lemma Te1_map: "Te1 = map Te1_entry Te4"
  by (simp add: Te1_def Te4_def Te1_entry_def gmul_small cat4_def xtime_def)

lemma Te2_map: "Te2 = map Te2_entry Te4"
  by (simp add: Te2_def Te4_def Te2_entry_def gmul_small cat4_def xtime_def)

lemma Te3_map: "Te3 = map Te3_entry Te4"
  by (simp add: Te3_def Te4_def Te3_entry_def gmul_small cat4_def xtime_def)

lemma Td0_map: "Td0 = map Td0_entry Td4"
  by (simp add: Td0_def Td4_def Td0_entry_def gmul_small cat4_def xtime_def)

lemma Td1_map: "Td1 = map Td1_entry Td4"
  by (simp add: Td1_def Td4_def Td1_entry_def gmul_small cat4_def xtime_def)

lemma Td2_map: "Td2 = map Td2_entry Td4"
  by (simp add: Td2_def Td4_def Td2_entry_def gmul_small cat4_def xtime_def)

lemma Td3_map: "Td3 = map Td3_entry Td4"
  by (simp add: Td3_def Td4_def Td3_entry_def gmul_small cat4_def xtime_def)

text \<open>The tables at a byte.\<close>

lemma Te_nth:
  "Te0 ! unat b = Te0_entry (sbox b)"
  "Te1 ! unat b = Te1_entry (sbox b)"
  "Te2 ! unat b = Te2_entry (sbox b)"
  "Te3 ! unat b = Te3_entry (sbox b)"
  by (simp_all add: Te0_map Te1_map Te2_map Te3_map sbox_def)

lemma Td_nth:
  "Td0 ! unat b = Td0_entry (inv_sbox b)"
  "Td1 ! unat b = Td1_entry (inv_sbox b)"
  "Td2 ! unat b = Td2_entry (inv_sbox b)"
  "Td3 ! unat b = Td3_entry (inv_sbox b)"
  by (simp_all add: Td0_map Td1_map Td2_map Td3_map inv_sbox_def)

lemmas table_entry_defs =
  Te0_entry_def Te1_entry_def Te2_entry_def Te3_entry_def
  Td0_entry_def Td1_entry_def Td2_entry_def Td3_entry_def

end
