(* ===== verification/Fips197.thy ===== *)
theory Fips197
  imports Aes_Spec
begin

text \<open>
  The reference cipher of FIPS-197 on a state of four columns: \<open>SubBytes\<close>, \<open>ShiftRows\<close>,
  \<open>MixColumns\<close>, \<open>AddRoundKey\<close>, the key expansion as the recurrence on words, the cipher and the
  inverse cipher, and the algebra that makes them inverses.  This is the specification the
  table-driven code of \<open>aes_core.c\<close> is proved against in theory \<open>Aes_Core\<close>; it models no code.
\<close>

subsection \<open>State\<close>

datatype column = Column u8 u8 u8 u8

datatype aes_state = State column column column column

fun add_column :: "column \<Rightarrow> column \<Rightarrow> column" where
  "add_column (Column a b c d) (Column a' b' c' d') =
     Column (a XOR a') (b XOR b') (c XOR c') (d XOR d')"

fun add_round_key :: "aes_state \<Rightarrow> aes_state \<Rightarrow> aes_state" where
  "add_round_key (State s0 s1 s2 s3) (State k0 k1 k2 k3) =
     State (add_column s0 k0) (add_column s1 k1) (add_column s2 k2) (add_column s3 k3)"

fun map_column :: "(u8 \<Rightarrow> u8) \<Rightarrow> column \<Rightarrow> column" where
  "map_column f (Column a b c d) = Column (f a) (f b) (f c) (f d)"

fun map_state :: "(column \<Rightarrow> column) \<Rightarrow> aes_state \<Rightarrow> aes_state" where
  "map_state f (State s0 s1 s2 s3) = State (f s0) (f s1) (f s2) (f s3)"

definition sub_bytes :: "aes_state \<Rightarrow> aes_state" where
  "sub_bytes = map_state (map_column sbox)"

definition inv_sub_bytes :: "aes_state \<Rightarrow> aes_state" where
  "inv_sub_bytes = map_state (map_column inv_sbox)"

text \<open>Row \<open>r\<close> rotates left by \<open>r\<close> (right in the inverse).\<close>

fun shift_rows :: "aes_state \<Rightarrow> aes_state" where
  "shift_rows (State (Column a0 a1 a2 a3) (Column b0 b1 b2 b3)
                     (Column c0 c1 c2 c3) (Column d0 d1 d2 d3)) =
     State (Column a0 b1 c2 d3) (Column b0 c1 d2 a3)
           (Column c0 d1 a2 b3) (Column d0 a1 b2 c3)"

fun inv_shift_rows :: "aes_state \<Rightarrow> aes_state" where
  "inv_shift_rows (State (Column a0 a1 a2 a3) (Column b0 b1 b2 b3)
                         (Column c0 c1 c2 c3) (Column d0 d1 d2 d3)) =
     State (Column a0 d1 c2 b3) (Column b0 a1 d2 c3)
           (Column c0 b1 a2 d3) (Column d0 c1 b2 a3)"

fun mix_column :: "column \<Rightarrow> column" where
  "mix_column (Column a b c d) =
     Column (gmul 2 a XOR gmul 3 b XOR c XOR d) (a XOR gmul 2 b XOR gmul 3 c XOR d)
            (a XOR b XOR gmul 2 c XOR gmul 3 d) (gmul 3 a XOR b XOR c XOR gmul 2 d)"

fun inv_mix_column :: "column \<Rightarrow> column" where
  "inv_mix_column (Column a b c d) =
     Column (gmul 0xe a XOR gmul 0xb b XOR gmul 0xd c XOR gmul 9 d)
            (gmul 9 a XOR gmul 0xe b XOR gmul 0xb c XOR gmul 0xd d)
            (gmul 0xd a XOR gmul 9 b XOR gmul 0xe c XOR gmul 0xb d)
            (gmul 0xb a XOR gmul 0xd b XOR gmul 9 c XOR gmul 0xe d)"

definition mix_columns :: "aes_state \<Rightarrow> aes_state" where
  "mix_columns = map_state mix_column"

definition inv_mix_columns :: "aes_state \<Rightarrow> aes_state" where
  "inv_mix_columns = map_state inv_mix_column"

subsection \<open>Algebra of the steps\<close>

lemma xor_self_cancel: "(a :: 'a::len word) XOR (a XOR b) = b"
  by (simp flip: xor.assoc)

lemmas xor_cancels = xor_self_cancel xor.assoc xor.commute xor.left_commute

lemma inv_mix_mix_column [simp]: "inv_mix_column (mix_column v) = v"
  by (cases v) (simp add: gmul_small xtime_xor xor_cancels)

lemma inv_mix_column_add:
  "inv_mix_column (add_column u v) = add_column (inv_mix_column u) (inv_mix_column v)"
  by (cases u; cases v) (simp add: gmul_small xtime_xor xor.assoc xor.commute xor.left_commute)

lemma add_column_cancel [simp]: "add_column (add_column u v) v = u"
  by (cases u; cases v) (simp add: xor.assoc)

lemma inv_mix_mix_columns [simp]: "inv_mix_columns (mix_columns s) = s"
  by (cases s) (simp add: inv_mix_columns_def mix_columns_def)

lemma inv_mix_columns_add:
  "inv_mix_columns (add_round_key s k) = add_round_key (inv_mix_columns s) (inv_mix_columns k)"
  by (cases s; cases k) (simp add: inv_mix_columns_def inv_mix_column_add)

lemma add_round_key_cancel [simp]: "add_round_key (add_round_key s k) k = s"
  by (cases s; cases k) simp

text \<open>\<open>ShiftRows\<close> after \<open>SubBytes\<close>, the byte permutation of one round, and its inverse.\<close>

definition sub_shift :: "aes_state \<Rightarrow> aes_state" where
  "sub_shift s = shift_rows (sub_bytes s)"

definition inv_sub_shift :: "aes_state \<Rightarrow> aes_state" where
  "inv_sub_shift s = inv_sub_bytes (inv_shift_rows s)"

lemma state_cases:
  obtains a0 a1 a2 a3 b0 b1 b2 b3 c0 c1 c2 c3 d0 d1 d2 d3
  where "s = State (Column a0 a1 a2 a3) (Column b0 b1 b2 b3)
                   (Column c0 c1 c2 c3) (Column d0 d1 d2 d3)"
  by (cases s rule: aes_state.exhaust) (metis column.exhaust)

lemma inv_sub_shift_sub_shift [simp]: "inv_sub_shift (sub_shift s) = s"
  by (cases s rule: state_cases)
    (simp add: sub_shift_def inv_sub_shift_def sub_bytes_def inv_sub_bytes_def)

subsection \<open>Cipher and inverse cipher\<close>

definition enc_round :: "aes_state \<Rightarrow> aes_state \<Rightarrow> aes_state" where
  "enc_round s k = add_round_key (mix_columns (sub_shift s)) k"

definition enc_last :: "aes_state \<Rightarrow> aes_state \<Rightarrow> aes_state" where
  "enc_last s k = add_round_key (sub_shift s) k"

text \<open>\<open>cipher (k0 # ks)\<close>: \<open>k0\<close> is added first, the last key of \<open>ks\<close> is that of the last round.\<close>

definition cipher :: "aes_state list \<Rightarrow> aes_state \<Rightarrow> aes_state" where
  "cipher ks s =
     enc_last (foldl enc_round (add_round_key s (hd ks)) (butlast (tl ks))) (last ks)"

text \<open>The equivalent inverse cipher (FIPS-197, section 5.3.5) over its own key list.\<close>

definition dec_round :: "aes_state \<Rightarrow> aes_state \<Rightarrow> aes_state" where
  "dec_round s k = add_round_key (inv_mix_columns (inv_sub_shift s)) k"

definition dec_last :: "aes_state \<Rightarrow> aes_state \<Rightarrow> aes_state" where
  "dec_last s k = add_round_key (inv_sub_shift s) k"

definition eq_inv_cipher :: "aes_state list \<Rightarrow> aes_state \<Rightarrow> aes_state" where
  "eq_inv_cipher ks s =
     dec_last (foldl dec_round (add_round_key s (hd ks)) (butlast (tl ks))) (last ks)"

definition dec_keys :: "aes_state list \<Rightarrow> aes_state list" where
  "dec_keys ks = last ks # map inv_mix_columns (rev (butlast (tl ks))) @ [hd ks]"

text \<open>Undoing the rounds one by one, in reverse, leads back to the state before them.\<close>

lemma dec_rounds_undo:
  "foldl dec_round (sub_shift (foldl enc_round s ks)) (map inv_mix_columns (rev ks)) = sub_shift s"
proof (induction ks rule: rev_induct)
  case (snoc k ks)
  have "dec_round (sub_shift (enc_round t k)) (inv_mix_columns k) = sub_shift t" for t
    by (simp add: dec_round_def enc_round_def inv_mix_columns_add)
  then show ?case using snoc by simp
qed simp

lemma eq_inv_cipher_cipher:
  assumes "2 \<le> length ks"
  shows "eq_inv_cipher (dec_keys ks) (cipher ks s) = s"
proof -
  let ?m = "butlast (tl ks)"
  have "eq_inv_cipher (dec_keys ks) (cipher ks s) =
      dec_last (foldl dec_round
        (sub_shift (foldl enc_round (add_round_key s (hd ks)) ?m)) (map inv_mix_columns (rev ?m)))
        (hd ks)"
    by (simp add: eq_inv_cipher_def dec_keys_def cipher_def enc_last_def butlast_append)
  then show ?thesis
    by (simp add: dec_rounds_undo dec_last_def)
qed

subsection \<open>Key expansion\<close>

fun word_of_column :: "column \<Rightarrow> u32" where
  "word_of_column (Column a b c d) = cat4 a b c d"

definition column_of_word :: "u32 \<Rightarrow> column" where
  "column_of_word w = Column (byte3 w) (byte2 w) (byte1 w) (byte0 w)"

definition sub_word :: "u32 \<Rightarrow> u32" where
  "sub_word w = cat4 (sbox (byte3 w)) (sbox (byte2 w)) (sbox (byte1 w)) (sbox (byte0 w))"

definition rot_word :: "u32 \<Rightarrow> u32" where
  "rot_word w = cat4 (byte2 w) (byte1 w) (byte0 w) (byte3 w)"

fun rcon_byte :: "nat \<Rightarrow> u8" where
  "rcon_byte 0 = 0"
| "rcon_byte (Suc 0) = 1"
| "rcon_byte (Suc (Suc i)) = xtime (rcon_byte (Suc i))"

definition key_core :: "nat \<Rightarrow> nat \<Rightarrow> u32 \<Rightarrow> u32" where
  "key_core nk i temp =
     (if i mod nk = 0 then sub_word (rot_word temp) XOR cat4 (rcon_byte (i div nk)) 0 0 0
      else if 6 < nk \<and> i mod nk = 4 then sub_word temp
      else temp)"

text \<open>\<open>expand_upto nk n key\<close> is the list of the first \<open>n + length key\<close> words, where \<open>key\<close> holds
  the \<open>nk\<close> words of the cipher key.\<close>

fun expand_upto :: "nat \<Rightarrow> nat \<Rightarrow> u32 list \<Rightarrow> u32 list" where
  "expand_upto nk 0 key = key"
| "expand_upto nk (Suc n) key =
     (let w = expand_upto nk n key; i = length w
      in w @ [w ! (i - nk) XOR key_core nk i (w ! (i - 1))])"

lemma length_expand_upto [simp]: "length (expand_upto nk n key) = n + length key"
  by (induction n) (simp_all add: Let_def)

lemma column_of_word_cat4 [simp]: "column_of_word (cat4 a b c d) = Column a b c d"
  by (simp add: column_of_word_def byte_simps)

lemma word_of_column_inverse [simp]:
  "column_of_word (word_of_column v) = v" "word_of_column (column_of_word w) = w"
  by (cases v) (simp_all add: column_of_word_def byte_simps)

lemma column_of_word_xor:
  "column_of_word (v XOR w) = add_column (column_of_word v) (column_of_word w)"
  by (simp add: column_of_word_def byte_xor)

lemma word_of_column_add: "word_of_column (add_column u v) = word_of_column u XOR word_of_column v"
  by (cases u; cases v) (simp add: cat4_xor)

end
