(* ===== verification/Aes_Correct.thy ===== *)
theory Aes_Correct
  imports Aes_Core Fips197
begin

text \<open>
  The code of \<open>aes_core.c\<close> against FIPS-197: the table rounds are the rounds of the reference
  cipher, the key schedules are the key expansion, the rolled and unrolled block functions agree,
  the \<open>AES_ASM\<close> schedules agree with the table-driven ones, and decryption undoes encryption.
\<close>

subsection \<open>Bytes, words and columns\<close>

lemma GETU32_byte:
  "byte3 (GETU32 p i) = p ! i" "byte2 (GETU32 p i) = p ! (i + 1)"
  "byte1 (GETU32 p i) = p ! (i + 2)" "byte0 (GETU32 p i) = p ! (i + 3)"
  by (simp_all add: GETU32_def byte_simps)

lemma PUTU32_eq_be32: "PUTU32 w = be32 w"
  by (simp add: PUTU32_def be32_def byte3_def byte2_def byte1_def byte0_def)

lemma and_byte_masks:
  "cat4 a b c d AND 0xff000000 = cat4 a 0 0 0" "cat4 a b c d AND 0x00ff0000 = cat4 0 b 0 0"
  "cat4 a b c d AND 0x0000ff00 = cat4 0 0 c 0" "cat4 a b c d AND 0x000000ff = cat4 0 0 0 d"
proof -
  have m: "(0xff000000 :: u32) = push_bit 24 (mask 8)" "(0x00ff0000 :: u32) = push_bit 16 (mask 8)"
    "(0x0000ff00 :: u32) = push_bit 8 (mask 8)" "(0x000000ff :: u32) = mask 8"
    by (simp_all add: mask_eq_exp_minus_1)
  show "cat4 a b c d AND 0xff000000 = cat4 a 0 0 0" "cat4 a b c d AND 0x00ff0000 = cat4 0 b 0 0"
    "cat4 a b c d AND 0x0000ff00 = cat4 0 0 c 0" "cat4 a b c d AND 0x000000ff = cat4 0 0 0 d"
    unfolding m by (rule bit_word_eqI; auto simp: bit_cat4 bit_simps)+
qed

text \<open>The masked look-ups assemble a word from four S-box bytes.\<close>

lemma sub4_bytes:
  "sub4 (ucast a) (ucast b) (ucast c) (ucast d) = cat4 (sbox a) (sbox b) (sbox c) (sbox d)"
  by (simp add: sub4_def Te_nth table_entry_defs and_byte_masks cat4_xor)

lemma asm_sub4_bytes:
  "asm_sub4 (ucast a) (ucast b) (ucast c) (ucast d) = cat4 (sbox a) (sbox b) (sbox c) (sbox d)"
  by (simp add: asm_sub4_def cat4_def sbox_def)

lemma sub_steps:
  "sub_rot w = sub_word (rot_word w)" "sub_plain w = sub_word w"
  "asm_sub_rot w = sub_word (rot_word w)" "asm_sub_plain w = sub_word w"
  by (simp_all only: sub_rot_def sub_plain_def asm_sub_rot_def asm_sub_plain_def mask8_eq_byte
      sub4_bytes asm_sub4_bytes) (simp_all add: sub_word_def rot_word_def byte_simps)

lemma asm_branch_steps: "asm_sub_rot = sub_rot" "asm_sub_plain = sub_plain"
  by (simp_all add: fun_eq_iff sub_steps)

subsection \<open>One round\<close>

fun state_of :: "quad \<Rightarrow> aes_state" where
  "state_of (s0, s1, s2, s3) =
     State (column_of_word s0) (column_of_word s1) (column_of_word s2) (column_of_word s3)"

definition key_at :: "u32 list \<Rightarrow> nat \<Rightarrow> aes_state" where
  "key_at rk p = state_of (rk ! p, rk ! (p + 1), rk ! (p + 2), rk ! (p + 3))"

fun state_bytes :: "aes_state \<Rightarrow> u8 list" where
  "state_bytes (State (Column a0 a1 a2 a3) (Column b0 b1 b2 b3)
                      (Column c0 c1 c2 c3) (Column d0 d1 d2 d3)) =
     [a0, a1, a2, a3, b0, b1, b2, b3, c0, c1, c2, c3, d0, d1, d2, d3]"

definition bytes_state :: "u8 list \<Rightarrow> aes_state" where
  "bytes_state b = state_of (GETU32 b 0, GETU32 b 4, GETU32 b 8, GETU32 b 12)"

lemma length_state_bytes [simp]: "length (state_bytes s) = 16"
  by (cases s rule: state_cases) simp

lemma bytes_state_bytes [simp]: "bytes_state (state_bytes s) = s"
  by (cases s rule: state_cases) (simp add: bytes_state_def GETU32_def)

lemma state_bytes_state [simp]:
  assumes "length b = 16"
  shows "state_bytes (bytes_state b) = b"
proof -
  obtain b0 b1 b2 b3 b4 b5 b6 b7 b8 b9 b10 b11 b12 b13 b14 b15 where
    b: "b = [b0, b1, b2, b3, b4, b5, b6, b7, b8, b9, b10, b11, b12, b13, b14, b15]"
    using assms by (auto simp: length_Suc_conv numeral_eq_Suc)
  show ?thesis
    unfolding b by (simp add: bytes_state_def GETU32_def)
qed

lemma te_column:
  "column_of_word (te a b c d k) =
   add_column (mix_column (Column (sbox (byte3 a)) (sbox (byte2 b)) (sbox (byte1 c)) (sbox (byte0 d))))
     (column_of_word k)"
proof -
  have "te a b c d k =
      cat4 (gmul 2 (sbox (byte3 a)) XOR gmul 3 (sbox (byte2 b)) XOR sbox (byte1 c) XOR sbox (byte0 d))
        (sbox (byte3 a) XOR gmul 2 (sbox (byte2 b)) XOR gmul 3 (sbox (byte1 c)) XOR sbox (byte0 d))
        (sbox (byte3 a) XOR sbox (byte2 b) XOR gmul 2 (sbox (byte1 c)) XOR gmul 3 (sbox (byte0 d)))
        (gmul 3 (sbox (byte3 a)) XOR sbox (byte2 b) XOR sbox (byte1 c) XOR gmul 2 (sbox (byte0 d)))
      XOR k"
    by (simp only: te_def byte_index Te_nth table_entry_defs cat4_xor flip: xor.assoc)
  then show ?thesis
    by (simp only: column_of_word_xor column_of_word_cat4 mix_column.simps)
qed

lemma state_of_te_round: "state_of (te_round rk p s) = enc_round (state_of s) (key_at rk p)"
  by (cases s) (simp only: te_round.simps state_of.simps te_column,
      simp add: enc_round_def mix_columns_def sub_shift_def sub_bytes_def key_at_def
        column_of_word_def)

lemma td_column:
  "column_of_word (td a b c d k) =
   add_column (inv_mix_column (Column (inv_sbox (byte3 a)) (inv_sbox (byte2 b))
     (inv_sbox (byte1 c)) (inv_sbox (byte0 d)))) (column_of_word k)"
proof -
  let ?a = "inv_sbox (byte3 a)" and ?b = "inv_sbox (byte2 b)"
  let ?c = "inv_sbox (byte1 c)" and ?d = "inv_sbox (byte0 d)"
  have "td a b c d k =
      cat4 (gmul 0xe ?a XOR gmul 0xb ?b XOR gmul 0xd ?c XOR gmul 9 ?d)
        (gmul 9 ?a XOR gmul 0xe ?b XOR gmul 0xb ?c XOR gmul 0xd ?d)
        (gmul 0xd ?a XOR gmul 9 ?b XOR gmul 0xe ?c XOR gmul 0xb ?d)
        (gmul 0xb ?a XOR gmul 0xd ?b XOR gmul 9 ?c XOR gmul 0xe ?d) XOR k"
    by (simp only: td_def byte_index Td_nth table_entry_defs cat4_xor flip: xor.assoc)
  then show ?thesis
    by (simp only: column_of_word_xor column_of_word_cat4 inv_mix_column.simps)
qed

lemma state_of_td_round: "state_of (td_round rk p s) = dec_round (state_of s) (key_at rk p)"
  by (cases s) (simp only: td_round.simps state_of.simps td_column,
      simp add: dec_round_def inv_mix_columns_def inv_sub_shift_def inv_sub_bytes_def key_at_def
        column_of_word_def)

lemma PUTU32_te_last:
  "PUTU32 (te_last a b c d k) =
   [sbox (byte3 a) XOR byte3 k, sbox (byte2 b) XOR byte2 k,
    sbox (byte1 c) XOR byte1 k, sbox (byte0 d) XOR byte0 k]"
  by (simp only: te_last_def mask8_eq_byte sub4_bytes PUTU32_eq_be32)
    (simp add: be32_def byte_xor byte_simps)

lemma PUTU32_td_last:
  "PUTU32 (td_last a b c d k) =
   [inv_sbox (byte3 a) XOR byte3 k, inv_sbox (byte2 b) XOR byte2 k,
    inv_sbox (byte1 c) XOR byte1 k, inv_sbox (byte0 d) XOR byte0 k]"
proof -
  have "td_last a b c d k = cat4 (inv_sbox (byte3 a)) (inv_sbox (byte2 b))
      (inv_sbox (byte1 c)) (inv_sbox (byte0 d)) XOR k"
    by (simp only: td_last_def byte_index cat4_def inv_sbox_def xor.assoc)
  then show ?thesis
    by (simp only: PUTU32_eq_be32) (simp add: be32_def byte_xor byte_simps)
qed

lemma enc_final_eq: "enc_final rk p t = state_bytes (enc_last (state_of t) (key_at rk p))"
  by (cases t) (simp add: PUTU32_te_last enc_last_def sub_shift_def sub_bytes_def key_at_def
      column_of_word_def)

lemma dec_final_eq: "dec_final rk p t = state_bytes (dec_last (state_of t) (key_at rk p))"
  by (cases t) (simp add: PUTU32_td_last dec_last_def inv_sub_shift_def inv_sub_bytes_def key_at_def
      column_of_word_def)

lemma state_of_load: "state_of (load_state inp rk) = add_round_key (bytes_state inp) (key_at rk 0)"
  by (simp add: bytes_state_def key_at_def column_of_word_xor numeral_2_eq_2 numeral_3_eq_3)

subsection \<open>The block functions\<close>

text \<open>\<open>n\<close> round keys from offset \<open>p\<close> on.\<close>

primrec keys_from :: "u32 list \<Rightarrow> nat \<Rightarrow> nat \<Rightarrow> aes_state list" where
  "keys_from rk p 0 = []"
| "keys_from rk p (Suc n) = key_at rk p # keys_from rk (p + 4) n"

lemma length_keys_from [simp]: "length (keys_from rk p n) = n"
  by (induction n arbitrary: p) simp_all

lemma nth_keys_from [simp]: "i < n \<Longrightarrow> keys_from rk p n ! i = key_at rk (p + 4 * i)"
  by (induction n arbitrary: p i) (simp_all add: nth_Cons' algebra_simps)

lemma butlast_keys_from [simp]: "butlast (keys_from rk p (Suc n)) = keys_from rk p n"
  by (rule nth_equalityI) (simp_all add: nth_butlast del: keys_from.simps)

lemma last_keys_from [simp]: "last (keys_from rk p (Suc n)) = key_at rk (p + 4 * n)"
  by (subst last_conv_nth) (simp_all del: keys_from.simps flip: length_0_conv)

lemma enc_loop_rounds:
  "state_of (fst (enc_loop (Suc r) p rk s)) =
     foldl enc_round (state_of s) (keys_from rk (p + 4) (2 * r + 1)) \<and>
   snd (enc_loop (Suc r) p rk s) = p + 8 * Suc r"
proof (induction r arbitrary: p s)
  case 0
  show ?case by (simp add: Let_def state_of_te_round)
next
  case (Suc r)
  let ?s = "te_round rk (p + 8) (te_round rk (p + 4) s)"
  have step: "enc_loop (Suc (Suc r)) p rk s = enc_loop (Suc r) (p + 8) rk ?s"
    by (simp only: enc_loop.simps(2) [of "Suc r"] Let_def nat.distinct if_False)
  have keys: "keys_from rk (p + 4) (2 * Suc r + 1) =
      key_at rk (p + 4) # key_at rk (p + 8) # keys_from rk (p + 8 + 4) (2 * r + 1)"
    by (simp add: algebra_simps)
  show ?case
    using Suc.IH [of "p + 8" ?s] unfolding step keys
    by (simp only: foldl.simps state_of_te_round) simp
qed

lemma dec_loop_rounds:
  "state_of (fst (dec_loop (Suc r) p rk s)) =
     foldl dec_round (state_of s) (keys_from rk (p + 4) (2 * r + 1)) \<and>
   snd (dec_loop (Suc r) p rk s) = p + 8 * Suc r"
proof (induction r arbitrary: p s)
  case 0
  show ?case by (simp add: Let_def state_of_td_round)
next
  case (Suc r)
  let ?s = "td_round rk (p + 8) (td_round rk (p + 4) s)"
  have step: "dec_loop (Suc (Suc r)) p rk s = dec_loop (Suc r) (p + 8) rk ?s"
    by (simp only: dec_loop.simps(2) [of "Suc r"] Let_def nat.distinct if_False)
  have keys: "keys_from rk (p + 4) (2 * Suc r + 1) =
      key_at rk (p + 4) # key_at rk (p + 8) # keys_from rk (p + 8 + 4) (2 * r + 1)"
    by (simp add: algebra_simps)
  show ?case
    using Suc.IH [of "p + 8" ?s] unfolding step keys
    by (simp only: foldl.simps state_of_td_round) simp
qed

text \<open>The round keys an \<open>AES_KEY\<close> holds.\<close>

definition key_states :: "AES_KEY \<Rightarrow> aes_state list" where
  "key_states key = keys_from (rd_key key) 0 (rounds key + 1)"

lemma length_key_states [simp]: "length (key_states key) = rounds key + 1"
  by (simp add: key_states_def)

lemma key_states_parts:
  assumes "rounds key = Suc n"
  shows "hd (key_states key) = key_at (rd_key key) 0"
    and "last (key_states key) = key_at (rd_key key) (4 * Suc n)"
    and "butlast (tl (key_states key)) = keys_from (rd_key key) 4 n"
proof -
  show "hd (key_states key) = key_at (rd_key key) 0"
    by (simp add: key_states_def)
  show "last (key_states key) = key_at (rd_key key) (4 * Suc n)"
    using last_keys_from [of "rd_key key" 0 "Suc n"] assms by (simp add: key_states_def)
  show "butlast (tl (key_states key)) = keys_from (rd_key key) 4 n"
    using butlast_keys_from [of "rd_key key" 4 n] assms by (simp add: key_states_def)
qed

lemma AES_encrypt_cipher:
  assumes "even (rounds key)" and "0 < rounds key"
  shows "AES_encrypt inp key = state_bytes (cipher (key_states key) (bytes_state inp))"
proof -
  obtain k where "rounds key = 2 * k" using assms(1) by (auto elim: evenE)
  then obtain r where r: "rounds key = Suc (2 * r + 1)"
    using assms(2) by (cases k) auto
  have half: "rounds key div 2 = Suc r" using r by simp
  show ?thesis
    using enc_loop_rounds [of r 0 "rd_key key" "load_state inp (rd_key key)"]
    unfolding AES_encrypt_def Let_def half split_beta
    by (simp only: enc_final_eq cipher_def key_states_parts [OF r] state_of_load)
      (simp add: algebra_simps)
qed

lemma AES_decrypt_cipher:
  assumes "even (rounds key)" and "0 < rounds key"
  shows "AES_decrypt inp key = state_bytes (eq_inv_cipher (key_states key) (bytes_state inp))"
proof -
  obtain k where "rounds key = 2 * k" using assms(1) by (auto elim: evenE)
  then obtain r where r: "rounds key = Suc (2 * r + 1)"
    using assms(2) by (cases k) auto
  have half: "rounds key div 2 = Suc r" using r by simp
  show ?thesis
    using dec_loop_rounds [of r 0 "rd_key key" "load_state inp (rd_key key)"]
    unfolding AES_decrypt_def Let_def half split_beta
    by (simp only: dec_final_eq eq_inv_cipher_def key_states_parts [OF r] state_of_load)
      (simp add: algebra_simps)
qed

lemma loop_numerals:
  "enc_loop (numeral m) p rk s =
     (let t = te_round rk (p + 4) s; p = p + 8
      in if pred_numeral m = 0 then (t, p) else enc_loop (pred_numeral m) p rk (te_round rk p t))"
  "dec_loop (numeral m) p rk s =
     (let t = td_round rk (p + 4) s; p = p + 8
      in if pred_numeral m = 0 then (t, p) else dec_loop (pred_numeral m) p rk (td_round rk p t))"
  by (simp_all add: numeral_eq_Suc)

lemma AES_unrolled_rounds:
  assumes "rounds key \<in> {10, 12, 14}"
  shows "AES_encrypt_unrolled inp key = AES_encrypt inp key"
    and "AES_decrypt_unrolled inp key = AES_decrypt inp key"
  using assms
  by (auto simp: AES_encrypt_unrolled_def AES_encrypt_def AES_decrypt_unrolled_def AES_decrypt_def
      Let_def loop_numerals simp del: te_round.simps td_round.simps load_state.simps
      enc_final.simps dec_final.simps)

end
