(* ===== verification/Aes_Keys.thy ===== *)
theory Aes_Keys
  imports Aes_Correct
begin

text \<open>
  The key schedules of \<open>aes_core.c\<close>: the encryption schedule holds the words of the FIPS-197 key
  expansion, the decryption schedule holds the key list of the equivalent inverse cipher, the
  \<open>AES_ASM\<close> schedules are the same functions, and so decryption undoes encryption.
\<close>

subsection \<open>The encryption schedule\<close>

text \<open>\<open>sched nk key n rk\<close>: the first \<open>n\<close> words of the array \<open>rk\<close> are those of the key expansion.\<close>

definition sched :: "nat \<Rightarrow> u32 list \<Rightarrow> nat \<Rightarrow> u32 list \<Rightarrow> bool" where
  "sched nk key n rk \<longleftrightarrow>
     length rk = 60 \<and> length key = nk \<and> 0 < nk \<and> nk \<le> n \<and> take n rk = expand_upto nk (n - nk) key"

lemma sched_step:
  assumes s: "sched nk key n rk" and n: "n < 60"
    and v: "v = rk ! (n - nk) XOR key_core nk n (rk ! (n - 1))"
  shows "sched nk key (Suc n) (rk[n := v])"
proof -
  let ?w = "expand_upto nk (n - nk) key"
  have len: "length rk = 60" "length key = nk" "0 < nk" "nk \<le> n" and tk: "take n rk = ?w"
    using s by (auto simp: sched_def)
  have at: "?w ! m = rk ! m" if "m < n" for m
    using that unfolding tk [symmetric] by simp
  have "expand_upto nk (Suc n - nk) key = ?w @ [v]"
    using len by (simp add: Suc_diff_le Let_def at v)
  moreover have "take (Suc n) (rk[n := v]) = take n rk @ [v]"
    using n len by (simp add: take_Suc_conv_app_nth)
  ultimately show ?thesis
    using len tk by (simp add: sched_def)
qed

lemma rcon_nth: "i < 10 \<Longrightarrow> rcon ! i = cat4 (rcon_byte (Suc i)) 0 0 0"
proof -
  assume "i < 10"
  moreover have "map (\<lambda>i. cat4 (rcon_byte (Suc i)) 0 0 0) [0, 1, 2, 3, 4, 5, 6, 7, 8, 9] = rcon"
    by code_simp
  moreover have "[0, 1, 2, 3, 4, 5, 6, 7, 8, 9] = [0..<10]"
    by (simp add: upt_rec)
  ultimately show ?thesis
    by (metis (no_types, lifting) add_0 diff_zero length_upt nth_map nth_upt)
qed

lemma sched_rot:
  assumes "sched nk key n rk" and "n = nk * Suc i" and "i < 10" and "n < 60"
    and "q = n - nk" and "t = n - 1" and "n' = Suc n"
  shows "sched nk key n' (rk[n := rk ! q XOR sub_rot (rk ! t) XOR rcon ! i])"
  unfolding assms(7) using assms(1-6)
  by (intro sched_step) (auto simp: key_core_def sub_steps rcon_nth xor.assoc sched_def)

lemma sched_plain:
  assumes "sched nk key n rk" and "n < 60" and "n mod nk \<noteq> 0" and "nk \<le> 6 \<or> n mod nk \<noteq> 4"
    and "q = n - nk" and "t = n - 1" and "n' = Suc n"
  shows "sched nk key n' (rk[n := rk ! q XOR rk ! t])"
  unfolding assms(7) using assms(1-6) by (intro sched_step) (auto simp: key_core_def)

lemma sched_sub:
  assumes "sched nk key n rk" and "n < 60" and "n mod nk = 4" and "6 < nk"
    and "q = n - nk" and "t = n - 1" and "n' = Suc n"
  shows "sched nk key n' (rk[n := rk ! q XOR sub_plain (rk ! t)])"
  unfolding assms(7) using assms(1-6) by (intro sched_step) (auto simp: key_core_def sub_steps)

lemma body128_sched:
  assumes "sched 4 key (4 * i + 4) rk" and "i < 10"
  shows "sched 4 key (4 * i + 8) (body128 sub_rot i (4 * i) rk)"
  unfolding body128_def Let_def
  by (rule sched_plain sched_rot assms(1); (use assms(2) in presburger)?)+

lemma body192a_sched:
  assumes "sched 6 key (6 * i + 6) rk" and "i < 8"
  shows "sched 6 key (6 * i + 10) (body192a sub_rot i (6 * i) rk)"
  unfolding body192a_def Let_def
  by (rule sched_plain sched_rot assms(1); (use assms(2) in presburger)?)+

lemma body192b_sched:
  assumes "sched 6 key (6 * i + 10) rk" and "i < 7"
  shows "sched 6 key (6 * Suc i + 6) (body192b (6 * i) rk)"
  unfolding body192b_def Let_def
  by (rule sched_plain assms(1); (use assms(2) in presburger)?)+

lemma body256a_sched:
  assumes "sched 8 key (8 * i + 8) rk" and "i < 7"
  shows "sched 8 key (8 * i + 12) (body256a sub_rot i (8 * i) rk)"
  unfolding body256a_def Let_def
  by (rule sched_plain sched_rot assms(1); (use assms(2) in presburger)?)+

lemma body256b_sched:
  assumes "sched 8 key (8 * i + 12) rk" and "i < 6"
  shows "sched 8 key (8 * Suc i + 8) (body256b sub_plain (8 * i) rk)"
  unfolding body256b_def Let_def
  by (rule sched_plain sched_sub assms(1); (use assms(2) in presburger)?)+

lemma expand128_sched:
  "i < 10 \<Longrightarrow> sched 4 key (4 * i + 4) rk \<Longrightarrow> sched 4 key 44 (expand128 sub_rot i (4 * i) rk)"
proof (induction "9 - i" arbitrary: i rk)
  case 0
  then have "i = 9" by simp
  then show ?case
    using body128_sched [OF 0(3,2)] by (simp add: expand128.simps Let_def)
next
  case (Suc d)
  then have "sched 4 key (4 * Suc i + 4) (body128 sub_rot i (4 * i) rk)"
    using body128_sched [OF Suc.prems(2,1)] by (simp add: algebra_simps)
  then have "sched 4 key 44 (expand128 sub_rot (Suc i) (4 * Suc i) (body128 sub_rot i (4 * i) rk))"
    using Suc by (intro Suc.hyps(1)) auto
  moreover have "\<not> 10 \<le> i + 1" using Suc by simp
  ultimately show ?case
    by (subst expand128.simps) (simp add: Let_def algebra_simps)
qed

lemma expand192_sched:
  "i < 8 \<Longrightarrow> sched 6 key (6 * i + 6) rk \<Longrightarrow> sched 6 key 52 (expand192 sub_rot i (6 * i) rk)"
proof (induction "7 - i" arbitrary: i rk)
  case 0
  then have "i = 7" by simp
  then show ?case
    using body192a_sched [OF 0(3,2)] by (simp add: expand192.simps Let_def)
next
  case (Suc d)
  let ?rk = "body192b (6 * i) (body192a sub_rot i (6 * i) rk)"
  have "sched 6 key (6 * Suc i + 6) ?rk"
    using body192b_sched [OF body192a_sched [OF Suc.prems(2,1)]] Suc.hyps(2) by simp
  then have "sched 6 key 52 (expand192 sub_rot (Suc i) (6 * Suc i) ?rk)"
    using Suc by (intro Suc.hyps(1)) auto
  moreover have "\<not> 8 \<le> i + 1" using Suc by simp
  ultimately show ?case
    by (subst expand192.simps) (simp add: Let_def algebra_simps)
qed

lemma expand256_sched:
  "i < 7 \<Longrightarrow> sched 8 key (8 * i + 8) rk \<Longrightarrow>
   sched 8 key 60 (expand256 sub_rot sub_plain i (8 * i) rk)"
proof (induction "6 - i" arbitrary: i rk)
  case 0
  then have "i = 6" by simp
  then show ?case
    using body256a_sched [OF 0(3,2)] by (simp add: expand256.simps Let_def)
next
  case (Suc d)
  let ?rk = "body256b sub_plain (8 * i) (body256a sub_rot i (8 * i) rk)"
  have "sched 8 key (8 * Suc i + 8) ?rk"
    using body256b_sched [OF body256a_sched [OF Suc.prems(2,1)]] Suc.hyps(2) by simp
  then have "sched 8 key 60 (expand256 sub_rot sub_plain (Suc i) (8 * Suc i) ?rk)"
    using Suc by (intro Suc.hyps(1)) auto
  moreover have "\<not> 7 \<le> i + 1" using Suc by simp
  ultimately show ?case
    by (subst expand256.simps) (simp add: Let_def algebra_simps)
qed

text \<open>The words of a user key of \<open>nk\<close> words.\<close>

definition key_words :: "u8 list \<Rightarrow> nat \<Rightarrow> u32 list" where
  "key_words userKey nk = map (\<lambda>i. GETU32 userKey (4 * i)) [0..<nk]"

lemma length_store_words [simp]: "length (store_words n uk rk) = length rk"
  by (induction n) simp_all

lemma take_store_words: "n \<le> length rk \<Longrightarrow> take n (store_words n uk rk) = key_words uk n"
  by (induction n) (simp_all add: key_words_def take_Suc_conv_app_nth)

lemma sched_store:
  "length rk = 60 \<Longrightarrow> 0 < nk \<Longrightarrow> nk \<le> 60 \<Longrightarrow>
   sched nk (key_words uk nk) nk (store_words nk uk rk)"
  by (simp add: sched_def take_store_words) (simp add: key_words_def)

text \<open>The number of key words and of schedule words for a key size.\<close>

definition nk_of :: "int \<Rightarrow> nat" where "nk_of bits = nat (bits div 32)"

theorem set_encrypt_key_expansion:
  assumes "bits \<in> {128, 192, 256}" and "length (rd_key k) = 60"
  shows "\<exists>k'. AES_set_encrypt_key (Some uk) bits (Some k) = (0, Some k') \<and>
    rounds k' = nk_of bits + 6 \<and> length (rd_key k') = 60 \<and>
    take (4 * (rounds k' + 1)) (rd_key k') =
      expand_upto (nk_of bits) (4 * (nk_of bits + 7) - nk_of bits) (key_words uk (nk_of bits))"
proof -
  have "sched 4 (key_words uk 4) 44 (expand128 sub_rot 0 0 (store_words 4 uk (rd_key k)))"
    using expand128_sched [of 0 _ "store_words 4 uk (rd_key k)"] assms(2)
    by (simp add: sched_store)
  moreover have "sched 6 (key_words uk 6) 52 (expand192 sub_rot 0 0 (store_words 6 uk (rd_key k)))"
    using expand192_sched [of 0 _ "store_words 6 uk (rd_key k)"] assms(2)
    by (simp add: sched_store)
  moreover have "sched 8 (key_words uk 8) 60
      (expand256 sub_rot sub_plain 0 0 (store_words 8 uk (rd_key k)))"
    using expand256_sched [of 0 _ "store_words 8 uk (rd_key k)"] assms(2)
    by (simp add: sched_store)
  ultimately show ?thesis
    using assms(1)
    by (auto simp: AES_set_encrypt_key_def private_AES_set_encrypt_key_def
        set_encrypt_key_with_def nk_of_def sched_def)
qed

subsection \<open>The decryption schedule\<close>

lemma nth_swap_words:
  "i < length rk \<Longrightarrow> j < length rk \<Longrightarrow> k < length rk \<Longrightarrow>
   swap_words i j rk ! k = (if k = j then rk ! i else if k = i then rk ! j else rk ! k)"
  by (simp add: swap_words_def nth_list_update)

lemma length_swap_words [simp]: "length (swap_words i j rk) = length rk"
  by (simp add: swap_words_def Let_def)

lemma length_reverse_keys [simp]: "length (reverse_keys i j rk) = length rk"
proof (induction i j rk rule: reverse_keys.induct)
  case (1 i j rk)
  then show ?case by (subst reverse_keys.simps) simp
qed

text \<open>The four swaps of one turn exchange round keys \<open>a\<close> and \<open>b\<close>.\<close>

lemma block_index: "c < 4 \<Longrightarrow> d < 4 \<Longrightarrow> 4 * m + c = 4 * n + d \<longleftrightarrow> m = n \<and> c = (d :: nat)"
  by presburger

lemma block_index_Suc:
  "c < 4 \<Longrightarrow> 4 * m + c = 4 * n \<longleftrightarrow> m = n \<and> c = (0 :: nat)"
  "c < 4 \<Longrightarrow> 4 * m + c = Suc (4 * n) \<longleftrightarrow> m = n \<and> c = 1"
  by presburger+

definition swap_blocks :: "nat \<Rightarrow> nat \<Rightarrow> u32 list \<Rightarrow> u32 list" where
  "swap_blocks i j rk = swap_words (i + 3) (j + 3) (swap_words (i + 2) (j + 2)
     (swap_words (i + 1) (j + 1) (swap_words i j rk)))"

lemma nth_swap_blocks:
  assumes "a \<noteq> b" "4 * a + 3 < length rk" "4 * b + 3 < length rk" "4 * m + c < length rk" "c < 4"
  shows "swap_blocks (4 * a) (4 * b) rk ! (4 * m + c) =
    (if m = b then rk ! (4 * a + c) else if m = a then rk ! (4 * b + c) else rk ! (4 * m + c))"
proof -
  have "c = 0 \<or> c = 1 \<or> c = 2 \<or> c = 3" using assms(5) by auto
  then show ?thesis
    using assms(1-4) unfolding swap_blocks_def
    by (elim disjE) (simp_all add: nth_swap_words block_index block_index_Suc)
qed

lemma nth_reverse_keys:
  assumes "4 * b + 3 < length rk" "4 * m + c < length rk" "c < 4"
  shows "reverse_keys (4 * a) (4 * b) rk ! (4 * m + c) =
    (if a \<le> m \<and> m \<le> b then rk ! (4 * (a + b - m) + c) else rk ! (4 * m + c))"
  using assms
proof (induction "b - a" arbitrary: a b rk rule: less_induct)
  case less
  show ?case
  proof (cases "a < b")
    case True
    let ?rk = "swap_blocks (4 * a) (4 * b) rk"
    have "reverse_keys (4 * a) (4 * b) rk = reverse_keys (4 * Suc a) (4 * (b - 1)) ?rk"
      using True by (subst reverse_keys.simps) (simp add: swap_blocks_def diff_mult_distrib2 add.commute [of 4])
    also have "\<dots> ! (4 * m + c) =
        (if Suc a \<le> m \<and> m \<le> b - 1 then ?rk ! (4 * (Suc a + (b - 1) - m) + c) else ?rk ! (4 * m + c))"
      using True less.prems by (intro less.hyps) (auto simp: swap_blocks_def)
    finally have *: "reverse_keys (4 * a) (4 * b) rk ! (4 * m + c) =
        (if Suc a \<le> m \<and> m \<le> b - 1 then ?rk ! (4 * (Suc a + (b - 1) - m) + c)
         else ?rk ! (4 * m + c))" .
    have inner: "4 * (a + b - m) + c < length rk" if "a \<le> m" "m \<le> b"
      using that less.prems True by simp
    show ?thesis
      using True less.prems inner by (auto simp: * nth_swap_blocks)
  next
    case False
    then have "reverse_keys (4 * a) (4 * b) rk = rk"
      by (subst reverse_keys.simps) simp
    moreover have "a + b - m = m" if "a \<le> m" "m \<le> b" using that False by simp
    ultimately show ?thesis by simp
  qed
qed

lemma length_inv_mix_keys [simp]: "length (inv_mix_keys f i n p rk) = length rk"
proof (induction f i n p rk rule: inv_mix_keys.induct)
  case (1 f i n p rk)
  then show ?case by (subst inv_mix_keys.simps) (simp add: Let_def)
qed

definition mix_block :: "(u32 \<Rightarrow> u32) \<Rightarrow> nat \<Rightarrow> u32 list \<Rightarrow> u32 list" where
  "mix_block f p rk =
     (let rk = rk[p := f (rk ! p)];
          rk = rk[p + 1 := f (rk ! (p + 1))];
          rk = rk[p + 2 := f (rk ! (p + 2))]
      in rk[p + 3 := f (rk ! (p + 3))])"

lemma length_mix_block [simp]: "length (mix_block f p rk) = length rk"
  by (simp add: mix_block_def Let_def)

lemma nth_mix_block:
  assumes "4 * a + 3 < length rk" "4 * m + c < length rk" "c < 4"
  shows "mix_block f (4 * a) rk ! (4 * m + c) =
    (if m = a then f (rk ! (4 * m + c)) else rk ! (4 * m + c))"
proof -
  have "c = 0 \<or> c = 1 \<or> c = 2 \<or> c = 3" using assms(3) by auto
  then show ?thesis
    using assms(1,2) unfolding mix_block_def Let_def
    by (elim disjE) (auto simp add: nth_list_update)
qed

lemma inv_mix_keys_step:
  "i < n \<Longrightarrow> inv_mix_keys f i n p rk = inv_mix_keys f (Suc i) n (p + 4) (mix_block f (p + 4) rk)"
  by (subst inv_mix_keys.simps) (simp add: Let_def mix_block_def)

lemma nth_inv_mix_keys:
  assumes "4 * n < length rk + 1" "4 * m + c < length rk" "c < 4"
  shows "inv_mix_keys f (Suc a) n (4 * a) rk ! (4 * m + c) =
    (if a < m \<and> m < n then f (rk ! (4 * m + c)) else rk ! (4 * m + c))"
  using assms
proof (induction "n - a" arbitrary: a rk rule: less_induct)
  case less
  show ?case
  proof (cases "Suc a < n")
    case True
    let ?rk = "mix_block f (4 * Suc a) rk"
    have "inv_mix_keys f (Suc a) n (4 * a) rk = inv_mix_keys f (Suc (Suc a)) n (4 * Suc a) ?rk"
      using True by (subst inv_mix_keys_step) (simp_all add: add.commute [of 4])
    also have "\<dots> ! (4 * m + c) =
        (if Suc a < m \<and> m < n then f (?rk ! (4 * m + c)) else ?rk ! (4 * m + c))"
      using True less.prems by (intro less.hyps) auto
    also have "?rk ! (4 * m + c) = (if m = Suc a then f (rk ! (4 * m + c)) else rk ! (4 * m + c))"
      using True less.prems by (intro nth_mix_block) auto
    finally show ?thesis
      using True by auto
  next
    case False
    then show ?thesis
      by (subst inv_mix_keys.simps) auto
  qed
qed

lemma unat_mask_byte0: "unat (cat4 a b c d AND 0xff) = unat d"
  by (simp add: byte_index byte_simps)

lemma inv_mix_word_column: "column_of_word (inv_mix_word w) = inv_mix_column (column_of_word w)"
proof -
  have "inv_mix_word w =
      Td0_entry (byte3 w) XOR Td1_entry (byte2 w) XOR Td2_entry (byte1 w) XOR Td3_entry (byte0 w)"
    by (simp only: inv_mix_word_def byte_index Te_nth Te1_entry_def unat_mask_byte0 byte_cat4
        Td_nth inv_sbox_sbox)
  then show ?thesis
    by (simp add: table_entry_defs cat4_xor column_of_word_def byte_simps ac_simps)
qed

text \<open>The schedule that \<open>set_decrypt_key\<close> makes from \<open>k\<close> holds the keys of the inverse cipher.\<close>

definition to_decrypt :: "(u32 \<Rightarrow> u32) \<Rightarrow> AES_KEY \<Rightarrow> AES_KEY" where
  "to_decrypt f k =
     k\<lparr>rd_key := inv_mix_keys f 1 (rounds k) 0 (reverse_keys 0 (4 * rounds k) (rd_key k))\<rparr>"

lemma nth_to_decrypt:
  assumes "m \<le> rounds k" "c < 4" "4 * rounds k + 3 < length (rd_key k)"
  shows "rd_key (to_decrypt f k) ! (4 * m + c) =
    (if 0 < m \<and> m < rounds k then f (rd_key k ! (4 * (rounds k - m) + c))
     else rd_key k ! (4 * (rounds k - m) + c))"
proof -
  let ?rev = "reverse_keys (4 * 0) (4 * rounds k) (rd_key k)"
  have "rd_key (to_decrypt f k) ! (4 * m + c) = inv_mix_keys f (Suc 0) (rounds k) (4 * 0) ?rev ! (4 * m + c)"
    by (simp add: to_decrypt_def)
  also have "\<dots> = (if 0 < m \<and> m < rounds k then f (?rev ! (4 * m + c)) else ?rev ! (4 * m + c))"
    using assms by (intro nth_inv_mix_keys) auto
  also have "?rev ! (4 * m + c) =
      (if 0 \<le> m \<and> m \<le> rounds k then rd_key k ! (4 * (0 + rounds k - m) + c)
       else rd_key k ! (4 * m + c))"
    using assms by (intro nth_reverse_keys) auto
  finally show ?thesis
    using assms(1) by simp
qed

lemma key_at_to_decrypt:
  assumes "m \<le> rounds k" "4 * rounds k + 3 < length (rd_key k)"
  shows "key_at (rd_key (to_decrypt inv_mix_word k)) (4 * m) =
    (if 0 < m \<and> m < rounds k
     then inv_mix_columns (key_at (rd_key k) (4 * (rounds k - m)))
     else key_at (rd_key k) (4 * (rounds k - m)))"
  using nth_to_decrypt [OF assms(1) _ assms(2), of 0] nth_to_decrypt [OF assms(1) _ assms(2), of 1]
    nth_to_decrypt [OF assms(1) _ assms(2), of 2] nth_to_decrypt [OF assms(1) _ assms(2), of 3]
  by (simp add: key_at_def inv_mix_columns_def inv_mix_word_column)

lemma key_states_to_decrypt:
  assumes "0 < rounds k" "4 * rounds k + 3 < length (rd_key k)"
  shows "key_states (to_decrypt inv_mix_word k) = dec_keys (key_states k)"
proof -
  obtain n where n: "rounds k = Suc n" using assms(1) by (cases "rounds k") auto
  have r: "rounds (to_decrypt inv_mix_word k) = Suc n" by (simp add: to_decrypt_def n)
  have "dec_keys (key_states k) =
      key_at (rd_key k) (4 * Suc n) # map inv_mix_columns (rev (keys_from (rd_key k) 4 n)) @
      [key_at (rd_key k) 0]"
    by (simp only: dec_keys_def key_states_parts [OF n])
  moreover have "keys_from (rd_key (to_decrypt inv_mix_word k)) 0 (Suc n + 1) = \<dots>"
  proof (rule nth_equalityI)
    fix m assume "m < length (keys_from (rd_key (to_decrypt inv_mix_word k)) 0 (Suc n + 1))"
    then have m: "m < Suc (Suc n)" by (simp del: keys_from.simps)
    then have "keys_from (rd_key (to_decrypt inv_mix_word k)) 0 (Suc n + 1) ! m =
        key_at (rd_key (to_decrypt inv_mix_word k)) (4 * m)"
      by (simp del: keys_from.simps)
    also have "\<dots> = (key_at (rd_key k) (4 * Suc n) #
        map inv_mix_columns (rev (keys_from (rd_key k) 4 n)) @ [key_at (rd_key k) 0]) ! m"
      using m key_at_to_decrypt [of m k] assms(2) n
      by (auto simp: nth_Cons' nth_append rev_nth diff_mult_distrib2 less_Suc_eq)
    finally show "keys_from (rd_key (to_decrypt inv_mix_word k)) 0 (Suc n + 1) ! m = \<dots>" .
  qed simp
  ultimately show ?thesis
    by (simp only: key_states_def r)
qed

text \<open>What \<open>set_decrypt_key\<close> returns, in terms of what \<open>set_encrypt_key\<close> returns.\<close>

lemma set_decrypt_key_eq:
  assumes "AES_set_encrypt_key (Some uk) bits (Some k) = (0, Some ek)"
  shows "AES_set_decrypt_key (Some uk) bits (Some k) = (0, Some (to_decrypt inv_mix_word ek))"
  using assms
  by (simp add: AES_set_decrypt_key_def private_AES_set_decrypt_key_def set_decrypt_key_with_def
      to_decrypt_def AES_set_encrypt_key_def)

lemma decrypt_encrypt_schedule:
  assumes "even (rounds k)" "0 < rounds k" "4 * rounds k + 3 < length (rd_key k)" "length b = 16"
  shows "AES_decrypt (AES_encrypt b k) (to_decrypt inv_mix_word k) = b"
proof -
  have "rounds (to_decrypt inv_mix_word k) = rounds k" by (simp add: to_decrypt_def)
  then show ?thesis
    using assms by (simp add: AES_encrypt_cipher AES_decrypt_cipher key_states_to_decrypt
        eq_inv_cipher_cipher)
qed

theorem decrypt_encrypt:
  assumes "bits \<in> {128, 192, 256}" and "length (rd_key k) = 60" and "length b = 16"
    and "AES_set_encrypt_key (Some uk) bits (Some k) = (0, Some ek)"
    and "AES_set_decrypt_key (Some uk) bits (Some k) = (0, Some dk)"
  shows "AES_decrypt (AES_encrypt b ek) dk = b"
proof -
  have "rounds ek \<in> {10, 12, 14}" "length (rd_key ek) = 60"
    using set_encrypt_key_expansion [OF assms(1,2), of uk] assms(1,4) by (auto simp: nk_of_def)
  moreover have "dk = to_decrypt inv_mix_word ek"
    using set_decrypt_key_eq [OF assms(4)] assms(5) by simp
  ultimately show ?thesis
    using decrypt_encrypt_schedule [of ek b] assms(3) by auto
qed

subsection \<open>FIPS-197 from the bytes of the key\<close>

text \<open>The round keys of the standard: the expanded words, four at a time.\<close>

definition fips_round_keys :: "nat \<Rightarrow> u8 list \<Rightarrow> aes_state list" where
  "fips_round_keys nk key =
     keys_from (expand_upto nk (4 * (nk + 7) - nk) (key_words key nk)) 0 (nk + 7)"

definition fips_encrypt :: "nat \<Rightarrow> u8 list \<Rightarrow> u8 list \<Rightarrow> u8 list" where
  "fips_encrypt nk key b = state_bytes (cipher (fips_round_keys nk key) (bytes_state b))"

lemma keys_from_take: "p + 4 * n \<le> m \<Longrightarrow> keys_from (take m rk) p n = keys_from rk p n"
  by (induction n arbitrary: p) (simp_all add: key_at_def)

lemma nk_of_values: "bits \<in> {128, 192, 256} \<Longrightarrow> nk_of bits \<in> {4, 6, 8}"
  by (auto simp: nk_of_def)

lemma key_states_schedule:
  assumes "bits \<in> {128, 192, 256}" "length (rd_key k) = 60"
    and "AES_set_encrypt_key (Some uk) bits (Some k) = (0, Some ek)"
  shows "key_states ek = fips_round_keys (nk_of bits) uk" "rounds ek = nk_of bits + 6"
proof -
  have r: "rounds ek = nk_of bits + 6" and t: "take (4 * (rounds ek + 1)) (rd_key ek) =
      expand_upto (nk_of bits) (4 * (nk_of bits + 7) - nk_of bits) (key_words uk (nk_of bits))"
    using set_encrypt_key_expansion [OF assms(1,2), of uk] assms(3) by auto
  have "4 * (rounds ek + 1) = 4 * (nk_of bits + 7)" by (simp add: r)
  with t have "keys_from (take (4 * (nk_of bits + 7)) (rd_key ek)) 0 (nk_of bits + 7) =
      fips_round_keys (nk_of bits) uk"
    by (simp only: fips_round_keys_def)
  then show "key_states ek = fips_round_keys (nk_of bits) uk" "rounds ek = nk_of bits + 6"
    using keys_from_take [of 0 "nk_of bits + 7" "4 * (nk_of bits + 7)" "rd_key ek"]
    by (simp_all add: key_states_def r add.commute [of _ 7] del: keys_from.simps)
qed

end
