(* ===== verification/Aes_Asm.thy ===== *)
theory Aes_Asm
  imports Aes_Keys
begin

text \<open>
  The \<open>AES_ASM\<close> branch of \<open>aes_core.c\<close> computes the same key schedules as the portable branch: its
  byte table \<open>Te4\<close> gives the same S-box steps as the masked look-ups, and its word-parallel
  doubling (\<open>double4\<close>, four bytes at a time with the carries cut by \<open>0x7f7f7f7f\<close>) gives the same
  inverse MixColumns as the \<open>Td\<close> tables.
\<close>

lemma and_cat4:
  "cat4 a b c d AND cat4 a' b' c' d' = cat4 (a AND a') (b AND b') (c AND c') (d AND d')"
  by (rule bit_word_eqI) (auto simp: bit_cat4 bit_simps)

lemma mask_words:
  "(0x80808080 :: u32) = cat4 0x80 0x80 0x80 0x80" "(0x7f7f7f7f :: u32) = cat4 0x7f 0x7f 0x7f 0x7f"
  "(0x1b1b1b1b :: u32) = cat4 0x1b 0x1b 0x1b 0x1b"
  by (simp_all add: cat4_def)

lemma top_bit: "x AND 0x80 = (if bit x 7 then 0x80 else (0 :: u8))"
proof -
  have m: "(0x80 :: u8) = push_bit 7 1" by simp
  have top: "7 \<le> n \<longleftrightarrow> n = 7" if "n < 8" for n :: nat using that by auto
  show ?thesis
    unfolding m
    by (rule bit_word_eqI) (auto simp: bit_simps top simp del: push_bit_of_1 push_bit_numeral)
qed

lemma push_bit_cat4:
  "push_bit 1 (cat4 (a AND 0x7f) (b AND 0x7f) (c AND 0x7f) (d AND 0x7f)) =
   cat4 (push_bit 1 a) (push_bit 1 b) (push_bit 1 c) (push_bit 1 d)"
proof -
  have m: "(0x7f :: u8) = mask 7" by (simp add: mask_eq_exp_minus_1)
  have split: "n - Suc 0 < k \<longleftrightarrow> n \<le> k" "n - Suc 0 - k = n - k - 1" if "1 \<le> n" "1 \<le> k" for n k :: nat
    using that by auto
  show ?thesis
    unfolding m
    by (rule bit_word_eqI)
      (auto simp: bit_cat4 bit_push_bit_iff bit_and_iff bit_mask_iff split
        simp del: push_bit_Suc push_bit_of_1 dest: bit_imp_le_length)
qed

text \<open>\<open>(m - (m >> 7)) & 0x1b1b1b1b\<close> for a word \<open>m\<close> of top bits: each byte is 0x1b or 0.\<close>

lemma carry_word:
  "(let m = cat4 (if a then 0x80 else 0) (if b then 0x80 else 0) (if c then 0x80 else 0)
      (if d then 0x80 else 0)
    in (m - drop_bit 7 m) AND 0x1b1b1b1b) =
   cat4 (if a then 0x1b else 0) (if b then 0x1b else 0) (if c then 0x1b else 0)
     (if d then 0x1b else 0)"
  by (cases a; cases b; cases c; cases d) (simp_all add: cat4_def)

lemma double4_cat4: "double4 (cat4 a b c d) = cat4 (xtime a) (xtime b) (xtime c) (xtime d)"
proof -
  have "double4 (cat4 a b c d) =
      cat4 (push_bit 1 a) (push_bit 1 b) (push_bit 1 c) (push_bit 1 d) XOR
      cat4 (if bit a 7 then 0x1b else 0) (if bit b 7 then 0x1b else 0)
        (if bit c 7 then 0x1b else 0) (if bit d 7 then 0x1b else 0)"
    unfolding double4_def mask_words(1,2) and_cat4 push_bit_cat4 top_bit
    by (simp only: Let_def carry_word [unfolded Let_def])
  then show ?thesis by (simp only: cat4_xor xtime_def)
qed

lemma ROTATE_cat4:
  "ROTATE (cat4 a b c d) 8 = cat4 b c d a"
  "ROTATE (cat4 a b c d) 16 = cat4 c d a b"
  "ROTATE (cat4 a b c d) 24 = cat4 d a b c"
proof -
  have r: "bit (ROTATE (cat4 a b c d) k) n \<longleftrightarrow>
      (if k \<le> n then bit (cat4 a b c d) (n - k) else bit (cat4 a b c d) (n + (32 - k)))"
    if "n < 32" "0 < k" "k < 32" for n k
    using that by (auto simp: ROTATE_def bit_simps add.commute dest: bit_imp_le_length)
  have sub: "n - i < j \<longleftrightarrow> n < i + j" if "i \<le> n" for n i j :: nat using that by auto
  show "ROTATE (cat4 a b c d) 8 = cat4 b c d a"
    by (rule bit_word_eqI) (auto simp: r bit_cat4 sub)
  show "ROTATE (cat4 a b c d) 16 = cat4 c d a b"
    by (rule bit_word_eqI) (auto simp: r bit_cat4 sub)
  show "ROTATE (cat4 a b c d) 24 = cat4 d a b c"
    by (rule bit_word_eqI) (auto simp: r bit_cat4 sub)
qed

lemma asm_inv_mix_word_column:
  "column_of_word (asm_inv_mix_word w) = inv_mix_column (column_of_word w)"
proof -
  obtain a b c d where w: "w = cat4 a b c d" by (rule cat4_cases)
  show ?thesis
    unfolding w
    by (simp add: asm_inv_mix_word_def Let_def double4_cat4 cat4_xor ROTATE_cat4 column_of_word_def
        byte_simps gmul_small xor_cancels)
qed

lemma column_of_word_inject: "column_of_word v = column_of_word w \<longleftrightarrow> v = w"
proof
  assume "column_of_word v = column_of_word w"
  then have "cat4 (byte3 v) (byte2 v) (byte1 v) (byte0 v) =
      cat4 (byte3 w) (byte2 w) (byte1 w) (byte0 w)"
    by (simp add: column_of_word_def)
  then show "v = w" by (simp only: cat4_byte)
qed simp

lemma asm_inv_mix_word_eq: "asm_inv_mix_word = inv_mix_word"
proof
  fix w show "asm_inv_mix_word w = inv_mix_word w"
    by (simp only: column_of_word_inject [symmetric] asm_inv_mix_word_column inv_mix_word_column)
qed

lemma asm_set_encrypt_key_eq: "asm_set_encrypt_key = private_AES_set_encrypt_key"
  by (simp add: asm_set_encrypt_key_def private_AES_set_encrypt_key_def asm_branch_steps)

lemma asm_set_decrypt_key_eq: "asm_set_decrypt_key = private_AES_set_decrypt_key"
  by (simp add: asm_set_decrypt_key_def private_AES_set_decrypt_key_def asm_set_encrypt_key_eq
      asm_inv_mix_word_eq)

end
