(* ===== verification/Ctr128.thy ===== *)
theory Ctr128
  imports Prelude
begin

text \<open>
  \<open>src/jni/openssl/crypto/modes/ctr128.c\<close>: counter mode over a 128-bit block function, with the
  state that a caller carries from call to call: the counter \<open>ivec\<close>, the encrypted counter
  \<open>ecount_buf\<close> and the number \<open>num\<close> of its bytes already used.

  A buffer is the list of its bytes; the \<open>len\<close> input bytes are the list \<open>inp\<close>, and a function
  returns the \<open>len\<close> output bytes with the new state (in and out may be the same buffer: every
  output byte depends on the input byte it replaces and on the state only).  The block function
  with its key is an argument, as it is in the code.  \<open>sizeof(size_t)\<close> is 4, that of the 32-bit
  targets the library is built for.

  \<open>CRYPTO_ctr128_encrypt\<close> is the word-at-a-time path, \<open>ctr128_bytes\<close> the byte-at-a-time loop below
  it; the first lemma group shows that they agree, the second that the output is the input masked
  by the encryptions of successive counters.
\<close>

record ctr_state =
  ivec :: "u8 list"
  ecount_buf :: "u8 list"
  num :: nat

subsection \<open>Counters\<close>

text \<open>The \<open>do ... while (n)\<close> loop of \<open>ctr128_inc\<close> and \<open>ctr96_inc\<close>, entered with \<open>n\<close>.\<close>

fun inc_from :: "nat \<Rightarrow> u8 list \<Rightarrow> u8 list" where
  "inc_from 0 counter = counter"
| "inc_from (Suc n) counter =
     (let c = counter ! n + 1; counter = counter[n := c]
      in if c \<noteq> 0 then counter else inc_from n counter)"

definition ctr128_inc :: "u8 list \<Rightarrow> u8 list" where
  "ctr128_inc counter = inc_from 16 counter"

definition ctr96_inc :: "u8 list \<Rightarrow> u8 list" where
  "ctr96_inc counter = inc_from 12 counter"

text \<open>The big-endian branch of \<open>ctr128_inc_aligned\<close>: the same loop over the four words that the
  sixteen bytes are on such a machine.\<close>

definition word_at :: "u8 list \<Rightarrow> nat \<Rightarrow> u32" where
  "word_at b n = cat4 (b ! n) (b ! (n + 1)) (b ! (n + 2)) (b ! (n + 3))"

fun inc_words_from :: "nat \<Rightarrow> u8 list \<Rightarrow> u8 list" where
  "inc_words_from 0 counter = counter"
| "inc_words_from (Suc n) counter =
     (let c = word_at counter (4 * n) + 1; counter = write_at counter (4 * n) (be32 c)
      in if c \<noteq> 0 then counter else inc_words_from n counter)"

definition ctr128_inc_aligned :: "bool \<Rightarrow> u8 list \<Rightarrow> u8 list" where
  "ctr128_inc_aligned is_endian_little counter =
     (if is_endian_little then ctr128_inc counter else inc_words_from 4 counter)"

subsection \<open>Encryption\<close>

text \<open>\<open>while (n && len)\<close>: the output, what is left of the input, and \<open>n\<close>.\<close>

fun ctr_lead :: "u8 list \<Rightarrow> nat \<Rightarrow> u8 list \<Rightarrow> u8 list \<times> u8 list \<times> nat" where
  "ctr_lead ecount n [] = ([], [], n)"
| "ctr_lead ecount n (b # inp) =
     (if n = 0 then ([], b # inp, n)
      else case ctr_lead ecount ((n + 1) mod 16) inp of
        (out, rest, n') \<Rightarrow> ((b XOR ecount ! n) # out, rest, n'))"

text \<open>\<open>for (; n < 16; n += sizeof(size_t))\<close>: one block, word by word.\<close>

function xor_words :: "nat \<Rightarrow> u8 list \<Rightarrow> u8 list \<Rightarrow> u8 list" where
  "xor_words n inp ecount =
     (if n < 16
      then xor_bytes (take 4 (drop n inp)) (take 4 (drop n ecount)) @ xor_words (n + 4) inp ecount
      else [])"
  by pat_completeness auto
termination by (relation "measure (\<lambda>(n, inp, ecount). 16 - n)") auto

declare xor_words.simps [simp del]

text \<open>\<open>while (len >= 16)\<close>.\<close>

function ctr_blocks :: "bool \<Rightarrow> (u8 list \<Rightarrow> u8 list) \<Rightarrow> ctr_state \<Rightarrow> u8 list \<Rightarrow>
    u8 list \<times> u8 list \<times> ctr_state" where
  "ctr_blocks little block st inp =
     (if length inp \<ge> 16 then
        let ec = block (ivec st);
            iv = ctr128_inc_aligned little (ivec st);
            out = xor_words (num st) inp ec
        in case ctr_blocks little block \<lparr>ivec = iv, ecount_buf = ec, num = 0\<rparr> (drop 16 inp) of
             (out', rest, st') \<Rightarrow> (out @ out', rest, st')
      else ([], inp, st))"
  by pat_completeness auto
termination by (relation "measure (\<lambda>(little, block, st, inp). length inp)") auto

declare ctr_blocks.simps [simp del]

text \<open>\<open>while (len--)\<close>: the last, partial block.\<close>

fun ctr_tail :: "u8 list \<Rightarrow> nat \<Rightarrow> u8 list \<Rightarrow> u8 list \<times> nat" where
  "ctr_tail ecount n [] = ([], n)"
| "ctr_tail ecount n (b # inp) =
     (case ctr_tail ecount (n + 1) inp of (out, n') \<Rightarrow> ((b XOR ecount ! n) # out, n'))"

definition CRYPTO_ctr128_encrypt ::
  "bool \<Rightarrow> (u8 list \<Rightarrow> u8 list) \<Rightarrow> ctr_state \<Rightarrow> u8 list \<Rightarrow> u8 list \<times> ctr_state" where
  "CRYPTO_ctr128_encrypt little block st inp =
     (case ctr_lead (ecount_buf st) (num st) inp of (out1, inp1, n1) \<Rightarrow>
      case ctr_blocks little block (st\<lparr>num := n1\<rparr>) inp1 of (out2, inp2, st2) \<Rightarrow>
        if inp2 \<noteq> [] then
          let ec = block (ivec st2);
              iv = ctr128_inc_aligned little (ivec st2)
          in case ctr_tail ec (num st2) inp2 of (out3, n3) \<Rightarrow>
               (out1 @ out2 @ out3, \<lparr>ivec = iv, ecount_buf = ec, num = n3\<rparr>)
        else (out1 @ out2, st2))"

text \<open>The loop that follows, the only one under \<open>OPENSSL_SMALL_FOOTPRINT\<close>.\<close>

fun ctr128_bytes ::
  "(u8 list \<Rightarrow> u8 list) \<Rightarrow> ctr_state \<Rightarrow> u8 list \<Rightarrow> u8 list \<times> ctr_state" where
  "ctr128_bytes block st [] = ([], st)"
| "ctr128_bytes block st (b # inp) =
     (let st = (if num st = 0 then st\<lparr>ecount_buf := block (ivec st), ivec := ctr128_inc (ivec st)\<rparr>
                else st)
      in case ctr128_bytes block (st\<lparr>num := (num st + 1) mod 16\<rparr>) inp of
           (out, st') \<Rightarrow> ((b XOR ecount_buf st ! num st) # out, st'))"

subsection \<open>Encryption through a 32-bit counter function\<close>

text \<open>\<open>CRYPTO_ctr128_encrypt_ctr32\<close>: the argument \<open>func inp blocks ivec\<close> encrypts whole blocks and
  counts in the last four bytes of \<open>ivec\<close> only.  \<open>PUTU32 (ivec + 12, ctr32)\<close> and the carry that
  follows it are \<open>put_ctr32\<close>.\<close>

definition put_ctr32 :: "u32 \<Rightarrow> u8 list \<Rightarrow> u8 list" where
  "put_ctr32 ctr32 iv =
     (let iv = write_at iv 12 (be32 ctr32) in if ctr32 = 0 then ctr96_inc iv else iv)"

definition ctr32_step :: "bool \<Rightarrow> nat \<Rightarrow> u32 \<Rightarrow> nat \<times> u32" where
  "ctr32_step wide_size len ctr32 =
     (let blocks = len div 16;
          blocks = (if wide_size \<and> blocks > 2 ^ 28 then 2 ^ 28 else blocks);
          ctr32 = ctr32 + of_nat blocks
      in if unat ctr32 < blocks then (blocks - unat ctr32, 0) else (blocks, ctr32))"

lemma ctr32_step_bounds:
  assumes "16 \<le> len" "ctr32_step wide len ctr32 = (blocks, ctr32')"
  shows "0 < blocks" "16 * blocks \<le> len"
proof -
  let ?b = "if wide \<and> len div 16 > 2 ^ 28 then 2 ^ 28 else len div 16"
  have "0 < ?b" "?b \<le> len div 16" using assms(1) by auto
  moreover have "0 < blocks" "blocks \<le> ?b"
    using assms(2) calculation by (auto simp: ctr32_step_def Let_def split: if_splits)
  ultimately show "0 < blocks" "16 * blocks \<le> len" by linarith+
qed

lemma ctr32_step_less:
  "16 \<le> len \<Longrightarrow> (blocks, ctr32') = ctr32_step wide len ctr32 \<Longrightarrow> len - 16 * blocks < len"
  using ctr32_step_bounds [of len wide ctr32 blocks ctr32'] by auto

function ctr32_blocks ::
  "bool \<Rightarrow> (u8 list \<Rightarrow> nat \<Rightarrow> u8 list \<Rightarrow> u8 list) \<Rightarrow> u32 \<Rightarrow> u8 list \<Rightarrow> u8 list \<Rightarrow>
   u8 list \<times> u8 list \<times> u32 \<times> u8 list" where
  "ctr32_blocks wide func ctr32 iv inp =
     (if length inp \<ge> 16 then
        case ctr32_step wide (length inp) ctr32 of (blocks, ctr32) \<Rightarrow>
          let out = func (take (16 * blocks) inp) blocks iv;
              iv = put_ctr32 ctr32 iv
          in case ctr32_blocks wide func ctr32 iv (drop (16 * blocks) inp) of
               (out', rest, ctr32', iv') \<Rightarrow> (out @ out', rest, ctr32', iv')
      else ([], inp, ctr32, iv))"
  by pat_completeness auto
termination
  by (relation "measure (\<lambda>(wide, func, ctr32, iv, inp). length inp)")
    (simp_all add: ctr32_step_less)

declare ctr32_blocks.simps [simp del]

definition CRYPTO_ctr128_encrypt_ctr32 ::
  "bool \<Rightarrow> (u8 list \<Rightarrow> nat \<Rightarrow> u8 list \<Rightarrow> u8 list) \<Rightarrow> ctr_state \<Rightarrow> u8 list \<Rightarrow> u8 list \<times> ctr_state"
  where
  "CRYPTO_ctr128_encrypt_ctr32 wide func st inp =
     (case ctr_lead (ecount_buf st) (num st) inp of (out1, inp1, n) \<Rightarrow>
      case ctr32_blocks wide func (word_at (ivec st) 12) (ivec st) inp1 of (out2, inp2, ctr32, iv) \<Rightarrow>
        if inp2 \<noteq> [] then
          let ec = func (replicate 16 0) 1 iv;
              iv = put_ctr32 (ctr32 + 1) iv
          in case ctr_tail ec n inp2 of (out3, n3) \<Rightarrow>
               (out1 @ out2 @ out3, \<lparr>ivec = iv, ecount_buf = ec, num = n3\<rparr>)
        else (out1 @ out2, st\<lparr>ivec := iv, num := n\<rparr>))"

subsection \<open>The counter as a number\<close>

definition be_val :: "u8 list \<Rightarrow> nat" where
  "be_val bs = foldl (\<lambda>v b. 256 * v + unat b) 0 bs"

lemma be_val_Nil [simp]: "be_val [] = 0"
  by (simp add: be_val_def)

lemma be_val_snoc [simp]: "be_val (bs @ [b]) = 256 * be_val bs + unat b"
  by (simp add: be_val_def)

lemma be_val_append: "be_val (xs @ ys) = be_val xs * 256 ^ length ys + be_val ys"
proof (induction ys rule: rev_induct)
  case (snoc y ys)
  have "be_val (xs @ ys @ [y]) = 256 * be_val (xs @ ys) + unat y"
    using be_val_snoc [of "xs @ ys" y] by simp
  with snoc show ?case by (simp add: algebra_simps)
qed simp

lemma be_val_be32 [simp]: "be_val (be32 w) = unat w"
proof -
  obtain a b c d where w: "w = cat4 a b c d" by (rule cat4_cases)
  show ?thesis
    unfolding w be32_cat4 unat_cat4 by (simp add: be_val_def)
qed

lemma be_val_less: "be_val bs < 256 ^ length bs"
proof (induction bs rule: rev_induct)
  case (snoc b bs)
  then have "be_val bs + 1 \<le> 256 ^ length bs" by simp
  then have "256 * be_val bs + 256 \<le> 256 * 256 ^ length bs" by linarith
  with unat_u8_less [of b] have "256 * be_val bs + unat b < 256 * 256 ^ length bs" by linarith
  then show ?case by simp
qed simp

lemma radix_inject:
  assumes "b < 256" "b' < 256"
  shows "256 * a + b = 256 * a' + b' \<longleftrightarrow> a = a' \<and> b = (b' :: nat)"
proof
  assume eq: "256 * a + b = 256 * a' + b'"
  then have "(256 * a + b) div 256 = (256 * a' + b') div 256" by simp
  with assms have "a = a'" by simp
  with eq show "a = a' \<and> b = b'" by simp
qed simp

lemma be_val_inject: "length xs = length ys \<Longrightarrow> be_val xs = be_val ys \<longleftrightarrow> xs = ys"
proof (induction xs arbitrary: ys rule: rev_induct)
  case (snoc x xs)
  then obtain ys' y where ys: "ys = ys' @ [y]" "length xs = length ys'"
    by (cases ys rule: rev_cases) auto
  have "be_val (xs @ [x]) = be_val (ys' @ [y]) \<longleftrightarrow> be_val xs = be_val ys' \<and> unat x = unat y"
    unfolding be_val_snoc by (intro radix_inject unat_u8_less)
  then show ?case
    using snoc.IH [OF ys(2)] by (simp add: ys(1) word_unat_eq_iff [of x] del: be_val_snoc)
qed simp

lemma length_inc_from [simp]: "length (inc_from n c) = length c"
  by (induction n arbitrary: c) (simp_all add: Let_def)

lemma inc_from_append: "n \<le> length c \<Longrightarrow> inc_from n (c @ d) = inc_from n c @ d"
  by (induction n arbitrary: c) (simp_all add: Let_def nth_append list_update_append1)

lemma unat_inc_u8: "b + 1 \<noteq> 0 \<Longrightarrow> unat (b + 1 :: u8) = unat b + 1"
  using unatSuc [of b] by (simp add: add.commute)

lemma be_val_inc: "be_val (inc_from (length c) c) = (be_val c + 1) mod 256 ^ length c"
proof (induction c rule: rev_induct)
  case (snoc b c)
  show ?case
  proof (cases "b + 1 = 0")
    case True
    then have "b = -1" by (simp only: eq_neg_iff_add_eq_0)
    then have "b = 255" by simp
    then have "unat b = 255" by simp
    then show ?thesis
      using True snoc.IH by (simp add: Let_def inc_from_append mult_mod_right)
  next
    case False
    then show ?thesis
      using be_val_less [of "c @ [b + 1]"] by (simp add: Let_def unat_inc_u8)
  qed
qed simp

subsection \<open>The word-at-a-time path is the byte-at-a-time loop\<close>

lemma ctr128_bytes_append:
  "ctr128_bytes block st (xs @ ys) =
     (case ctr128_bytes block st xs of (out, st1) \<Rightarrow>
      case ctr128_bytes block st1 ys of (out', st2) \<Rightarrow> (out @ out', st2))"
  by (induction block st xs rule: ctr128_bytes.induct) (simp_all add: Let_def split: prod.splits)

text \<open>Inside a block the masked bytes come from \<open>ecount_buf\<close>, and only \<open>num\<close> moves.\<close>

lemma ctr128_bytes_within:
  assumes "0 < num st" "num st < 16" "num st + length inp \<le> 16" "length (ecount_buf st) = 16"
  shows "ctr128_bytes block st inp =
    (xor_bytes inp (drop (num st) (ecount_buf st)), st\<lparr>num := (num st + length inp) mod 16\<rparr>)"
  using assms
proof (induction inp arbitrary: st)
  case Nil
  then show ?case by simp
next
  case (Cons b inp)
  have d: "drop (num st) (ecount_buf st) = ecount_buf st ! num st # drop (Suc (num st)) (ecount_buf st)"
    using Cons.prems by (simp add: Cons_nth_drop_Suc)
  show ?case
  proof (cases "inp = []")
    case True
    then show ?thesis using Cons.prems d by simp
  next
    case False
    then have "length inp > 0" by simp
    then have "num st + 1 < 16" using Cons.prems(3) unfolding list.size by linarith
    then have m: "(num st + 1) mod 16 = Suc (num st)" by simp
    show ?thesis
      using Cons.IH [of "st\<lparr>num := Suc (num st)\<rparr>"] Cons.prems d m by simp
  qed
qed

lemma ctr128_bytes_start:
  assumes "num st = 0" "inp \<noteq> []" "length inp \<le> 16" "length (block (ivec st)) = 16"
  shows "ctr128_bytes block st inp =
    (xor_bytes inp (block (ivec st)),
     \<lparr>ivec = ctr128_inc (ivec st), ecount_buf = block (ivec st), num = length inp mod 16\<rparr>)"
proof -
  obtain b inp' where inp: "inp = b # inp'" using assms(2) by (cases inp) auto
  obtain k ks where ks: "block (ivec st) = k # ks" using assms(4) by (cases "block (ivec st)") auto
  let ?st = "\<lparr>ivec = ctr128_inc (ivec st), ecount_buf = block (ivec st), num = 1\<rparr>"
  have "ctr128_bytes block ?st inp' =
      (xor_bytes inp' ks, ?st\<lparr>num := (1 + length inp') mod 16\<rparr>)"
    using ctr128_bytes_within [of ?st inp' block] assms inp ks by simp
  then show ?thesis
    using assms(1) inp ks by (cases st) simp
qed

lemma xor_words_block:
  "length inp \<ge> 16 \<Longrightarrow> length ec = 16 \<Longrightarrow> xor_words 0 inp ec = xor_bytes (take 16 inp) ec"
proof -
  assume len: "length inp \<ge> 16" "length ec = 16"
  have "xor_words n inp ec = xor_bytes (drop n (take 16 inp)) (drop n ec)"
    if "n \<in> {0, 4, 8, 12, 16}" for n
    using that len
  proof (induction n inp ec rule: xor_words.induct)
    case (1 n inp ec)
    show ?case
    proof (cases "n < 16")
      case True
      have split: "drop n zs = take 4 (drop n zs) @ drop (n + 4) zs" for zs :: "u8 list"
        by (metis append_take_drop_id drop_drop add.commute)
      have "xor_bytes (drop n (take 16 inp)) (drop n ec) =
          xor_bytes (take 4 (drop n (take 16 inp))) (take 4 (drop n ec)) @
          xor_bytes (drop (n + 4) (take 16 inp)) (drop (n + 4) ec)"
        using 1(2-) True
        by (subst split [of "take 16 inp"], subst split [of ec], subst xor_bytes_append) auto
      moreover have "take 4 (drop n (take 16 inp)) = take 4 (drop n inp)"
        using 1(2) True by (auto simp: take_drop)
      ultimately show ?thesis
        using 1 True by (subst xor_words.simps) auto
    next
      case False
      then show ?thesis using 1(2-) by (subst xor_words.simps) auto
    qed
  qed
  from this [of 0] show ?thesis by simp
qed

lemma ctr_tail_xor:
  "n + length inp \<le> length ec \<Longrightarrow> ctr_tail ec n inp = (xor_bytes inp (drop n ec), n + length inp)"
proof (induction inp arbitrary: n)
  case (Cons b inp)
  then have "drop n ec = ec ! n # drop (Suc n) ec" by (simp add: Cons_nth_drop_Suc)
  with Cons show ?case by simp
qed simp

lemma ctr_lead_stops:
  "ctr_lead ec n inp = (out, rest, n') \<Longrightarrow> n < 16 \<Longrightarrow> (rest = [] \<or> n' = 0) \<and> n' < 16"
  by (induction inp arbitrary: n out) (auto split: if_splits prod.splits)

lemma ctr_lead_length: "ctr_lead ec n inp = (out, rest, n') \<Longrightarrow> length rest \<le> length inp"
  by (induction inp arbitrary: n out) (auto split: if_splits prod.splits intro: le_SucI)

lemma num_update_same: "num st = n \<Longrightarrow> st\<lparr>num := n\<rparr> = (st :: ctr_state)"
  by (cases st) simp

lemma ctr_lead_bytes:
  "ctr_lead (ecount_buf st) (num st) inp = (out, rest, n) \<Longrightarrow>
   ctr128_bytes block st inp =
      (case ctr128_bytes block (st\<lparr>num := n\<rparr>) rest of (out', st') \<Rightarrow> (out @ out', st'))"
proof (induction inp arbitrary: st out)
  case (Cons b inp)
  show ?case
  proof (cases "num st = 0")
    case True
    then show ?thesis
      using Cons.prems by (auto simp del: ctr128_bytes.simps simp: num_update_same split: prod.splits)
  next
    case False
    then obtain out1 where
      "ctr_lead (ecount_buf st) ((num st + 1) mod 16) inp = (out1, rest, n)"
      and "out = (b XOR ecount_buf st ! num st) # out1"
      using Cons.prems by (auto split: prod.splits)
    then show ?thesis
      using Cons.IH [of "st\<lparr>num := (num st + 1) mod 16\<rparr>" out1] False
      by (simp split: prod.splits)
  qed
qed simp

text \<open>A block function in the sense of the mode: blocks of sixteen bytes to blocks of sixteen bytes.\<close>

locale block_cipher =
  fixes block :: "u8 list \<Rightarrow> u8 list"
  assumes length_block: "length iv = 16 \<Longrightarrow> length (block iv) = 16"
begin

lemma ctr_blocks_bytes:
  "ctr_blocks True block st inp = (out, rest, st') \<Longrightarrow> num st = 0 \<Longrightarrow> length (ivec st) = 16 \<Longrightarrow>
   ctr128_bytes block st inp =
      (case ctr128_bytes block st' rest of (out', st'') \<Rightarrow> (out @ out', st'')) \<and>
   length rest < 16 \<and> num st' = 0 \<and> length (ivec st') = 16"
proof (induction "length inp" arbitrary: st inp out rule: less_induct)
  case less
  show ?case
  proof (cases "length inp \<ge> 16")
    case True
    let ?ec = "block (ivec st)"
    let ?st = "\<lparr>ivec = ctr128_inc_aligned True (ivec st), ecount_buf = ?ec, num = 0\<rparr>"
    obtain out1 where rec: "ctr_blocks True block ?st (drop 16 inp) = (out1, rest, st')"
      and out: "out = xor_bytes (take 16 inp) ?ec @ out1"
      using less.prems True
      by (auto simp: ctr_blocks.simps [of True block st] Let_def xor_words_block length_block
          split: prod.splits)
    have "inp \<noteq> []" using True by auto
    then have "ctr128_bytes block st (take 16 inp) = (xor_bytes (take 16 inp) ?ec, ?st)"
      using ctr128_bytes_start [of st "take 16 inp" block] less.prems(2,3) True
      by (auto simp: ctr128_inc_aligned_def length_block)
    then have "ctr128_bytes block st (take 16 inp @ drop 16 inp) =
        (case ctr128_bytes block ?st (drop 16 inp) of
          (out', st') \<Rightarrow> (xor_bytes (take 16 inp) ?ec @ out', st'))"
      by (simp only: ctr128_bytes_append prod.case)
    then show ?thesis
      using less.hyps [of "drop 16 inp" ?st out1] rec out less.prems True
      by (auto simp: ctr128_inc_aligned_def ctr128_inc_def split: prod.splits)
  next
    case False
    then show ?thesis
      using less.prems by (auto simp: ctr_blocks.simps [of True block st] split: prod.splits)
  qed
qed

theorem encrypt_bytes:
  assumes "num st < 16" "length (ivec st) = 16"
  shows "CRYPTO_ctr128_encrypt True block st inp = ctr128_bytes block st inp"
proof -
  obtain out1 inp1 n1 where lead: "ctr_lead (ecount_buf st) (num st) inp = (out1, inp1, n1)"
    by (metis prod_cases3)
  have stop: "inp1 = [] \<or> n1 = 0" "n1 < 16"
    using ctr_lead_stops [OF lead assms(1)] by auto
  let ?st1 = "st\<lparr>num := n1\<rparr>"
  obtain out2 inp2 st2 where blocks: "ctr_blocks True block ?st1 inp1 = (out2, inp2, st2)"
    by (metis prod_cases3)
  have bytes: "ctr128_bytes block ?st1 inp1 =
      (if inp2 = [] then (out2, st2)
       else (out2 @ xor_bytes inp2 (block (ivec st2)),
         \<lparr>ivec = ctr128_inc (ivec st2), ecount_buf = block (ivec st2), num = length inp2\<rparr>))"
    and st2: "inp2 \<noteq> [] \<Longrightarrow> num st2 = 0 \<and> length (ivec st2) = 16 \<and> length inp2 < 16"
  proof -
    consider "inp1 = []" | "n1 = 0" using stop by auto
    then have "(if inp2 = [] then ctr128_bytes block ?st1 inp1 = (out2, st2)
      else ctr128_bytes block ?st1 inp1 = (out2 @ xor_bytes inp2 (block (ivec st2)),
         \<lparr>ivec = ctr128_inc (ivec st2), ecount_buf = block (ivec st2), num = length inp2\<rparr>) \<and>
        num st2 = 0 \<and> length (ivec st2) = 16 \<and> length inp2 < 16)"
    proof cases
      case 1
      then show ?thesis using blocks by (simp add: ctr_blocks.simps)
    next
      case 2
      note b = ctr_blocks_bytes [OF blocks]
      show ?thesis
        using b 2 assms(2) ctr128_bytes_start [of st2 inp2 block] by (simp add: length_block)
    qed
    then show "ctr128_bytes block ?st1 inp1 = (if inp2 = [] then (out2, st2)
       else (out2 @ xor_bytes inp2 (block (ivec st2)),
         \<lparr>ivec = ctr128_inc (ivec st2), ecount_buf = block (ivec st2), num = length inp2\<rparr>))"
      "inp2 \<noteq> [] \<Longrightarrow> num st2 = 0 \<and> length (ivec st2) = 16 \<and> length inp2 < 16"
      by (simp_all split: if_splits)
  qed
  show ?thesis
    using ctr_lead_bytes [OF lead, of block] bytes st2
    by (cases "inp2 = []") (simp_all add: CRYPTO_ctr128_encrypt_def lead blocks ctr_tail_xor length_block
        ctr128_inc_aligned_def Let_def)
qed

text \<open>The encryptions of \<open>n\<close> successive counters, and the output from a fresh state.\<close>

end

definition counter_at :: "u8 list \<Rightarrow> nat \<Rightarrow> u8 list" where
  "counter_at iv i = (ctr128_inc ^^ i) iv"

definition keystream :: "(u8 list \<Rightarrow> u8 list) \<Rightarrow> u8 list \<Rightarrow> nat \<Rightarrow> u8 list" where
  "keystream block iv n = concat (map (\<lambda>i. block (counter_at iv i)) [0..<n])"

lemma counter_at_simps [simp]:
  "counter_at iv 0 = iv" "counter_at iv (Suc i) = counter_at (ctr128_inc iv) i"
  by (simp_all add: counter_at_def funpow_swap1)

lemma length_counter_at [simp]: "length (counter_at iv i) = length iv"
  by (induction i arbitrary: iv) (simp_all add: ctr128_inc_def)

lemma be_val_counter_at:
  "length iv = 16 \<Longrightarrow> be_val (counter_at iv i) = (be_val iv + i) mod 2 ^ 128"
proof (induction i arbitrary: iv)
  case 0
  then show ?case using be_val_less [of iv] by simp
next
  case (Suc i)
  then have "be_val (ctr128_inc iv) = (be_val iv + 1) mod 2 ^ 128"
    using be_val_inc [of iv] by (simp add: ctr128_inc_def)
  with Suc show ?case by (simp add: ctr128_inc_def mod_add_left_eq)
qed

lemma keystream_0 [simp]: "keystream block iv 0 = []"
  by (simp add: keystream_def)

lemma keystream_Suc: "keystream block iv (Suc n) = block iv @ keystream block (ctr128_inc iv) n"
  by (simp add: keystream_def upt_conv_Cons map_Suc_upt [symmetric] comp_def del: upt_Suc)

context block_cipher
begin

lemma length_keystream: "length iv = 16 \<Longrightarrow> length (keystream block iv n) = 16 * n"
  by (induction n arbitrary: iv) (simp_all add: keystream_Suc length_block ctr128_inc_def)

lemma ctr128_bytes_keystream:
  "num st = 0 \<Longrightarrow> length (ivec st) = 16 \<Longrightarrow> length inp \<le> 16 * n \<Longrightarrow>
   fst (ctr128_bytes block st inp) = xor_bytes inp (keystream block (ivec st) n)"
proof (induction n arbitrary: st inp)
  case (Suc n)
  show ?case
  proof (cases "length inp < 16 \<or> inp = []")
    case True
    then show ?thesis
      using Suc.prems ctr128_bytes_start [of st inp block]
      by (cases "inp = []") (simp_all add: keystream_Suc xor_bytes_key_append length_block)
  next
    case False
    let ?st = "\<lparr>ivec = ctr128_inc (ivec st), ecount_buf = block (ivec st), num = 0\<rparr>"
    have "ctr128_bytes block st (take 16 inp) = (xor_bytes (take 16 inp) (block (ivec st)), ?st)"
      using ctr128_bytes_start [of st "take 16 inp" block] Suc.prems False by (simp add: length_block)
    then have "ctr128_bytes block st (take 16 inp @ drop 16 inp) =
        (case ctr128_bytes block ?st (drop 16 inp) of
          (out', st') \<Rightarrow> (xor_bytes (take 16 inp) (block (ivec st)) @ out', st'))"
      by (simp only: ctr128_bytes_append prod.case)
    then have "fst (ctr128_bytes block st inp) =
        xor_bytes (take 16 inp) (block (ivec st)) @ fst (ctr128_bytes block ?st (drop 16 inp))"
      by (simp split: prod.splits)
    also have "fst (ctr128_bytes block ?st (drop 16 inp)) =
        xor_bytes (drop 16 inp) (keystream block (ctr128_inc (ivec st)) n)"
      using Suc.IH [of ?st "drop 16 inp"] Suc.prems by (simp add: ctr128_inc_def)
    also have "xor_bytes (take 16 inp) (block (ivec st)) @ \<dots> =
        xor_bytes (take 16 inp @ drop 16 inp) (keystream block (ivec st) (Suc n))"
      using False Suc.prems(2) by (simp add: keystream_Suc xor_bytes_append length_block
          del: append_take_drop_id)
    finally show ?thesis by simp
  qed
qed simp

text \<open>After \<open>n\<close> whole blocks the counter has moved by \<open>n\<close>.\<close>

lemma ctr128_bytes_blocks:
  "num st = 0 \<Longrightarrow> length (ivec st) = 16 \<Longrightarrow> length inp = 16 * n \<Longrightarrow>
   ctr128_bytes block st inp =
     (xor_bytes inp (keystream block (ivec st) n),
      if n = 0 then st
      else \<lparr>ivec = counter_at (ivec st) n, ecount_buf = block (counter_at (ivec st) (n - 1)), num = 0\<rparr>)"
proof (induction n arbitrary: st inp)
  case (Suc n)
  let ?st = "\<lparr>ivec = ctr128_inc (ivec st), ecount_buf = block (ivec st), num = 0\<rparr>"
  have "ctr128_bytes block st (take 16 inp) = (xor_bytes (take 16 inp) (block (ivec st)), ?st)"
    using ctr128_bytes_start [of st "take 16 inp" block] Suc.prems by (cases inp) (auto simp: length_block)
  then have "ctr128_bytes block st (take 16 inp @ drop 16 inp) =
      (case ctr128_bytes block ?st (drop 16 inp) of
        (out', st') \<Rightarrow> (xor_bytes (take 16 inp) (block (ivec st)) @ out', st'))"
    by (simp only: ctr128_bytes_append prod.case)
  moreover have "xor_bytes (take 16 inp) (block (ivec st)) @
      xor_bytes (drop 16 inp) (keystream block (ctr128_inc (ivec st)) n) =
      xor_bytes inp (keystream block (ivec st) (Suc n))"
    using xor_bytes_append [of "take 16 inp" "block (ivec st)" "drop 16 inp"
        "keystream block (ctr128_inc (ivec st)) n"] Suc.prems(2,3)
    by (simp add: keystream_Suc length_block)
  ultimately show ?case
    using Suc.IH [of ?st "drop 16 inp"] Suc.prems by (cases n) (simp_all add: ctr128_inc_def)
qed simp

lemma ctr128_bytes_twice:
  "num st < 16 \<Longrightarrow> fst (ctr128_bytes block st (fst (ctr128_bytes block st inp))) = inp \<and>
   snd (ctr128_bytes block st (fst (ctr128_bytes block st inp))) = snd (ctr128_bytes block st inp)"
proof (induction inp arbitrary: st)
  case (Cons b inp)
  let ?st = "if num st = 0 then st\<lparr>ecount_buf := block (ivec st), ivec := ctr128_inc (ivec st)\<rparr>
                else st"
  show ?case
    using Cons.IH [of "?st\<lparr>num := (num st + 1) mod 16\<rparr>"]
    by (auto simp: Let_def xor_cancel_right split: prod.splits)
qed simp

end

subsection \<open>The aligned increment of a big-endian machine\<close>

lemma be32_word_at:
  "n + 4 \<le> length b \<Longrightarrow> be32 (word_at b n) = take 4 (drop n b)"
  by (simp add: word_at_def be32_cat4 take_Suc_conv_app_nth numeral_eq_Suc nth_drop)

lemma word_at_append: "length c = n \<Longrightarrow> word_at (c @ be32 w @ d) n = w"
  by (simp add: word_at_def be32_def nth_append byte_simps)

lemma length_inc_words [simp]: "4 * n \<le> length c \<Longrightarrow> length (inc_words_from n c) = length c"
  by (induction n arbitrary: c) (simp_all add: Let_def)

lemma inc_words_append:
  "4 * n \<le> length c \<Longrightarrow> inc_words_from n (c @ d) = inc_words_from n c @ d"
proof (induction n arbitrary: c)
  case (Suc n)
  then have "word_at (c @ d) (4 * n) = word_at c (4 * n)"
    by (simp add: word_at_def nth_append)
  moreover have "write_at (c @ d) (4 * n) (be32 w) = write_at c (4 * n) (be32 w) @ d" for w
    using Suc.prems by (simp add: write_at_def)
  ultimately show ?case
    using Suc by (simp add: Let_def)
qed simp

lemma be_val_inc_words:
  "length c = 4 * n \<Longrightarrow> be_val (inc_words_from n c) = (be_val c + 1) mod 256 ^ (4 * n)"
proof (induction n arbitrary: c)
  case (Suc n)
  let ?c = "take (4 * n) c" and ?w = "word_at c (4 * n)"
  have c: "c = ?c @ be32 ?w"
    using Suc.prems by (simp add: be32_word_at)
  have wr: "write_at c (4 * n) (be32 w) = ?c @ be32 w" for w
    using Suc.prems by (simp add: write_at_def)
  have val: "be_val (?c @ be32 w) = be_val ?c * 2 ^ 32 + unat w" for w
    by (simp add: be_val_append)
  have pow: "(256 :: nat) ^ (4 * Suc n) = 256 ^ (4 * n) * 2 ^ 32" by (simp add: power_add)
  show ?case
  proof (cases "?w + 1 = 0")
    case True
    then have "?w = -1" by (simp only: eq_neg_iff_add_eq_0)
    then have "?w = 0xffffffff" by simp
    then have w: "unat ?w + 1 = 2 ^ 32" by simp
    have "be_val (inc_words_from (Suc n) c) = be_val (inc_words_from n ?c @ be32 0)"
      using True Suc.prems by (simp add: Let_def wr inc_words_append)
    also have "\<dots> = (be_val ?c + 1) mod 256 ^ (4 * n) * 2 ^ 32"
      using Suc by (simp add: be_val_append)
    also have "\<dots> = (be_val ?c * 2 ^ 32 + (unat ?w + 1)) mod 256 ^ (4 * Suc n)"
      unfolding w pow by (simp add: mult_mod_left algebra_simps)
    also have "\<dots> = (be_val c + 1) mod 256 ^ (4 * Suc n)"
      using val [of ?w] c by simp
    finally show ?thesis .
  next
    case False
    then have w: "unat (?w + 1) = unat ?w + 1"
      using unatSuc [of ?w] by (simp add: add.commute)
    have "inc_words_from (Suc n) c = ?c @ be32 (?w + 1)"
      using False by (simp add: Let_def wr)
    then have "be_val (inc_words_from (Suc n) c) = be_val c + 1"
      using val [of "?w + 1"] val [of ?w] c w by simp
    moreover have "be_val (inc_words_from (Suc n) c) < 256 ^ (4 * Suc n)"
      using be_val_less [of "inc_words_from (Suc n) c"] Suc.prems by (simp only: length_inc_words order_refl)
    ultimately show ?thesis by (simp only: mod_less)
  qed
qed simp

lemma ctr128_inc_aligned_eq:
  assumes "length c = 16"
  shows "ctr128_inc_aligned little c = ctr128_inc c"
proof -
  have "be_val (inc_words_from 4 c) = be_val (inc_from 16 c)"
    using be_val_inc_words [of c 4] be_val_inc [of c] assms by simp
  then show ?thesis
    using be_val_inject [of "inc_words_from 4 c" "inc_from 16 c"] assms
    by (simp add: ctr128_inc_aligned_def ctr128_inc_def)
qed

subsection \<open>The 32-bit counter path\<close>

text \<open>What a 32-bit counter function sees as the \<open>i\<close>-th counter; it is the 128-bit one as long as
  the low word does not wrap.\<close>

definition ctr32_at :: "u8 list \<Rightarrow> nat \<Rightarrow> u8 list" where
  "ctr32_at iv i = write_at iv 12 (be32 (word_at iv 12 + of_nat i))"

lemma iv_split:
  assumes "length iv = 16"
  shows "iv = take 12 iv @ be32 (word_at iv 12)" "be_val iv = be_val (take 12 iv) * 2 ^ 32 + unat (word_at iv 12)"
proof -
  show "iv = take 12 iv @ be32 (word_at iv 12)" using assms by (simp add: be32_word_at)
  then have "be_val iv = be_val (take 12 iv @ be32 (word_at iv 12))" by (rule arg_cong)
  then show "be_val iv = be_val (take 12 iv) * 2 ^ 32 + unat (word_at iv 12)"
    by (simp add: be_val_append)
qed

lemma write_low: "length iv = 16 \<Longrightarrow> write_at iv 12 (be32 w) = take 12 iv @ be32 w"
  by (simp add: write_at_def)

lemma unat_add_small: "unat (c :: u32) + n < 2 ^ 32 \<Longrightarrow> unat (c + of_nat n) = unat c + n"
  by (simp add: unat_word_ariths unsigned_of_nat take_bit_nat_eq_self)

lemma ctr32_at_counter_at:
  assumes "length iv = 16" "unat (word_at iv 12) + i < 2 ^ 32"
  shows "ctr32_at iv i = counter_at iv i"
proof -
  have "be_val (ctr32_at iv i) = be_val iv + i"
    using iv_split(2) [OF assms(1)] assms
    by (simp add: ctr32_at_def write_low be_val_append unat_add_small)
  moreover have "be_val (ctr32_at iv i) < 2 ^ 128"
    using be_val_less [of "ctr32_at iv i"] assms(1) by (simp add: ctr32_at_def)
  ultimately show ?thesis
    using be_val_inject [of "ctr32_at iv i" "counter_at iv i"] assms(1)
    by (simp add: be_val_counter_at) (simp add: ctr32_at_def)
qed

lemma unat_add_of_nat: "unat (c + of_nat n :: u32) = (unat c + n) mod 2 ^ 32"
  by (simp add: unat_word_ariths unsigned_of_nat take_bit_eq_mod mod_add_right_eq)

lemma add_of_nat_eq_0: "unat (c :: u32) + n = 2 ^ 32 \<Longrightarrow> c + of_nat n = 0"
  using unat_add_of_nat [of c n] by (simp add: unat_eq_0)

lemma ctr32_step_exact:
  assumes "16 \<le> len" "wide \<or> len < 2 ^ 32" "ctr32_step wide len c = (b, c')"
  shows "unat c + b \<le> 2 ^ 32 \<and> c' = c + of_nat b"
proof -
  define B where "B = (if wide \<and> len div 16 > 2 ^ 28 then 2 ^ 28 else len div 16)"
  have "B \<le> 2 ^ 28" using assms(2) by (auto simp: B_def)
  have step: "ctr32_step wide len c =
      (if unat (c + of_nat B) < B then (B - unat (c + of_nat B), 0) else (B, c + of_nat B))"
    by (simp only: ctr32_step_def Let_def B_def)
  show ?thesis
  proof (cases "unat c + B < 2 ^ 32")
    case True
    then show ?thesis using assms(3) step by (auto simp: unat_add_small)
  next
    case False
    have "unat c < 2 ^ 32" using unsigned_less [of c, where 'a = nat] by simp
    with False \<open>B \<le> 2 ^ 28\<close> have u: "unat (c + of_nat B) = unat c + B - 2 ^ 32"
      by (simp add: unat_add_of_nat mod_if)
    with \<open>unat c < 2 ^ 32\<close> False have "unat (c + of_nat B) < B" by linarith
    then have "b = B - unat (c + of_nat B)" "c' = 0" using assms(3) step by auto
    with u \<open>unat c < 2 ^ 32\<close> False have "unat c + b = 2 ^ 32" by linarith
    then show ?thesis using add_of_nat_eq_0 [of c b] \<open>c' = 0\<close> by simp
  qed
qed

lemma put_ctr32_counter_at:
  assumes "length iv = 16" "0 < b" "unat (word_at iv 12) + b \<le> 2 ^ 32"
  shows "put_ctr32 (word_at iv 12 + of_nat b) iv = counter_at iv b"
proof (cases "unat (word_at iv 12) + b < 2 ^ 32")
  case True
  have "word_at iv 12 + of_nat b \<noteq> 0"
  proof
    assume "word_at iv 12 + of_nat b = 0"
    then have "unat (word_at iv 12) + b = 0"
      using unat_add_small [OF True] by (simp only: unsigned_0)
    with assms(2) show False by simp
  qed
  then show ?thesis
    using ctr32_at_counter_at [OF assms(1) True] by (simp add: put_ctr32_def ctr32_at_def Let_def)
next
  case False
  with assms(3) have sum: "unat (word_at iv 12) + b = 2 ^ 32" by simp
  have put: "put_ctr32 (word_at iv 12 + of_nat b) iv = inc_from 12 (take 12 iv) @ be32 0"
    using assms(1)
    by (simp add: put_ctr32_def Let_def add_of_nat_eq_0 [OF sum] write_low ctr96_inc_def inc_from_append)
  have "be_val (inc_from 12 (take 12 iv) @ be32 0) = (be_val (take 12 iv) + 1) mod 2 ^ 96 * 2 ^ 32"
    using be_val_inc [of "take 12 iv"] assms(1) by (simp add: be_val_append)
  also have "\<dots> = (be_val (take 12 iv) * 2 ^ 32 + (unat (word_at iv 12) + b)) mod 2 ^ 128"
  proof -
    have "(2 :: nat) ^ 128 = 2 ^ 96 * 2 ^ 32" by simp
    then show ?thesis unfolding sum by (simp only: mult_mod_left distrib_right mult_1)
  qed
  also have "\<dots> = be_val (counter_at iv b)"
    by (simp only: be_val_counter_at [OF assms(1)] iv_split(2) [OF assms(1)] add.assoc)
  finally have "be_val (inc_from 12 (take 12 iv) @ be32 0) = be_val (counter_at iv b)" .
  then show ?thesis
    unfolding put by (subst (asm) be_val_inject) (simp_all add: assms(1))
qed

lemma unat_u32_less: "unat (w :: u32) < 4294967296"
  using unsigned_less [of w, where 'a = nat] by simp

lemma xor_bytes_zeros: "xor_bytes (replicate n 0) ks = take n ks"
proof (induction n arbitrary: ks)
  case (Suc n)
  then show ?case by (cases ks) simp_all
qed simp

lemma word_at_put_ctr32: "length iv = 16 \<Longrightarrow> word_at (put_ctr32 c iv) 12 = c"
  using word_at_append [of "take 12 iv" 12 c "[]"] word_at_append [of "inc_from 12 (take 12 iv)" 12 0 "[]"]
  by (simp add: put_ctr32_def Let_def write_low ctr96_inc_def inc_from_append)

lemma counter_at_add: "counter_at (counter_at iv m) n = counter_at iv (m + n)"
  by (simp add: counter_at_def funpow_add add.commute [of m])

lemma keystream_add:
  "keystream block iv (m + n) = keystream block iv m @ keystream block (counter_at iv m) n"
proof (induction m arbitrary: iv)
  case (Suc m)
  then show ?case by (simp add: keystream_Suc)
qed simp

context block_cipher
begin

lemma func_keystream:
  assumes "func inp n iv = xor_bytes inp (concat (map (\<lambda>i. block (ctr32_at iv i)) [0..<n]))"
    and "length iv = 16" "unat (word_at iv 12) + n \<le> 2 ^ 32"
  shows "func inp n iv = xor_bytes inp (keystream block iv n)"
proof -
  have "map (\<lambda>i. block (ctr32_at iv i)) [0..<n] = map (\<lambda>i. block (counter_at iv i)) [0..<n]"
    using assms(2,3) by (intro map_cong) (simp_all add: ctr32_at_counter_at)
  then show ?thesis by (simp only: assms(1) keystream_def)
qed

lemma ctr32_blocks_keystream:
  assumes func: "\<And>inp n iv. length iv = 16 \<Longrightarrow> length inp = 16 * n \<Longrightarrow>
      func inp n iv = xor_bytes inp (concat (map (\<lambda>i. block (ctr32_at iv i)) [0..<n]))"
  shows "length iv = 16 \<Longrightarrow> wide \<or> length inp < 2 ^ 32 \<Longrightarrow>
    ctr32_blocks wide func (word_at iv 12) iv inp =
      (let n = length inp div 16
       in (xor_bytes (take (16 * n) inp) (keystream block iv n), drop (16 * n) inp,
           word_at (counter_at iv n) 12, counter_at iv n))"
proof (induction "length inp" arbitrary: iv inp rule: less_induct)
  case less
  show ?case
  proof (cases "length inp \<ge> 16")
    case True
    obtain b c where step: "ctr32_step wide (length inp) (word_at iv 12) = (b, c)" by fastforce
    note bounds = ctr32_step_bounds [OF True step]
    note exact = ctr32_step_exact [OF True less.prems(2) step]
    define iv1 where "iv1 = counter_at iv b"
    have put: "put_ctr32 c iv = iv1" and c: "c = word_at iv1 12"
      using put_ctr32_counter_at [OF less.prems(1) bounds(1)] exact
        word_at_put_ctr32 [OF less.prems(1), of c] by (auto simp: iv1_def)
    have out: "func (take (16 * b) inp) b iv = xor_bytes (take (16 * b) inp) (keystream block iv b)"
      using func [of iv "take (16 * b) inp" b] less.prems(1) bounds(2) exact
      by (intro func_keystream) auto
    define m where "m = length (drop (16 * b) inp) div 16"
    have n: "length inp div 16 = b + m"
      using bounds(2) by (simp add: m_def div_nat_eqI)
    have IH: "ctr32_blocks wide func (word_at iv1 12) iv1 (drop (16 * b) inp) =
        (xor_bytes (take (16 * m) (drop (16 * b) inp)) (keystream block iv1 m),
         drop (16 * m) (drop (16 * b) inp), word_at (counter_at iv1 m) 12, counter_at iv1 m)"
    proof -
      have "length (drop (16 * b) inp) < length inp"
        "wide \<or> length (drop (16 * b) inp) < 2 ^ 32" "length iv1 = 16"
        using less.prems bounds True by (auto simp: iv1_def)
      then show ?thesis by (simp only: less.hyps m_def Let_def)
    qed
    have take_add: "take (16 * (b + m)) inp = take (16 * b) inp @ take (16 * m) (drop (16 * b) inp)"
      by (simp only: distrib_left take_add)
    have "xor_bytes (take (16 * (b + m)) inp) (keystream block iv (b + m)) =
        xor_bytes (take (16 * b) inp) (keystream block iv b) @
        xor_bytes (take (16 * m) (drop (16 * b) inp)) (keystream block iv1 m)"
      unfolding take_add keystream_add iv1_def
      using bounds(2) less.prems(1) by (intro xor_bytes_append) (simp add: length_keystream)
    then show ?thesis
      using True step out put IH unfolding n
      by (subst ctr32_blocks.simps)
        (simp add: Let_def c iv1_def counter_at_add distrib_left add.commute [of "16 * b"])
  next
    case False
    then show ?thesis by (subst ctr32_blocks.simps) simp
  qed
qed

lemma encrypt_ctr32_bytes:
  assumes func: "\<And>inp n iv. length iv = 16 \<Longrightarrow> length inp = 16 * n \<Longrightarrow>
      func inp n iv = xor_bytes inp (concat (map (\<lambda>i. block (ctr32_at iv i)) [0..<n]))"
    and st: "num st < 16" "length (ivec st) = 16" and len: "wide \<or> length inp < 2 ^ 32"
  shows "fst (CRYPTO_ctr128_encrypt_ctr32 wide func st inp) = fst (ctr128_bytes block st inp) \<and>
    ivec (snd (CRYPTO_ctr128_encrypt_ctr32 wide func st inp)) = ivec (snd (ctr128_bytes block st inp)) \<and>
    num (snd (CRYPTO_ctr128_encrypt_ctr32 wide func st inp)) = num (snd (ctr128_bytes block st inp))"
proof -
  obtain out1 inp1 n1 where lead: "ctr_lead (ecount_buf st) (num st) inp = (out1, inp1, n1)"
    by (metis prod_cases3)
  note stop = ctr_lead_stops [OF lead st(1)] and split = ctr_lead_bytes [OF lead, of block]
  note len1 = ctr_lead_length [OF lead]
  define m where "m = length inp1 div 16"
  define iv where "iv = counter_at (ivec st) m"
  let ?rest = "drop (16 * m) inp1" and ?lead = "take (16 * m) inp1"
  have blocks: "ctr32_blocks wide func (word_at (ivec st) 12) (ivec st) inp1 =
      (xor_bytes ?lead (keystream block (ivec st) m), ?rest, word_at iv 12, iv)"
    using ctr32_blocks_keystream [OF func st(2), of wide inp1] len len1
    unfolding m_def iv_def Let_def by auto
  have iv: "length iv = 16" using st(2) by (simp add: iv_def)
  have "16 * m \<le> length inp1" by (simp add: m_def)
  have ec: "func (replicate 16 0) 1 iv = block iv"
    using func [of iv "replicate 16 0" 1] iv ctr32_at_counter_at [OF iv, of 0]
    by (simp add: unat_u32_less xor_bytes_zeros length_block)
  have inc: "put_ctr32 (word_at iv 12 + 1) iv = ctr128_inc iv"
    using put_ctr32_counter_at [OF iv, of 1] unat_u32_less [of "word_at iv 12"] by simp
  let ?st = "st\<lparr>num := n1\<rparr>"
  obtain stm where bytes: "ctr128_bytes block ?st inp1 =
      (case ctr128_bytes block stm ?rest of
         (out', st') \<Rightarrow> (xor_bytes ?lead (keystream block (ivec st) m) @ out', st'))"
    and stm: "ivec stm = iv" "num stm = n1"
  proof (cases "inp1 = []")
    case True
    then show ?thesis using that [of ?st] by (simp add: iv_def m_def)
  next
    case False
    then have "n1 = 0" using stop by simp
    then have "ctr128_bytes block ?st ?lead = (xor_bytes ?lead (keystream block (ivec st) m),
        if m = 0 then ?st else \<lparr>ivec = counter_at (ivec st) m,
          ecount_buf = block (counter_at (ivec st) (m - 1)), num = 0\<rparr>)"
      using ctr128_bytes_blocks [of ?st ?lead m] st(2) \<open>16 * m \<le> length inp1\<close> by simp
    then show ?thesis
      using that [of "if m = 0 then ?st else \<lparr>ivec = counter_at (ivec st) m,
          ecount_buf = block (counter_at (ivec st) (m - 1)), num = 0\<rparr>"] \<open>n1 = 0\<close>
        ctr128_bytes_append [of block ?st ?lead ?rest] by (simp add: iv_def split: if_splits)
  qed
  show ?thesis
  proof (cases "?rest = []")
    case True
    then show ?thesis
      using split bytes stm by (simp add: CRYPTO_ctr128_encrypt_ctr32_def lead blocks)
  next
    case False
    then have "n1 = 0" "length ?rest < 16" using stop by (auto simp: m_def)
    then have "ctr128_bytes block stm ?rest = (xor_bytes ?rest (block iv),
        \<lparr>ivec = ctr128_inc iv, ecount_buf = block iv, num = length ?rest\<rparr>)"
      using ctr128_bytes_start [of stm ?rest block] stm iv False by (simp add: length_block)
    then show ?thesis
      using split bytes stm False \<open>n1 = 0\<close> \<open>length ?rest < 16\<close>
      by (simp add: CRYPTO_ctr128_encrypt_ctr32_def lead blocks ec [simplified] inc Let_def
          ctr_tail_xor length_block iv)
  qed
qed

end

end
