(* ===== verification/Aes_Ctr.thy ===== *)
theory Aes_Ctr
  imports Aes_Asm Ctr128
begin

text \<open>
  \<open>src/jni/openssl/crypto/aes/aes_ctr.c\<close>: counter mode with the AES block function.  AES interprets
  the contract \<open>block_cipher\<close> of counter mode, so what theory \<open>Ctr128\<close> shows of the mode holds of it.
\<close>

definition AES_ctr128_encrypt ::
  "u8 list \<Rightarrow> AES_KEY \<Rightarrow> ctr_state \<Rightarrow> u8 list \<times> ctr_state" where
  "AES_ctr128_encrypt inp key st = CRYPTO_ctr128_encrypt True (\<lambda>iv. AES_encrypt iv key) st inp"

lemma length_AES_encrypt [simp]: "length (AES_encrypt b k) = 16"
proof -
  obtain t0 t1 t2 t3 p where
    "enc_loop (rounds k div 2) 0 (rd_key k) (load_state b (rd_key k)) = ((t0, t1, t2, t3), p)"
    by (cases "enc_loop (rounds k div 2) 0 (rd_key k) (load_state b (rd_key k))") auto
  then show ?thesis by (simp add: AES_encrypt_def Let_def PUTU32_def)
qed

interpretation aes: block_cipher "\<lambda>iv. AES_encrypt iv key" for key
  by unfold_locales simp

text \<open>The state the callers start from: the counter is given, nothing of a block is used yet.\<close>

definition fresh_ctr :: "u8 list \<Rightarrow> ctr_state" where
  "fresh_ctr iv = \<lparr>ivec = iv, ecount_buf = replicate 16 0, num = 0\<rparr>"

definition aes_keystream :: "AES_KEY \<Rightarrow> u8 list \<Rightarrow> nat \<Rightarrow> u8 list" where
  "aes_keystream key iv n = take n (keystream (\<lambda>iv. AES_encrypt iv key) iv (n div 16 + 1))"

text \<open>Two schedules under which the block function is the same: a schedule of a short key leaves the end
  of \<open>rd_key\<close> as it was.\<close>

definition same_cipher :: "AES_KEY \<Rightarrow> AES_KEY \<Rightarrow> bool" where
  "same_cipher k k' \<longleftrightarrow> (\<forall>b. AES_encrypt b k = AES_encrypt b k')"

lemma same_cipher_keystream: "same_cipher k k' \<Longrightarrow> aes_keystream k iv n = aes_keystream k' iv n"
  by (simp add: same_cipher_def aes_keystream_def)

lemma same_cipher_schedules:
  assumes "bits \<in> {128, 192, 256}" "length (rd_key k) = 60" "length (rd_key k') = 60"
    and "AES_set_encrypt_key (Some uk) bits (Some k) = (0, Some ek)"
    and "AES_set_encrypt_key (Some uk) bits (Some k') = (0, Some ek')"
  shows "same_cipher ek ek'"
  using key_states_schedule [OF assms(1,2,4)] key_states_schedule [OF assms(1,3,5)] nk_of_values [OF assms(1)]
  by (auto simp: same_cipher_def AES_encrypt_cipher)

lemma blocks_enough: "(n :: nat) \<le> 16 * (n div 16 + 1)"
proof -
  have "n mod 16 < 16" by simp
  moreover have "n = 16 * (n div 16) + n mod 16" by (simp only: mult_div_mod_eq)
  ultimately show ?thesis unfolding distrib_left mult_1_right by linarith
qed

lemma length_aes_keystream: "length iv = 16 \<Longrightarrow> length (aes_keystream key iv n) = n"
proof -
  assume "length iv = 16"
  moreover have "n \<le> 16 * (n div 16 + 1)" by (rule blocks_enough)
  ultimately show ?thesis by (simp add: aes_keystream_def aes.length_keystream)
qed

lemma AES_ctr128_keystream:
  assumes "length iv = 16"
  shows "fst (AES_ctr128_encrypt inp key (fresh_ctr iv)) =
    xor_bytes inp (aes_keystream key iv (length inp))"
proof -
  have "length inp \<le> 16 * (length inp div 16 + 1)" by (rule blocks_enough)
  then show ?thesis
    using assms aes.ctr128_bytes_keystream [of "fresh_ctr iv" inp "length inp div 16 + 1" key]
      aes.encrypt_bytes [of "fresh_ctr iv" key inp]
    by (simp add: AES_ctr128_encrypt_def fresh_ctr_def aes_keystream_def xor_bytes_take_key)
qed

text \<open>A state between two calls: the counter has sixteen bytes, fewer than sixteen of the last block are
  used.\<close>

definition ctr_ok :: "ctr_state \<Rightarrow> bool" where
  "ctr_ok st \<longleftrightarrow> num st < 16 \<and> length (ivec st) = 16"

lemma ctr_ok_fresh [simp]: "length iv = 16 \<Longrightarrow> ctr_ok (fresh_ctr iv)"
  by (simp add: ctr_ok_def fresh_ctr_def)

lemma ctr128_bytes_ok: "ctr_ok st \<Longrightarrow> ctr_ok (snd (ctr128_bytes block st inp))"
proof (induction inp arbitrary: st)
  case (Cons b inp)
  let ?st = "if num st = 0 then st\<lparr>ecount_buf := block (ivec st), ivec := ctr128_inc (ivec st)\<rparr> else st"
  have "ctr_ok (?st\<lparr>num := (num ?st + 1) mod 16\<rparr>)"
    using Cons.prems by (simp add: ctr_ok_def ctr128_inc_def)
  from Cons.IH [OF this] show ?case by (simp add: Let_def case_prod_beta)
qed simp

lemma AES_ctr128_bytes:
  "ctr_ok st \<Longrightarrow> AES_ctr128_encrypt inp key st = ctr128_bytes (\<lambda>iv. AES_encrypt iv key) st inp"
  using aes.encrypt_bytes [of st key inp] by (simp add: AES_ctr128_encrypt_def ctr_ok_def)

lemma AES_ctr128_ok: "ctr_ok st \<Longrightarrow> ctr_ok (snd (AES_ctr128_encrypt inp key st))"
  by (simp add: AES_ctr128_bytes ctr128_bytes_ok)

lemma AES_ctr128_append:
  assumes "ctr_ok st"
  shows "AES_ctr128_encrypt (xs @ ys) key st =
    (case AES_ctr128_encrypt xs key st of (out, st1) \<Rightarrow>
     case AES_ctr128_encrypt ys key st1 of (out', st2) \<Rightarrow> (out @ out', st2))"
proof -
  obtain out st1 where x: "AES_ctr128_encrypt xs key st = (out, st1)" by fastforce
  then have "ctr_ok st1" using AES_ctr128_ok [OF assms, of xs key] by simp
  with x show ?thesis using assms by (simp add: AES_ctr128_bytes ctr128_bytes_append)
qed

end
