(* ===== verification/Aes_Theorems.thy ===== *)
theory Aes_Theorems
  imports Aes_Ctr
begin

text \<open>
  The properties of the AES code and of counter mode: what the constant tables hold, the key
  schedules, the block functions against FIPS-197 under the keys that the schedules really make,
  the variants of the code against each other, and counter mode as a stream of masked bytes.
\<close>

subsection \<open>Tables and schedules\<close>

text \<open>Every entry of the S-box table is the affine image of the multiplicative inverse of its
  index in GF(2^8), the inverse table undoes it, and each of the eight round tables holds the
  MixColumns multiples of its S-box entry.\<close>

theorem aes_tables:
  "(let s = Te4 ! unat b in
      s = affine (inv_affine s) \<and> gmul b (inv_affine s) = (if b = 0 then 0 else 1) \<and>
      Td4 ! unat s = b \<and>
      Te0 ! unat b = cat4 (gmul 2 s) s s (gmul 3 s) \<and>
      Te1 ! unat b = cat4 (gmul 3 s) (gmul 2 s) s s \<and>
      Te2 ! unat b = cat4 s (gmul 3 s) (gmul 2 s) s \<and>
      Te3 ! unat b = cat4 s s (gmul 3 s) (gmul 2 s)) \<and>
   (let s = Td4 ! unat b in
      Td0 ! unat b = cat4 (gmul 0xe s) (gmul 9 s) (gmul 0xd s) (gmul 0xb s) \<and>
      Td1 ! unat b = cat4 (gmul 0xb s) (gmul 0xe s) (gmul 9 s) (gmul 0xd s) \<and>
      Td2 ! unat b = cat4 (gmul 0xd s) (gmul 0xb s) (gmul 0xe s) (gmul 9 s) \<and>
      Td3 ! unat b = cat4 (gmul 9 s) (gmul 0xd s) (gmul 0xb s) (gmul 0xe s))"
  using sbox_is_affine_inverse [of b] inv_sbox_sbox [of b]
  by (simp add: Te_nth Td_nth table_entry_defs Let_def flip: sbox_def inv_sbox_def)

text \<open>C31: \<open>AES_set_encrypt_key\<close> with a key size of 128, 192 or 256 bits succeeds, sets 10, 12 or 14
  rounds and fills \<open>rd_key\<close> with the key expansion of FIPS-197.\<close>

theorem aes_key_expansion:
  assumes "bits \<in> {128, 192, 256}" and "length (rd_key k) = 60"
  shows "\<exists>k'. AES_set_encrypt_key (Some uk) bits (Some k) = (0, Some k') \<and>
    rounds k' = nk_of bits + 6 \<and>
    take (4 * (rounds k' + 1)) (rd_key k') =
      expand_upto (nk_of bits) (4 * (nk_of bits + 7) - nk_of bits) (key_words uk (nk_of bits))"
  using set_encrypt_key_expansion [OF assms, of uk] by auto

definition zero_key :: AES_KEY where
  "zero_key = \<lparr>rd_key = replicate 60 0, rounds = 0\<rparr>"

lemma zero_key_60 [simp]: "length (rd_key zero_key) = 60"
  by (simp add: zero_key_def)

theorem aes_key_expansion_witness:
  "\<exists>k'. AES_set_encrypt_key (Some (replicate 16 1)) 128 (Some zero_key) = (0, Some k') \<and>
    rounds k' = nk_of 128 + 6 \<and>
    take (4 * (rounds k' + 1)) (rd_key k') =
      expand_upto (nk_of 128) (4 * (nk_of 128 + 7) - nk_of 128) (key_words (replicate 16 1) (nk_of 128))"
  by (rule aes_key_expansion) simp_all

text \<open>Both key schedules refuse a null pointer with -1 and any other key size with -2, and leave
  the key structure as it was.\<close>

theorem aes_key_errors:
  "AES_set_encrypt_key None bits key = (-1, key) \<and>
   AES_set_encrypt_key uk bits None = (-1, None) \<and>
   AES_set_decrypt_key None bits key = (-1, key) \<and>
   AES_set_decrypt_key uk bits None = (-1, None) \<and>
   (bits \<notin> {128, 192, 256} \<longrightarrow>
      AES_set_encrypt_key (Some b) bits (Some k) = (-2, Some k) \<and>
      AES_set_decrypt_key (Some b) bits (Some k) = (-2, Some k))"
  by (auto simp: AES_set_encrypt_key_def private_AES_set_encrypt_key_def set_encrypt_key_with_def
      AES_set_decrypt_key_def private_AES_set_decrypt_key_def set_decrypt_key_with_def
      split: option.splits)

theorem aes_key_errors_witness:
  "AES_set_encrypt_key (Some []) 64 (Some zero_key) = (-2, Some zero_key) \<and>
   AES_set_decrypt_key (Some []) 64 (Some zero_key) = (-2, Some zero_key)"
  using aes_key_errors [of 64 None None "[]" zero_key] by simp

subsection \<open>The block functions\<close>

text \<open>C29: \<open>AES_encrypt\<close> under the schedule that \<open>AES_set_encrypt_key\<close> made of a user key is the
  cipher of FIPS-197 under that key.\<close>

theorem aes_encrypt_fips197:
  assumes "bits \<in> {128, 192, 256}" and "length (rd_key k) = 60"
    and "AES_set_encrypt_key (Some uk) bits (Some k) = (0, Some ek)"
  shows "AES_encrypt b ek = fips_encrypt (nk_of bits) uk b"
  using key_states_schedule [OF assms] nk_of_values [OF assms(1)]
  by (auto simp: AES_encrypt_cipher fips_encrypt_def)

theorem aes_encrypt_fips197_witness:
  "AES_encrypt (replicate 16 7) (the (snd (AES_set_encrypt_key (Some (replicate 24 1)) 192 (Some zero_key)))) =
   fips_encrypt (nk_of 192) (replicate 24 1) (replicate 16 7)"
proof (rule aes_encrypt_fips197)
  obtain k' where "AES_set_encrypt_key (Some (replicate 24 1)) 192 (Some zero_key) = (0, Some k')"
    using set_encrypt_key_expansion [of 192 zero_key "replicate 24 1"] by auto
  then show "AES_set_encrypt_key (Some (replicate 24 1)) 192 (Some zero_key) =
      (0, Some (the (snd (AES_set_encrypt_key (Some (replicate 24 1)) 192 (Some zero_key)))))"
    by simp
qed simp_all

text \<open>C30: \<open>AES_decrypt\<close> under the decryption schedule of a key undoes \<open>AES_encrypt\<close> under its
  encryption schedule.\<close>

theorem aes_decrypt_encrypt:
  assumes "bits \<in> {128, 192, 256}" and "length (rd_key k) = 60" and "length b = 16"
    and "AES_set_encrypt_key (Some uk) bits (Some k) = (0, Some ek)"
    and "AES_set_decrypt_key (Some uk) bits (Some k) = (0, Some dk)"
  shows "AES_decrypt (AES_encrypt b ek) dk = b"
  by (rule decrypt_encrypt [OF assms])

theorem aes_decrypt_encrypt_witness:
  "AES_decrypt
     (AES_encrypt (replicate 16 3) (the (snd (AES_set_encrypt_key (Some (replicate 32 9)) 256 (Some zero_key)))))
     (the (snd (AES_set_decrypt_key (Some (replicate 32 9)) 256 (Some zero_key)))) = replicate 16 3"
proof (rule aes_decrypt_encrypt)
  obtain k' where k': "AES_set_encrypt_key (Some (replicate 32 9)) 256 (Some zero_key) = (0, Some k')"
    using set_encrypt_key_expansion [of 256 zero_key "replicate 32 9"] by auto
  then show "AES_set_encrypt_key (Some (replicate 32 9)) 256 (Some zero_key) =
      (0, Some (the (snd (AES_set_encrypt_key (Some (replicate 32 9)) 256 (Some zero_key)))))"
    by simp
  show "AES_set_decrypt_key (Some (replicate 32 9)) 256 (Some zero_key) =
      (0, Some (the (snd (AES_set_decrypt_key (Some (replicate 32 9)) 256 (Some zero_key)))))"
    using set_decrypt_key_eq [OF k'] by simp
qed simp_all

text \<open>C32: the \<open>FULL_UNROLL\<close> text of both block functions computes what the rolled loops compute, for
  every number of rounds a schedule can set.\<close>

theorem aes_unrolled:
  assumes "rounds key \<in> {10, 12, 14}"
  shows "AES_encrypt_unrolled inp key = AES_encrypt inp key \<and>
    AES_decrypt_unrolled inp key = AES_decrypt inp key"
  using AES_unrolled_rounds [OF assms] by simp

theorem aes_unrolled_witness:
  "AES_encrypt_unrolled [] (zero_key\<lparr>rounds := 12\<rparr>) = AES_encrypt [] (zero_key\<lparr>rounds := 12\<rparr>) \<and>
   AES_decrypt_unrolled [] (zero_key\<lparr>rounds := 12\<rparr>) = AES_decrypt [] (zero_key\<lparr>rounds := 12\<rparr>)"
  by (rule aes_unrolled) simp

text \<open>The key schedules of the \<open>AES_ASM\<close> branch, with the byte S-box and word-parallel doubling,
  are those of the portable branch.\<close>

theorem aes_asm_schedules:
  "asm_set_encrypt_key = private_AES_set_encrypt_key \<and>
   asm_set_decrypt_key = private_AES_set_decrypt_key"
  by (simp add: asm_set_encrypt_key_eq asm_set_decrypt_key_eq)

subsection \<open>Counter mode\<close>

text \<open>The counter increment adds one modulo 2^128 to the big-endian number in the sixteen bytes,
  and the word-wise increment of a big-endian machine does the same.\<close>

theorem ctr128_increment:
  assumes "length counter = 16"
  shows "be_val (ctr128_inc counter) = (be_val counter + 1) mod 2 ^ 128 \<and>
    ctr128_inc_aligned little counter = ctr128_inc counter"
  using be_val_inc [of counter] assms by (simp add: ctr128_inc_def ctr128_inc_aligned_eq)

theorem ctr128_increment_witness:
  "be_val (ctr128_inc (replicate 16 255)) = (be_val (replicate 16 255) + 1) mod 2 ^ 128 \<and>
   ctr128_inc_aligned False (replicate 16 255) = ctr128_inc (replicate 16 255)"
  by (rule ctr128_increment) simp

text \<open>C33: with any block function, the word-at-a-time path of \<open>CRYPTO_ctr128_encrypt\<close> returns the
  bytes and the state of the byte-at-a-time loop it replaces.\<close>

theorem ctr128_paths:
  assumes "\<And>iv. length iv = 16 \<Longrightarrow> length (block iv) = 16"
    and "num st < 16" and "length (ivec st) = 16"
  shows "CRYPTO_ctr128_encrypt True block st inp = ctr128_bytes block st inp"
proof -
  have "block_cipher block" using assms(1) by unfold_locales
  then show ?thesis
    using assms(2,3) by (rule block_cipher.encrypt_bytes)
qed

theorem ctr128_paths_witness:
  "CRYPTO_ctr128_encrypt True (\<lambda>iv. iv) \<lparr>ivec = replicate 16 0, ecount_buf = replicate 16 1, num = 5\<rparr>
     (replicate 40 7) =
   ctr128_bytes (\<lambda>iv. iv) \<lparr>ivec = replicate 16 0, ecount_buf = replicate 16 1, num = 5\<rparr> (replicate 40 7)"
  by (rule ctr128_paths) simp_all

text \<open>C34: AES in counter mode is a stream cipher: however a message is cut into calls, the bytes and the
  final state are those of one call on the whole of it.\<close>

theorem aes_ctr_stream:
  assumes "num st < 16" "length (ivec st) = 16"
  shows "AES_ctr128_encrypt (concat ms) key st =
    foldl (\<lambda>(out, st) m. case AES_ctr128_encrypt m key st of (out', st') \<Rightarrow> (out @ out', st')) ([], st) ms"
proof -
  let ?f = "\<lambda>(out, st) m. case AES_ctr128_encrypt m key st of (out', st') \<Rightarrow> (out @ out', st')"
  have "ctr_ok st \<Longrightarrow> foldl ?f (acc, st) ms =
      (case AES_ctr128_encrypt (concat ms) key st of (out, st') \<Rightarrow> (acc @ out, st'))" for acc st
  proof (induction ms arbitrary: acc st)
    case Nil
    then show ?case by (simp add: AES_ctr128_bytes)
  next
    case (Cons m ms)
    obtain out st1 where m: "AES_ctr128_encrypt m key st = (out, st1)" by fastforce
    then have "ctr_ok st1" using AES_ctr128_ok [OF Cons.prems, of m key] by simp
    then show ?case
      using Cons.IH [of st1 "acc @ out"] AES_ctr128_append [OF Cons.prems, of m "concat ms" key] m
      by (simp split: prod.split)
  qed
  then show ?thesis using assms by (simp add: ctr_ok_def)
qed

theorem aes_ctr_stream_witness:
  "AES_ctr128_encrypt (concat [[1, 2, 3], [], [4]]) zero_key (fresh_ctr (replicate 16 0)) =
   foldl (\<lambda>(out, st) m. case AES_ctr128_encrypt m zero_key st of (out', st') \<Rightarrow> (out @ out', st'))
     ([], fresh_ctr (replicate 16 0)) [[1, 2, 3], [], [4]]"
  by (rule aes_ctr_stream) (simp_all add: fresh_ctr_def)

text \<open>C35: from a fresh state, counter mode adds the keystream whose block \<open>i\<close> is the AES image of the
  16-byte big-endian number \<open>iv + i\<close> modulo 2^128, and a second pass restores the input.\<close>

theorem aes_ctr_keystream:
  assumes "length iv = 16"
  shows "fst (AES_ctr128_encrypt inp key (fresh_ctr iv)) =
      xor_bytes inp (concat (map (\<lambda>i. AES_encrypt (counter_at iv i) key) [0..<length inp div 16 + 1])) \<and>
    (\<forall>i. be_val (counter_at iv i) = (be_val iv + i) mod 2 ^ 128) \<and>
    fst (AES_ctr128_encrypt (fst (AES_ctr128_encrypt inp key (fresh_ctr iv))) key (fresh_ctr iv)) = inp"
proof (intro conjI)
  have le: "length inp \<le> 16 * (length inp div 16 + 1)" by (rule blocks_enough)
  have st: "num (fresh_ctr iv) = 0" "length (ivec (fresh_ctr iv)) = 16" "ivec (fresh_ctr iv) = iv"
    by (simp_all add: fresh_ctr_def assms)
  show "fst (AES_ctr128_encrypt inp key (fresh_ctr iv)) =
      xor_bytes inp (concat (map (\<lambda>i. AES_encrypt (counter_at iv i) key) [0..<length inp div 16 + 1]))"
    using aes.ctr128_bytes_keystream [OF st(1,2) le, of key] assms
    by (simp only: AES_ctr128_bytes ctr_ok_fresh keystream_def st(3))
  show "\<forall>i. be_val (counter_at iv i) = (be_val iv + i) mod 2 ^ 128"
    using be_val_counter_at [OF assms] by simp
  show "fst (AES_ctr128_encrypt (fst (AES_ctr128_encrypt inp key (fresh_ctr iv))) key (fresh_ctr iv)) = inp"
    using aes.ctr128_bytes_twice [of "fresh_ctr iv" key inp] assms
    by (simp add: AES_ctr128_bytes) (simp add: fresh_ctr_def)
qed

theorem aes_ctr_keystream_witness:
  "fst (AES_ctr128_encrypt (fst (AES_ctr128_encrypt [1, 2, 3] zero_key (fresh_ctr (replicate 16 0)))) zero_key
     (fresh_ctr (replicate 16 0))) = [1, 2, 3]"
proof -
  have "length (replicate 16 (0 :: u8)) = 16" by simp
  from aes_ctr_keystream [OF this, of "[1, 2, 3]" zero_key] show ?thesis by blast
qed

text \<open>C36: with a 32-bit counter routine that does what its contract says, \<open>CRYPTO_ctr128_encrypt_ctr32\<close>
  returns the bytes, the counter and the offset of the 128-bit path, also when the low 32 bits of the
  counter wrap and when the length does not fit 32 bits.\<close>

theorem ctr32_equivalent:
  assumes "\<And>iv. length iv = 16 \<Longrightarrow> length (block iv) = 16"
    and "\<And>inp n iv. length iv = 16 \<Longrightarrow> length inp = 16 * n \<Longrightarrow>
      func inp n iv = xor_bytes inp (concat (map (\<lambda>i. block (ctr32_at iv i)) [0..<n]))"
    and "num st < 16" "length (ivec st) = 16" "wide \<or> length inp < 2 ^ 32"
  shows "fst (CRYPTO_ctr128_encrypt_ctr32 wide func st inp) = fst (CRYPTO_ctr128_encrypt True block st inp) \<and>
    ivec (snd (CRYPTO_ctr128_encrypt_ctr32 wide func st inp)) =
      ivec (snd (CRYPTO_ctr128_encrypt True block st inp)) \<and>
    num (snd (CRYPTO_ctr128_encrypt_ctr32 wide func st inp)) =
      num (snd (CRYPTO_ctr128_encrypt True block st inp))"
proof -
  have bc: "block_cipher block" using assms(1) by unfold_locales
  show ?thesis
    unfolding block_cipher.encrypt_bytes [OF bc assms(3,4)]
    using block_cipher.encrypt_ctr32_bytes [OF bc assms(2-5)] by blast
qed

theorem ctr32_equivalent_witness:
  "fst (CRYPTO_ctr128_encrypt_ctr32 True
     (\<lambda>inp n iv. xor_bytes inp (concat (map (\<lambda>i. (\<lambda>iv. iv) (ctr32_at iv i)) [0..<n])))
     (fresh_ctr (replicate 16 255)) (replicate 40 7)) =
   fst (CRYPTO_ctr128_encrypt True (\<lambda>iv. iv) (fresh_ctr (replicate 16 255)) (replicate 40 7))"
  using ctr32_equivalent [of "\<lambda>iv. iv"
      "\<lambda>inp n iv. xor_bytes inp (concat (map (\<lambda>i. (\<lambda>iv. iv) (ctr32_at iv i)) [0..<n]))"
      "fresh_ctr (replicate 16 255)" True "replicate 40 7"]
  by (simp add: fresh_ctr_def)

end
