(* ===== verification/Sha1_Core.thy ===== *)
theory Sha1_Core
  imports Prelude
begin

text \<open>
  SHA-1 as \<open>src/jni/openssl/crypto/sha/sha_locl.h\<close> and \<open>src/jni/openssl/crypto/md32_common.h\<close> build
  it for \<open>sha1dgst.c\<close> (\<open>SHA_1\<close> defined, big-endian data order), with the one-shot function of
  \<open>sha1_one.c\<close>.

  The block function is here twice, as in the header: \<open>small_block_data_order\<close> is the
  \<open>OPENSSL_SMALL_FOOTPRINT\<close> loop, \<open>sha1_block_data_order\<close> the unrolled text, in which the six
  register variables change their roles from one macro call to the next.  Its eighty macro calls
  are the tables \<open>calls_00_15\<close> to \<open>calls_60_79\<close>, one entry for each call with its arguments as they
  are written.  The registers and the array \<open>X\<close> are lists updated by index.

  \<open>HASH_UPDATE\<close>, \<open>HASH_TRANSFORM\<close> and \<open>HASH_FINAL\<close> take the block function as an argument, as the
  macros of \<open>md32_common.h\<close> do.
\<close>

record SHA_CTX =
  h0 :: u32
  h1 :: u32
  h2 :: u32
  h3 :: u32
  h4 :: u32
  Nl :: u32
  Nh :: u32
  sha_data :: "u8 list"
  sha_num :: nat

definition SHA1_Init :: SHA_CTX where
  "SHA1_Init =
     \<lparr>h0 = 0x67452301, h1 = 0xefcdab89, h2 = 0x98badcfe, h3 = 0x10325476, h4 = 0xc3d2e1f0,
      Nl = 0, Nh = 0, sha_data = replicate 64 0, sha_num = 0\<rparr>"

subsection \<open>Macros\<close>

definition md32_ROTATE :: "u32 \<Rightarrow> nat \<Rightarrow> u32" where
  "md32_ROTATE a n = push_bit n a OR drop_bit (32 - n) (a AND 0xffffffff)"

text \<open>\<open>HOST_c2l\<close> at offset \<open>i\<close> of \<open>c\<close>, and the four bytes that \<open>HOST_l2c\<close> stores.\<close>

definition HOST_c2l :: "u8 list \<Rightarrow> nat \<Rightarrow> u32" where
  "HOST_c2l c i =
     push_bit 24 (ucast (c ! i)) OR push_bit 16 (ucast (c ! (i + 1))) OR
     push_bit 8 (ucast (c ! (i + 2))) OR ucast (c ! (i + 3))"

definition HOST_l2c :: "u32 \<Rightarrow> u8 list" where
  "HOST_l2c l =
     [ucast (drop_bit 24 l AND 0xff), ucast (drop_bit 16 l AND 0xff),
      ucast (drop_bit 8 l AND 0xff), ucast (l AND 0xff)]"

definition K_00_19 :: u32 where "K_00_19 = 0x5a827999"

definition K_20_39 :: u32 where "K_20_39 = 0x6ed9eba1"

definition K_40_59 :: u32 where "K_40_59 = 0x8f1bbcdc"

definition K_60_79 :: u32 where "K_60_79 = 0xca62c1d6"

definition F_00_19 :: "u32 \<Rightarrow> u32 \<Rightarrow> u32 \<Rightarrow> u32" where
  "F_00_19 b c d = ((c XOR d) AND b) XOR d"

definition F_20_39 :: "u32 \<Rightarrow> u32 \<Rightarrow> u32 \<Rightarrow> u32" where
  "F_20_39 b c d = b XOR c XOR d"

definition F_40_59 :: "u32 \<Rightarrow> u32 \<Rightarrow> u32 \<Rightarrow> u32" where
  "F_40_59 b c d = (b AND c) OR ((b OR c) AND d)"

definition F_60_79 :: "u32 \<Rightarrow> u32 \<Rightarrow> u32 \<Rightarrow> u32" where
  "F_60_79 b c d = F_20_39 b c d"

text \<open>\<open>Xupdate (a, ix, ia, ib, ic, id)\<close> leaves this value in both \<open>a\<close> and \<open>ix\<close>.\<close>

definition Xupdate :: "u32 list \<Rightarrow> nat \<Rightarrow> nat \<Rightarrow> nat \<Rightarrow> nat \<Rightarrow> u32" where
  "Xupdate X ia ib ic iid = md32_ROTATE (X ! ia XOR X ! ib XOR X ! ic XOR X ! iid) 1"

subsection \<open>The small-footprint block function\<close>

type_synonym sha_regs = "u32 \<times> u32 \<times> u32 \<times> u32 \<times> u32"

type_synonym small_state = "u32 list \<times> sha_regs"

text \<open>The assignments that end every \<open>BODY\<close> macro: \<open>E=D, D=C, C=ROTATE(B,30), B=A; A=...\<close>.\<close>

fun shift_regs :: "u32 \<Rightarrow> sha_regs \<Rightarrow> sha_regs" where
  "shift_regs T (A, B, C, D, E) = (md32_ROTATE A 5 + T, A, md32_ROTATE B 30, C, D)"

fun small_00_15 :: "u8 list \<Rightarrow> small_state \<Rightarrow> nat \<Rightarrow> small_state" where
  "small_00_15 data (X, A, B, C, D, E) i =
     (let l = HOST_c2l data (4 * i);
          X = X[i := l];
          T = E + K_00_19 + F_00_19 B C D
      in (X, shift_regs (T + X ! i) (A, B, C, D, E)))"

fun small_16_19 :: "small_state \<Rightarrow> nat \<times> nat \<times> nat \<times> nat \<Rightarrow> small_state" where
  "small_16_19 (X, A, B, C, D, E) (xa, xb, xc, xd) =
     (let T = Xupdate X xa xb xc xd; X = X[xa := T]; T = T + (E + K_00_19 + F_00_19 B C D)
      in (X, shift_regs T (A, B, C, D, E)))"

fun small_20_39 :: "small_state \<Rightarrow> nat \<times> nat \<times> nat \<times> nat \<Rightarrow> small_state" where
  "small_20_39 (X, A, B, C, D, E) (xa, xb, xc, xd) =
     (let T = Xupdate X xa xb xc xd; X = X[xa := T]; T = T + (E + K_20_39 + F_20_39 B C D)
      in (X, shift_regs T (A, B, C, D, E)))"

fun small_40_59 :: "small_state \<Rightarrow> nat \<times> nat \<times> nat \<times> nat \<Rightarrow> small_state" where
  "small_40_59 (X, A, B, C, D, E) (xa, xb, xc, xd) =
     (let T = Xupdate X xa xb xc xd; X = X[xa := T]; T = T + (E + K_40_59 + F_40_59 B C D)
      in (X, shift_regs T (A, B, C, D, E)))"

fun small_60_79 :: "small_state \<Rightarrow> nat \<times> nat \<times> nat \<times> nat \<Rightarrow> small_state" where
  "small_60_79 (X, A, B, C, D, E) (xa, xb, xc, xd) =
     (let T = Xupdate X xa xb xc xd; X = X[xa := T]; T = E + K_60_79 + F_60_79 B C D
      in (X, shift_regs (T + X ! xa) (A, B, C, D, E)))"

definition small_block :: "sha_regs \<Rightarrow> u8 list \<Rightarrow> sha_regs" where
  "small_block regs data =
     (let s = (replicate 16 0, regs);
          s = foldl (small_00_15 data) s [0..<16];
          s = foldl (\<lambda>s i. small_16_19 s (i, i + 2, i + 8, (i + 13) mod 16)) s [0..<4];
          s = foldl (\<lambda>s i. small_20_39 s
                (i mod 16, (i + 2) mod 16, (i + 8) mod 16, (i + 13) mod 16)) s [4..<24];
          s = foldl (\<lambda>s i. small_40_59 s
                ((i + 8) mod 16, (i + 10) mod 16, i mod 16, (i + 5) mod 16)) s [0..<20];
          s = foldl (\<lambda>s i. small_60_79 s
                ((i + 8) mod 16, (i + 10) mod 16, i mod 16, (i + 5) mod 16)) s [4..<24]
      in snd s)"

text \<open>\<open>c->h0 = (c->h0 + A) & 0xffffffffL\<close> and the four other additions.\<close>

fun add_regs :: "SHA_CTX \<Rightarrow> sha_regs \<Rightarrow> SHA_CTX" where
  "add_regs c (A, B, C, D, E) =
     c\<lparr>h0 := (h0 c + A) AND 0xffffffff, h1 := (h1 c + B) AND 0xffffffff,
       h2 := (h2 c + C) AND 0xffffffff, h3 := (h3 c + D) AND 0xffffffff,
       h4 := (h4 c + E) AND 0xffffffff\<rparr>"

text \<open>The \<open>for (;;)\<close> loop over \<open>num\<close> blocks; no caller passes 0.\<close>

fun small_block_data_order :: "SHA_CTX \<Rightarrow> u8 list \<Rightarrow> nat \<Rightarrow> SHA_CTX" where
  "small_block_data_order c p 0 = c"
| "small_block_data_order c p (Suc num) =
     (let c = add_regs c (small_block (h0 c, h1 c, h2 c, h3 c, h4 c) p)
      in if num = 0 then c else small_block_data_order c (drop 64 p) num)"

subsection \<open>The unrolled block function\<close>

text \<open>The register file: places of \<open>A\<close>, \<open>B\<close>, \<open>C\<close>, \<open>D\<close>, \<open>E\<close> and \<open>T\<close>.\<close>

abbreviation (input) rA :: nat where "rA \<equiv> 0"
abbreviation (input) rB :: nat where "rB \<equiv> 1"
abbreviation (input) rC :: nat where "rC \<equiv> 2"
abbreviation (input) rD :: nat where "rD \<equiv> 3"
abbreviation (input) rE :: nat where "rE \<equiv> 4"
abbreviation (input) rT :: nat where "rT \<equiv> 5"

text \<open>The arguments \<open>a,b,c,d,e,f\<close> of a macro call.\<close>

type_synonym roles = "nat \<times> nat \<times> nat \<times> nat \<times> nat \<times> nat"

type_synonym unrolled_state = "u32 list \<times> u32 list"

fun BODY_00_15 :: "unrolled_state \<Rightarrow> nat \<times> roles \<times> nat \<Rightarrow> unrolled_state" where
  "BODY_00_15 (X, R) (i, (a, b, c, d, e, f), xi) =
     (let R = R[f := X ! xi + R ! e + K_00_19 + md32_ROTATE (R ! a) 5 +
            F_00_19 (R ! b) (R ! c) (R ! d)]
      in (X, R[b := md32_ROTATE (R ! b) 30]))"

fun BODY_16_19 ::
  "unrolled_state \<Rightarrow> nat \<times> roles \<times> nat \<times> nat \<times> nat \<times> nat \<times> nat \<Rightarrow> unrolled_state" where
  "BODY_16_19 (X, R) (i, (a, b, c, d, e, f), xi, xa, xb, xc, xd) =
     (let u = Xupdate X xa xb xc xd; X = X[xi := u]; R = R[f := u];
          R = R[f := R ! f + (R ! e + K_00_19 + md32_ROTATE (R ! a) 5 +
            F_00_19 (R ! b) (R ! c) (R ! d))]
      in (X, R[b := md32_ROTATE (R ! b) 30]))"

fun BODY_20_31 ::
  "unrolled_state \<Rightarrow> nat \<times> roles \<times> nat \<times> nat \<times> nat \<times> nat \<times> nat \<Rightarrow> unrolled_state" where
  "BODY_20_31 (X, R) (i, (a, b, c, d, e, f), xi, xa, xb, xc, xd) =
     (let u = Xupdate X xa xb xc xd; X = X[xi := u]; R = R[f := u];
          R = R[f := R ! f + (R ! e + K_20_39 + md32_ROTATE (R ! a) 5 +
            F_20_39 (R ! b) (R ! c) (R ! d))]
      in (X, R[b := md32_ROTATE (R ! b) 30]))"

fun BODY_32_39 ::
  "unrolled_state \<Rightarrow> nat \<times> roles \<times> nat \<times> nat \<times> nat \<times> nat \<Rightarrow> unrolled_state" where
  "BODY_32_39 (X, R) (i, (a, b, c, d, e, f), xa, xb, xc, xd) =
     (let u = Xupdate X xa xb xc xd; X = X[xa := u]; R = R[f := u];
          R = R[f := R ! f + (R ! e + K_20_39 + md32_ROTATE (R ! a) 5 +
            F_20_39 (R ! b) (R ! c) (R ! d))]
      in (X, R[b := md32_ROTATE (R ! b) 30]))"

fun BODY_40_59 ::
  "unrolled_state \<Rightarrow> nat \<times> roles \<times> nat \<times> nat \<times> nat \<times> nat \<Rightarrow> unrolled_state" where
  "BODY_40_59 (X, R) (i, (a, b, c, d, e, f), xa, xb, xc, xd) =
     (let u = Xupdate X xa xb xc xd; X = X[xa := u]; R = R[f := u];
          R = R[f := R ! f + (R ! e + K_40_59 + md32_ROTATE (R ! a) 5 +
            F_40_59 (R ! b) (R ! c) (R ! d))]
      in (X, R[b := md32_ROTATE (R ! b) 30]))"

fun BODY_60_79 ::
  "unrolled_state \<Rightarrow> nat \<times> roles \<times> nat \<times> nat \<times> nat \<times> nat \<Rightarrow> unrolled_state" where
  "BODY_60_79 (X, R) (i, (a, b, c, d, e, f), xa, xb, xc, xd) =
     (let u = Xupdate X xa xb xc xd; X = X[xa := u]; R = R[f := u];
          R = R[f := X ! xa + R ! e + K_60_79 + md32_ROTATE (R ! a) 5 +
            F_60_79 (R ! b) (R ! c) (R ! d)]
      in (X, R[b := md32_ROTATE (R ! b) 30]))"

definition calls_00_15 :: "(nat \<times> roles \<times> nat) list" where
  "calls_00_15 =
     [(0, (rA, rB, rC, rD, rE, rT), 0),
      (1, (rT, rA, rB, rC, rD, rE), 1),
      (2, (rE, rT, rA, rB, rC, rD), 2),
      (3, (rD, rE, rT, rA, rB, rC), 3),
      (4, (rC, rD, rE, rT, rA, rB), 4),
      (5, (rB, rC, rD, rE, rT, rA), 5),
      (6, (rA, rB, rC, rD, rE, rT), 6),
      (7, (rT, rA, rB, rC, rD, rE), 7),
      (8, (rE, rT, rA, rB, rC, rD), 8),
      (9, (rD, rE, rT, rA, rB, rC), 9),
      (10, (rC, rD, rE, rT, rA, rB), 10),
      (11, (rB, rC, rD, rE, rT, rA), 11),
      (12, (rA, rB, rC, rD, rE, rT), 12),
      (13, (rT, rA, rB, rC, rD, rE), 13),
      (14, (rE, rT, rA, rB, rC, rD), 14),
      (15, (rD, rE, rT, rA, rB, rC), 15)]"

definition calls_16_19 :: "(nat \<times> roles \<times> nat \<times> nat \<times> nat \<times> nat \<times> nat) list" where
  "calls_16_19 =
     [(16, (rC, rD, rE, rT, rA, rB), 0, 0, 2, 8, 13),
      (17, (rB, rC, rD, rE, rT, rA), 1, 1, 3, 9, 14),
      (18, (rA, rB, rC, rD, rE, rT), 2, 2, 4, 10, 15),
      (19, (rT, rA, rB, rC, rD, rE), 3, 3, 5, 11, 0)]"

definition calls_20_31 :: "(nat \<times> roles \<times> nat \<times> nat \<times> nat \<times> nat \<times> nat) list" where
  "calls_20_31 =
     [(20, (rE, rT, rA, rB, rC, rD), 4, 4, 6, 12, 1),
      (21, (rD, rE, rT, rA, rB, rC), 5, 5, 7, 13, 2),
      (22, (rC, rD, rE, rT, rA, rB), 6, 6, 8, 14, 3),
      (23, (rB, rC, rD, rE, rT, rA), 7, 7, 9, 15, 4),
      (24, (rA, rB, rC, rD, rE, rT), 8, 8, 10, 0, 5),
      (25, (rT, rA, rB, rC, rD, rE), 9, 9, 11, 1, 6),
      (26, (rE, rT, rA, rB, rC, rD), 10, 10, 12, 2, 7),
      (27, (rD, rE, rT, rA, rB, rC), 11, 11, 13, 3, 8),
      (28, (rC, rD, rE, rT, rA, rB), 12, 12, 14, 4, 9),
      (29, (rB, rC, rD, rE, rT, rA), 13, 13, 15, 5, 10),
      (30, (rA, rB, rC, rD, rE, rT), 14, 14, 0, 6, 11),
      (31, (rT, rA, rB, rC, rD, rE), 15, 15, 1, 7, 12)]"

definition calls_32_39 :: "(nat \<times> roles \<times> nat \<times> nat \<times> nat \<times> nat) list" where
  "calls_32_39 =
     [(32, (rE, rT, rA, rB, rC, rD), 0, 2, 8, 13),
      (33, (rD, rE, rT, rA, rB, rC), 1, 3, 9, 14),
      (34, (rC, rD, rE, rT, rA, rB), 2, 4, 10, 15),
      (35, (rB, rC, rD, rE, rT, rA), 3, 5, 11, 0),
      (36, (rA, rB, rC, rD, rE, rT), 4, 6, 12, 1),
      (37, (rT, rA, rB, rC, rD, rE), 5, 7, 13, 2),
      (38, (rE, rT, rA, rB, rC, rD), 6, 8, 14, 3),
      (39, (rD, rE, rT, rA, rB, rC), 7, 9, 15, 4)]"

definition calls_40_59 :: "(nat \<times> roles \<times> nat \<times> nat \<times> nat \<times> nat) list" where
  "calls_40_59 =
     [(40, (rC, rD, rE, rT, rA, rB), 8, 10, 0, 5),
      (41, (rB, rC, rD, rE, rT, rA), 9, 11, 1, 6),
      (42, (rA, rB, rC, rD, rE, rT), 10, 12, 2, 7),
      (43, (rT, rA, rB, rC, rD, rE), 11, 13, 3, 8),
      (44, (rE, rT, rA, rB, rC, rD), 12, 14, 4, 9),
      (45, (rD, rE, rT, rA, rB, rC), 13, 15, 5, 10),
      (46, (rC, rD, rE, rT, rA, rB), 14, 0, 6, 11),
      (47, (rB, rC, rD, rE, rT, rA), 15, 1, 7, 12),
      (48, (rA, rB, rC, rD, rE, rT), 0, 2, 8, 13),
      (49, (rT, rA, rB, rC, rD, rE), 1, 3, 9, 14),
      (50, (rE, rT, rA, rB, rC, rD), 2, 4, 10, 15),
      (51, (rD, rE, rT, rA, rB, rC), 3, 5, 11, 0),
      (52, (rC, rD, rE, rT, rA, rB), 4, 6, 12, 1),
      (53, (rB, rC, rD, rE, rT, rA), 5, 7, 13, 2),
      (54, (rA, rB, rC, rD, rE, rT), 6, 8, 14, 3),
      (55, (rT, rA, rB, rC, rD, rE), 7, 9, 15, 4),
      (56, (rE, rT, rA, rB, rC, rD), 8, 10, 0, 5),
      (57, (rD, rE, rT, rA, rB, rC), 9, 11, 1, 6),
      (58, (rC, rD, rE, rT, rA, rB), 10, 12, 2, 7),
      (59, (rB, rC, rD, rE, rT, rA), 11, 13, 3, 8)]"

definition calls_60_79 :: "(nat \<times> roles \<times> nat \<times> nat \<times> nat \<times> nat) list" where
  "calls_60_79 =
     [(60, (rA, rB, rC, rD, rE, rT), 12, 14, 4, 9),
      (61, (rT, rA, rB, rC, rD, rE), 13, 15, 5, 10),
      (62, (rE, rT, rA, rB, rC, rD), 14, 0, 6, 11),
      (63, (rD, rE, rT, rA, rB, rC), 15, 1, 7, 12),
      (64, (rC, rD, rE, rT, rA, rB), 0, 2, 8, 13),
      (65, (rB, rC, rD, rE, rT, rA), 1, 3, 9, 14),
      (66, (rA, rB, rC, rD, rE, rT), 2, 4, 10, 15),
      (67, (rT, rA, rB, rC, rD, rE), 3, 5, 11, 0),
      (68, (rE, rT, rA, rB, rC, rD), 4, 6, 12, 1),
      (69, (rD, rE, rT, rA, rB, rC), 5, 7, 13, 2),
      (70, (rC, rD, rE, rT, rA, rB), 6, 8, 14, 3),
      (71, (rB, rC, rD, rE, rT, rA), 7, 9, 15, 4),
      (72, (rA, rB, rC, rD, rE, rT), 8, 10, 0, 5),
      (73, (rT, rA, rB, rC, rD, rE), 9, 11, 1, 6),
      (74, (rE, rT, rA, rB, rC, rD), 10, 12, 2, 7),
      (75, (rD, rE, rT, rA, rB, rC), 11, 13, 3, 8),
      (76, (rC, rD, rE, rT, rA, rB), 12, 14, 4, 9),
      (77, (rB, rC, rD, rE, rT, rA), 13, 15, 5, 10),
      (78, (rA, rB, rC, rD, rE, rT), 14, 0, 6, 11),
      (79, (rT, rA, rB, rC, rD, rE), 15, 1, 7, 12)]"

text \<open>One turn of the first sixteen: the macro call, then the load of \<open>X (i + 2)\<close>.\<close>

definition load_turn :: "u8 list \<Rightarrow> unrolled_state \<Rightarrow> nat \<times> roles \<times> nat \<Rightarrow> unrolled_state" where
  "load_turn data s call =
     (case BODY_00_15 s call of
        (X, R) \<Rightarrow> if fst call < 14
          then (X[fst call + 2 := HOST_c2l data (4 * (fst call + 2))], R) else (X, R))"

definition unrolled_block :: "sha_regs \<Rightarrow> u8 list \<Rightarrow> u32 list" where
  "unrolled_block regs data =
     (case regs of (A, B, C, D, E) \<Rightarrow>
       let X = (replicate 16 0)[0 := HOST_c2l data 0, 1 := HOST_c2l data 4];
           s = (X, [A, B, C, D, E, 0]);
           s = foldl (load_turn data) s calls_00_15;
           s = foldl BODY_16_19 s calls_16_19;
           s = foldl BODY_20_31 s calls_20_31;
           s = foldl BODY_32_39 s calls_32_39;
           s = foldl BODY_40_59 s calls_40_59;
           s = foldl BODY_60_79 s calls_60_79
       in snd s)"

fun sha1_block_data_order :: "SHA_CTX \<Rightarrow> u8 list \<Rightarrow> nat \<Rightarrow> SHA_CTX" where
  "sha1_block_data_order c p 0 = c"
| "sha1_block_data_order c p (Suc num) =
     (let R = unrolled_block (h0 c, h1 c, h2 c, h3 c, h4 c) p;
          c = add_regs c (R ! rE, R ! rT, R ! rA, R ! rB, R ! rC)
      in if num = 0 then c else sha1_block_data_order c (drop 64 p) num)"

subsection \<open>md32_common.h\<close>

type_synonym block_data_order = "SHA_CTX \<Rightarrow> u8 list \<Rightarrow> nat \<Rightarrow> SHA_CTX"

definition count_bits :: "SHA_CTX \<Rightarrow> nat \<Rightarrow> SHA_CTX" where
  "count_bits c len =
     (let l = (Nl c + push_bit 3 (of_nat len)) AND 0xffffffff;
          c = (if l < Nl c then c\<lparr>Nh := Nh c + 1\<rparr> else c);
          c = c\<lparr>Nh := Nh c + of_nat (drop_bit 29 len)\<rparr>
      in c\<lparr>Nl := l\<rparr>)"

text \<open>From \<open>n = len / HASH_CBLOCK\<close> to the end of \<open>HASH_UPDATE\<close>.\<close>

definition update_rest :: "block_data_order \<Rightarrow> SHA_CTX \<Rightarrow> u8 list \<Rightarrow> SHA_CTX" where
  "update_rest blk c data =
     (let n = length data div 64;
          (c, data) = (if n > 0 then (blk c data n, drop (n * 64) data) else (c, data))
      in if data \<noteq> [] then c\<lparr>sha_num := length data, sha_data := write_at (sha_data c) 0 data\<rparr>
         else c)"

definition HASH_UPDATE :: "block_data_order \<Rightarrow> SHA_CTX \<Rightarrow> u8 list \<Rightarrow> SHA_CTX" where
  "HASH_UPDATE blk c data =
     (let len = length data
      in if len = 0 then c
         else
           let c = count_bits c len; n = sha_num c
           in if n \<noteq> 0 then
                if len \<ge> 64 \<or> len + n \<ge> 64 then
                  let c = c\<lparr>sha_data := write_at (sha_data c) n (take (64 - n) data)\<rparr>;
                      c = blk c (sha_data c) 1;
                      c = c\<lparr>sha_num := 0, sha_data := replicate 64 0\<rparr>
                  in update_rest blk c (drop (64 - n) data)
                else c\<lparr>sha_data := write_at (sha_data c) n data, sha_num := n + len\<rparr>
              else update_rest blk c data)"

definition HASH_TRANSFORM :: "block_data_order \<Rightarrow> SHA_CTX \<Rightarrow> u8 list \<Rightarrow> SHA_CTX" where
  "HASH_TRANSFORM blk c data = blk c data 1"

definition HASH_MAKE_STRING :: "SHA_CTX \<Rightarrow> u8 list" where
  "HASH_MAKE_STRING c =
     HOST_l2c (h0 c) @ HOST_l2c (h1 c) @ HOST_l2c (h2 c) @ HOST_l2c (h3 c) @ HOST_l2c (h4 c)"

definition HASH_FINAL :: "block_data_order \<Rightarrow> SHA_CTX \<Rightarrow> u8 list \<times> SHA_CTX" where
  "HASH_FINAL blk c =
     (let n = sha_num c;
          c = c\<lparr>sha_data := (sha_data c)[n := 0x80]\<rparr>;
          n = n + 1;
          (c, n) = (if n > 64 - 8 then
              let c = c\<lparr>sha_data := write_at (sha_data c) n (replicate (64 - n) 0)\<rparr>
              in (blk c (sha_data c) 1, 0)
            else (c, n));
          c = c\<lparr>sha_data := write_at (sha_data c) n (replicate (64 - 8 - n) 0)\<rparr>;
          c = c\<lparr>sha_data := write_at (sha_data c) 56 (HOST_l2c (Nh c))\<rparr>;
          c = c\<lparr>sha_data := write_at (sha_data c) 60 (HOST_l2c (Nl c))\<rparr>;
          c = blk c (sha_data c) 1;
          c = c\<lparr>sha_num := 0, sha_data := replicate 64 0\<rparr>
      in (HASH_MAKE_STRING c, c))"

definition SHA1_Update :: "SHA_CTX \<Rightarrow> u8 list \<Rightarrow> SHA_CTX" where
  "SHA1_Update = HASH_UPDATE sha1_block_data_order"

definition SHA1_Transform :: "SHA_CTX \<Rightarrow> u8 list \<Rightarrow> SHA_CTX" where
  "SHA1_Transform = HASH_TRANSFORM sha1_block_data_order"

definition SHA1_Final :: "SHA_CTX \<Rightarrow> u8 list \<times> SHA_CTX" where
  "SHA1_Final = HASH_FINAL sha1_block_data_order"

definition SHA1 :: "u8 list \<Rightarrow> u8 list" where
  "SHA1 d = fst (SHA1_Final (SHA1_Update SHA1_Init d))"

end
