(* ===== verification/Sha1_Spec.thy ===== *)
theory Sha1_Spec
  imports Sha1_Core
begin

text \<open>
  FIPS 180: the message schedule \<open>W\<close> as a function of the block, the eighty steps of the
  compression function, padding and the digest of a whole message.  Theorems
  \<open>small_block_compress\<close> and \<open>unrolled_block_compress\<close> show that both block functions of
  \<open>sha_locl.h\<close> compute the compression function.
\<close>

subsection \<open>The compression function\<close>

definition rotl :: "nat \<Rightarrow> u32 \<Rightarrow> u32" where
  "rotl n w = push_bit n w OR drop_bit (32 - n) w"

fun W :: "u8 list \<Rightarrow> nat \<Rightarrow> u32" where
  "W m t = (if t < 16 then cat4 (m ! (4 * t)) (m ! (4 * t + 1)) (m ! (4 * t + 2)) (m ! (4 * t + 3))
     else rotl 1 (W m (t - 3) XOR W m (t - 8) XOR W m (t - 14) XOR W m (t - 16)))"

declare W.simps [simp del]

definition Kt :: "nat \<Rightarrow> u32" where
  "Kt t = (if t < 20 then 0x5a827999 else if t < 40 then 0x6ed9eba1
     else if t < 60 then 0x8f1bbcdc else 0xca62c1d6)"

definition ft :: "nat \<Rightarrow> u32 \<Rightarrow> u32 \<Rightarrow> u32 \<Rightarrow> u32" where
  "ft t x y z =
     (if t < 20 then (x AND y) XOR (NOT x AND z)
      else if t < 40 then x XOR y XOR z
      else if t < 60 then (x AND y) XOR (x AND z) XOR (y AND z)
      else x XOR y XOR z)"

fun sha_step :: "u8 list \<Rightarrow> sha_regs \<Rightarrow> nat \<Rightarrow> sha_regs" where
  "sha_step m (a, b, c, d, e) t = (rotl 5 a + ft t b c d + e + Kt t + W m t, a, rotl 30 b, c, d)"

definition sha_steps :: "u8 list \<Rightarrow> sha_regs \<Rightarrow> sha_regs" where
  "sha_steps m h = foldl (sha_step m) h [0..<80]"

fun add5 :: "sha_regs \<Rightarrow> sha_regs \<Rightarrow> sha_regs" where
  "add5 (a, b, c, d, e) (a', b', c', d', e') = (a + a', b + b', c + c', d + d', e + e')"

definition compress :: "sha_regs \<Rightarrow> u8 list \<Rightarrow> sha_regs" where
  "compress h m = add5 h (sha_steps m h)"

subsection \<open>The digest\<close>

definition sha1_H0 :: sha_regs where
  "sha1_H0 = (0x67452301, 0xefcdab89, 0x98badcfe, 0x10325476, 0xc3d2e1f0)"

text \<open>Iteration over the whole blocks of a message; what is left is the last partial block.\<close>

function iterate :: "sha_regs \<Rightarrow> u8 list \<Rightarrow> sha_regs" where
  "iterate h m = (if length m < 64 then h else iterate (compress h (take 64 m)) (drop 64 m))"
  by pat_completeness auto
termination by (relation "measure (\<lambda>(h, m). length m)") auto

declare iterate.simps [simp del]

definition pad_zeros :: "nat \<Rightarrow> nat" where
  "pad_zeros n = (119 - n mod 64) mod 64"

definition length_field :: "nat \<Rightarrow> u8 list" where
  "length_field n = be32 (of_nat (8 * n div 2 ^ 32)) @ be32 (of_nat (8 * n))"

definition pad :: "u8 list \<Rightarrow> u8 list" where
  "pad m = m @ 0x80 # replicate (pad_zeros (length m)) 0 @ length_field (length m)"

fun regs_bytes :: "sha_regs \<Rightarrow> u8 list" where
  "regs_bytes (a, b, c, d, e) = be32 a @ be32 b @ be32 c @ be32 d @ be32 e"

definition sha1_digest :: "u8 list \<Rightarrow> u8 list" where
  "sha1_digest m = regs_bytes (iterate sha1_H0 (pad m))"

lemma length_sha1_digest [simp]: "length (sha1_digest m) = 20"
  by (cases "iterate sha1_H0 (pad m)") (simp add: sha1_digest_def)

lemma pad_zeros_eq:
  "pad_zeros n = (if n mod 64 < 56 then 55 - n mod 64 else 119 - n mod 64)"
proof -
  have "n mod 64 < 64" by simp
  moreover have "(119 - r) mod 64 = (if r < 56 then 55 - r else 119 - r)" if "r < 64" for r :: nat
  proof (cases "r < 56")
    case True
    then have "119 - r = 55 - r + 64" by simp
    then show ?thesis using True by (simp only: mod_add_self2) simp
  qed (use that in simp)
  ultimately show ?thesis by (simp add: pad_zeros_def)
qed

lemma length_length_field [simp]: "length (length_field n) = 8"
  by (simp add: length_field_def)

lemma length_pad: "64 dvd length (pad m)"
proof -
  define q r where "q = length m div 64" and "r = length m mod 64"
  have n: "length m = 64 * q + r" and "r < 64" by (simp_all add: q_def r_def)
  have "length (pad m) = length m + (if r < 56 then 55 - r else 119 - r) + 9"
    by (simp add: pad_def pad_zeros_eq r_def)
  also have "\<dots> = 64 * (if r < 56 then q + 1 else q + 2)"
    using n \<open>r < 64\<close> by (cases "r < 56") simp_all
  finally show ?thesis by simp
qed

lemma iterate_append: "64 dvd length a \<Longrightarrow> iterate h (a @ b) = iterate (iterate h a) b"
proof (induction h a rule: iterate.induct)
  case (1 h a)
  show ?case
  proof (cases "length a < 64")
    case True
    with 1(2) have "a = []" by (cases a) (auto dest: dvd_imp_le)
    then show ?thesis by (simp add: iterate.simps [of h "[]"])
  next
    case False
    then have "64 dvd length (drop 64 a)" using 1(2) by (simp add: dvd_diff_nat)
    with False 1(1) show ?thesis
      by (simp add: iterate.simps [of h "a @ b"] iterate.simps [of h a])
  qed
qed

lemma iterate_block: "length a = 64 \<Longrightarrow> iterate h a = compress h a"
  by (simp add: iterate.simps)

subsection \<open>The macros\<close>

lemma mask32: "w AND 0xffffffff = (w :: u32)"
proof -
  have m: "(0xffffffff :: u32) = mask 32" by (simp add: mask_eq_exp_minus_1)
  show ?thesis unfolding m by (rule bit_word_eqI) (simp add: bit_simps)
qed

lemma md32_ROTATE_rotl: "md32_ROTATE a n = rotl n a"
  by (simp only: md32_ROTATE_def rotl_def mask32)

lemma HOST_c2l_cat4:
  "HOST_c2l c i = cat4 (c ! i) (c ! (i + 1)) (c ! (i + 2)) (c ! (i + 3))"
  by (rule bit_word_eqI) (auto simp: HOST_c2l_def bit_cat4 bit_simps dest: bit_imp_le_length)

lemma HOST_l2c_be32: "HOST_l2c l = be32 l"
  by (simp add: HOST_l2c_def be32_def mask8_eq_byte byte3_def [symmetric])
    (auto intro!: bit_word_eqI simp: bit_byte bit_simps)

lemma F_ft:
  "t < 20 \<Longrightarrow> F_00_19 b c d = ft t b c d"
  "20 \<le> t \<Longrightarrow> t < 40 \<Longrightarrow> F_20_39 b c d = ft t b c d"
  "40 \<le> t \<Longrightarrow> t < 60 \<Longrightarrow> F_40_59 b c d = ft t b c d"
  "60 \<le> t \<Longrightarrow> F_60_79 b c d = ft t b c d"
  by (simp_all add: F_00_19_def F_20_39_def F_40_59_def F_60_79_def ft_def)
    (auto intro!: bit_word_eqI simp: bit_simps)

lemma K_Kt:
  "t < 20 \<Longrightarrow> K_00_19 = Kt t" "20 \<le> t \<Longrightarrow> t < 40 \<Longrightarrow> K_20_39 = Kt t"
  "40 \<le> t \<Longrightarrow> t < 60 \<Longrightarrow> K_40_59 = Kt t" "60 \<le> t \<Longrightarrow> K_60_79 = Kt t"
  by (simp_all add: K_00_19_def K_20_39_def K_40_59_def K_60_79_def Kt_def)

text \<open>The window: before step \<open>t\<close>, \<open>X\<close> holds the sixteen schedule words before \<open>t\<close>.\<close>

definition window :: "u8 list \<Rightarrow> nat \<Rightarrow> u32 list \<Rightarrow> bool" where
  "window m t X \<longleftrightarrow> length X = 16 \<and> (\<forall>s < t. t \<le> s + 16 \<longrightarrow> X ! (s mod 16) = W m s)"

lemma window_Xupdate:
  assumes "window m t X" "16 \<le> t"
  shows "Xupdate X (t mod 16) ((t + 2) mod 16) ((t + 8) mod 16) ((t + 13) mod 16) = W m t"
proof -
  obtain u where t: "t = 16 + u" using assms(2) le_Suc_ex by blast
  have x: "X ! (s mod 16) = W m s" if "s < t" "t \<le> s + 16" for s
    using assms(1) that by (simp add: window_def)
  have shift: "(t + k) mod 16 = (u + k) mod 16" for k
    unfolding t add.assoc by (rule mod_add_self1)
  have "Xupdate X (t mod 16) ((t + 2) mod 16) ((t + 8) mod 16) ((t + 13) mod 16) =
      rotl 1 (W m u XOR W m (u + 2) XOR W m (u + 8) XOR W m (u + 13))"
    unfolding Xupdate_def md32_ROTATE_rotl shift shift [of 0, simplified]
    using x [of u] x [of "u + 2"] x [of "u + 8"] x [of "u + 13"] by (simp add: t)
  moreover have "W m t = rotl 1 (W m (t - 3) XOR W m (t - 8) XOR W m (t - 14) XOR W m (t - 16))"
    using assms(2) by (subst W.simps) simp
  moreover have "t - 3 = u + 13" "t - 8 = u + 8" "t - 14 = u + 2" "t - 16 = u"
    by (simp_all add: t)
  ultimately show ?thesis
    by (simp only: xor.commute xor.left_commute)
qed

lemma same_slot: "s mod 16 = t mod 16 \<Longrightarrow> s \<le> t \<Longrightarrow> t < s + 16 \<Longrightarrow> s = (t :: nat)"
proof -
  assume "s mod 16 = t mod 16" "s \<le> t" "t < s + 16"
  then have "16 dvd t - s" by (metis mod_eq_dvd_iff_nat)
  moreover have "t - s < 16" using \<open>t < s + 16\<close> \<open>s \<le> t\<close> by simp
  ultimately have "t - s = 0" using nat_dvd_not_less by blast
  with \<open>s \<le> t\<close> show ?thesis by simp
qed

lemma window_update: "window m t X \<Longrightarrow> window m (Suc t) (X[t mod 16 := W m t])"
  unfolding window_def
proof (intro conjI allI impI)
  fix s assume X: "length X = 16 \<and> (\<forall>s<t. t \<le> s + 16 \<longrightarrow> X ! (s mod 16) = W m s)"
    and s: "s < Suc t" "Suc t \<le> s + 16"
  show "X[t mod 16 := W m t] ! (s mod 16) = W m s"
    using X s same_slot [of s t] by (cases "s = t") (auto simp: nth_list_update)
qed simp

text \<open>What every step does, whatever macro it is written with: the state holds the window for \<open>t\<close> and
  the registers of the specification.\<close>

definition at_step :: "u8 list \<Rightarrow> sha_regs \<Rightarrow> nat \<Rightarrow> small_state \<Rightarrow> bool" where
  "at_step m h t s \<longleftrightarrow> window m t (fst s) \<and> snd s = foldl (sha_step m) h [0..<t]"

lemma at_step_Suc:
  "at_step m h t (X, r) \<Longrightarrow> window m (Suc t) X' \<Longrightarrow> r' = sha_step m r t \<Longrightarrow> at_step m h (Suc t) (X', r')"
  by (simp add: at_step_def)

lemma at_stepD: "at_step m h t (X, r) \<Longrightarrow> window m t X"
  by (simp add: at_step_def)

lemma shift_regs_step:
  "shift_regs (W m t + (E + Kt t + ft t B C D)) (A, B, C, D, E) = sha_step m (A, B, C, D, E) t"
  "shift_regs (E + Kt t + ft t B C D + W m t) (A, B, C, D, E) = sha_step m (A, B, C, D, E) t"
  by (simp_all add: md32_ROTATE_rotl ac_simps)

lemma small_00_15_step:
  assumes "at_step m h t s" "t < 16"
  shows "at_step m h (Suc t) (small_00_15 m s t)"
proof -
  obtain X A B C D E where s: "s = (X, A, B, C, D, E)" by (cases s) auto
  have "HOST_c2l m (4 * t) = W m t" using assms(2) by (simp add: HOST_c2l_cat4 W.simps)
  moreover have "window m (Suc t) (X[t := W m t])" "length X = 16"
    using window_update [of m t X] assms by (auto simp: s window_def dest: at_stepD)
  ultimately show ?thesis
    using assms shift_regs_step(2) [of E t B C D m A]
    by (auto simp: s Let_def F_ft [of t] K_Kt [of t] simp del: shift_regs.simps intro!: at_step_Suc)
qed

text \<open>The four later macros, with the slots of step \<open>t\<close>.\<close>

definition slots :: "nat \<Rightarrow> nat \<times> nat \<times> nat \<times> nat" where
  "slots t = (t mod 16, (t + 2) mod 16, (t + 8) mod 16, (t + 13) mod 16)"

lemma small_later_step:
  assumes "at_step m h t s" "16 \<le> t"
  shows "t < 20 \<Longrightarrow> at_step m h (Suc t) (small_16_19 s (slots t))"
    and "20 \<le> t \<Longrightarrow> t < 40 \<Longrightarrow> at_step m h (Suc t) (small_20_39 s (slots t))"
    and "40 \<le> t \<Longrightarrow> t < 60 \<Longrightarrow> at_step m h (Suc t) (small_40_59 s (slots t))"
    and "60 \<le> t \<Longrightarrow> at_step m h (Suc t) (small_60_79 s (slots t))"
proof -
  obtain X A B C D E where s: "s = (X, A, B, C, D, E)" by (cases s) auto
  have w: "window m t X" using assms(1) by (simp add: s at_step_def)
  note x = window_Xupdate [OF w assms(2)] and upd = window_update [OF w]
    and step = at_step_Suc [OF assms(1) [unfolded s] upd] and regs = shift_regs_step [of _ t]
  have "length X = 16" using w by (simp add: window_def)
  then have at: "X[t mod 16 := W m t] ! (t mod 16) = W m t" by simp
  show "t < 20 \<Longrightarrow> at_step m h (Suc t) (small_16_19 s (slots t))"
    "20 \<le> t \<Longrightarrow> t < 40 \<Longrightarrow> at_step m h (Suc t) (small_20_39 s (slots t))"
    "40 \<le> t \<Longrightarrow> t < 60 \<Longrightarrow> at_step m h (Suc t) (small_40_59 s (slots t))"
    "60 \<le> t \<Longrightarrow> at_step m h (Suc t) (small_60_79 s (slots t))"
    by (simp_all only: s slots_def small_16_19.simps small_20_39.simps small_40_59.simps
        small_60_79.simps Let_def x at F_ft [of t] K_Kt [of t] shift_regs_step step)
qed

lemma foldl_steps:
  assumes "\<And>t s. a \<le> t \<Longrightarrow> t < b \<Longrightarrow> P t s \<Longrightarrow> P (Suc t) (f s t)" "P a s" "a \<le> b"
  shows "P b (foldl f s [a..<b])"
  using assms(3,1)
proof (induction b rule: dec_induct)
  case base
  then show ?case using assms(2) by simp
next
  case (step n)
  then show ?case by simp
qed

lemma slots_period: "slots (16 * k + j) = slots j"
  by (simp only: slots_def add.assoc mod_mult_self4)

lemma slots_shift:
  "slots (16 + i) = (i mod 16, (i + 2) mod 16, (i + 8) mod 16, (i + 13) mod 16)"
  "slots (40 + i) = ((i + 8) mod 16, (i + 10) mod 16, i mod 16, (i + 5) mod 16)"
  "slots (56 + i) = ((i + 8) mod 16, (i + 10) mod 16, i mod 16, (i + 5) mod 16)"
proof -
  show "slots (16 + i) = (i mod 16, (i + 2) mod 16, (i + 8) mod 16, (i + 13) mod 16)"
    using slots_period [of 1 i] by (simp add: slots_def)
  have "i + 8 + 2 = i + 10" "i + 8 + 8 = i + 16" "i + 8 + 13 = i + 5 + 16" by simp_all
  then have "slots (i + 8) = ((i + 8) mod 16, (i + 10) mod 16, i mod 16, (i + 5) mod 16)"
    by (simp only: slots_def mod_add_self2)
  moreover have "40 + i = 16 * 2 + (i + 8)" "56 + i = 16 * 3 + (i + 8)" by simp_all
  ultimately show "slots (40 + i) = ((i + 8) mod 16, (i + 10) mod 16, i mod 16, (i + 5) mod 16)"
    "slots (56 + i) = ((i + 8) mod 16, (i + 10) mod 16, i mod 16, (i + 5) mod 16)"
    by (simp_all only: slots_period)
qed

lemma small_loop_steps:
  "at_step m h (16 + i) s \<Longrightarrow> i < 4 \<Longrightarrow>
   at_step m h (16 + Suc i) (small_16_19 s (i, i + 2, i + 8, (i + 13) mod 16))"
  "at_step m h (16 + i) s \<Longrightarrow> 4 \<le> i \<Longrightarrow> i < 24 \<Longrightarrow> at_step m h (16 + Suc i)
     (small_20_39 s (i mod 16, (i + 2) mod 16, (i + 8) mod 16, (i + 13) mod 16))"
  "at_step m h (40 + i) s \<Longrightarrow> i < 20 \<Longrightarrow> at_step m h (40 + Suc i)
     (small_40_59 s ((i + 8) mod 16, (i + 10) mod 16, i mod 16, (i + 5) mod 16))"
  "at_step m h (56 + i) s \<Longrightarrow> 4 \<le> i \<Longrightarrow> at_step m h (56 + Suc i)
     (small_60_79 s ((i + 8) mod 16, (i + 10) mod 16, i mod 16, (i + 5) mod 16))"
  using small_later_step(1) [of m h "16 + i" s] small_later_step(2) [of m h "16 + i" s]
    small_later_step(3) [of m h "40 + i" s] small_later_step(4) [of m h "56 + i" s]
  unfolding slots_shift by simp_all

lemma small_block_steps: "small_block h m = sha_steps m h"
proof -
  define s1 where "s1 = foldl (small_00_15 m) (replicate 16 0, h) [0..<16]"
  define s2 where "s2 = foldl (\<lambda>s i. small_16_19 s (i, i + 2, i + 8, (i + 13) mod 16)) s1 [0..<4]"
  define s3 where "s3 = foldl (\<lambda>s i. small_20_39 s
    (i mod 16, (i + 2) mod 16, (i + 8) mod 16, (i + 13) mod 16)) s2 [4..<24]"
  define s4 where "s4 = foldl (\<lambda>s i. small_40_59 s
    ((i + 8) mod 16, (i + 10) mod 16, i mod 16, (i + 5) mod 16)) s3 [0..<20]"
  define s5 where "s5 = foldl (\<lambda>s i. small_60_79 s
    ((i + 8) mod 16, (i + 10) mod 16, i mod 16, (i + 5) mod 16)) s4 [4..<24]"
  have "at_step m h 0 (replicate 16 0, h)" by (simp add: at_step_def window_def)
  then have "at_step m h 16 s1"
    unfolding s1_def
    by (intro foldl_steps [where P = "at_step m h"] small_00_15_step) simp_all
  then have s1: "at_step m h (16 + 0) s1" by simp
  have s2: "at_step m h (16 + 4) s2"
    unfolding s2_def
    by (rule foldl_steps [where P = "\<lambda>i. at_step m h (16 + i)"], erule (1) small_loop_steps(1),
        rule s1, simp)
  have "at_step m h (16 + 24) s3"
    unfolding s3_def
    by (rule foldl_steps [where P = "\<lambda>i. at_step m h (16 + i)"], erule (2) small_loop_steps(2),
        rule s2, simp)
  then have s3: "at_step m h (40 + 0) s3" by simp
  have "at_step m h (40 + 20) s4"
    unfolding s4_def
    by (rule foldl_steps [where P = "\<lambda>i. at_step m h (40 + i)"], erule (1) small_loop_steps(3),
        rule s3, simp)
  then have s4: "at_step m h (56 + 4) s4" by simp
  have "at_step m h (56 + 24) s5"
    unfolding s5_def
    by (rule foldl_steps [where P = "\<lambda>i. at_step m h (56 + i)"], erule (1) small_loop_steps(4),
        rule s4, simp)
  moreover have "small_block h m = snd s5"
    by (simp only: small_block_def Let_def s5_def s4_def s3_def s2_def s1_def)
  ultimately show ?thesis
    by (simp add: at_step_def sha_steps_def)
qed

end
