(* ===== verification/Sha1_Unrolled.thy ===== *)
theory Sha1_Unrolled
  imports Sha1_Spec
begin

text \<open>
  The unrolled block function of \<open>sha_locl.h\<close> computes the compression function too.  The eighty
  macro calls are shown to follow one pattern (\<open>calls_pattern\<close>: in call \<open>t\<close> the registers have been
  renamed \<open>t\<close> times and the slots of \<open>X\<close> are those of step \<open>t\<close>), and one lemma for each macro then
  carries the invariant from step to step.
\<close>

text \<open>The roles in call \<open>t\<close>: \<open>a\<close> is the register that was \<open>f\<close> one call earlier, and so on.\<close>

definition role :: "nat \<Rightarrow> roles" where
  "role t =
     [(rA, rB, rC, rD, rE, rT), (rT, rA, rB, rC, rD, rE), (rE, rT, rA, rB, rC, rD),
      (rD, rE, rT, rA, rB, rC), (rC, rD, rE, rT, rA, rB), (rB, rC, rD, rE, rT, rA)] ! (t mod 6)"

lemma upt_16: "[0..<16] = [0, 1, 2, 3, 4, 5, 6, 7, 8, 9, 10, 11, 12, 13, 14, 15]"
  by code_simp

lemma calls_pattern:
  "calls_00_15 = map (\<lambda>t. (t, role t, t)) [0..<16]"
  "calls_16_19 = map (\<lambda>t. (t, role t, t mod 16, slots t)) [16..<20]"
  "calls_20_31 = map (\<lambda>t. (t, role t, t mod 16, slots t)) [20..<32]"
  "calls_32_39 = map (\<lambda>t. (t, role t, slots t)) [32..<40]"
  "calls_40_59 = map (\<lambda>t. (t, role t, slots t)) [40..<60]"
  "calls_60_79 = map (\<lambda>t. (t, role t, slots t)) [60..<80]"
  unfolding calls_00_15_def calls_16_19_def calls_20_31_def calls_32_39_def calls_40_59_def
    calls_60_79_def
  by (simp_all add: role_def slots_def upt_16 upt_rec_numeral)

text \<open>The registers of the specification, read through the roles.\<close>

fun reads :: "u32 list \<Rightarrow> roles \<Rightarrow> sha_regs" where
  "reads R (a, b, c, d, e, f) = (R ! a, R ! b, R ! c, R ! d, R ! e)"

fun call_regs :: "u32 list \<Rightarrow> u32 \<Rightarrow> roles \<Rightarrow> u32 list" where
  "call_regs R v (a, b, c, d, e, f) = R[f := v, b := md32_ROTATE (R ! b) 30]"

lemma role_Suc:
  "role (Suc t) = (case role t of (a, b, c, d, e, f) \<Rightarrow> (f, a, b, c, d, e))"
  and role_distinct: "case role t of (a, b, c, d, e, f) \<Rightarrow>
     distinct [a, b, c, d, e, f] \<and> (\<forall>r \<in> set [a, b, c, d, e, f]. r < 6)"
proof -
  have "t mod 6 \<in> {0, 1, 2, 3, 4, 5}" by auto
  moreover have "Suc t mod 6 = (if t mod 6 = 5 then 0 else Suc (t mod 6))" by (simp add: mod_Suc)
  ultimately show "role (Suc t) = (case role t of (a, b, c, d, e, f) \<Rightarrow> (f, a, b, c, d, e))"
    "case role t of (a, b, c, d, e, f) \<Rightarrow>
     distinct [a, b, c, d, e, f] \<and> (\<forall>r \<in> set [a, b, c, d, e, f]. r < 6)"
    by (auto simp: role_def)
qed

lemma reads_call_regs:
  assumes "length R = 6" "reads R (role t) = (A, B, C, D, E)"
    and "v = rotl 5 A + ft t B C D + E + Kt t + W m t"
  shows "reads (call_regs R v (role t)) (role (Suc t)) = sha_step m (A, B, C, D, E) t"
  using assms role_distinct [of t]
  by (cases "role t") (auto simp: role_Suc md32_ROTATE_rotl)

definition at_call :: "u8 list \<Rightarrow> sha_regs \<Rightarrow> nat \<Rightarrow> unrolled_state \<Rightarrow> bool" where
  "at_call m h t s \<longleftrightarrow>
     window m t (fst s) \<and> length (snd s) = 6 \<and> reads (snd s) (role t) = foldl (sha_step m) h [0..<t]"

text \<open>One lemma for each shape of macro: the state after call \<open>t\<close> is that of step \<open>t + 1\<close>.\<close>

lemma at_call_Suc:
  assumes "at_call m h t (X, R)" "window m (Suc t) X'"
    and "\<And>A B C D E. reads R (role t) = (A, B, C, D, E) \<Longrightarrow>
      R' = call_regs R (rotl 5 A + ft t B C D + E + Kt t + W m t) (role t)"
  shows "at_call m h (Suc t) (X', R')"
proof -
  obtain A B C D E where r: "reads R (role t) = (A, B, C, D, E)"
    by (cases "reads R (role t)") auto
  have len: "length R = 6" and regs: "foldl (sha_step m) h [0..<t] = (A, B, C, D, E)"
    using assms(1) r by (simp_all add: at_call_def)
  have "length R' = 6"
    using assms(3) [OF r] len by (cases "role t") simp
  then show ?thesis
    using assms(2) assms(3) [OF r] reads_call_regs [OF len r refl] regs
    by (simp add: at_call_def)
qed

lemma later_calls:
  assumes "at_call m h t (X, R)" "16 \<le> t"
  shows "t < 20 \<Longrightarrow> at_call m h (Suc t) (BODY_16_19 (X, R) (t, role t, t mod 16, slots t))"
    and "20 \<le> t \<Longrightarrow> t < 40 \<Longrightarrow>
      at_call m h (Suc t) (BODY_20_31 (X, R) (t, role t, t mod 16, slots t))"
    and "20 \<le> t \<Longrightarrow> t < 40 \<Longrightarrow> at_call m h (Suc t) (BODY_32_39 (X, R) (t, role t, slots t))"
    and "40 \<le> t \<Longrightarrow> t < 60 \<Longrightarrow> at_call m h (Suc t) (BODY_40_59 (X, R) (t, role t, slots t))"
    and "60 \<le> t \<Longrightarrow> at_call m h (Suc t) (BODY_60_79 (X, R) (t, role t, slots t))"
proof -
  have w: "window m t X" and len: "length R = 6" using assms(1) by (simp_all add: at_call_def)
  obtain a b c d e f where ro: "role t = (a, b, c, d, e, f)" by (cases "role t")
  have dist: "distinct [a, b, c, d, e, f]" "\<forall>r \<in> set [a, b, c, d, e, f]. r < 6"
    using role_distinct [of t] by (simp_all add: ro)
  note x = window_Xupdate [OF w assms(2)] and upd = window_update [OF w]
  have at: "X[t mod 16 := W m t] ! (t mod 16) = W m t" using w by (simp add: window_def)
  note step = at_call_Suc [OF assms(1) upd, unfolded ro]
  have R: "R[f := u] ! r = R ! r" if "r \<in> {a, b, c, d, e}" for r u
    using that dist len by auto
  have Rf: "R[f := u] ! f = u" for u using dist len by simp
  have Rb: "R[f := u, f := v] ! b = R ! b" for u v using dist len by auto
  show "t < 20 \<Longrightarrow> at_call m h (Suc t) (BODY_16_19 (X, R) (t, role t, t mod 16, slots t))"
    "20 \<le> t \<Longrightarrow> t < 40 \<Longrightarrow>
      at_call m h (Suc t) (BODY_20_31 (X, R) (t, role t, t mod 16, slots t))"
    "20 \<le> t \<Longrightarrow> t < 40 \<Longrightarrow> at_call m h (Suc t) (BODY_32_39 (X, R) (t, role t, slots t))"
    "40 \<le> t \<Longrightarrow> t < 60 \<Longrightarrow> at_call m h (Suc t) (BODY_40_59 (X, R) (t, role t, slots t))"
    "60 \<le> t \<Longrightarrow> at_call m h (Suc t) (BODY_60_79 (X, R) (t, role t, slots t))"
    unfolding ro slots_def BODY_16_19.simps BODY_20_31.simps BODY_32_39.simps BODY_40_59.simps
      BODY_60_79.simps Let_def x at
    by (rule step; simp add: R Rf Rb F_ft [of t] K_Kt [of t] md32_ROTATE_rotl ac_simps)+
qed

text \<open>The first sixteen calls, with the loads: before call \<open>t\<close> the words up to \<open>t + 1\<close> are loaded.\<close>

definition at_load :: "u8 list \<Rightarrow> sha_regs \<Rightarrow> nat \<Rightarrow> unrolled_state \<Rightarrow> bool" where
  "at_load m h t s \<longleftrightarrow>
     length (fst s) = 16 \<and> (\<forall>i < 16. i < t + 2 \<longrightarrow> fst s ! i = W m i) \<and>
     length (snd s) = 6 \<and> reads (snd s) (role t) = foldl (sha_step m) h [0..<t]"

lemma load_turn_step:
  assumes "at_load m h t (X, R)" "t < 16"
  shows "at_load m h (Suc t) (load_turn m (X, R) (t, role t, t))"
proof -
  have len: "length X = 16" "length R = 6" and loaded: "\<And>i. i < 16 \<Longrightarrow> i < t + 2 \<Longrightarrow> X ! i = W m i"
    using assms(1) by (simp_all add: at_load_def)
  obtain a b c d e f where ro: "role t = (a, b, c, d, e, f)" by (cases "role t")
  obtain A B C D E where r: "reads R (role t) = (A, B, C, D, E)"
    by (cases "reads R (role t)") auto
  have dist: "distinct [a, b, c, d, e, f]" "\<forall>r \<in> set [a, b, c, d, e, f]. r < 6"
    using role_distinct [of t] by (simp_all add: ro)
  let ?R = "call_regs R (rotl 5 A + ft t B C D + E + Kt t + W m t) (role t)"
  have body: "BODY_00_15 (X, R) (t, role t, t) = (X, ?R)"
    using r assms(2) loaded [of t] dist len(2)
    by (auto simp: ro F_ft [of t] K_Kt [of t] md32_ROTATE_rotl ac_simps)
  have "foldl (sha_step m) h [0..<t] = (A, B, C, D, E)"
    using assms(1) r by (simp add: at_load_def)
  then have regs: "reads ?R (role (Suc t)) = foldl (sha_step m) h [0..<Suc t]"
    using reads_call_regs [OF len(2) r refl, of m] by simp
  have "length ?R = 6" using len(2) by (simp add: ro)
  moreover have "HOST_c2l m (4 * (t + 2)) = W m (t + 2)" if "t < 14"
    using that by (simp add: HOST_c2l_cat4 W.simps)
  ultimately show ?thesis
    using loaded len(1) regs assms(2)
    by (auto simp: load_turn_def body at_load_def nth_list_update less_Suc_eq simp del: upt_Suc)
qed

lemma foldl_map_steps:
  assumes "\<And>t s. a \<le> t \<Longrightarrow> t < b \<Longrightarrow> P t s \<Longrightarrow> P (Suc t) (f s (g t))" "P a s" "a \<le> b"
  shows "P b (foldl f s (map g [a..<b]))"
  using foldl_steps [of a b P "\<lambda>s t. f s (g t)", OF assms] by (simp add: foldl_map)

lemma unrolled_block_steps:
  "(let R = unrolled_block h m in (R ! rE, R ! rT, R ! rA, R ! rB, R ! rC)) = sha_steps m h"
proof -
  obtain A B C D E where h: "h = (A, B, C, D, E)" by (cases h)
  define s0 where "s0 = ((replicate 16 0)[0 := HOST_c2l m 0, 1 := HOST_c2l m 4], [A, B, C, D, E, 0])"
  define s1 where "s1 = foldl (load_turn m) s0 calls_00_15"
  define s2 where "s2 = foldl BODY_16_19 s1 calls_16_19"
  define s3 where "s3 = foldl BODY_20_31 s2 calls_20_31"
  define s4 where "s4 = foldl BODY_32_39 s3 calls_32_39"
  define s5 where "s5 = foldl BODY_40_59 s4 calls_40_59"
  define s6 where "s6 = foldl BODY_60_79 s5 calls_60_79"
  have "at_load m h 0 s0"
    by (auto simp: at_load_def s0_def h role_def nth_list_update less_Suc_eq HOST_c2l_cat4 W.simps)
  then have "at_load m h 16 s1"
    unfolding s1_def calls_pattern
    by (rule foldl_map_steps [where P = "at_load m h", rotated]) (simp_all add: load_turn_step split_paired_all)
  then have s1: "at_call m h 16 s1"
    by (auto simp: at_load_def at_call_def window_def)
  have s2: "at_call m h 20 s2" unfolding s2_def calls_pattern
    by (rule foldl_map_steps [where P = "at_call m h", OF _ s1]) (simp_all add: later_calls split_paired_all)
  have s3: "at_call m h 32 s3" unfolding s3_def calls_pattern
    by (rule foldl_map_steps [where P = "at_call m h", OF _ s2]) (simp_all add: later_calls split_paired_all)
  have s4: "at_call m h 40 s4" unfolding s4_def calls_pattern
    by (rule foldl_map_steps [where P = "at_call m h", OF _ s3]) (simp_all add: later_calls split_paired_all)
  have s5: "at_call m h 60 s5" unfolding s5_def calls_pattern
    by (rule foldl_map_steps [where P = "at_call m h", OF _ s4]) (simp_all add: later_calls split_paired_all)
  have s6: "at_call m h 80 s6" unfolding s6_def calls_pattern
    by (rule foldl_map_steps [where P = "at_call m h", OF _ s5]) (simp_all add: later_calls split_paired_all)
  have "unrolled_block h m = snd s6"
    by (simp only: unrolled_block_def h prod.case Let_def s6_def s5_def s4_def s3_def s2_def s1_def s0_def)
  then show ?thesis
    using s6 by (simp add: at_call_def sha_steps_def role_def Let_def del: upt_Suc)
qed

end
