(* ===== verification/Sha1_Correct.thy ===== *)
theory Sha1_Correct
  imports Sha1_Unrolled
begin

text \<open>
  Streaming: a context that has been fed the bytes \<open>m\<close>, in whatever pieces, \<open>holds\<close> \<open>m\<close>; updating
  it with \<open>d\<close> makes it hold \<open>m @ d\<close>, and finishing it returns the FIPS digest of what it holds.

  The contract that \<open>md32_common.h\<close> has with its block function is the locale
  \<open>block_function\<close>; both block functions of \<open>sha_locl.h\<close> interpret it.
\<close>

definition regs_of :: "SHA_CTX \<Rightarrow> sha_regs" where
  "regs_of c = (h0 c, h1 c, h2 c, h3 c, h4 c)"

fun with_regs :: "SHA_CTX \<Rightarrow> sha_regs \<Rightarrow> SHA_CTX" where
  "with_regs c (A, B, C, D, E) = c\<lparr>h0 := A, h1 := B, h2 := C, h3 := D, h4 := E\<rparr>"

lemma with_regs_simps [simp]:
  "regs_of (with_regs c r) = r" "with_regs (with_regs c r) r' = with_regs c r'"
  "sha_num (with_regs c r) = sha_num c" "sha_data (with_regs c r) = sha_data c"
  "Nl (with_regs c r) = Nl c" "Nh (with_regs c r) = Nh c" "with_regs c (regs_of c) = c"
  by (cases r; cases r'; simp add: regs_of_def)+

lemma regs_of_simps [simp]:
  "regs_of (c\<lparr>sha_num := n\<rparr>) = regs_of c" "regs_of (c\<lparr>sha_data := d\<rparr>) = regs_of c"
  "regs_of (c\<lparr>Nl := l\<rparr>) = regs_of c" "regs_of (c\<lparr>Nh := l\<rparr>) = regs_of c"
  by (simp_all add: regs_of_def)

lemma add_regs_add5: "add_regs c r = with_regs c (add5 (regs_of c) r)"
  by (cases r) (simp add: regs_of_def mask32)

locale block_function =
  fixes blk :: block_data_order
  assumes blk: "0 < n \<Longrightarrow> 64 * n \<le> length p \<Longrightarrow>
    blk c p n = with_regs c (iterate (regs_of c) (take (64 * n) p))"

text \<open>Both block functions meet the contract.\<close>

lemma W_take: "t < 80 \<Longrightarrow> W (take 64 p) t = W p t"
proof (induction t rule: less_induct)
  case (less t)
  show ?case
  proof (cases "t < 16")
    case True
    then show ?thesis by (simp add: W.simps)
  next
    case False
    then show ?thesis
      using less by (subst (1 2) W.simps) simp
  qed
qed

lemma sha_steps_take: "sha_steps (take 64 p) h = sha_steps p h"
proof -
  have "sha_step (take 64 p) r t = sha_step p r t" if "t < 80" for r t
    using W_take [OF that, of p] by (cases r) simp
  then show ?thesis
    unfolding sha_steps_def by (intro foldl_cong) auto
qed

lemma compress_take: "compress h (take 64 p) = compress h p"
  by (simp add: compress_def sha_steps_take)

lemma block_loop:
  assumes step: "\<And>c p. f c p = with_regs c (compress (regs_of c) p)"
    and blk: "\<And>c p n. blk c p (Suc n) = (if n = 0 then f c p else blk (f c p) (drop 64 p) n)"
  shows "0 < n \<Longrightarrow> 64 * n \<le> length p \<Longrightarrow>
    blk c p n = with_regs c (iterate (regs_of c) (take (64 * n) p))"
proof (induction n arbitrary: c p)
  case (Suc n)
  show ?case
  proof (cases "n = 0")
    case True
    then show ?thesis
      using Suc.prems by (simp add: blk step iterate_block compress_take)
  next
    case False
    then show ?thesis
      using Suc.IH [of "drop 64 p" "f c p"] Suc.prems
      by (simp add: blk step iterate.simps [of _ "take (64 + 64 * n) p"] compress_take drop_take)
  qed
qed simp

interpretation small: block_function small_block_data_order
proof
  fix n :: nat and p :: "u8 list" and c assume "0 < n" "64 * n \<le> length p"
  then show "small_block_data_order c p n = with_regs c (iterate (regs_of c) (take (64 * n) p))"
    by (intro block_loop [where f = "\<lambda>c p. add_regs c (small_block (h0 c, h1 c, h2 c, h3 c, h4 c) p)"])
      (simp_all add: add_regs_add5 compress_def small_block_steps Let_def flip: regs_of_def)
qed

interpretation unrolled: block_function sha1_block_data_order
proof
  fix n :: nat and p :: "u8 list" and c assume "0 < n" "64 * n \<le> length p"
  then show "sha1_block_data_order c p n = with_regs c (iterate (regs_of c) (take (64 * n) p))"
    by (intro block_loop [where f = "\<lambda>c p. let R = unrolled_block (h0 c, h1 c, h2 c, h3 c, h4 c) p
        in add_regs c (R ! rE, R ! rT, R ! rA, R ! rB, R ! rC)"])
      (simp_all add: add_regs_add5 compress_def unrolled_block_steps [symmetric] Let_def flip: regs_of_def)
qed

subsection \<open>The message a context holds\<close>

definition holds :: "SHA_CTX \<Rightarrow> u8 list \<Rightarrow> bool" where
  "holds c m \<longleftrightarrow>
     sha_num c = length m mod 64 \<and> length (sha_data c) = 64 \<and>
     take (sha_num c) (sha_data c) = drop (64 * (length m div 64)) m \<and>
     regs_of c = iterate sha1_H0 m"

definition counts :: "SHA_CTX \<Rightarrow> nat \<Rightarrow> bool" where
  "counts c n \<longleftrightarrow> Nl c = of_nat (8 * n) \<and> Nh c = of_nat (8 * n div 2 ^ 32)"

lemma iterate_whole: "iterate h m = iterate h (take (64 * (length m div 64)) m)"
proof -
  let ?k = "64 * (length m div 64)"
  have "iterate h (take ?k m @ drop ?k m) = iterate (iterate h (take ?k m)) (drop ?k m)"
    by (rule iterate_append) (simp add: min_absorb2)
  also have "\<dots> = iterate h (take ?k m)"
    by (subst iterate.simps) (simp add: minus_mult_div_eq_mod)
  finally show ?thesis by simp
qed

lemma add_carry:
  assumes "x < k" "y < (k :: nat)"
  shows "(x + y) div k = (if (x + y) mod k < x then 1 else 0)"
proof (cases "x + y < k")
  case False
  then have "(x + y) mod k = x + y - k" "(x + y) div k = 1"
    using assms by (simp_all add: le_mod_geq le_div_geq)
  then show ?thesis using assms False by simp
next
  case True
  then show ?thesis by (simp only: mod_less div_less) simp
qed

lemma div_carry:
  assumes "0 < (k :: nat)"
  shows "(a + b) div k = a div k + b div k + (if (a + b) mod k < a mod k then 1 else 0)"
proof -
  have "a mod k < k" "b mod k < k" using assms by simp_all
  from add_carry [OF this] show ?thesis
    by (simp only: div_add1_eq [of a b k] mod_add_eq)
qed

lemma unat_of_nat_u32: "unat (of_nat k :: u32) = k mod 2 ^ 32"
  by (simp add: unsigned_of_nat take_bit_eq_mod)

lemma count_bits_counts:
  assumes "counts c a"
  shows "counts (count_bits c n) (a + n)"
proof -
  let ?l = "(of_nat (8 * (a + n)) :: u32)"
  have l: "(Nl c + push_bit 3 (of_nat n)) AND 0xffffffff = ?l"
    using assms by (simp add: counts_def push_bit_eq_mult mask32 distrib_left)
  have "?l < Nl c \<longleftrightarrow> (8 * a + 8 * n) mod 2 ^ 32 < (8 * a) mod 2 ^ 32"
    using assms by (simp only: counts_def word_less_nat_alt unat_of_nat_u32 distrib_left)
  moreover have "drop_bit 29 n = 8 * n div 2 ^ 32"
    using div_mult_mult1 [of 8 n "2 ^ 29"] by (simp add: drop_bit_eq_div)
  ultimately have "of_nat (8 * (a + n) div 2 ^ 32) =
      Nh c + (if ?l < Nl c then 1 else 0) + (of_nat (drop_bit 29 n) :: u32)"
    using div_carry [of "2 ^ 32" "8 * a" "8 * n"] assms by (simp add: counts_def distrib_left)
  then show ?thesis
    by (simp add: counts_def count_bits_def Let_def l)
qed

lemma count_bits_holds: "holds (count_bits c n) m \<longleftrightarrow> holds c m"
  by (simp add: count_bits_def holds_def Let_def)

lemma sha_num_count_bits [simp]: "sha_num (count_bits c n) = sha_num c"
  by (simp add: count_bits_def Let_def)

lemma counts_simps [simp]:
  "counts (c\<lparr>sha_num := k\<rparr>) n = counts c n" "counts (c\<lparr>sha_data := d\<rparr>) n = counts c n"
  "counts (with_regs c r) n = counts c n"
  by (simp_all add: counts_def)

lemma holdsD:
  assumes "holds c m"
  shows "take (sha_num c) (sha_data c) = drop (64 * (length m div 64)) m"
    and "sha_num c = length m mod 64" "sha_num c < 64" "length (sha_data c) = 64"
    and "regs_of c = iterate sha1_H0 m"
proof -
  show "take (sha_num c) (sha_data c) = drop (64 * (length m div 64)) m"
    using assms unfolding holds_def by blast
qed (use assms in \<open>simp_all add: holds_def\<close>)

lemma with_regs_data [simp]:
  "with_regs (c\<lparr>sha_data := d\<rparr>) r = (with_regs c r)\<lparr>sha_data := d\<rparr>"
  by (cases r) simp

lemma iterate_pending:
  assumes "holds c m"
  shows "iterate sha1_H0 (m @ d) = iterate (regs_of c) (take (sha_num c) (sha_data c) @ d)"
proof -
  let ?k = "64 * (length m div 64)"
  have p: "drop ?k m = take (sha_num c) (sha_data c)" and r: "iterate sha1_H0 (take ?k m) = regs_of c"
    using holdsD [OF assms] by (simp_all flip: iterate_whole)
  have "iterate sha1_H0 (m @ d) = iterate sha1_H0 (take ?k m @ drop ?k m @ d)"
    by (simp flip: append_assoc)
  also have "\<dots> = iterate (iterate sha1_H0 (take ?k m)) (drop ?k m @ d)"
    by (rule iterate_append) (simp add: min_absorb2)
  finally show ?thesis by (simp only: p r)
qed

context block_function
begin

lemma update_rest_holds:
  assumes "holds c m" "64 dvd length m"
  shows "holds (update_rest blk c d) (m @ d)"
proof -
  let ?n = "length d div 64"
  let ?c = "if ?n > 0 then blk c d ?n else c" and ?d = "drop (?n * 64) d"
  have num: "sha_num c = 0" using assms by (simp add: holds_def)
  have regs: "regs_of c = iterate sha1_H0 m" and len: "length (sha_data c) = 64"
    using assms(1) by (simp_all add: holds_def)
  have c: "?c = with_regs c (iterate sha1_H0 (m @ d))"
  proof (cases "?n > 0")
    case True
    then have "blk c d ?n = with_regs c (iterate (regs_of c) (take (64 * ?n) d))"
      by (intro blk) simp_all
    then show ?thesis
      using True assms(2) by (simp add: regs iterate_append flip: iterate_whole)
  next
    case False
    then have "iterate sha1_H0 (m @ d) = regs_of c"
      using assms(2) by (simp add: regs iterate_append iterate.simps [of _ d] div_eq_0_iff)
    then show ?thesis using False by simp
  qed
  obtain q where q: "length m = 64 * q" using assms(2) by (elim dvdE)
  have rest: "length ?d = length d mod 64" "(64 * q + length d) div 64 = q + ?n"
    by (simp_all add: minus_mult_div_eq_mod mult.commute)
  have dm: "drop (64 * ((length m + length d) div 64)) (m @ d) = ?d"
    using q by (simp add: rest mult.commute distrib_left)
  have upd: "update_rest blk c d =
      (if ?d \<noteq> [] then ?c\<lparr>sha_num := length ?d, sha_data := write_at (sha_data ?c) 0 ?d\<rparr> else ?c)"
    by (simp add: update_rest_def Let_def)
  show ?thesis
  proof (cases "?d = []")
    case True
    then have "length d mod 64 = 0" using rest(1) by simp
    then show ?thesis
      using upd True dm q num len by (simp add: holds_def c)
  next
    case False
    then show ?thesis
      using upd dm q len rest(1) by (simp add: holds_def c write_at_def)
  qed
qed

lemma update_rest_counts: "counts (update_rest blk c d) n = counts c n"
proof -
  have "length d div 64 > 0 \<Longrightarrow> counts (blk c d (length d div 64)) n = counts c n"
    by (subst blk) simp_all
  then show ?thesis by (simp add: update_rest_def Let_def)
qed

lemma blk_one: "length p = 64 \<Longrightarrow> blk c p (Suc 0) = with_regs c (iterate (regs_of c) p)"
  using blk [of 1 p c] by simp

lemma update_holds:
  assumes "holds c m"
  shows "holds (HASH_UPDATE blk c d) (m @ d)"
proof -
  define c1 where "c1 = count_bits c (length d)"
  have c1: "holds c1 m" and num: "sha_num c1 = sha_num c"
    using assms by (simp_all add: c1_def count_bits_holds)
  let ?n = "sha_num c1"
  note pend = holdsD(1) [OF c1] and n = holdsD(2,3) [OF c1] and data = holdsD(4) [OF c1]
  consider "d = []" | "d \<noteq> []" "?n = 0" | "d \<noteq> []" "?n \<noteq> 0" "length d + ?n < 64"
    | "?n \<noteq> 0" "64 \<le> length d + ?n" by linarith
  then show ?thesis
  proof cases
    case 1
    then show ?thesis using assms by (simp add: HASH_UPDATE_def)
  next
    case 2
    then have "HASH_UPDATE blk c d = update_rest blk c1 d"
      by (simp add: HASH_UPDATE_def Let_def flip: c1_def)
    moreover have "64 dvd length m" using n(1) 2 by presburger
    ultimately show ?thesis using update_rest_holds [OF c1] by simp
  next
    case 3
    then have "HASH_UPDATE blk c d =
        c1\<lparr>sha_data := write_at (sha_data c1) ?n d, sha_num := ?n + length d\<rparr>"
      by (simp add: HASH_UPDATE_def Let_def flip: c1_def)
    moreover have "(length m + length d) div 64 = length m div 64"
      "(length m + length d) mod 64 = ?n + length d"
      using 3(3) n by (simp_all add: div_add1_eq [of "length m" "length d"] mod_add_left_eq [symmetric, of "length m"])
    moreover have "iterate sha1_H0 (m @ d) = regs_of c1"
      using iterate_pending [OF c1, of d] 3(3) data by (subst (asm) iterate.simps) simp
    moreover have "take (?n + length d) (write_at (sha_data c1) ?n d) =
        drop (64 * (length m div 64)) m @ d"
      using data 3(3) by (simp add: write_at_def pend [symmetric] min_absorb2 del: pend)
    moreover have "length (write_at (sha_data c1) ?n d) = 64"
      using data 3(3) by simp
    ultimately show ?thesis
      by (simp add: holds_def)
  next
    case 4
    let ?d1 = "take (64 - ?n) d"
    let ?p = "take ?n (sha_data c1) @ ?d1"
    define c2 where "c2 = (with_regs c1 (iterate (regs_of c1) ?p))\<lparr>sha_num := 0, sha_data := replicate 64 0\<rparr>"
    have w: "write_at (sha_data c1) ?n ?d1 = ?p" and len: "length ?p = 64"
      using 4(2) data n(2) by (simp_all add: write_at_def)
    have "d \<noteq> []" using 4(2) n(2) by auto
    then have upd: "HASH_UPDATE blk c d = update_rest blk c2 (drop (64 - ?n) d)"
      using 4 blk_one [OF len, of "c1\<lparr>sha_data := ?p\<rparr>"]
      by (simp add: HASH_UPDATE_def Let_def w add.commute [of "length d"] c2_def flip: c1_def)
    have m1: "length (m @ ?d1) = 64 * (length m div 64 + 1)"
    proof -
      have "length ?d1 = 64 - ?n" using 4(2) n by simp
      moreover define q where "q = length m div 64"
      moreover have "length m = 64 * q + ?n" using n(1) by (simp add: q_def)
      ultimately show ?thesis using n(2) by simp
    qed
    have "drop (64 * (length (m @ ?d1) div 64)) (m @ ?d1) = []"
      by (rule drop_all) (simp only: m1, simp)
    moreover have "length (m @ ?d1) mod 64 = 0" by (simp only: m1 mod_mult_self1_is_0)
    moreover have "sha_num c2 = 0" "length (sha_data c2) = 64" "regs_of c2 = iterate sha1_H0 (m @ ?d1)"
      by (simp_all add: c2_def iterate_pending [OF c1])
    ultimately have "holds c2 (m @ ?d1)"
      by (simp only: holds_def take_0)
    from update_rest_holds [OF this, of "drop (64 - ?n) d"] show ?thesis
      using m1 upd by (simp del: length_append)
  qed
qed

lemma update_counts:
  assumes "holds c m" "counts c (length m)"
  shows "counts (HASH_UPDATE blk c d) (length (m @ d))"
proof -
  define c1 where "c1 = count_bits c (length d)"
  have c1: "counts c1 (length m + length d)" "holds c1 m"
    using count_bits_counts [OF assms(2)] assms(1) by (simp_all add: c1_def count_bits_holds)
  have blk1: "counts (blk c' p (Suc 0)) k = counts c' k" if "length p = 64" for c' p k
    using blk_one [OF that, of c'] by simp
  let ?w = "write_at (sha_data c1) (sha_num c1) (take (64 - sha_num c1) d)"
  have "length ?w = 64" if "64 \<le> length d + sha_num c1"
    using that holdsD(3,4) [OF c1(2)] by simp
  then show ?thesis
    using c1(1) assms(2) update_rest_counts blk1 [of ?w]
    by (auto simp: HASH_UPDATE_def Let_def add.commute [of "length d"] simp flip: c1_def)
qed

text \<open>Finishing.  The buffer is the pending bytes, the bit 1, zeros and the length; when they do not
  fit in one block the zeros run over two.\<close>

lemma HOST_length: "counts c n \<Longrightarrow> HOST_l2c (Nh c) @ HOST_l2c (Nl c) = length_field n"
  by (simp add: counts_def HOST_l2c_be32 length_field_def)

lemma write_tail:
  assumes "length xs = 64" "counts c n"
  shows "write_at (write_at xs 56 (HOST_l2c (Nh c))) 60 (HOST_l2c (Nl c)) = take 56 xs @ length_field n"
proof -
  have "length (HOST_l2c w) = 4" for w by (simp add: HOST_l2c_def)
  then have "write_at (write_at xs 56 (HOST_l2c (Nh c))) 60 (HOST_l2c (Nl c)) =
      take 56 xs @ HOST_l2c (Nh c) @ HOST_l2c (Nl c)"
    using assms(1) by (simp add: write_at_def)
  then show ?thesis by (simp only: HOST_length [OF assms(2)])
qed

lemma HASH_MAKE_STRING_regs: "HASH_MAKE_STRING c = regs_bytes (regs_of c)"
  by (simp add: HASH_MAKE_STRING_def HOST_l2c_be32 regs_of_def)

lemma pad_blocks:
  assumes "n = length m mod 64"
  shows "pad m = m @ (if n < 56 then 0x80 # replicate (55 - n) 0 @ length_field (length m)
     else 0x80 # replicate (63 - n) 0 @ replicate 56 0 @ length_field (length m))"
proof (cases "n < 56")
  case False
  have "n < 64" using assms by simp
  then have "119 - n = (63 - n) + 56" using False by simp
  then have "replicate (119 - n) (0 :: u8) = replicate (63 - n) 0 @ replicate 56 0"
    by (simp only: replicate_add)
  then show ?thesis
    using False unfolding assms by (simp add: pad_def pad_zeros_eq)
qed (use assms in \<open>simp add: pad_def pad_zeros_eq\<close>)

lemma final_digest:
  assumes "holds c m" "counts c (length m)"
  shows "fst (HASH_FINAL blk c) = sha1_digest m"
proof -
  let ?n = "sha_num c" and ?p = "take (sha_num c) (sha_data c)"
  note n = holdsD(2,3) [OF assms(1)] and data = holdsD(4) [OF assms(1)]
  have bit: "(sha_data c)[?n := 0x80] = ?p @ 0x80 # drop (?n + 1) (sha_data c)"
    using n(2) data by (simp add: upd_conv_take_nth_drop)
  have digest: "sha1_digest m = regs_bytes (iterate (regs_of c) (?p @ (if ?n < 56
      then 0x80 # replicate (55 - ?n) 0 @ length_field (length m)
      else 0x80 # replicate (63 - ?n) 0 @ replicate 56 0 @ length_field (length m))))"
    unfolding sha1_digest_def pad_blocks [OF n(1)] iterate_pending [OF assms(1)] ..
  show ?thesis
  proof (cases "?n < 56")
    case True
    let ?buf = "?p @ 0x80 # replicate (55 - ?n) 0 @ length_field (length m)"
    have w: "write_at ((sha_data c)[?n := 0x80]) (Suc ?n) (replicate (55 - ?n) 0) =
        ?p @ 0x80 # replicate (55 - ?n) 0 @ drop 56 (sha_data c)"
      unfolding bit using True data by (simp add: write_at_def drop_Cons')
    have f: "write_at (write_at (write_at ((sha_data c)[?n := 0x80]) (Suc ?n) (replicate (55 - ?n) 0))
        56 (HOST_l2c (Nh c))) 60 (HOST_l2c (Nl c)) = ?buf"
      unfolding w by (subst write_tail [OF _ assms(2)]) (use True data in \<open>simp_all add: take_Cons'\<close>)
    have "length ?buf = 64" using True data by simp
    note one = blk_one [OF this]
    show ?thesis
      using True by (simp add: HASH_FINAL_def Let_def f one HASH_MAKE_STRING_regs digest)
  next
    case False
    let ?buf1 = "?p @ 0x80 # replicate (63 - ?n) 0"
    let ?buf2 = "replicate 56 0 @ length_field (length m)"
    have w: "write_at ((sha_data c)[?n := 0x80]) (Suc ?n) (replicate (63 - ?n) 0) = ?buf1"
      unfolding bit using n(2) data by (simp add: write_at_def drop_Cons')
    have len: "length ?buf1 = 64" "length ?buf2 = 64" using n(2) data by simp_all
    note one = blk_one [OF len(1)] blk_one [OF len(2)]
    have split: "iterate r (?buf1 @ ?buf2) = iterate (iterate r ?buf1) ?buf2" for r
      by (rule iterate_append) (simp only: len, simp)
    have "length (write_at ?buf1 0 (replicate 56 0)) = 64"
      using len(1) by (subst length_write_at) simp_all
    then have f: "write_at (write_at (write_at ?buf1 0 (replicate 56 0)) 56 (HOST_l2c (Nh c))) 60
        (HOST_l2c (Nl c)) = ?buf2"
      by (simp only: write_tail [OF _ assms(2)]) (simp add: write_at_def)
    have "HASH_FINAL blk c = (let c1 = with_regs c (iterate (regs_of c) ?buf1)\<lparr>sha_data := ?buf1\<rparr>;
        c2 = (with_regs (c1\<lparr>sha_data := ?buf2\<rparr>) (iterate (regs_of c1) ?buf2))
          \<lparr>sha_num := 0, sha_data := replicate 64 0\<rparr> in (HASH_MAKE_STRING c2, c2))"
      unfolding HASH_FINAL_def Let_def
      using False by (simp add: w one f del: replicate_Suc)
    moreover have "iterate r (?p @ 0x80 # replicate (63 - ?n) 0 @ ?buf2) =
        iterate (iterate r ?buf1) ?buf2" for r
      using split [of r] by simp
    ultimately show ?thesis
      using False by (simp add: Let_def HASH_MAKE_STRING_regs digest)
  qed
qed

end

subsection \<open>SHA1\<close>

text \<open>A context that \<open>represents\<close> the bytes it has been given since \<open>SHA1_Init\<close>.\<close>

definition represents :: "SHA_CTX \<Rightarrow> u8 list \<Rightarrow> bool" where
  "represents c m \<longleftrightarrow> holds c m \<and> counts c (length m)"

lemma init_represents: "represents SHA1_Init []"
  by (simp add: represents_def holds_def counts_def SHA1_Init_def regs_of_def sha1_H0_def iterate.simps)

lemma SHA1_Update_represents: "represents c m \<Longrightarrow> represents (SHA1_Update c d) (m @ d)"
  using unrolled.update_holds unrolled.update_counts by (simp add: represents_def SHA1_Update_def)

lemma SHA1_Final_digest: "represents c m \<Longrightarrow> fst (SHA1_Final c) = sha1_digest m"
  using unrolled.final_digest by (simp add: represents_def SHA1_Final_def)

lemma SHA1_digest: "SHA1 d = sha1_digest d"
  using SHA1_Final_digest [OF SHA1_Update_represents [OF init_represents]] by (simp add: SHA1_def)

end
