(* ===== verification/Evp_Digest.thy ===== *)
theory Evp_Digest
  imports Sha1_Correct "HOL-Library.Monad_Syntax"
begin

text \<open>
  The digest layer of \<open>src/jni/openssl/crypto/evp/digest.c\<close> and the SHA-1 method of
  \<open>src/jni/openssl/crypto/evp/m_sha1.c\<close>, as the library is built here: no \<open>ENGINE\<close> is registered,
  \<open>OPENSSL_FIPS\<close> is not defined, contexts carry no public-key context and \<open>malloc\<close> succeeds.

  An \<open>EVP_MD\<close> is the record of its function pointers, over the type of the digest state that
  \<open>md_data\<close> points to; two methods are the same pointer when their \<open>md_type\<close> agrees.  \<open>md_zero\<close> is
  the state after \<open>memset (md_data, 0, ctx_size)\<close> and stands for freshly allocated memory, which
  \<open>md_init\<close> overwrites.  A function that returns 0, or calls
  through a null pointer, is \<open>None\<close>.

  Locale \<open>digest_method\<close> is what a method promises its clients: \<open>final\<close> returns the hash of what
  \<open>update\<close> has been given since \<open>init\<close>.
\<close>

record 'c EVP_MD =
  md_type :: nat
  md_size :: nat
  md_init :: "'c \<Rightarrow> 'c option"
  md_update :: "'c \<Rightarrow> u8 list \<Rightarrow> 'c option"
  md_final :: "'c \<Rightarrow> (u8 list \<times> 'c) option"
  md_block_size :: nat
  ctx_size :: nat
  md_zero :: 'c

record 'c EVP_MD_CTX =
  digest :: "'c EVP_MD option"
  md_data :: "'c option"
  ctx_update :: "('c \<Rightarrow> u8 list \<Rightarrow> 'c option) option"
  no_init :: bool

definition EVP_MD_CTX_init :: "'c EVP_MD_CTX" where
  "EVP_MD_CTX_init = \<lparr>digest = None, md_data = None, ctx_update = None, no_init = False\<rparr>"

text \<open>\<open>EVP_DigestInit_ex\<close> for a method that is not null.\<close>

definition EVP_DigestInit_ex :: "'c EVP_MD_CTX \<Rightarrow> 'c EVP_MD \<Rightarrow> 'c EVP_MD_CTX option" where
  "EVP_DigestInit_ex ctx type =
     (let ctx =
        (if map_option md_type (digest ctx) \<noteq> Some (md_type type) then
           let ctx = (case digest ctx of
                        Some d \<Rightarrow> if ctx_size d \<noteq> 0 then ctx\<lparr>md_data := None\<rparr> else ctx
                      | None \<Rightarrow> ctx);
               ctx = ctx\<lparr>digest := Some type\<rparr>
           in if \<not> no_init ctx \<and> ctx_size type \<noteq> 0
              then ctx\<lparr>ctx_update := Some (md_update type), md_data := Some (md_zero type)\<rparr>
              else ctx
         else ctx)
      in if no_init ctx then Some ctx
         else do {
           d \<leftarrow> digest ctx;
           c \<leftarrow> md_data ctx;
           c \<leftarrow> md_init d c;
           Some (ctx\<lparr>md_data := Some c\<rparr>)
         })"

definition EVP_DigestInit :: "'c EVP_MD \<Rightarrow> 'c EVP_MD_CTX option" where
  "EVP_DigestInit type = EVP_DigestInit_ex EVP_MD_CTX_init type"

definition EVP_DigestUpdate :: "'c EVP_MD_CTX \<Rightarrow> u8 list \<Rightarrow> 'c EVP_MD_CTX option" where
  "EVP_DigestUpdate ctx data =
     do {
       upd \<leftarrow> ctx_update ctx;
       c \<leftarrow> md_data ctx;
       c \<leftarrow> upd c data;
       Some (ctx\<lparr>md_data := Some c\<rparr>)
     }"

text \<open>The bytes of the digest (\<open>*size\<close> of them) and the context; a digest longer than
  \<open>EVP_MAX_MD_SIZE\<close> fails the assertion.\<close>

definition EVP_DigestFinal_ex :: "'c EVP_MD_CTX \<Rightarrow> (u8 list \<times> 'c EVP_MD_CTX) option" where
  "EVP_DigestFinal_ex ctx =
     do {
       d \<leftarrow> digest ctx;
       if md_size d > 64 then None
       else do {
         c \<leftarrow> md_data ctx;
         (md, c) \<leftarrow> md_final d c;
         Some (md, ctx\<lparr>md_data := Some (md_zero d)\<rparr>)
       }
     }"

text \<open>\<open>md_data\<close> is copied by value, whether or not the buffer of \<open>out\<close> is reused.\<close>

definition EVP_MD_CTX_copy_ex :: "'c EVP_MD_CTX \<Rightarrow> 'c EVP_MD_CTX \<Rightarrow> 'c EVP_MD_CTX option" where
  "EVP_MD_CTX_copy_ex out inp = (if digest inp = None then None else Some inp)"

definition EVP_MD_CTX_copy :: "'c EVP_MD_CTX \<Rightarrow> 'c EVP_MD_CTX option" where
  "EVP_MD_CTX_copy inp = EVP_MD_CTX_copy_ex EVP_MD_CTX_init inp"

definition EVP_MD_CTX_cleanup :: "'c EVP_MD_CTX \<Rightarrow> 'c EVP_MD_CTX" where
  "EVP_MD_CTX_cleanup ctx = EVP_MD_CTX_init"

definition EVP_DigestFinal :: "'c EVP_MD_CTX \<Rightarrow> (u8 list \<times> 'c EVP_MD_CTX) option" where
  "EVP_DigestFinal ctx =
     do { (md, ctx) \<leftarrow> EVP_DigestFinal_ex ctx; Some (md, EVP_MD_CTX_cleanup ctx) }"

definition EVP_Digest :: "u8 list \<Rightarrow> 'c EVP_MD \<Rightarrow> u8 list option" where
  "EVP_Digest data type =
     do {
       ctx \<leftarrow> EVP_DigestInit_ex EVP_MD_CTX_init type;
       ctx \<leftarrow> EVP_DigestUpdate ctx data;
       (md, ctx) \<leftarrow> EVP_DigestFinal_ex ctx;
       Some md
     }"

subsection \<open>m_sha1.c\<close>

definition zero_SHA_CTX :: SHA_CTX where
  "zero_SHA_CTX =
     \<lparr>h0 = 0, h1 = 0, h2 = 0, h3 = 0, h4 = 0, Nl = 0, Nh = 0, sha_data = replicate 64 0, sha_num = 0\<rparr>"

definition EVP_sha1 :: "SHA_CTX EVP_MD" where
  "EVP_sha1 =
     \<lparr>md_type = 64, md_size = 20,
      md_init = (\<lambda>c. Some SHA1_Init),
      md_update = (\<lambda>c data. Some (SHA1_Update c data)),
      md_final = (\<lambda>c. Some (SHA1_Final c)),
      md_block_size = 64, ctx_size = 100, md_zero = zero_SHA_CTX\<rparr>"

subsection \<open>The contract of a digest method\<close>

text \<open>\<open>rep c m\<close>: the state \<open>c\<close> has been initialised and then given \<open>m\<close>.  A context \<open>has\<close> the
  message of its state.\<close>

definition ctx_has ::
  "'c EVP_MD \<Rightarrow> ('c \<Rightarrow> u8 list \<Rightarrow> bool) \<Rightarrow> 'c EVP_MD_CTX \<Rightarrow> u8 list \<Rightarrow> bool" where
  "ctx_has md rep ctx m \<longleftrightarrow>
     digest ctx = Some md \<and> ctx_update ctx = Some (md_update md) \<and> \<not> no_init ctx \<and>
     (\<exists>c. md_data ctx = Some c \<and> rep c m)"

text \<open>A context on which \<open>EVP_DigestInit_ex\<close> may be called: a fresh one or one for this method.\<close>

definition ctx_usable :: "'c EVP_MD \<Rightarrow> 'c EVP_MD_CTX \<Rightarrow> bool" where
  "ctx_usable md ctx \<longleftrightarrow> ctx = EVP_MD_CTX_init \<or>
     digest ctx = Some md \<and> ctx_update ctx = Some (md_update md) \<and> \<not> no_init ctx \<and> md_data ctx \<noteq> None"

locale digest_method =
  fixes md :: "'c EVP_MD" and rep :: "'c \<Rightarrow> u8 list \<Rightarrow> bool" and hash :: "u8 list \<Rightarrow> u8 list"
  assumes init: "\<exists>c'. md_init md c = Some c' \<and> rep c' []"
    and update: "rep c m \<Longrightarrow> \<exists>c'. md_update md c d = Some c' \<and> rep c' (m @ d)"
    and final: "rep c m \<Longrightarrow> \<exists>c'. md_final md c = Some (hash m, c')"
    and length_hash: "length (hash m) = md_size md"
    and sizes: "md_size md \<le> 64" "md_size md \<le> md_block_size md" "md_block_size md \<le> 128" "0 < ctx_size md"
begin

lemma usable_init [simp]: "ctx_usable md EVP_MD_CTX_init"
  by (simp add: ctx_usable_def)

lemma has_usable: "ctx_has md rep ctx m \<Longrightarrow> ctx_usable md ctx"
  by (auto simp: ctx_usable_def ctx_has_def)

lemma DigestInit_ex: "ctx_usable md ctx \<Longrightarrow> \<exists>ctx'. EVP_DigestInit_ex ctx md = Some ctx' \<and> ctx_has md rep ctx' []"
proof -
  assume "ctx_usable md ctx"
  then consider "ctx = EVP_MD_CTX_init" | c where "digest ctx = Some md"
    "ctx_update ctx = Some (md_update md)" "\<not> no_init ctx" "md_data ctx = Some c"
    by (auto simp: ctx_usable_def)
  then show ?thesis
  proof cases
    case 1
    obtain c' where "md_init md (md_zero md) = Some c'" "rep c' []" using init by blast
    then show ?thesis
      using sizes(4) by (simp add: EVP_DigestInit_ex_def 1 EVP_MD_CTX_init_def ctx_has_def Let_def)
  next
    case 2
    obtain c' where "md_init md c = Some c'" "rep c' []" using init by blast
    then show ?thesis
      using 2 by (simp add: EVP_DigestInit_ex_def ctx_has_def Let_def)
  qed
qed

lemma DigestUpdate:
  "ctx_has md rep ctx m \<Longrightarrow> \<exists>ctx'. EVP_DigestUpdate ctx d = Some ctx' \<and> ctx_has md rep ctx' (m @ d)"
proof -
  assume has: "ctx_has md rep ctx m"
  then obtain c where "md_data ctx = Some c" "rep c m" by (auto simp: ctx_has_def)
  with update [of c m d] has show ?thesis by (auto simp: EVP_DigestUpdate_def ctx_has_def)
qed

lemma DigestFinal_ex:
  "ctx_has md rep ctx m \<Longrightarrow> \<exists>ctx'. EVP_DigestFinal_ex ctx = Some (hash m, ctx') \<and> ctx_usable md ctx'"
proof -
  assume has: "ctx_has md rep ctx m"
  then obtain c where "md_data ctx = Some c" "rep c m" by (auto simp: ctx_has_def)
  with final [of c m] sizes(1) has show ?thesis
    by (auto simp: EVP_DigestFinal_ex_def ctx_has_def ctx_usable_def)
qed

lemma CTX_copy_ex: "ctx_has md rep ctx m \<Longrightarrow> EVP_MD_CTX_copy_ex out ctx = Some ctx"
  by (simp add: EVP_MD_CTX_copy_ex_def ctx_has_def)

lemma Digest: "EVP_Digest data md = Some (hash data)"
proof -
  obtain c1 where 1: "EVP_DigestInit_ex EVP_MD_CTX_init md = Some c1" "ctx_has md rep c1 []"
    using DigestInit_ex [OF usable_init] by blast
  obtain c2 where 2: "EVP_DigestUpdate c1 data = Some c2" "ctx_has md rep c2 data"
    using DigestUpdate [OF 1(2), of data] by auto
  obtain c3 where "EVP_DigestFinal_ex c2 = Some (hash data, c3)"
    using DigestFinal_ex [OF 2(2)] by blast
  with 1 2 show ?thesis by (simp add: EVP_Digest_def)
qed

end

interpretation sha1_md: digest_method EVP_sha1 represents sha1_digest
proof
  fix c :: SHA_CTX and m d :: "u8 list"
  show "\<exists>c'. md_init EVP_sha1 c = Some c' \<and> represents c' []"
    by (simp add: EVP_sha1_def init_represents)
  show "represents c m \<Longrightarrow> \<exists>c'. md_update EVP_sha1 c d = Some c' \<and> represents c' (m @ d)"
    by (simp add: EVP_sha1_def SHA1_Update_represents)
  show "represents c m \<Longrightarrow> \<exists>c'. md_final EVP_sha1 c = Some (sha1_digest m, c')"
    by (auto simp: EVP_sha1_def dest!: SHA1_Final_digest intro!: exI [of _ "snd (SHA1_Final c)"] prod_eqI)
  show "length (sha1_digest m) = md_size EVP_sha1" by (simp add: EVP_sha1_def)
qed (simp_all add: EVP_sha1_def)

end
