(* ===== verification/Hmac.thy ===== *)
theory Hmac
  imports Evp_Digest
begin

text \<open>
  \<open>src/jni/openssl/crypto/hmac/hmac.c\<close> over the digest layer of theory \<open>Evp_Digest\<close>
  (\<open>OPENSSL_FIPS\<close> not defined, no engine), and its correctness: for every digest method, HMAC is
  the keyed hash of RFC 2104.  A null key or method is \<open>None\<close>; a function that returns 0, and a
  failed assertion, are \<open>None\<close>.
\<close>

record 'c HMAC_CTX =
  hm_md :: "'c EVP_MD option"
  md_ctx :: "'c EVP_MD_CTX"
  i_ctx :: "'c EVP_MD_CTX"
  o_ctx :: "'c EVP_MD_CTX"
  key_length :: nat
  hm_key :: "u8 list"

definition HMAC_CTX_init :: "'c HMAC_CTX \<Rightarrow> 'c HMAC_CTX" where
  "HMAC_CTX_init ctx =
     ctx\<lparr>i_ctx := EVP_MD_CTX_init, o_ctx := EVP_MD_CTX_init, md_ctx := EVP_MD_CTX_init\<rparr>"

text \<open>The block that runs when a key is given: \<open>ctx->key\<close> becomes the key or its digest, padded with
  zeros to \<open>HMAC_MAX_MD_CBLOCK\<close>.\<close>

definition set_key :: "'c HMAC_CTX \<Rightarrow> u8 list \<Rightarrow> 'c EVP_MD \<Rightarrow> 'c HMAC_CTX option" where
  "set_key ctx key md =
     (let j = md_block_size md
      in if j > 128 then None
         else do {
           ctx \<leftarrow>
             (if j < length key then
                do {
                  c \<leftarrow> EVP_DigestInit_ex (md_ctx ctx) md;
                  c \<leftarrow> EVP_DigestUpdate c key;
                  (k, c) \<leftarrow> EVP_DigestFinal_ex c;
                  Some (ctx\<lparr>md_ctx := c, hm_key := write_at (hm_key ctx) 0 k, key_length := length k\<rparr>)
                }
              else if length key > 128 then None
              else Some (ctx\<lparr>hm_key := write_at (hm_key ctx) 0 key, key_length := length key\<rparr>));
           Some (if key_length ctx \<noteq> 128
             then ctx\<lparr>hm_key := write_at (hm_key ctx) (key_length ctx) (replicate (128 - key_length ctx) 0)\<rparr>
             else ctx)
         })"

text \<open>The block that runs after a reset: both pads are absorbed, \<open>EVP_MD_block_size (md)\<close> bytes each.\<close>

definition absorb_pads :: "'c HMAC_CTX \<Rightarrow> 'c EVP_MD \<Rightarrow> 'c HMAC_CTX option" where
  "absorb_pads ctx md =
     do {
       let pad = map (\<lambda>k. 0x36 XOR k) (hm_key ctx);
       i \<leftarrow> EVP_DigestInit_ex (i_ctx ctx) md;
       i \<leftarrow> EVP_DigestUpdate i (take (md_block_size md) pad);
       let pad = map (\<lambda>k. 0x5c XOR k) (hm_key ctx);
       ob \<leftarrow> EVP_DigestInit_ex (o_ctx ctx) md;
       ob \<leftarrow> EVP_DigestUpdate ob (take (md_block_size md) pad);
       Some (ctx\<lparr>i_ctx := i, o_ctx := ob\<rparr>)
     }"

definition HMAC_Init_ex ::
  "'c HMAC_CTX \<Rightarrow> u8 list option \<Rightarrow> 'c EVP_MD option \<Rightarrow> 'c HMAC_CTX option" where
  "HMAC_Init_ex ctx key md =
     (let (ctx, reset, md) =
        (case md of Some m \<Rightarrow> (ctx\<lparr>hm_md := md\<rparr>, True, md) | None \<Rightarrow> (ctx, False, hm_md ctx))
      in do {
           (ctx, reset) \<leftarrow>
             (case key of
                Some k \<Rightarrow> do { m \<leftarrow> md; ctx \<leftarrow> set_key ctx k m; Some (ctx, True) }
              | None \<Rightarrow> Some (ctx, reset));
           ctx \<leftarrow> (if reset then do { m \<leftarrow> md; absorb_pads ctx m } else Some ctx);
           c \<leftarrow> EVP_MD_CTX_copy_ex (md_ctx ctx) (i_ctx ctx);
           Some (ctx\<lparr>md_ctx := c\<rparr>)
         })"

definition HMAC_Init ::
  "'c HMAC_CTX \<Rightarrow> u8 list option \<Rightarrow> 'c EVP_MD option \<Rightarrow> 'c HMAC_CTX option" where
  "HMAC_Init ctx key md =
     (let ctx = (if key \<noteq> None \<and> md \<noteq> None then HMAC_CTX_init ctx else ctx)
      in HMAC_Init_ex ctx key md)"

definition HMAC_Update :: "'c HMAC_CTX \<Rightarrow> u8 list \<Rightarrow> 'c HMAC_CTX option" where
  "HMAC_Update ctx data =
     do { c \<leftarrow> EVP_DigestUpdate (md_ctx ctx) data; Some (ctx\<lparr>md_ctx := c\<rparr>) }"

definition HMAC_Final :: "'c HMAC_CTX \<Rightarrow> (u8 list \<times> 'c HMAC_CTX) option" where
  "HMAC_Final ctx =
     do {
       (buf, c) \<leftarrow> EVP_DigestFinal_ex (md_ctx ctx);
       c \<leftarrow> EVP_MD_CTX_copy_ex c (o_ctx ctx);
       c \<leftarrow> EVP_DigestUpdate c buf;
       (md, c) \<leftarrow> EVP_DigestFinal_ex c;
       Some (md, ctx\<lparr>md_ctx := c\<rparr>)
     }"

definition HMAC_CTX_copy :: "'c HMAC_CTX \<Rightarrow> 'c HMAC_CTX \<Rightarrow> 'c HMAC_CTX option" where
  "HMAC_CTX_copy dctx sctx =
     do {
       i \<leftarrow> EVP_MD_CTX_copy (i_ctx sctx);
       ob \<leftarrow> EVP_MD_CTX_copy (o_ctx sctx);
       c \<leftarrow> EVP_MD_CTX_copy (md_ctx sctx);
       Some (dctx\<lparr>i_ctx := i, o_ctx := ob, md_ctx := c, hm_key := hm_key sctx,
               key_length := key_length sctx, hm_md := hm_md sctx\<rparr>)
     }"

definition HMAC_CTX_cleanup :: "'c HMAC_CTX \<Rightarrow> 'c HMAC_CTX" where
  "HMAC_CTX_cleanup ctx =
     \<lparr>hm_md = None, md_ctx = EVP_MD_CTX_cleanup (md_ctx ctx), i_ctx = EVP_MD_CTX_cleanup (i_ctx ctx),
      o_ctx = EVP_MD_CTX_cleanup (o_ctx ctx), key_length = 0, hm_key = replicate 128 0\<rparr>"

text \<open>The one-shot function.  The automatic variable \<open>c\<close> starts with arbitrary contents: it is an
  argument here.\<close>

definition HMAC ::
  "'c HMAC_CTX \<Rightarrow> 'c EVP_MD option \<Rightarrow> u8 list option \<Rightarrow> u8 list \<Rightarrow> u8 list option" where
  "HMAC c evp_md key d =
     do {
       let c = HMAC_CTX_init c;
       c \<leftarrow> HMAC_Init c key evp_md;
       c \<leftarrow> HMAC_Update c d;
       (md, c) \<leftarrow> HMAC_Final c;
       Some md
     }"

subsection \<open>RFC 2104\<close>

definition hmac_key :: "(u8 list \<Rightarrow> u8 list) \<Rightarrow> nat \<Rightarrow> u8 list \<Rightarrow> u8 list" where
  "hmac_key H B key =
     (let k = (if length key > B then H key else key) in k @ replicate (B - length k) 0)"

definition hmac :: "(u8 list \<Rightarrow> u8 list) \<Rightarrow> nat \<Rightarrow> u8 list \<Rightarrow> u8 list \<Rightarrow> u8 list" where
  "hmac H B key text =
     (let k = hmac_key H B key
      in H (xor_bytes k (replicate B 0x5c) @ H (xor_bytes k (replicate B 0x36) @ text)))"

definition hmac_keyed :: "'c EVP_MD \<Rightarrow> ('c \<Rightarrow> u8 list \<Rightarrow> bool) \<Rightarrow> u8 list \<Rightarrow> 'c HMAC_CTX \<Rightarrow> bool" where
  "hmac_keyed md rep k ctx \<longleftrightarrow>
     ctx_has md rep (i_ctx ctx) (xor_bytes k (replicate (md_block_size md) 0x36)) \<and>
     ctx_has md rep (o_ctx ctx) (xor_bytes k (replicate (md_block_size md) 0x5c))"

text \<open>\<open>hmac_has ... k m ctx\<close>: \<open>ctx\<close> is keyed with \<open>k\<close> and has been given \<open>m\<close>.\<close>

definition hmac_has ::
  "'c EVP_MD \<Rightarrow> ('c \<Rightarrow> u8 list \<Rightarrow> bool) \<Rightarrow> u8 list \<Rightarrow> u8 list \<Rightarrow> 'c HMAC_CTX \<Rightarrow> bool" where
  "hmac_has md rep k m ctx \<longleftrightarrow> hmac_keyed md rep k ctx \<and>
     ctx_has md rep (md_ctx ctx) (xor_bytes k (replicate (md_block_size md) 0x36) @ m)"

lemma map_xor_const: "map (\<lambda>k. c XOR k) ks = xor_bytes ks (replicate (length ks) (c :: u8))"
  by (induction ks) (simp_all add: xor.commute)

lemma take_xor_bytes: "take n (xor_bytes xs ys) = xor_bytes (take n xs) (take n ys)"
  by (simp add: xor_bytes_def take_map take_zip)

text \<open>\<open>HMAC_Update\<close> on each piece of a message.\<close>

fun HMAC_updates :: "'c HMAC_CTX \<Rightarrow> u8 list list \<Rightarrow> 'c HMAC_CTX option" where
  "HMAC_updates ctx [] = Some ctx"
| "HMAC_updates ctx (d # ds) = do { ctx \<leftarrow> HMAC_Update ctx d; HMAC_updates ctx ds }"

context digest_method
begin

lemma set_key_hmac_key:
  assumes "length (hm_key ctx) = 128" "ctx_usable md (md_ctx ctx)"
  shows "\<exists>ctx'. set_key ctx key md = Some ctx' \<and> length (hm_key ctx') = 128 \<and>
    take (md_block_size md) (hm_key ctx') = hmac_key hash (md_block_size md) key \<and>
    i_ctx ctx' = i_ctx ctx \<and> o_ctx ctx' = o_ctx ctx"
proof -
  let ?k = "if length key > md_block_size md then hash key else key"
  have len: "length ?k \<le> md_block_size md" "length ?k \<le> 128"
    using sizes length_hash by auto
  obtain c where set: "set_key ctx key md =
      Some (let ctx = ctx\<lparr>md_ctx := c, hm_key := write_at (hm_key ctx) 0 ?k, key_length := length ?k\<rparr>
        in if key_length ctx \<noteq> 128
           then ctx\<lparr>hm_key := write_at (hm_key ctx) (key_length ctx) (replicate (128 - key_length ctx) 0)\<rparr>
           else ctx)"
  proof (cases "md_block_size md < length key")
    case True
    obtain c1 where 1: "EVP_DigestInit_ex (md_ctx ctx) md = Some c1" "ctx_has md rep c1 []"
      using DigestInit_ex [OF assms(2)] by blast
    obtain c2 where 2: "EVP_DigestUpdate c1 key = Some c2" "ctx_has md rep c2 key"
      using DigestUpdate [OF 1(2), of key] by auto
    obtain c3 where 3: "EVP_DigestFinal_ex c2 = Some (hash key, c3)"
      using DigestFinal_ex [OF 2(2)] by blast
    show ?thesis
      using that [of c3] True 1 2 3 sizes(3) by (simp add: set_key_def Let_def)
  next
    case False
    then show ?thesis
      using that [of "md_ctx ctx"] sizes(3) by (simp add: set_key_def Let_def)
  qed
  have "write_at (write_at (hm_key ctx) 0 ?k) (length ?k) (replicate (128 - length ?k) 0) =
      ?k @ replicate (128 - length ?k) 0"
    using len(2) assms(1) by (simp add: write_at_def)
  moreover have "write_at (hm_key ctx) 0 ?k = ?k" if "length ?k = 128"
    using that assms(1) by simp
  ultimately have key: "hm_key (the (set_key ctx key md)) = ?k @ replicate (128 - length ?k) 0"
    unfolding set Let_def by (cases "length ?k = 128") simp_all
  have "min (128 - length ?k) (md_block_size md - length ?k) = md_block_size md - length ?k"
    using sizes(3) by simp
  then have "take (md_block_size md) (?k @ replicate (128 - length ?k) 0) =
      hmac_key hash (md_block_size md) key"
    using len(1) by (simp add: hmac_key_def Let_def min.commute)
  then show ?thesis
    using key len(2) unfolding set by (auto simp: Let_def)
qed

lemma absorb_pads_keyed:
  assumes "length (hm_key ctx) = 128" "ctx_usable md (i_ctx ctx)" "ctx_usable md (o_ctx ctx)"
  shows "\<exists>ctx'. absorb_pads ctx md = Some ctx' \<and>
    hmac_keyed md rep (take (md_block_size md) (hm_key ctx)) ctx' \<and>
    md_ctx ctx' = md_ctx ctx \<and> hm_md ctx' = hm_md ctx \<and> hm_key ctx' = hm_key ctx"
proof -
  have pad: "take (md_block_size md) (map (\<lambda>k. c XOR k) (hm_key ctx)) =
      xor_bytes (take (md_block_size md) (hm_key ctx)) (replicate (md_block_size md) c)" for c
    using assms(1) sizes(3) by (simp add: map_xor_const take_xor_bytes min_absorb1)
  obtain i where i: "EVP_DigestInit_ex (i_ctx ctx) md = Some i" "ctx_has md rep i []"
    using DigestInit_ex [OF assms(2)] by blast
  obtain i' where i': "EVP_DigestUpdate i (take (md_block_size md) (map (\<lambda>k. 0x36 XOR k) (hm_key ctx))) = Some i'"
    "ctx_has md rep i' (xor_bytes (take (md_block_size md) (hm_key ctx)) (replicate (md_block_size md) 0x36))"
    using DigestUpdate [OF i(2)] pad by fastforce
  obtain ob where ob: "EVP_DigestInit_ex (o_ctx ctx) md = Some ob" "ctx_has md rep ob []"
    using DigestInit_ex [OF assms(3)] by blast
  obtain ob' where ob': "EVP_DigestUpdate ob (take (md_block_size md) (map (\<lambda>k. 0x5c XOR k) (hm_key ctx))) = Some ob'"
    "ctx_has md rep ob' (xor_bytes (take (md_block_size md) (hm_key ctx)) (replicate (md_block_size md) 0x5c))"
    using DigestUpdate [OF ob(2)] pad by fastforce
  show ?thesis
    using i i' ob ob' by (simp add: absorb_pads_def hmac_keyed_def)
qed

lemma HMAC_Init_has:
  assumes "length (hm_key ctx) = 128"
  shows "\<exists>ctx'. HMAC_Init ctx (Some key) (Some md) = Some ctx' \<and>
    hmac_has md rep (hmac_key hash (md_block_size md) key) [] ctx'"
proof -
  let ?ctx = "HMAC_CTX_init ctx\<lparr>hm_md := Some md\<rparr>"
  have "length (hm_key ?ctx) = 128" "ctx_usable md (md_ctx ?ctx)"
    using assms by (simp_all add: HMAC_CTX_init_def)
  from set_key_hmac_key [OF this, of key] obtain ctx1 where 1: "set_key ?ctx key md = Some ctx1"
    "length (hm_key ctx1) = 128" "take (md_block_size md) (hm_key ctx1) = hmac_key hash (md_block_size md) key"
    "i_ctx ctx1 = EVP_MD_CTX_init" "o_ctx ctx1 = EVP_MD_CTX_init"
    by (auto simp: HMAC_CTX_init_def)
  obtain ctx2 where 2: "absorb_pads ctx1 md = Some ctx2"
    "hmac_keyed md rep (hmac_key hash (md_block_size md) key) ctx2"
    using absorb_pads_keyed [of ctx1] 1 by auto
  have "EVP_MD_CTX_copy_ex (md_ctx ctx2) (i_ctx ctx2) = Some (i_ctx ctx2)"
    using 2(2) CTX_copy_ex by (auto simp: hmac_keyed_def)
  then show ?thesis
    using 1 2 by (simp add: HMAC_Init_def HMAC_Init_ex_def Let_def hmac_has_def hmac_keyed_def)
qed

lemma HMAC_Update_has:
  assumes "hmac_has md rep k m ctx"
  shows "\<exists>ctx'. HMAC_Update ctx d = Some ctx' \<and> hmac_has md rep k (m @ d) ctx'"
proof -
  obtain c where "EVP_DigestUpdate (md_ctx ctx) d = Some c"
    "ctx_has md rep c (xor_bytes k (replicate (md_block_size md) 0x36) @ m @ d)"
    using assms DigestUpdate [of "md_ctx ctx" _ d] by (fastforce simp: hmac_has_def)
  then show ?thesis
    using assms by (simp add: HMAC_Update_def hmac_has_def hmac_keyed_def)
qed

lemma HMAC_Final_hash:
  assumes "hmac_has md rep k m ctx"
  shows "\<exists>ctx'. HMAC_Final ctx =
    Some (hash (xor_bytes k (replicate (md_block_size md) 0x5c) @
      hash (xor_bytes k (replicate (md_block_size md) 0x36) @ m)), ctx')"
proof -
  let ?inner = "hash (xor_bytes k (replicate (md_block_size md) 0x36) @ m)"
  obtain c where 1: "EVP_DigestFinal_ex (md_ctx ctx) = Some (?inner, c)"
    using assms DigestFinal_ex by (fastforce simp: hmac_has_def)
  have ob: "ctx_has md rep (o_ctx ctx) (xor_bytes k (replicate (md_block_size md) 0x5c))"
    using assms by (simp add: hmac_has_def hmac_keyed_def)
  obtain c2 where 2: "EVP_DigestUpdate (o_ctx ctx) ?inner = Some c2"
    "ctx_has md rep c2 (xor_bytes k (replicate (md_block_size md) 0x5c) @ ?inner)"
    using DigestUpdate [OF ob] by blast
  obtain c3 where "EVP_DigestFinal_ex c2 =
      Some (hash (xor_bytes k (replicate (md_block_size md) 0x5c) @ ?inner), c3)"
    using DigestFinal_ex [OF 2(2)] by blast
  then show ?thesis
    using 1 2 CTX_copy_ex [OF ob] by (simp add: HMAC_Final_def)
qed

text \<open>A context stays keyed through \<open>HMAC_Final\<close>, and \<open>HMAC_Init_ex\<close> without a key or a method starts the
  next message under the same key.\<close>

lemma HMAC_Final_keyed:
  "HMAC_Final ctx = Some (out, ctx') \<Longrightarrow> hmac_keyed md rep k ctx \<Longrightarrow> hmac_keyed md rep k ctx'"
  by (auto simp: HMAC_Final_def hmac_keyed_def split: bind_splits)

lemma HMAC_reinit:
  assumes "hmac_keyed md rep k ctx"
  shows "\<exists>ctx'. HMAC_Init_ex ctx None None = Some ctx' \<and> hmac_has md rep k [] ctx'"
proof -
  have "EVP_MD_CTX_copy_ex (md_ctx ctx) (i_ctx ctx) = Some (i_ctx ctx)"
    using assms CTX_copy_ex by (auto simp: hmac_keyed_def)
  then show ?thesis
    using assms by (simp add: HMAC_Init_ex_def Let_def hmac_has_def hmac_keyed_def)
qed

lemma HMAC_updates_has:
  assumes "hmac_has md rep k m ctx"
  shows "\<exists>ctx'. HMAC_updates ctx ds = Some ctx' \<and> hmac_has md rep k (m @ concat ds) ctx'"
  using assms
proof (induction ds arbitrary: ctx m)
  case (Cons d ds)
  obtain ctx1 where 1: "HMAC_Update ctx d = Some ctx1" "hmac_has md rep k (m @ d) ctx1"
    using HMAC_Update_has [OF Cons.prems, of d] by auto
  from Cons.IH [OF this(2)] 1(1) show ?case by auto
qed simp

lemma HMAC_hmac:
  assumes "length (hm_key c) = 128"
  shows "HMAC c (Some md) (Some key) d = Some (hmac hash (md_block_size md) key d)"
proof -
  let ?k = "hmac_key hash (md_block_size md) key"
  have "length (hm_key (HMAC_CTX_init c)) = 128" using assms by (simp add: HMAC_CTX_init_def)
  from HMAC_Init_has [OF this] obtain c1 where
    1: "HMAC_Init (HMAC_CTX_init c) (Some key) (Some md) = Some c1" "hmac_has md rep ?k [] c1"
    by blast
  obtain c2 where 2: "HMAC_Update c1 d = Some c2" "hmac_has md rep ?k d c2"
    using HMAC_Update_has [OF 1(2), of d] by auto
  from HMAC_Final_hash [OF 2(2)] show ?thesis
    using 1 2 by (auto simp: HMAC_def hmac_def Let_def)
qed

end

text \<open>HMAC-SHA1, as the callers use it.\<close>

definition hmac_sha1 :: "u8 list \<Rightarrow> u8 list \<Rightarrow> u8 list" where
  "hmac_sha1 = hmac sha1_digest 64"

lemma length_hmac_sha1 [simp]: "length (hmac_sha1 key text) = 20"
  by (simp add: hmac_sha1_def hmac_def Let_def)

lemma HMAC_sha1:
  "length (hm_key c) = 128 \<Longrightarrow> HMAC c (Some EVP_sha1) (Some key) d = Some (hmac_sha1 key d)"
  using sha1_md.HMAC_hmac [of c key d] by (simp add: hmac_sha1_def EVP_sha1_def)

end
