(* ===== verification/Sha_Theorems.thy ===== *)
theory Sha_Theorems
  imports Hmac
begin

text \<open>
  The properties of SHA-1, of the digest layer and of HMAC: the two block functions against the
  standard and each other, messages given in pieces, and the keyed hash of RFC 2104.
\<close>

subsection \<open>SHA-1\<close>

text \<open>C37: the unrolled and the small block function both run the compression function of FIPS 180 over
  the given blocks, and touch nothing but the five registers.\<close>

theorem sha1_block_functions:
  assumes "0 < n" "64 * n \<le> length p"
  shows "sha1_block_data_order c p n = with_regs c (iterate (regs_of c) (take (64 * n) p)) \<and>
    small_block_data_order c p n = sha1_block_data_order c p n"
  using unrolled.blk [OF assms, of c] small.blk [OF assms, of c] by simp

theorem sha1_block_functions_witness:
  "small_block_data_order SHA1_Init (replicate 130 1) 2 = sha1_block_data_order SHA1_Init (replicate 130 1) 2"
  using sha1_block_functions [of 2 "replicate 130 1" SHA1_Init] by simp

text \<open>C38: however a message is cut into calls of \<open>SHA1_Update\<close>, \<open>SHA1_Final\<close> returns the SHA-1 digest of
  the whole: padding, length field and block boundaries are right for every length.\<close>

theorem sha1_streaming:
  "fst (SHA1_Final (foldl SHA1_Update SHA1_Init ds)) = sha1_digest (concat ds) \<and>
   SHA1 (concat ds) = sha1_digest (concat ds)"
proof -
  have "represents c m \<Longrightarrow> represents (foldl SHA1_Update c ds) (m @ concat ds)" for c m
  proof (induction ds arbitrary: c m)
    case (Cons d ds)
    from Cons.IH [OF SHA1_Update_represents [OF Cons.prems, of d]] show ?case by simp
  qed simp
  from SHA1_Final_digest [OF this [OF init_represents]] show ?thesis
    by (simp add: SHA1_digest)
qed

subsection \<open>HMAC\<close>

text \<open>C39: \<open>HMAC\<close> with SHA-1 is the keyed hash of RFC 2104 for keys and messages of every length, whatever
  the context on the stack held.\<close>

theorem hmac_rfc2104:
  assumes "length (hm_key c) = 128"
  shows "HMAC c (Some EVP_sha1) (Some key) d = Some (hmac sha1_digest 64 key d)"
  using HMAC_sha1 [OF assms] by (simp add: hmac_sha1_def)

definition blank_hmac :: "SHA_CTX HMAC_CTX" where
  "blank_hmac = \<lparr>hm_md = None, md_ctx = EVP_MD_CTX_init, i_ctx = EVP_MD_CTX_init,
     o_ctx = EVP_MD_CTX_init, key_length = 0, hm_key = replicate 128 170\<rparr>"

theorem hmac_rfc2104_witness:
  "HMAC blank_hmac (Some EVP_sha1) (Some (replicate 100 1)) [1, 2] =
   Some (hmac sha1_digest 64 (replicate 100 1) [1, 2])"
  by (rule hmac_rfc2104) (simp add: blank_hmac_def)

text \<open>C40: a keyed context takes a message in pieces, and \<open>HMAC_Init_ex\<close> with neither key nor method
  starts another message under the same key.\<close>

theorem hmac_streaming:
  assumes "length (hm_key c) = 128"
  shows "\<exists>c1 c2 c3 c4 c5 c6.
    HMAC_Init c (Some key) (Some EVP_sha1) = Some c1 \<and>
    HMAC_updates c1 ds = Some c2 \<and> HMAC_Final c2 = Some (hmac sha1_digest 64 key (concat ds), c3) \<and>
    HMAC_Init_ex c3 None None = Some c4 \<and>
    HMAC_updates c4 ds' = Some c5 \<and> HMAC_Final c5 = Some (hmac sha1_digest 64 key (concat ds'), c6)"
proof -
  let ?k = "hmac_key sha1_digest 64 key"
  have md: "md_block_size EVP_sha1 = 64" by (simp add: EVP_sha1_def)
  obtain c1 where 1: "HMAC_Init c (Some key) (Some EVP_sha1) = Some c1"
    "hmac_has EVP_sha1 represents ?k [] c1"
    using sha1_md.HMAC_Init_has [OF assms, of key] by (auto simp: md)
  obtain c2 where 2: "HMAC_updates c1 ds = Some c2" "hmac_has EVP_sha1 represents ?k (concat ds) c2"
    using sha1_md.HMAC_updates_has [OF 1(2), of ds] by auto
  obtain c3 where 3: "HMAC_Final c2 = Some (hmac sha1_digest 64 key (concat ds), c3)"
    using sha1_md.HMAC_Final_hash [OF 2(2)] by (auto simp: hmac_def Let_def md)
  have "hmac_keyed EVP_sha1 represents ?k c3"
    using sha1_md.HMAC_Final_keyed [OF 3] 2(2) by (simp add: hmac_has_def)
  from sha1_md.HMAC_reinit [OF this] obtain c4 where
    4: "HMAC_Init_ex c3 None None = Some c4" "hmac_has EVP_sha1 represents ?k [] c4" by blast
  obtain c5 where 5: "HMAC_updates c4 ds' = Some c5" "hmac_has EVP_sha1 represents ?k (concat ds') c5"
    using sha1_md.HMAC_updates_has [OF 4(2), of ds'] by auto
  obtain c6 where "HMAC_Final c5 = Some (hmac sha1_digest 64 key (concat ds'), c6)"
    using sha1_md.HMAC_Final_hash [OF 5(2)] by (auto simp: hmac_def Let_def md)
  then show ?thesis using 1 2 3 4 5 by blast
qed

theorem hmac_streaming_witness:
  "\<exists>c1 c2 c3 c4 c5 c6.
    HMAC_Init blank_hmac (Some [1, 2, 3]) (Some EVP_sha1) = Some c1 \<and>
    HMAC_updates c1 [[1], [2, 3]] = Some c2 \<and>
    HMAC_Final c2 = Some (hmac sha1_digest 64 [1, 2, 3] (concat [[1], [2, 3]]), c3) \<and>
    HMAC_Init_ex c3 None None = Some c4 \<and>
    HMAC_updates c4 [] = Some c5 \<and> HMAC_Final c5 = Some (hmac sha1_digest 64 [1, 2, 3] (concat []), c6)"
  by (rule hmac_streaming) (simp add: blank_hmac_def)

text \<open>The error values of the HMAC functions: a method with blocks over 128 bytes fails the assertion, a
  key without a method is refused, and \<open>HMAC_Update\<close> or \<open>HMAC_Final\<close> on a context that was never
  initialised fails.\<close>

theorem hmac_errors:
  "set_key c key (EVP_sha1\<lparr>md_block_size := 129\<rparr>) = None \<and>
   HMAC_Init_ex (HMAC_CTX_cleanup c) (Some key) None = None \<and>
   HMAC_Update (HMAC_CTX_cleanup c) d = None \<and> HMAC_Final (HMAC_CTX_cleanup c) = None \<and>
   HMAC_CTX_copy c' (HMAC_CTX_cleanup c) = None"
  by (simp add: set_key_def HMAC_Init_ex_def HMAC_CTX_cleanup_def HMAC_Update_def HMAC_Final_def
      HMAC_CTX_copy_def EVP_MD_CTX_cleanup_def EVP_MD_CTX_init_def EVP_DigestUpdate_def
      EVP_DigestFinal_ex_def EVP_MD_CTX_copy_def EVP_MD_CTX_copy_ex_def Let_def)

end
