(* ===== verification/Rtp_Packet.thy ===== *)
theory Rtp_Packet
  imports Prelude "HOL-Library.Monad_Syntax"
begin

text \<open>
  \<open>src/jni/redphone/RtpPacket.cpp\<close> and \<open>RtpPacket.h\<close>: a packet is the buffer \<open>packet\<close> that the
  constructor allocated and the \<open>int\<close> \<open>payloadLen\<close>, kept at its 32 bits (\<open>sint\<close> reads it where the
  code uses it as \<open>int\<close>, \<open>unat\<close> where it is returned as \<open>uint32_t\<close>).  \<open>sizeof (RtpHeader)\<close> is 12,
  the fields \<open>flags\<close>, \<open>sequenceNumber\<close>, \<open>timestamp\<close> and \<open>ssrc\<close> lie at 0, 2, 4 and 8, and the host is
  little-endian, as the Android targets are.

  An access outside the buffer is undefined in C++: the operation is then \<open>None\<close>.
\<close>

record RtpPacket =
  packet :: "u8 list"
  payloadLen :: u32

definition header_size :: nat where "header_size = 12"

subsection \<open>Network byte order\<close>

text \<open>\<open>htons\<close> and \<open>ntohs\<close> with the store or load that goes with them: two bytes, most significant
  first; and the four bytes of \<open>htonl\<close> and \<open>ntohl\<close>.\<close>

definition be16 :: "u16 \<Rightarrow> u8 list" where
  "be16 w = [ucast (drop_bit 8 w), ucast w]"

fun from_be16 :: "u8 list \<Rightarrow> u16" where
  "from_be16 bs = push_bit 8 (ucast (bs ! 0)) OR ucast (bs ! 1)"

fun from_be32 :: "u8 list \<Rightarrow> u32" where
  "from_be32 bs = cat4 (bs ! 0) (bs ! 1) (bs ! 2) (bs ! 3)"

text \<open>A \<open>uint16_t\<close> as the little-endian host loads it.\<close>

fun from_le16 :: "u8 list \<Rightarrow> u16" where
  "from_le16 bs = push_bit 8 (ucast (bs ! 1)) OR ucast (bs ! 0)"

subsection \<open>Constructors\<close>

text \<open>From \<open>packetLen\<close> received bytes (\<open>packetBuf\<close> has at least that many).\<close>

definition RtpPacket_received :: "u8 list \<Rightarrow> nat \<Rightarrow> RtpPacket" where
  "RtpPacket_received packetBuf packetLen =
     \<lparr>packet = take packetLen packetBuf, payloadLen = of_nat packetLen - of_nat header_size\<rparr>"

text \<open>From a payload: \<open>SRTP_MAC_SIZE\<close> (20) bytes are allocated beyond it.\<close>

definition RtpPacket_new :: "u8 list \<Rightarrow> u32 \<Rightarrow> u32 \<Rightarrow> RtpPacket" where
  "RtpPacket_new payload sequenceNumber timestamp =
     (let buf = replicate (header_size + length payload + 20) 0;
          buf = write_at buf 0 (be16 32768);
          buf = write_at buf 2 (be16 (ucast sequenceNumber));
          buf = write_at buf 8 (replicate 4 0);
          buf = write_at buf 4 (be32 timestamp);
          buf = write_at buf header_size payload
      in \<lparr>packet = buf, payloadLen = of_nat (length payload)\<rparr>)"

subsection \<open>Accessors\<close>

definition getSequenceNumber :: "RtpPacket \<Rightarrow> u16 option" where
  "getSequenceNumber p = map_option from_be16 (read_bytes (packet p) 2 2)"

definition getPayloadType :: "RtpPacket \<Rightarrow> u16 option" where
  "getPayloadType p = map_option (\<lambda>bs. from_le16 bs AND 0x7F) (read_bytes (packet p) 0 2)"

definition getTimestamp :: "RtpPacket \<Rightarrow> u32 option" where
  "getTimestamp p = map_option from_be32 (read_bytes (packet p) 4 4)"

definition setTimestamp :: "RtpPacket \<Rightarrow> u32 \<Rightarrow> RtpPacket option" where
  "setTimestamp p timestamp =
     map_option (\<lambda>buf. p\<lparr>packet := buf\<rparr>) (write_bytes (packet p) 4 (be32 timestamp))"

definition getSsrc :: "RtpPacket \<Rightarrow> u32 option" where
  "getSsrc p = map_option from_be32 (read_bytes (packet p) 8 4)"

definition getPayloadLen :: "RtpPacket \<Rightarrow> u32" where
  "getPayloadLen p = payloadLen p"

definition setPayloadLen :: "RtpPacket \<Rightarrow> u32 \<Rightarrow> RtpPacket" where
  "setPayloadLen p len = p\<lparr>payloadLen := len\<rparr>"

definition getSerializedPacketLen :: "RtpPacket \<Rightarrow> u32" where
  "getSerializedPacketLen p = of_nat header_size + payloadLen p"

text \<open>What a caller reads at \<open>getPayload ()\<close> for \<open>getPayloadLen ()\<close> bytes, and at
  \<open>getSerializedPacket ()\<close> for \<open>getSerializedPacketLen ()\<close> bytes.\<close>

definition payload_bytes :: "RtpPacket \<Rightarrow> u8 list option" where
  "payload_bytes p = read_bytes (packet p) header_size (unat (getPayloadLen p))"

definition serialized_bytes :: "RtpPacket \<Rightarrow> u8 list option" where
  "serialized_bytes p =
     (if sint (getSerializedPacketLen p) < 0 then None
      else read_bytes (packet p) 0 (unat (getSerializedPacketLen p)))"

subsection \<open>Bytes\<close>

lemma length_be16 [simp]: "length (be16 w) = 2"
  by (simp add: be16_def)

lemma from_be16_be16 [simp]: "from_be16 (be16 w) = w"
  by (simp add: be16_def) (auto intro!: bit_word_eqI simp: bit_simps dest: bit_imp_le_length)

lemma from_be32_be32 [simp]: "from_be32 (be32 w) = w"
  by (simp add: be32_def cat4_byte)

lemma read_bytes_prefix: "length xs = off + n \<Longrightarrow> read_bytes (xs @ ys) off n = read_bytes xs off n"
  by (simp add: read_bytes_def)

lemma read_bytes_mid:
  "off = length xs \<Longrightarrow> n = length ys \<Longrightarrow> read_bytes (xs @ ys @ zs) off n = Some ys"
  by (simp add: read_bytes_def)

declare from_be16.simps [simp del] from_be32.simps [simp del] from_le16.simps [simp del]

text \<open>The layout of a packet: header fields, payload, and the rest of the buffer.\<close>

definition layout :: "u8 list \<Rightarrow> u8 list \<Rightarrow> u8 list \<Rightarrow> u8 list \<Rightarrow> u8 list \<Rightarrow> u8 list \<Rightarrow> u8 list" where
  "layout fl sq ts ss pl rest = fl @ sq @ ts @ ss @ pl @ rest"

lemma write_field:
  "length src = length ys \<Longrightarrow> off = length xs \<Longrightarrow> write_at (xs @ ys @ zs) off src = xs @ src @ zs"
  by (simp add: write_at_append)

lemma RtpPacket_new_layout:
  "packet (RtpPacket_new payload sq ts) =
   layout (be16 32768) (be16 (ucast sq)) (be32 ts) (replicate 4 0) payload (replicate 20 0)"
proof -
  let ?z = "\<lambda>n. replicate n (0 :: u8)"
  let ?fl = "be16 32768" and ?sq = "be16 (ucast sq)"
  have "?z (header_size + length payload + 20) =
      ?z 2 @ ?z 2 @ ?z 4 @ ?z 4 @ ?z (length payload) @ ?z 20"
    by (simp only: replicate_add [symmetric] header_size_def) (simp add: add.commute)
  moreover have "write_at ([] @ ?z 2 @ ?z 2 @ ?z 4 @ ?z 4 @ ?z (length payload) @ ?z 20) 0 ?fl =
      [] @ ?fl @ ?z 2 @ ?z 4 @ ?z 4 @ ?z (length payload) @ ?z 20"
    by (rule write_field) simp_all
  moreover have "write_at (?fl @ ?z 2 @ ?z 4 @ ?z 4 @ ?z (length payload) @ ?z 20) 2 ?sq =
      ?fl @ ?sq @ ?z 4 @ ?z 4 @ ?z (length payload) @ ?z 20"
    by (rule write_field) simp_all
  moreover have "write_at ((?fl @ ?sq @ ?z 4) @ ?z 4 @ ?z (length payload) @ ?z 20) 8 (?z 4) =
      (?fl @ ?sq @ ?z 4) @ ?z 4 @ ?z (length payload) @ ?z 20"
    by (rule write_field) simp_all
  moreover have "write_at ((?fl @ ?sq) @ ?z 4 @ ?z 4 @ ?z (length payload) @ ?z 20) 4 (be32 ts) =
      (?fl @ ?sq) @ be32 ts @ ?z 4 @ ?z (length payload) @ ?z 20"
    by (rule write_field) simp_all
  moreover have "write_at ((?fl @ ?sq @ be32 ts @ ?z 4) @ ?z (length payload) @ ?z 20) header_size payload =
      (?fl @ ?sq @ be32 ts @ ?z 4) @ payload @ ?z 20"
    by (rule write_field) (simp_all add: header_size_def)
  ultimately show ?thesis
    by (simp only: RtpPacket_new_def Let_def RtpPacket.simps layout_def append_assoc append_Nil)
qed

text \<open>Every field of a laid-out packet can be read back, whatever follows it.\<close>

lemma layout_fields:
  assumes "packet p = layout fl (be16 sq) (be32 ts) (be32 ss) pl rest" "length fl = 2"
  shows "getSequenceNumber p = Some sq" "getTimestamp p = Some ts" "getSsrc p = Some ss"
    and "getPayloadLen p = of_nat (length pl) \<Longrightarrow> length pl < 2 ^ 32 \<Longrightarrow> payload_bytes p = Some pl"
proof -
  note p = assms(1) [unfolded layout_def]
  have "read_bytes (packet p) 2 2 = Some (be16 sq)"
    unfolding p by (rule read_bytes_mid) (simp_all add: assms(2))
  then show "getSequenceNumber p = Some sq" by (simp add: getSequenceNumber_def)
  have "read_bytes ((fl @ be16 sq) @ be32 ts @ be32 ss @ pl @ rest) 4 4 = Some (be32 ts)"
    by (rule read_bytes_mid) (simp_all add: assms(2))
  then show "getTimestamp p = Some ts" by (simp add: getTimestamp_def p)
  have "read_bytes ((fl @ be16 sq @ be32 ts) @ be32 ss @ pl @ rest) 8 4 = Some (be32 ss)"
    by (rule read_bytes_mid) (simp_all add: assms(2))
  then show "getSsrc p = Some ss" by (simp add: getSsrc_def p)
  assume len: "getPayloadLen p = of_nat (length pl)" "length pl < 2 ^ 32"
  then have n: "unat (getPayloadLen p) = length pl"
    by (simp add: unsigned_of_nat take_bit_nat_eq_self)
  have "read_bytes ((fl @ be16 sq @ be32 ts @ be32 ss) @ pl @ rest) header_size (length pl) = Some pl"
    by (rule read_bytes_mid) (simp_all add: assms(2) header_size_def)
  then show "payload_bytes p = Some pl" by (simp add: payload_bytes_def p n)
qed

lemma be32_0: "be32 0 = replicate 4 0"
  by (simp add: be32_def byte3_def byte2_def byte1_def byte0_def numeral_eq_Suc)

text \<open>The payload type is read from the first byte of the header, whose low bits are the CSRC count.\<close>

lemma getPayloadType_first_byte:
  "getPayloadType p = (if length (packet p) < 2 then None else Some (ucast (packet p ! 0) AND 0x7F))"
proof -
  have m: "(0x7F :: u16) = mask 7" by (simp add: mask_eq_exp_minus_1)
  have "(push_bit 8 (ucast b) OR ucast a) AND (0x7F :: u16) = ucast a AND 0x7F" for a b :: u8
    unfolding m by (rule bit_word_eqI) (auto simp: bit_simps)
  then show ?thesis
    by (auto simp: getPayloadType_def read_bytes_def from_le16.simps)
qed

end
