(* ===== verification/Srtp_Stream.thy ===== *)
theory Srtp_Stream
  imports Aes_Ctr Hmac Rtp_Packet
begin

text \<open>
  \<open>src/jni/redphone/SrtpStream.cpp\<close> and \<open>SrtpStream.h\<close>: encryption of the payload in place with
  AES-128 in counter mode under an IV made from the salt, the SSRC and the 48 low bits of the
  logical sequence number, and a 20-byte HMAC-SHA1 over the header and the encrypted payload.

  \<open>encrypt\<close> and \<open>decrypt\<close> return the code's result with the packet as they leave it; \<open>None\<close> is an
  access outside the packet's buffer.  \<open>int64_t\<close> is \<open>u64\<close>.
\<close>

record SrtpStreamParameters =
  cipherKey :: "u8 list"
  macKey :: "u8 list"
  salt :: "u8 list"

text \<open>The constructor copies 16, 20 and 14 bytes from what it is given.\<close>

definition new_SrtpStreamParameters ::
  "u8 list \<Rightarrow> u8 list \<Rightarrow> u8 list \<Rightarrow> SrtpStreamParameters option" where
  "new_SrtpStreamParameters cipherKeyPtr macKeyPtr saltPtr =
     do {
       c \<leftarrow> read_bytes cipherKeyPtr 0 16;
       m \<leftarrow> read_bytes macKeyPtr 0 20;
       s \<leftarrow> read_bytes saltPtr 0 14;
       Some \<lparr>cipherKey = c, macKey = m, salt = s\<rparr>
     }"

record SrtpStream =
  parameters :: SrtpStreamParameters
  aes_key :: AES_KEY

text \<open>The key schedule of a new stream is not initialised; \<open>garbage\<close> is what the memory holds.\<close>

definition new_SrtpStream :: "SrtpStreamParameters \<Rightarrow> AES_KEY \<Rightarrow> SrtpStream" where
  "new_SrtpStream ps garbage = \<lparr>parameters = ps, aes_key = garbage\<rparr>"

definition srtp_init :: "SrtpStream \<Rightarrow> int \<times> SrtpStream" where
  "srtp_init s =
     (case AES_set_encrypt_key (Some (cipherKey (parameters s))) (16 * 8) (Some (aes_key s)) of
        (status, k) \<Rightarrow>
          let s = s\<lparr>aes_key := the k\<rparr>
          in if status \<noteq> 0 then (-1, s) else (0, s))"

definition setIv :: "u64 \<Rightarrow> u32 \<Rightarrow> u8 list \<Rightarrow> u8 list" where
  "setIv logicalSequence ssrc saltBytes =
     (let iv = replicate 16 0;
          iv = write_at iv 0 (take 14 saltBytes);
          iv = iv[6 := iv ! 6 XOR ucast (drop_bit 8 ssrc)];
          iv = iv[7 := iv ! 7 XOR ucast ssrc];
          iv = iv[8 := iv ! 8 XOR ucast (signed_drop_bit 40 logicalSequence)];
          iv = iv[9 := iv ! 9 XOR ucast (signed_drop_bit 32 logicalSequence)];
          iv = iv[10 := iv ! 10 XOR ucast (signed_drop_bit 24 logicalSequence)];
          iv = iv[11 := iv ! 11 XOR ucast (signed_drop_bit 16 logicalSequence)];
          iv = iv[12 := iv ! 12 XOR ucast (signed_drop_bit 8 logicalSequence)];
          iv = iv[13 := iv ! 13 XOR ucast logicalSequence]
      in iv)"

text \<open>The context \<open>HMAC\<close> keeps on its stack; its contents do not matter (\<open>HMAC_sha1\<close>).\<close>

definition stack_ctx :: "SHA_CTX HMAC_CTX" where
  "stack_ctx = \<lparr>hm_md = None, md_ctx = EVP_MD_CTX_init, i_ctx = EVP_MD_CTX_init,
     o_ctx = EVP_MD_CTX_init, key_length = 0, hm_key = replicate 128 0\<rparr>"

text \<open>\<open>AES_ctr128_encrypt\<close> over the payload, in place.\<close>

definition crypt_payload :: "SrtpStream \<Rightarrow> u8 list \<Rightarrow> RtpPacket \<Rightarrow> RtpPacket option" where
  "crypt_payload s iv p =
     do {
       inp \<leftarrow> payload_bytes p;
       let (out, st) = AES_ctr128_encrypt inp (aes_key s)
         \<lparr>ivec = iv, ecount_buf = replicate 16 0, num = 0\<rparr>;
       buf \<leftarrow> write_bytes (packet p) header_size out;
       Some (p\<lparr>packet := buf\<rparr>)
     }"

definition srtp_decrypt :: "SrtpStream \<Rightarrow> RtpPacket \<Rightarrow> u64 \<Rightarrow> (int \<times> RtpPacket) option" where
  "srtp_decrypt s p logicalSequence =
     do {
       ssrc \<leftarrow> getSsrc p;
       let iv = setIv logicalSequence ssrc (salt (parameters s));
       if getPayloadLen p < 20 + 1 then Some (-1, p)
       else do {
         let n = sint (getSerializedPacketLen p) - 20;
         d \<leftarrow> (if n < 0 then None else read_bytes (packet p) 0 (nat n));
         ourMac \<leftarrow> HMAC stack_ctx (Some EVP_sha1) (Some (macKey (parameters s))) d;
         theirs \<leftarrow> read_bytes (packet p) (nat n) 20;
         if take 20 ourMac \<noteq> theirs then Some (-1, p)
         else do {
           p \<leftarrow> crypt_payload s iv (setPayloadLen p (getPayloadLen p - 20));
           Some (0, p)
         }
       }
     }"

definition srtp_encrypt :: "SrtpStream \<Rightarrow> RtpPacket \<Rightarrow> u64 \<Rightarrow> (int \<times> RtpPacket) option" where
  "srtp_encrypt s p logicalSequence =
     do {
       ssrc \<leftarrow> getSsrc p;
       let iv = setIv logicalSequence ssrc (salt (parameters s));
       p \<leftarrow> crypt_payload s iv p;
       d \<leftarrow> serialized_bytes p;
       mac \<leftarrow> HMAC stack_ctx (Some EVP_sha1) (Some (macKey (parameters s))) d;
       buf \<leftarrow> write_bytes (packet p) (unat (getSerializedPacketLen p)) mac;
       Some (0, setPayloadLen (p\<lparr>packet := buf\<rparr>) (getPayloadLen p + 20))
     }"

subsection \<open>Lengths as machine integers\<close>

lemma unat_small: "n < 2 ^ 31 \<Longrightarrow> unat (of_nat n :: u32) = n"
  by (simp add: unsigned_of_nat take_bit_nat_eq_self)

lemma sint_small: "n < 2 ^ 31 \<Longrightarrow> sint (of_nat n :: u32) = int n"
  by (simp add: signed_of_nat signed_take_bit_int_eq_self)

lemma length_setIv [simp]: "length s = 14 \<Longrightarrow> length (setIv sq ssrc s) = 16"
  by (simp add: setIv_def Let_def)

lemma stack_ctx_key [simp]: "length (hm_key stack_ctx) = 128"
  by (simp add: stack_ctx_def)

lemma HMAC_stack [simp]: "HMAC stack_ctx (Some EVP_sha1) (Some key) d = Some (hmac_sha1 key d)"
  by (simp add: HMAC_sha1)

text \<open>The keystream of a packet.\<close>

definition packet_keystream :: "SrtpStream \<Rightarrow> u64 \<Rightarrow> u32 \<Rightarrow> nat \<Rightarrow> u8 list" where
  "packet_keystream s sq ssrc n =
     aes_keystream (aes_key s) (setIv sq ssrc (salt (parameters s))) n"

lemma crypt_payload_split:
  assumes "packet p = hdr @ pl @ rest" "length hdr = header_size" "payloadLen p = of_nat (length pl)"
    and "length pl < 2 ^ 31" "length (salt (parameters s)) = 14"
  shows "crypt_payload s (setIv sq ssrc (salt (parameters s))) p =
    Some (p\<lparr>packet := hdr @ xor_bytes pl (packet_keystream s sq ssrc (length pl)) @ rest\<rparr>)"
proof -
  let ?iv = "setIv sq ssrc (salt (parameters s))"
  have iv: "length ?iv = 16" using assms(5) by simp
  have "payload_bytes p = Some pl"
    using assms(1-4) by (simp add: payload_bytes_def getPayloadLen_def unat_small read_bytes_def)
  moreover obtain st where "AES_ctr128_encrypt pl (aes_key s)
      \<lparr>ivec = ?iv, ecount_buf = replicate 16 0, num = 0\<rparr> =
      (xor_bytes pl (packet_keystream s sq ssrc (length pl)), st)"
    using AES_ctr128_keystream [OF iv, of pl "aes_key s"]
    by (metis fresh_ctr_def packet_keystream_def prod.collapse)
  moreover have "length (xor_bytes pl (packet_keystream s sq ssrc (length pl))) = length pl"
    using length_aes_keystream [OF iv] by (simp add: packet_keystream_def)
  then have "write_bytes (packet p) header_size (xor_bytes pl (packet_keystream s sq ssrc (length pl))) =
      Some (hdr @ xor_bytes pl (packet_keystream s sq ssrc (length pl)) @ rest)"
    unfolding assms(1) using assms(2) by (simp add: write_bytes_def write_at_append)
  ultimately show ?thesis
    by (simp add: crypt_payload_def)
qed

lemma of_nat_add_u32: "of_nat a + of_nat b = (of_nat (a + b) :: u32)"
  by simp

lemma getSsrc_split:
  "packet p = hdr @ rest \<Longrightarrow> length hdr = header_size \<Longrightarrow>
   getSsrc p = Some (from_be32 (drop 8 hdr))"
  by (simp add: getSsrc_def read_bytes_def header_size_def)

text \<open>What \<open>encrypt\<close> leaves: the header, the masked payload and the MAC, then the rest of the buffer.\<close>

lemma srtp_encrypt_split:
  assumes "packet p = hdr @ pl @ rest" "length hdr = header_size" "payloadLen p = of_nat (length pl)"
    and "length pl + 32 < 2 ^ 31" "length (salt (parameters s)) = 14" "20 \<le> length rest"
  shows "srtp_encrypt s p sq =
    (let ct = xor_bytes pl (packet_keystream s sq (from_be32 (drop 8 hdr)) (length pl))
     in Some (0, p\<lparr>packet := hdr @ ct @ hmac_sha1 (macKey (parameters s)) (hdr @ ct) @ drop 20 rest,
                  payloadLen := of_nat (length pl + 20)\<rparr>))"
proof -
  define ct where "ct = xor_bytes pl (packet_keystream s sq (from_be32 (drop 8 hdr)) (length pl))"
  have ct: "length ct = length pl"
    using length_aes_keystream [of "setIv sq (from_be32 (drop 8 hdr)) (salt (parameters s))"] assms(5)
    by (simp add: ct_def packet_keystream_def)
  define p1 where "p1 = p\<lparr>packet := hdr @ ct @ rest\<rparr>"
  have crypt: "crypt_payload s (setIv sq (from_be32 (drop 8 hdr)) (salt (parameters s))) p = Some p1"
    using crypt_payload_split [OF assms(1-3) _ assms(5)] assms(4) by (simp add: p1_def ct_def)
  have slen: "getSerializedPacketLen p1 = of_nat (header_size + length pl)"
    using assms(3) by (simp add: getSerializedPacketLen_def p1_def header_size_def)
  have small: "header_size + length pl < 2 ^ 31" using assms(4) by (simp add: header_size_def)
  have n: "unat (getSerializedPacketLen p1) = header_size + length pl"
    "\<not> sint (getSerializedPacketLen p1) < 0"
    unfolding slen using unat_small [OF small] sint_small [OF small] by simp_all
  have ser: "serialized_bytes p1 = Some (hdr @ ct)"
    unfolding serialized_bytes_def n(1) using n(2) ct assms(2)
    by (simp add: read_bytes_def p1_def)
  have wr: "write_bytes (packet p1) (header_size + length pl) (hmac_sha1 (macKey (parameters s)) (hdr @ ct)) =
      Some (hdr @ ct @ hmac_sha1 (macKey (parameters s)) (hdr @ ct) @ drop 20 rest)"
    using ct assms(2,6) by (simp add: write_bytes_def write_at_def p1_def)
  have plen: "getPayloadLen p1 + 20 = of_nat (length pl + 20)"
    using assms(3) by (simp add: getPayloadLen_def p1_def)
  show ?thesis
    unfolding srtp_encrypt_def getSsrc_split [OF assms(1,2)] Let_def ct_def [symmetric]
    by (simp only: Option.bind.simps crypt ser n(1) HMAC_stack wr plen)
      (simp add: setPayloadLen_def p1_def)
qed

text \<open>What \<open>decrypt\<close> does with a header, a body of at least one byte, and twenty bytes of MAC.\<close>

lemma srtp_decrypt_split:
  assumes "packet p = hdr @ ct @ mac" "length hdr = header_size" "length mac = 20"
    and "payloadLen p = of_nat (length ct + 20)" "length ct + 32 < 2 ^ 31" "ct \<noteq> []"
    and "length (salt (parameters s)) = 14"
  shows "srtp_decrypt s p sq =
    Some (if mac = hmac_sha1 (macKey (parameters s)) (hdr @ ct)
      then (0, p\<lparr>packet := hdr @ xor_bytes ct
          (packet_keystream s sq (from_be32 (drop 8 hdr)) (length ct)) @ mac,
          payloadLen := of_nat (length ct)\<rparr>)
      else (-1, p))"
proof -
  have ssrc: "getSsrc p = Some (from_be32 (drop 8 hdr))"
    using getSsrc_split [OF assms(1,2)] .
  have "length ct + 20 < 2 ^ 31" using assms(5) by simp
  then have "unat (getPayloadLen p) = length ct + 20"
    unfolding getPayloadLen_def assms(4) by (rule unat_small)
  moreover have "length ct > 0" using assms(6) by simp
  ultimately have notshort: "\<not> getPayloadLen p < 20 + 1"
    by (simp add: word_less_nat_alt)
  have slen: "getSerializedPacketLen p = of_nat (header_size + (length ct + 20))"
    using assms(4) by (simp add: getSerializedPacketLen_def header_size_def)
  have small: "header_size + (length ct + 20) < 2 ^ 31" using assms(5) by (simp add: header_size_def)
  have n: "sint (getSerializedPacketLen p) - 20 = int (header_size + length ct)"
    unfolding slen sint_small [OF small] by simp
  have d: "read_bytes (packet p) 0 (header_size + length ct) = Some (hdr @ ct)"
    "read_bytes (packet p) (header_size + length ct) 20 = Some mac"
    unfolding assms(1) using assms(2,3) by (simp_all add: read_bytes_def)
  let ?p = "setPayloadLen p (getPayloadLen p - 20)"
  have pl: "getPayloadLen p - 20 = of_nat (length ct)"
    using assms(4) by (simp add: getPayloadLen_def)
  have crypt: "crypt_payload s (setIv sq (from_be32 (drop 8 hdr)) (salt (parameters s))) ?p =
      Some (?p\<lparr>packet := hdr @ xor_bytes ct
        (packet_keystream s sq (from_be32 (drop 8 hdr)) (length ct)) @ mac\<rparr>)"
    using assms(5) by (intro crypt_payload_split)
      (simp_all add: assms(1,2,7) pl setPayloadLen_def)
  have n': "\<not> sint (getSerializedPacketLen p) - 20 < 0"
    "nat (sint (getSerializedPacketLen p) - 20) = header_size + length ct"
    unfolding n by simp_all
  show ?thesis
    unfolding srtp_decrypt_def ssrc Let_def using notshort
    by (simp only: Option.bind.simps if_False n' d HMAC_stack crypt)
      (use pl in \<open>simp add: setPayloadLen_def\<close>)
qed

subsection \<open>The IV\<close>

definition seq_bytes :: "u64 \<Rightarrow> u8 list" where
  "seq_bytes q =
     [ucast (signed_drop_bit 40 q), ucast (signed_drop_bit 32 q), ucast (signed_drop_bit 24 q),
      ucast (signed_drop_bit 16 q), ucast (signed_drop_bit 8 q), ucast q]"

definition iv_mask :: "u64 \<Rightarrow> u32 \<Rightarrow> u8 list" where
  "iv_mask q ssrc = replicate 6 0 @ [ucast (drop_bit 8 ssrc), ucast ssrc] @ seq_bytes q"

lemma length_seq_bytes [simp]: "length (seq_bytes q) = 6"
  by (simp add: seq_bytes_def)

lemma length_iv_mask [simp]: "length (iv_mask q ssrc) = 14"
  by (simp add: iv_mask_def)

lemma setIv_mask:
  assumes "length s = 14"
  shows "setIv q ssrc s = xor_bytes s (iv_mask q ssrc) @ [0, 0]"
proof -
  obtain a0 a1 a2 a3 a4 a5 a6 a7 a8 a9 a10 a11 a12 a13 where
    "s = [a0, a1, a2, a3, a4, a5, a6, a7, a8, a9, a10, a11, a12, a13]"
    using assms by (auto simp: length_Suc_conv numeral_eq_Suc)
  then show ?thesis
    by (simp add: setIv_def Let_def iv_mask_def seq_bytes_def write_at_def numeral_eq_Suc)
qed

lemma xor_bytes_left_inject:
  "length a = length s \<Longrightarrow> length b = length s \<Longrightarrow> xor_bytes s a = xor_bytes s b \<longleftrightarrow> a = b"
proof (induction s arbitrary: a b)
  case (Cons x s)
  then obtain y a' z b' where "a = y # a'" "b = z # b'" by (cases a; cases b) auto
  moreover have "x XOR y = x XOR z \<longleftrightarrow> y = z"
    by (metis xor.assoc xor.left_neutral xor_self_eq)
  ultimately show ?case using Cons by simp
qed simp

lemma bit_seq_byte:
  "n < 8 \<Longrightarrow> k + n < 64 \<Longrightarrow> bit (ucast (signed_drop_bit k (q :: u64)) :: u8) n \<longleftrightarrow> bit q (k + n)"
  by (auto simp: bit_simps)

lemma seq_bytes_inject: "seq_bytes q = seq_bytes q' \<longleftrightarrow> take_bit 48 q = take_bit 48 q'"
proof
  assume eq: "seq_bytes q = seq_bytes q'"
  show "take_bit 48 q = take_bit 48 q'"
  proof (rule bit_word_eqI)
    fix n
    have "bit q n = bit q' n" if n: "n < 48"
    proof -
      define k where "k = n div 8"
      define r where "r = n mod 8"
      have "n = 8 * k + r" "r < 8" "k < 6" using n by (simp_all add: k_def r_def)
      moreover have "ucast (signed_drop_bit (8 * k) q) = (ucast (signed_drop_bit (8 * k) q') :: u8)"
        using eq \<open>k < 6\<close> by (auto simp: seq_bytes_def less_Suc_eq numeral_eq_Suc)
      ultimately show ?thesis
        using bit_seq_byte [of r "8 * k" q] bit_seq_byte [of r "8 * k" q'] by simp
    qed
    then show "bit (take_bit 48 q) n = bit (take_bit 48 q') n"
      by (auto simp: bit_take_bit_iff)
  qed
next
  assume eq: "take_bit 48 q = take_bit 48 q'"
  have "bit q n = bit q' n" if "n < 48" for n
    using that arg_cong [OF eq, of "\<lambda>w. bit w n"] by (simp add: bit_take_bit_iff)
  then have "ucast (signed_drop_bit k q) = (ucast (signed_drop_bit k q') :: u8)" if "k \<le> 40" for k
    using that by (intro bit_word_eqI) (simp add: bit_seq_byte)
  from this [of 40] this [of 32] this [of 24] this [of 16] this [of 8] this [of 0]
  show "seq_bytes q = seq_bytes q'" by (simp add: seq_bytes_def)
qed

text \<open>The last two bytes of the IV count the blocks of one packet: 65536 of them before the
  counter runs into the sequence number.\<close>

lemma counter_block:
  assumes "length s = 14" "i < 65536"
  shows "be_val (counter_at (setIv q ssrc s) i) = be_val (xor_bytes s (iv_mask q ssrc)) * 65536 + i"
proof -
  let ?m = "xor_bytes s (iv_mask q ssrc)"
  have "be_val (?m @ [0, 0]) = be_val ?m * 65536"
    by (simp add: be_val_append) (simp add: be_val_def)
  moreover have "be_val ?m < 2 ^ 112"
    using be_val_less [of ?m] assms(1) by simp
  ultimately have "(be_val (?m @ [0, 0]) + i) mod 2 ^ 128 = be_val ?m * 65536 + i"
    using assms(2) by simp
  then show ?thesis
    using be_val_counter_at [of "setIv q ssrc s" i] assms(1) by (simp add: setIv_mask)
qed

lemma counter_block_inject:
  assumes "length s = 14" "i < 65536" "j < 65536"
    and "counter_at (setIv q ssrc s) i = counter_at (setIv q' ssrc' s) j"
  shows "i = j" "take_bit 48 q = take_bit 48 q'" "take_bit 16 ssrc = take_bit 16 ssrc'"
proof -
  let ?m = "xor_bytes s (iv_mask q ssrc)" and ?m' = "xor_bytes s (iv_mask q' ssrc')"
  have eq: "be_val ?m * 65536 + i = be_val ?m' * 65536 + j"
    using counter_block [OF assms(1,2), of q ssrc] counter_block [OF assms(1,3), of q' ssrc'] assms(4)
    by simp
  then have "(be_val ?m * 65536 + i) div 65536 = (be_val ?m' * 65536 + j) div 65536" by simp
  then have m: "be_val ?m = be_val ?m'" using assms(2,3) by simp
  with eq show "i = j" by simp
  have "?m = ?m'"
    using be_val_inject [of ?m ?m'] m assms(1) by simp
  then have "iv_mask q ssrc = iv_mask q' ssrc'"
    using xor_bytes_left_inject [of "iv_mask q ssrc" s "iv_mask q' ssrc'"] assms(1) by simp
  then have "seq_bytes q = seq_bytes q'" "ucast (drop_bit 8 ssrc) = (ucast (drop_bit 8 ssrc') :: u8)"
    "ucast ssrc = (ucast ssrc' :: u8)" by (simp_all add: iv_mask_def)
  then show "take_bit 48 q = take_bit 48 q'" by (simp only: seq_bytes_inject)
  show "take_bit 16 ssrc = take_bit 16 ssrc'"
  proof (rule bit_word_eqI)
    fix n
    have lo: "bit ssrc n = bit ssrc' n" if "n < 8" for n
      using that arg_cong [OF \<open>ucast ssrc = (ucast ssrc' :: u8)\<close>, of "\<lambda>w. bit w n"]
      by (simp add: bit_simps)
    have hi: "bit ssrc (8 + n) = bit ssrc' (8 + n)" if "n < 8" for n
      using that arg_cong [OF \<open>ucast (drop_bit 8 ssrc) = (ucast (drop_bit 8 ssrc') :: u8)\<close>,
        of "\<lambda>w. bit w n"] by (simp add: bit_simps)
    have "bit ssrc n = bit ssrc' n" if "n < 16"
      using lo [of n] hi [of "n - 8"] that by (cases "n < 8") auto
    then show "bit (take_bit 16 ssrc) n = bit (take_bit 16 ssrc') n"
      by (auto simp: bit_take_bit_iff)
  qed
qed

subsection \<open>What one side encrypts the other decrypts\<close>

text \<open>A packet whose buffer has room for the MAC, split at the end of the header and of the payload.\<close>

definition sendable :: "RtpPacket \<Rightarrow> u8 list \<Rightarrow> bool" where
  "sendable p pl \<longleftrightarrow>
     payload_bytes p = Some pl \<and> payloadLen p = of_nat (length pl) \<and>
     header_size + length pl + 20 \<le> length (packet p) \<and> length pl + 32 < 2 ^ 31"

definition srtp_ready :: "SrtpStream \<Rightarrow> bool" where
  "srtp_ready s \<longleftrightarrow> length (salt (parameters s)) = 14"

lemma sendable_split:
  assumes "sendable p pl"
  obtains hdr rest where "packet p = hdr @ pl @ rest" "length hdr = header_size" "20 \<le> length rest"
    "payloadLen p = of_nat (length pl)" "length pl + 32 < 2 ^ 31"
proof -
  have "unat (getPayloadLen p) = length pl"
    using assms unat_small [of "length pl"] by (simp add: sendable_def getPayloadLen_def)
  then have "pl = take (length pl) (drop header_size (packet p))"
    using assms by (auto simp: sendable_def payload_bytes_def read_bytes_def split: if_splits)
  then have "packet p = take header_size (packet p) @ pl @ drop (length pl + header_size) (packet p)"
    by (metis append_take_drop_id drop_drop)
  moreover have "length (take header_size (packet p)) = header_size"
    "20 \<le> length (drop (length pl + header_size) (packet p))"
    using assms by (auto simp: sendable_def)
  ultimately show ?thesis using that assms by (auto simp: sendable_def)
qed

text \<open>The bytes that go over the network.\<close>

lemma srtp_encrypt_wire:
  assumes "sendable p pl" "srtp_ready s"
  obtains hdr ct p' where "take header_size (packet p) = hdr" "length hdr = header_size"
    "ct = xor_bytes pl (packet_keystream s sq (from_be32 (drop 8 hdr)) (length pl))"
    "length ct = length pl" "srtp_encrypt s p sq = Some (0, p')"
    "serialized_bytes p' = Some (hdr @ ct @ hmac_sha1 (macKey (parameters s)) (hdr @ ct))"
    "payloadLen p' = of_nat (length pl + 20)"
proof -
  obtain hdr rest where p: "packet p = hdr @ pl @ rest" "length hdr = header_size" "20 \<le> length rest"
    "payloadLen p = of_nat (length pl)" "length pl + 32 < 2 ^ 31"
    using sendable_split [OF assms(1)] .
  define ct where "ct = xor_bytes pl (packet_keystream s sq (from_be32 (drop 8 hdr)) (length pl))"
  have ct: "length ct = length pl"
    using length_aes_keystream [of "setIv sq (from_be32 (drop 8 hdr)) (salt (parameters s))"] assms(2)
    by (simp add: ct_def packet_keystream_def srtp_ready_def)
  let ?mac = "hmac_sha1 (macKey (parameters s)) (hdr @ ct)"
  define p' where "p' = p\<lparr>packet := hdr @ ct @ ?mac @ drop 20 rest, payloadLen := of_nat (length pl + 20)\<rparr>"
  have enc: "srtp_encrypt s p sq = Some (0, p')"
    using srtp_encrypt_split [OF p(1,2,4,5) _ p(3), of s sq] assms(2)
    by (simp add: srtp_ready_def Let_def ct_def p'_def)
  have slen: "getSerializedPacketLen p' = of_nat (header_size + (length pl + 20))"
    by (simp add: getSerializedPacketLen_def p'_def header_size_def)
  have small: "header_size + (length pl + 20) < 2 ^ 31" using p(5) by (simp add: header_size_def)
  have "serialized_bytes p' = Some (hdr @ ct @ ?mac)"
    unfolding serialized_bytes_def slen unat_small [OF small] sint_small [OF small]
    using p(2) ct by (simp add: read_bytes_def p'_def)
  then show ?thesis
    using that [of hdr ct p'] p(1,2) ct enc by (simp add: ct_def p'_def)
qed

lemma srtp_roundtrip:
  assumes "sendable p pl" "pl \<noteq> []" "srtp_ready s" "srtp_ready r"
    and "same_cipher (aes_key r) (aes_key s)" "parameters r = parameters s"
    and "srtp_encrypt s p sq = Some (0, p')" "serialized_bytes p' = Some wire"
  shows "\<exists>q. srtp_decrypt r (RtpPacket_received wire (length wire)) sq = Some (0, q) \<and>
    payload_bytes q = Some pl \<and> take header_size (packet q) = take header_size (packet p)"
proof -
  obtain hdr ct p'' where e: "take header_size (packet p) = hdr" "length hdr = header_size"
    "ct = xor_bytes pl (packet_keystream s sq (from_be32 (drop 8 hdr)) (length pl))"
    "length ct = length pl" "srtp_encrypt s p sq = Some (0, p'')"
    "serialized_bytes p'' = Some (hdr @ ct @ hmac_sha1 (macKey (parameters s)) (hdr @ ct))"
    "payloadLen p'' = of_nat (length pl + 20)"
    by (rule srtp_encrypt_wire [OF assms(1,3), of sq])
  have wire: "wire = hdr @ ct @ hmac_sha1 (macKey (parameters s)) (hdr @ ct)"
    using e(5,6) assms(7,8) by simp
  have small: "length ct + 32 < 2 ^ 31" using assms(1) e(4) by (simp add: sendable_def)
  let ?w = "RtpPacket_received wire (length wire)"
  have ks: "packet_keystream r q x n = packet_keystream s q x n" for q x n
    using same_cipher_keystream [OF assms(5)] assms(6) by (simp add: packet_keystream_def)
  have "length (packet_keystream s sq x (length pl)) = length pl" for x
    using assms(3) by (simp add: packet_keystream_def length_aes_keystream srtp_ready_def)
  then have unmask: "xor_bytes ct (packet_keystream s sq (from_be32 (drop 8 hdr)) (length pl)) = pl"
    unfolding e(3) by (simp add: xor_bytes_cancel)
  have "ct \<noteq> []" using e(4) assms(2) by auto
  then have "srtp_decrypt r ?w sq = Some (0, ?w\<lparr>packet := hdr @ pl @ hmac_sha1 (macKey (parameters s)) (hdr @ ct),
      payloadLen := of_nat (length ct)\<rparr>)"
    using srtp_decrypt_split [of ?w hdr ct "hmac_sha1 (macKey (parameters s)) (hdr @ ct)" r sq]
      e(2,4) assms(2,4,6) small
    by (simp add: RtpPacket_received_def wire srtp_ready_def ks unmask header_size_def)
  moreover have "unat (of_nat (length ct) :: u32) = length pl"
    using small e(4) by (simp add: unat_small)
  ultimately show ?thesis
    using e(1,2) by (simp add: payload_bytes_def getPayloadLen_def read_bytes_def)
qed

end
