(* ===== verification/Rtp_Transport.thy ===== *)
theory Rtp_Transport
  imports Srtp_Stream
begin

text \<open>
  The two ends of the media stream: \<open>src/jni/redphone/SequenceCounter.h\<close>, \<open>RtpAudioSender.cpp\<close> and
  \<open>RtpAudioReceiver.cpp\<close>.  The sockets are outside: \<open>sendto\<close> is the argument \<open>sendto_ok\<close>, which
  says of each datagram whether the call succeeds, and what \<open>recv\<close> delivers is an argument, \<open>None\<close>
  when it returns -1.  A step that reaches undefined behaviour is \<open>None\<close>.
\<close>

subsection \<open>SequenceCounter\<close>

record SequenceCounter =
  prevShortId :: u16
  prevLongId :: u64

definition new_SequenceCounter :: SequenceCounter where
  "new_SequenceCounter = \<lparr>prevShortId = 0, prevLongId = 0\<rparr>"

definition ShortRange :: int where "ShortRange = 2 ^ 16"

definition convertNext :: "SequenceCounter \<Rightarrow> u16 \<Rightarrow> u64 \<times> SequenceCounter" where
  "convertNext c nextShortId =
     (let delta = int (unat nextShortId) - int (unat (prevShortId c));
          delta = (if delta > 0x7fff then delta - ShortRange else delta);
          delta = (if delta < - 0x7fff - 1 then delta + ShortRange else delta);
          nextLongId = prevLongId c + of_int delta
      in (nextLongId, c\<lparr>prevShortId := nextShortId, prevLongId := nextLongId\<rparr>))"

subsection \<open>RtpAudioSender\<close>

record RtpAudioSender =
  sequenceNumber :: u32
  snd_stream :: SrtpStream

definition new_RtpAudioSender :: "SrtpStreamParameters \<Rightarrow> AES_KEY \<Rightarrow> RtpAudioSender" where
  "new_RtpAudioSender ps garbage = \<lparr>sequenceNumber = 0, snd_stream = new_SrtpStream ps garbage\<rparr>"

definition sender_init :: "RtpAudioSender \<Rightarrow> int \<times> RtpAudioSender" where
  "sender_init s =
     (case srtp_init (snd_stream s) of
        (r, st) \<Rightarrow> (if r \<noteq> 0 then -1 else 0, s\<lparr>snd_stream := st\<rparr>))"

text \<open>The result of \<open>send\<close>, the sender after it, and the datagram handed to \<open>sendto\<close>, if any.\<close>

definition sender_send ::
  "(u8 list \<Rightarrow> bool) \<Rightarrow> RtpAudioSender \<Rightarrow> u32 \<Rightarrow> u8 list \<Rightarrow>
   (int \<times> RtpAudioSender \<times> u8 list option) option" where
  "sender_send sendto_ok s timestamp encodedData =
     do {
       let packet = RtpPacket_new encodedData (sequenceNumber s) timestamp;
       let sq = sequenceNumber s;
       let s = s\<lparr>sequenceNumber := sequenceNumber s + 1\<rparr>;
       (r, packet) \<leftarrow> srtp_encrypt (snd_stream s) packet (ucast sq);
       if r \<noteq> 0 then Some (-1, s, None)
       else do {
         datagram \<leftarrow> serialized_bytes packet;
         if \<not> sendto_ok datagram then Some (-1, s, Some datagram)
         else Some (0, s, Some datagram)
       }
     }"

subsection \<open>RtpAudioReceiver\<close>

record RtpAudioReceiver =
  sequenceCounter :: SequenceCounter
  rcv_stream :: SrtpStream

definition new_RtpAudioReceiver :: "SrtpStreamParameters \<Rightarrow> AES_KEY \<Rightarrow> RtpAudioReceiver" where
  "new_RtpAudioReceiver ps garbage =
     \<lparr>sequenceCounter = new_SequenceCounter, rcv_stream = new_SrtpStream ps garbage\<rparr>"

definition receiver_init :: "RtpAudioReceiver \<Rightarrow> int \<times> RtpAudioReceiver" where
  "receiver_init r =
     (case srtp_init (rcv_stream r) of
        (x, st) \<Rightarrow> (if x \<noteq> 0 then -1 else 0, r\<lparr>rcv_stream := st\<rparr>))"

text \<open>\<open>recv\<close> delivers at most \<open>encodedDataLen\<close> bytes of a datagram.  The packet is \<open>None\<close> where the
  code returns \<open>NULL\<close>.\<close>

definition receiver_receive ::
  "RtpAudioReceiver \<Rightarrow> u8 list option \<Rightarrow> nat \<Rightarrow> (RtpPacket option \<times> RtpAudioReceiver) option" where
  "receiver_receive r recv encodedDataLen =
     (case recv of
        None \<Rightarrow> Some (None, r)
      | Some datagram \<Rightarrow>
          do {
            let received = min (length datagram) encodedDataLen;
            let packet = RtpPacket_received datagram received;
            short \<leftarrow> getSequenceNumber packet;
            let (sq, c) = convertNext (sequenceCounter r) short;
            let r = r\<lparr>sequenceCounter := c\<rparr>;
            (x, packet) \<leftarrow> srtp_decrypt (rcv_stream r) packet sq;
            Some (if x \<noteq> 0 then None else Some packet, r)
          })"

subsection \<open>The counter recovers the sequence number\<close>

text \<open>The counter stands at \<open>n\<close>.\<close>

definition synced :: "SequenceCounter \<Rightarrow> int \<Rightarrow> bool" where
  "synced c n \<longleftrightarrow> prevShortId c = of_int n \<and> prevLongId c = of_int n"

lemma synced_new: "synced new_SequenceCounter 0"
  by (simp add: synced_def new_SequenceCounter_def)

lemma unat_of_int_u16: "int (unat (of_int n :: u16)) = n mod 2 ^ 16"
  by (simp add: take_bit_eq_mod unsigned_of_int)

lemma wrap_delta:
  fixes n l :: int
  assumes "- 0x8000 \<le> n - l" "n - l \<le> 0x7fff"
  defines "d \<equiv> n mod 2 ^ 16 - l mod 2 ^ 16"
  shows "(let d = (if d > 0x7fff then d - 2 ^ 16 else d) in if d < - 0x8000 then d + 2 ^ 16 else d) = n - l"
proof -
  have "\<exists>k. n - l = d + k * 2 ^ 16"
    using minus_mod_eq_mult_div [of n "2 ^ 16"] minus_mod_eq_mult_div [of l "2 ^ 16"]
    by (intro exI [of _ "n div 2 ^ 16 - l div 2 ^ 16"]) (simp add: d_def algebra_simps)
  then obtain k where k: "n - l = d + k * 65536" by auto
  have "0 \<le> n mod 65536" "n mod 65536 < 65536" "0 \<le> l mod 65536" "l mod 65536 < 65536" by simp_all
  then have "- 65536 < d" "d < 65536" by (simp_all add: d_def)
  with k assms(1,2) have "- 2 < k" "k < 2" by linarith+
  then have "k = -1 \<or> k = 0 \<or> k = 1" by auto
  then show ?thesis
    using k assms(1,2) \<open>- 65536 < d\<close> \<open>d < 65536\<close> by (auto simp: Let_def)
qed

lemma convertNext_synced:
  assumes "synced c l" "- 0x8000 \<le> n - l" "n - l \<le> 0x7fff"
  shows "\<exists>c'. convertNext c (of_int n) = (of_int n, c') \<and> synced c' n"
proof -
  let ?d = "n mod 2 ^ 16 - l mod 2 ^ 16"
  have "convertNext c (of_int n) = (let nextLongId = prevLongId c + of_int (n - l)
      in (nextLongId, c\<lparr>prevShortId := of_int n, prevLongId := nextLongId\<rparr>))"
    using wrap_delta [OF assms(2,3)] assms(1)
    unfolding convertNext_def Let_def synced_def ShortRange_def
    by (simp only: unat_of_int_u16) simp
  moreover have "prevLongId c + of_int (n - l) = of_int n"
    using assms(1) by (simp add: synced_def)
  ultimately show ?thesis by (simp add: synced_def Let_def)
qed

subsection \<open>One packet, end to end\<close>

text \<open>Sender and receiver share the keys; both streams have been initialised.\<close>

definition paired :: "RtpAudioSender \<Rightarrow> RtpAudioReceiver \<Rightarrow> bool" where
  "paired s r \<longleftrightarrow>
     parameters (rcv_stream r) = parameters (snd_stream s) \<and>
     same_cipher (aes_key (rcv_stream r)) (aes_key (snd_stream s)) \<and> srtp_ready (snd_stream s)"

lemma RtpPacket_new_sendable:
  "length d + 32 < 2 ^ 31 \<Longrightarrow> sendable (RtpPacket_new d sq ts) d"
proof -
  assume len: "length d + 32 < 2 ^ 31"
  have pl: "getPayloadLen (RtpPacket_new d sq ts) = of_nat (length d)"
    by (simp add: getPayloadLen_def RtpPacket_new_def Let_def)
  have lay: "packet (RtpPacket_new d sq ts) = layout (be16 32768) (be16 (ucast sq)) (be32 ts) (be32 0) d (replicate 20 0)"
    by (simp only: RtpPacket_new_layout be32_0)
  have "payload_bytes (RtpPacket_new d sq ts) = Some d"
    using layout_fields(4) [OF lay _ pl] len by simp
  moreover have "header_size + length d + 20 \<le> length (packet (RtpPacket_new d sq ts))"
    by (simp add: lay layout_def header_size_def)
  ultimately show ?thesis
    using pl len by (simp add: sendable_def getPayloadLen_def)
qed

text \<open>The accessors depend on the first twelve bytes only.\<close>

lemma read_bytes_header:
  assumes "take header_size (packet p) = take header_size (packet q)"
    and "header_size \<le> length (packet p)" "header_size \<le> length (packet q)" "off + n \<le> header_size"
  shows "read_bytes (packet p) off n = read_bytes (packet q) off n"
proof -
  have "take n (drop off (take header_size xs)) = take n (drop off xs)" for xs :: "u8 list"
    using assms(4) by (simp add: take_drop min_absorb1)
  then have "take n (drop off (packet p)) = take n (drop off (packet q))"
    using assms(1) by metis
  then show ?thesis using assms(2-4) by (simp add: read_bytes_def)
qed

lemma header_accessors:
  assumes "take header_size (packet p) = take header_size (packet q)"
    and "header_size \<le> length (packet p)" "header_size \<le> length (packet q)"
  shows "getSequenceNumber p = getSequenceNumber q" "getTimestamp p = getTimestamp q"
    and "getSsrc p = getSsrc q"
  unfolding getSequenceNumber_def getTimestamp_def getSsrc_def
  using read_bytes_header [OF assms, of 2 2] read_bytes_header [OF assms, of 4 4]
    read_bytes_header [OF assms, of 8 4] by (simp_all add: header_size_def)

lemma payload_header: "payload_bytes q = Some pl \<Longrightarrow> header_size \<le> length (packet q)"
  by (auto simp: payload_bytes_def read_bytes_def split: if_splits)

lemma ucast_of_nat_u64: "k < 2 ^ 32 \<Longrightarrow> ucast (of_nat k :: u32) = (of_nat k :: u64)"
proof -
  assume "k < 2 ^ 32"
  then have "unat (of_nat k :: u32) = k" by (simp add: unsigned_of_nat take_bit_nat_eq_self)
  then show ?thesis using of_nat_unat [of "of_nat k :: u32", where 'a = u64] by (simp only:)
qed

lemma ucast_of_nat_u16: "ucast (of_nat k :: u32) = (of_nat k :: u16)"
  by (rule bit_word_eqI) (simp add: bit_simps)

lemma send_receive:
  assumes "paired s r" "data \<noteq> []" "length data + 32 \<le> 4096"
    and "sequenceNumber s = of_nat k" "k < 2 ^ 32"
    and "synced (sequenceCounter r) l" "- 0x8000 \<le> int k - l" "int k - l \<le> 0x7fff"
  obtains s' w q r' where "sender_send (\<lambda>_. True) s ts data = Some (0, s', Some w)"
    "sequenceNumber s' = of_nat (k + 1)"
    "receiver_receive r (Some w) 4096 = Some (Some q, r')" "payload_bytes q = Some data"
    "getTimestamp q = Some ts" "getSequenceNumber q = Some (of_nat k)"
    "synced (sequenceCounter r') (int k)" "paired s' r'" "getPayloadType q = Some 0" "getSsrc q = Some 0"
proof -
  let ?p = "RtpPacket_new data (sequenceNumber s) ts"
  have len: "length data + 32 < 2 ^ 31" using assms(3) by simp
  have ready: "srtp_ready (snd_stream s)" "srtp_ready (rcv_stream r)"
    using assms(1) by (simp_all add: paired_def srtp_ready_def)
  note sendable = RtpPacket_new_sendable [OF len, of "sequenceNumber s" ts]
  obtain hdr ct p' where e: "take header_size (packet ?p) = hdr" "length hdr = header_size"
    "length ct = length data" "srtp_encrypt (snd_stream s) ?p (of_nat k) = Some (0, p')"
    "serialized_bytes p' = Some (hdr @ ct @ hmac_sha1 (macKey (parameters (snd_stream s))) (hdr @ ct))"
    by (rule srtp_encrypt_wire [OF sendable ready(1)])
  define w where "w = hdr @ ct @ hmac_sha1 (macKey (parameters (snd_stream s))) (hdr @ ct)"
  define s' where "s' = s\<lparr>sequenceNumber := of_nat (k + 1)\<rparr>"
  have send: "sender_send (\<lambda>_. True) s ts data = Some (0, s', Some w)"
    using e(4,5) assms(4) ucast_of_nat_u64 [OF assms(5)]
    by (simp add: sender_send_def w_def s'_def Let_def)
  have wlen: "length w = header_size + length data + 20" using e(2,3) by (simp add: w_def)
  have lay: "packet ?p = layout (be16 32768) (be16 (of_nat k)) (be32 ts) (be32 0) data (replicate 20 0)"
    using assms(4) by (simp only: RtpPacket_new_layout be32_0 ucast_of_nat_u16)
  let ?q = "RtpPacket_received w (length w)"
  have whdr: "take header_size (packet ?q) = take header_size (packet ?p)"
    using e(1,2) by (simp add: RtpPacket_received_def w_def)
  have big: "header_size \<le> length (packet ?q)" "header_size \<le> length (packet ?p)"
    using wlen by (simp_all add: RtpPacket_received_def lay layout_def header_size_def)
  have short: "getSequenceNumber ?q = Some (of_nat k)"
    using header_accessors(1) [OF whdr big] layout_fields(1) [OF lay] by simp
  obtain c' where conv: "convertNext (sequenceCounter r) (of_nat k) = (of_nat k, c')" "synced c' (int k)"
    using convertNext_synced [OF assms(6-8)] by auto
  obtain q where q: "srtp_decrypt (rcv_stream r) ?q (of_nat k) = Some (0, q)"
    "payload_bytes q = Some data" "take header_size (packet q) = take header_size (packet ?p)"
    using srtp_roundtrip [OF sendable assms(2) ready _ _ e(4), of w] assms(1) e(5)
    by (auto simp: paired_def w_def)
  define r' where "r' = r\<lparr>sequenceCounter := c'\<rparr>"
  have "min (length w) 4096 = length w" using wlen assms(3) by (simp add: header_size_def)
  then have recv: "receiver_receive r (Some w) 4096 = Some (Some q, r')"
    using short conv q(1) by (simp add: receiver_receive_def r'_def)
  note acc = header_accessors [OF q(3) payload_header [OF q(2)] big(2)]
  have "read_bytes (packet q) 0 2 = read_bytes (packet ?p) 0 2"
    by (rule read_bytes_header [OF q(3) payload_header [OF q(2)] big(2)]) (simp add: header_size_def)
  also have "\<dots> = Some (be16 32768)" by (simp add: lay layout_def read_bytes_def)
  finally have "getPayloadType q = Some 0"
    by (simp add: getPayloadType_def be16_def from_le16.simps)
  then show ?thesis
    using that [OF send _ recv q(2)] acc layout_fields(1-3) [OF lay] conv(2) assms(1)
    by (simp add: s'_def r'_def paired_def)
qed

subsection \<open>A stream of packets, and forged ones\<close>

text \<open>A receiver whose counter has just seen a datagram that fails authentication: it returns
  \<open>NULL\<close>, but its counter has moved.\<close>

lemma receive_forged:
  assumes "length (salt (parameters (rcv_stream r))) = 14"
    and "w = hdr @ ct @ mac" "length hdr = header_size" "length mac = 20" "ct \<noteq> []"
    and "length ct + 32 \<le> 4096" "mac \<noteq> hmac_sha1 (macKey (parameters (rcv_stream r))) (hdr @ ct)"
    and "take 2 (drop 2 hdr) = be16 short"
  shows "receiver_receive r (Some w) 4096 =
    Some (None, r\<lparr>sequenceCounter := snd (convertNext (sequenceCounter r) short)\<rparr>)"
proof -
  let ?p = "RtpPacket_received w (length w)"
  have n: "min (length w) 4096 = length w" using assms(2-4,6) by (simp add: header_size_def)
  have "read_bytes w 2 2 = Some (be16 short)"
    using assms(2,3,8) by (simp add: read_bytes_def header_size_def)
  then have short: "getSequenceNumber ?p = Some short"
    by (simp add: getSequenceNumber_def RtpPacket_received_def)
  have "srtp_decrypt (rcv_stream r) ?p sq = Some (-1, ?p)" for sq
    using srtp_decrypt_split [of ?p hdr ct mac "rcv_stream r" sq] assms(1-7)
    by (simp add: RtpPacket_received_def header_size_def)
  then show ?thesis
    using n short by (simp add: receiver_receive_def split: prod.splits)
qed

text \<open>The network: the datagram that frame \<open>k\<close> becomes, and the receiver fed with a list of
  datagrams.\<close>

definition datagram_of :: "RtpAudioSender \<Rightarrow> nat \<Rightarrow> u32 \<Rightarrow> u8 list \<Rightarrow> u8 list" where
  "datagram_of s k ts d =
     (case sender_send (\<lambda>_. True) (s\<lparr>sequenceNumber := of_nat k\<rparr>) ts d of
        Some (_, _, Some w) \<Rightarrow> w | _ \<Rightarrow> [])"

fun receive_all ::
  "RtpAudioReceiver \<Rightarrow> u8 list list \<Rightarrow> (RtpPacket option list \<times> RtpAudioReceiver) option" where
  "receive_all r [] = Some ([], r)"
| "receive_all r (w # ws) =
     do {
       (q, r) \<leftarrow> receiver_receive r (Some w) 4096;
       (qs, r) \<leftarrow> receive_all r ws;
       Some (q # qs, r)
     }"

text \<open>A delivery order in which each frame is less than half the short range away from the one
  before it.\<close>

fun in_window :: "int \<Rightarrow> nat list \<Rightarrow> bool" where
  "in_window l [] \<longleftrightarrow> True"
| "in_window l (k # ks) \<longleftrightarrow> - 0x8000 \<le> int k - l \<and> int k - l \<le> 0x7fff \<and> in_window (int k) ks"

lemma paired_upd: "paired (s\<lparr>sequenceNumber := x\<rparr>) r = paired s r"
  by (simp add: paired_def)

lemma receive_all_delivers:
  assumes "paired s r" "synced (sequenceCounter r) l" "in_window l (map fst fs)"
    and "\<forall>(k, ts, d) \<in> set fs. k < 2 ^ 32 \<and> d \<noteq> [] \<and> length d + 32 \<le> 4096"
  shows "\<exists>qs r'. receive_all r (map (\<lambda>(k, ts, d). datagram_of s k ts d) fs) = Some (map Some qs, r') \<and>
    map payload_bytes qs = map (\<lambda>(k, ts, d). Some d) fs \<and>
    map getTimestamp qs = map (\<lambda>(k, ts, d). Some ts) fs"
  using assms
proof (induction fs arbitrary: r l)
  case (Cons f fs)
  obtain k ts d where f: "f = (k, ts, d)" by (cases f)
  let ?s = "s\<lparr>sequenceNumber := of_nat k\<rparr>"
  have d: "d \<noteq> []" "length d + 32 \<le> 4096" "k < 2 ^ 32" using Cons.prems(4) by (auto simp: f)
  have pre: "paired ?s r" "sequenceNumber ?s = of_nat k" "- 0x8000 \<le> int k - l" "int k - l \<le> 0x7fff"
    using Cons.prems(1,3) by (simp_all add: f paired_upd)
  obtain s' w q r' where step: "sender_send (\<lambda>_. True) ?s ts d = Some (0, s', Some w)"
    "receiver_receive r (Some w) 4096 = Some (Some q, r')" "payload_bytes q = Some d"
    "getTimestamp q = Some ts" "synced (sequenceCounter r') (int k)"
    using send_receive [OF pre(1) d(1,2) pre(2) d(3) Cons.prems(2) pre(3,4), of ts] by metis
  have "rcv_stream r' = rcv_stream r"
    using step(2) by (auto simp: receiver_receive_def Let_def split: option.splits bind_splits prod.splits if_splits)
  then have "paired s r'" using Cons.prems(1) by (simp add: paired_def)
  from Cons.IH [OF this step(5)] Cons.prems(3,4)
  obtain qs r'' where "receive_all r' (map (\<lambda>(k, ts, d). datagram_of s k ts d) fs) = Some (map Some qs, r'')"
    "map payload_bytes qs = map (\<lambda>(k, ts, d). Some d) fs"
    "map getTimestamp qs = map (\<lambda>(k, ts, d). Some ts) fs"
    by (auto simp: f)
  moreover have "datagram_of s k ts d = w" using step(1) by (simp add: datagram_of_def)
  ultimately show ?case
    using step by (intro exI [of _ "q # qs"] exI [of _ r'']) (simp add: f)
qed simp

text \<open>A genuine datagram met with the counter elsewhere: it passes authentication, since the MAC does
  not cover the upper bits of the sequence number, and is decrypted under the wrong IV.\<close>

definition sent_header :: "nat \<Rightarrow> u32 \<Rightarrow> u8 list" where
  "sent_header k ts = be16 32768 @ be16 (of_nat k) @ be32 ts @ be32 0"

lemma length_sent_header [simp]: "length (sent_header k ts) = header_size"
  by (simp add: sent_header_def header_size_def)

lemma sent_header_fields:
  "take 2 (drop 2 (sent_header k ts)) = be16 (of_nat k)" "from_be32 (drop 8 (sent_header k ts)) = 0"
proof -
  show "take 2 (drop 2 (sent_header k ts)) = be16 (of_nat k)" by (simp add: sent_header_def)
  have "drop 8 (sent_header k ts) = be32 0" by (simp add: sent_header_def)
  then show "from_be32 (drop 8 (sent_header k ts)) = 0" by (simp only: from_be32_be32)
qed

lemma datagram_wire:
  assumes "srtp_ready (snd_stream s)" "length d + 32 < 2 ^ 31" "k < 2 ^ 32"
  defines "ct \<equiv> xor_bytes d (packet_keystream (snd_stream s) (of_nat k) 0 (length d))"
  shows "datagram_of s k ts d =
    sent_header k ts @ ct @ hmac_sha1 (macKey (parameters (snd_stream s))) (sent_header k ts @ ct)"
    and "length ct = length d"
proof -
  let ?p = "RtpPacket_new d (of_nat k) ts"
  have lay: "packet ?p = layout (be16 32768) (be16 (of_nat k)) (be32 ts) (be32 0) d (replicate 20 0)"
    by (simp only: RtpPacket_new_layout be32_0 ucast_of_nat_u16)
  then have hdr: "take header_size (packet ?p) = sent_header k ts"
    by (simp add: layout_def sent_header_def header_size_def)
  obtain hdr ct' p' where e: "take header_size (packet ?p) = hdr"
    "ct' = xor_bytes d (packet_keystream (snd_stream s) (of_nat k) (from_be32 (drop 8 hdr)) (length d))"
    "length ct' = length d" "srtp_encrypt (snd_stream s) ?p (of_nat k) = Some (0, p')"
    "serialized_bytes p' = Some (hdr @ ct' @ hmac_sha1 (macKey (parameters (snd_stream s))) (hdr @ ct'))"
    using srtp_encrypt_wire [OF RtpPacket_new_sendable [OF assms(2), of "of_nat k" ts] assms(1), of "of_nat k"]
    by metis
  have h: "hdr = sent_header k ts" using e(1) hdr by simp
  have "ct' = ct" by (simp only: e(2) h ct_def sent_header_fields)
  note ct = this h
  show "length ct = length d" using e(3) ct by simp
  show "datagram_of s k ts d =
    sent_header k ts @ ct @ hmac_sha1 (macKey (parameters (snd_stream s))) (sent_header k ts @ ct)"
    using e(4,5) ct ucast_of_nat_u64 [OF assms(3)]
    by (simp add: datagram_of_def sender_send_def Let_def)
qed

text \<open>A genuine datagram met with the counter elsewhere: it passes authentication, since the MAC does
  not cover the upper bits of the sequence number, and is decrypted under the wrong IV.\<close>

lemma receive_desynced:
  assumes "paired s r" "data \<noteq> []" "length data + 32 \<le> 4096" "k < 2 ^ 32"
    and "synced (sequenceCounter r) l" "- 0x8000 \<le> n - l" "n - l \<le> 0x7fff"
    and "(of_int n :: u16) = of_nat k"
  shows "\<exists>q r'. receiver_receive r (Some (datagram_of s k ts data)) 4096 = Some (Some q, r') \<and>
    payload_bytes q = Some (xor_bytes
      (xor_bytes data (packet_keystream (snd_stream s) (of_nat k) 0 (length data)))
      (packet_keystream (snd_stream s) (of_int n) 0 (length data))) \<and>
    synced (sequenceCounter r') n"
proof -
  let ?hdr = "sent_header k ts"
  define ct where "ct = xor_bytes data (packet_keystream (snd_stream s) (of_nat k) 0 (length data))"
  let ?mac = "hmac_sha1 (macKey (parameters (snd_stream s))) (?hdr @ ct)"
  have ready: "srtp_ready (snd_stream s)" using assms(1) by (simp add: paired_def)
  have "length data + 32 < 2 ^ 31" using assms(3) by simp
  note wire = datagram_wire(1) [OF ready this assms(4), of ts, folded ct_def]
    datagram_wire(2) [OF ready this assms(4), folded ct_def]
  define w where "w = datagram_of s k ts data"
  let ?p = "RtpPacket_received w (length w)"
  have p: "packet ?p = ?hdr @ ct @ ?mac" using wire(1) by (simp add: RtpPacket_received_def w_def)
  have pl: "payloadLen ?p = of_nat (length ct + 20)"
    using wire(1) by (simp add: RtpPacket_received_def w_def)
  have "ct \<noteq> []" "length ct + 32 < 2 ^ 31" "length (salt (parameters (rcv_stream r))) = 14"
    using wire(2) assms(1-3) by (auto simp: paired_def srtp_ready_def)
  note dec = srtp_decrypt_split [OF p length_sent_header length_hmac_sha1 pl this(2,1,3), of "of_int n"]
  have "read_bytes w 2 2 = Some (be16 (of_nat k))"
    using sent_header_fields(1) [of k ts] wire(1) by (simp add: read_bytes_def w_def header_size_def)
  then have short: "getSequenceNumber ?p = Some (of_nat k)"
    by (simp add: getSequenceNumber_def RtpPacket_received_def)
  obtain c' where conv: "convertNext (sequenceCounter r) (of_nat k) = (of_int n, c')" "synced c' n"
    using convertNext_synced [OF assms(5-7)] assms(8) by auto
  have "min (length w) 4096 = length w"
    using wire assms(3) by (simp add: w_def header_size_def)
  then have recv: "receiver_receive r (Some w) 4096 =
      Some (Some (?p\<lparr>packet := ?hdr @ xor_bytes ct
          (packet_keystream (snd_stream s) (of_int n) 0 (length data)) @ ?mac,
        payloadLen := of_nat (length ct)\<rparr>), r\<lparr>sequenceCounter := c'\<rparr>)"
    using short conv(1) dec assms(1) wire(2)
      same_cipher_keystream [of "aes_key (rcv_stream r)" "aes_key (snd_stream s)"]
    by (simp add: receiver_receive_def paired_def packet_keystream_def sent_header_fields)
  have "unat (of_nat (length ct) :: u32) = length data"
    using wire(2) assms(3) by (simp add: unat_small)
  moreover have "length (packet_keystream (snd_stream s) (of_int n) 0 (length data)) = length data"
    using ready by (simp add: packet_keystream_def length_aes_keystream srtp_ready_def)
  ultimately show ?thesis
    using recv conv(2) wire(2)
    by (simp add: payload_bytes_def getPayloadLen_def read_bytes_def ct_def w_def)
qed

subsection \<open>Which datagrams the receiver can take\<close>

text \<open>A datagram long enough to be looked at: header, body, MAC.\<close>

lemma wire_split:
  assumes "33 \<le> length w"
  obtains hdr ct mac where "w = hdr @ ct @ mac" "length hdr = header_size" "length mac = 20"
    "length ct = length w - 32" "ct \<noteq> []" "hdr = take header_size w"
    "ct = take (length w - 32) (drop header_size w)" "mac = drop (length w - 20) w"
    "hdr @ ct = take (length w - 20) w"
proof -
  define hdr where "hdr = take header_size w"
  define ct where "ct = take (length w - 32) (drop header_size w)"
  define mac where "mac = drop (length w - 20) w"
  have "length w - 20 = header_size + (length w - 32)" using assms by (simp add: header_size_def)
  then have body: "hdr @ ct = take (length w - 20) w"
    by (simp only: hdr_def ct_def take_add)
  then have w: "w = hdr @ ct @ mac"
    by (metis append_assoc append_take_drop_id mac_def)
  have len: "length ct = length w - 32" using assms by (simp add: ct_def header_size_def)
  have "ct \<noteq> []" using assms len by auto
  then show ?thesis
    using that [OF w _ _ len] body assms by (simp add: hdr_def mac_def ct_def header_size_def)
qed

text \<open>What \<open>decrypt\<close> makes of any such datagram.\<close>

lemma srtp_decrypt_wire:
  assumes "33 \<le> length w" "length w < 2 ^ 31" "srtp_ready s"
  shows "srtp_decrypt s (RtpPacket_received w (length w)) sq =
    Some (if drop (length w - 20) w = hmac_sha1 (macKey (parameters s)) (take (length w - 20) w)
      then (0, \<lparr>packet = take header_size w @
          xor_bytes (take (length w - 32) (drop header_size w))
            (packet_keystream s sq (from_be32 (drop 8 (take header_size w))) (length w - 32)) @
          drop (length w - 20) w,
          payloadLen = of_nat (length w - 32)\<rparr>)
      else (-1, RtpPacket_received w (length w)))"
proof -
  obtain hdr ct mac where w: "w = hdr @ ct @ mac" "length hdr = header_size" "length mac = 20"
    "length ct = length w - 32" "ct \<noteq> []" "hdr = take header_size w"
    "ct = take (length w - 32) (drop header_size w)" "mac = drop (length w - 20) w"
    "hdr @ ct = take (length w - 20) w"
    by (rule wire_split [OF assms(1)])
  let ?p = "RtpPacket_received w (length w)"
  have p: "packet ?p = hdr @ ct @ mac" by (simp only: RtpPacket_received_def RtpPacket.simps take_all w(1) [symmetric])
  have "length w = header_size + (length ct + 20)" using w(4) assms(1) by (simp add: header_size_def)
  then have pl: "payloadLen ?p = of_nat (length ct + 20)"
    by (simp only: RtpPacket_received_def RtpPacket.simps of_nat_add) simp
  have "length ct + 32 < 2 ^ 31" "length (salt (parameters s)) = 14"
    using assms w(4) by (simp_all add: srtp_ready_def)
  note dec = srtp_decrypt_split [OF p w(2,3) pl this(1) w(5) this(2), of sq]
  show ?thesis
    unfolding dec w(9) unfolding w(6-8) [symmetric] unfolding w(4) [symmetric]
    by (simp add: RtpPacket_received_def)
qed

lemma decrypt_short:
  assumes "header_size \<le> length w" "length w < 33" "packet p = w"
    and "payloadLen p = of_nat (length w) - of_nat header_size"
  shows "srtp_decrypt s p sq = Some (-1, p)"
proof -
  have "getSsrc p \<noteq> None" using assms(1,3) by (simp add: getSsrc_def read_bytes_def header_size_def)
  moreover have "payloadLen p = of_nat (length w - header_size)"
    using assms(1,4) by simp
  then have "unat (getPayloadLen p) = length w - header_size"
    using assms(2) by (simp add: getPayloadLen_def unat_small)
  then have "getPayloadLen p < 20 + 1"
    using assms(1,2) by (simp add: word_less_nat_alt header_size_def)
  ultimately show ?thesis by (auto simp: srtp_decrypt_def)
qed

lemma receive_defined:
  assumes "srtp_ready (rcv_stream r)" "header_size \<le> length w"
  shows "receiver_receive r (Some w) 4096 \<noteq> None"
proof -
  define v where "v = take 4096 w"
  have v: "header_size \<le> length v" "length v \<le> 4096" using assms(2) by (simp_all add: v_def header_size_def)
  let ?p = "RtpPacket_received w (min (length w) 4096)"
  have p: "packet ?p = v" "payloadLen ?p = of_nat (length v) - of_nat header_size"
    by (simp_all add: RtpPacket_received_def v_def min_def)
  have short: "getSequenceNumber ?p \<noteq> None"
    using v(1) by (simp add: getSequenceNumber_def read_bytes_def p(1) header_size_def)
  have "?p = RtpPacket_received v (length v)" by (simp add: RtpPacket_received_def v_def min_def)
  then have "srtp_decrypt (rcv_stream r) ?p sq \<noteq> None" for sq
    using decrypt_short [OF v(1) _ p] srtp_decrypt_wire [of v "rcv_stream r" sq] v(2) assms(1)
    by (cases "length v < 33") simp_all
  moreover obtain sh where "getSequenceNumber ?p = Some sh" using short by auto
  moreover obtain sq c where "convertNext (sequenceCounter r) sh = (sq, c)" by fastforce
  moreover obtain x q where "srtp_decrypt (rcv_stream r) ?p sq = Some (x, q)"
    using calculation(1) by (metis not_Some_eq surj_pair)
  ultimately show ?thesis by (simp add: receiver_receive_def)
qed

lemma receive_undefined: "length w < header_size \<Longrightarrow> receiver_receive r (Some w) 4096 = None"
  by (auto simp: receiver_receive_def getSequenceNumber_def srtp_decrypt_def getSsrc_def read_bytes_def
      RtpPacket_received_def header_size_def Let_def split: prod.splits)

end
