(* ===== verification/Rtp_Session.thy ===== *)
theory Rtp_Session
  imports Rtp_Transport
begin

text \<open>
  A whole session: both ends initialised with the same parameters, a list of frames sent, and the
  datagrams received in whatever order, with whatever losses and repetitions, the network makes of
  them.
\<close>

subsection \<open>Initialisation\<close>

text \<open>The two key schedules agree whatever the memory of the two objects held before.\<close>

lemma init_paired:
  assumes "length (salt ps) = 14" "length (rd_key g) = 60" "length (rd_key g') = 60"
  obtains s r where "sender_init (new_RtpAudioSender ps g) = (0, s)"
    "receiver_init (new_RtpAudioReceiver ps g') = (0, r)" "paired s r" "sequenceNumber s = 0"
    "synced (sequenceCounter r) 0" "macKey (parameters (snd_stream s)) = macKey ps"
proof -
  obtain ek where ek: "AES_set_encrypt_key (Some (cipherKey ps)) 128 (Some g) = (0, Some ek)"
    using set_encrypt_key_expansion [of 128 g "cipherKey ps"] assms(2) by auto
  obtain ek' where ek': "AES_set_encrypt_key (Some (cipherKey ps)) 128 (Some g') = (0, Some ek')"
    using set_encrypt_key_expansion [of 128 g' "cipherKey ps"] assms(3) by auto
  have same: "same_cipher ek' ek"
    by (rule same_cipher_schedules [OF _ assms(3,2) ek' ek]) simp
  show ?thesis
  proof (rule that)
    show "sender_init (new_RtpAudioSender ps g) =
        (0, \<lparr>sequenceNumber = 0, snd_stream = \<lparr>parameters = ps, aes_key = ek\<rparr>\<rparr>)"
      using ek by (simp add: sender_init_def new_RtpAudioSender_def srtp_init_def new_SrtpStream_def)
    show "receiver_init (new_RtpAudioReceiver ps g') =
        (0, \<lparr>sequenceCounter = new_SequenceCounter, rcv_stream = \<lparr>parameters = ps, aes_key = ek'\<rparr>\<rparr>)"
      using ek' by (simp add: receiver_init_def new_RtpAudioReceiver_def srtp_init_def new_SrtpStream_def)
  qed (simp_all add: paired_def srtp_ready_def assms(1) same synced_new)
qed

subsection \<open>Sending\<close>

lemma sender_send_datagram:
  assumes "srtp_ready (snd_stream s)" "length d + 32 < 2 ^ 31" "sequenceNumber s = of_nat k"
  shows "sender_send sendto_ok s ts d =
    Some (if sendto_ok (datagram_of s k ts d) then 0 else -1,
          s\<lparr>sequenceNumber := of_nat (k + 1)\<rparr>, Some (datagram_of s k ts d))"
proof -
  obtain p' w where e: "srtp_encrypt (snd_stream s) (RtpPacket_new d (of_nat k) ts) (ucast (of_nat k :: u32)) = Some (0, p')"
    "serialized_bytes p' = Some w"
    using srtp_encrypt_wire [OF RtpPacket_new_sendable [OF assms(2)] assms(1)] by metis
  have "datagram_of s k ts d = w"
    using e by (simp add: datagram_of_def sender_send_def Let_def)
  then show ?thesis
    using e assms(3) by (simp add: sender_send_def Let_def add.commute)
qed

fun send_all ::
  "RtpAudioSender \<Rightarrow> (u32 \<times> u8 list) list \<Rightarrow> (u8 list list \<times> RtpAudioSender) option" where
  "send_all s [] = Some ([], s)"
| "send_all s ((ts, d) # fs) =
     do {
       (_, s, w) \<leftarrow> sender_send (\<lambda>_. True) s ts d;
       w \<leftarrow> w;
       (ws, s) \<leftarrow> send_all s fs;
       Some (w # ws, s)
     }"

lemma datagram_of_upd [simp]: "datagram_of (s\<lparr>sequenceNumber := x\<rparr>) k ts d = datagram_of s k ts d"
  by (simp add: datagram_of_def)

lemma send_all_datagrams:
  assumes "srtp_ready (snd_stream s)" "\<forall>(ts, d) \<in> set fs. length d + 32 < 2 ^ 31"
    and "sequenceNumber s = of_nat k"
  shows "\<exists>ws. send_all s fs = Some (ws, s\<lparr>sequenceNumber := of_nat (k + length fs)\<rparr>) \<and>
    length ws = length fs \<and>
    (\<forall>i < length fs. ws ! i = datagram_of s (k + i) (fst (fs ! i)) (snd (fs ! i)))"
  using assms
proof (induction fs arbitrary: s k)
  case (Cons f fs)
  obtain ts d where f: "f = (ts, d)" by (cases f)
  let ?s = "s\<lparr>sequenceNumber := of_nat (k + 1)\<rparr>"
  have send: "sender_send (\<lambda>_. True) s ts d = Some (0, ?s, Some (datagram_of s k ts d))"
    using sender_send_datagram [OF Cons.prems(1) _ Cons.prems(3), of d "\<lambda>_. True" ts] Cons.prems(2)
    by (simp add: f)
  from Cons.IH [of ?s "k + 1"] Cons.prems(1,2)
  obtain ws where ws: "send_all ?s fs = Some (ws, s\<lparr>sequenceNumber := of_nat (k + 1 + length fs)\<rparr>)"
    "length ws = length fs"
    "\<forall>i < length fs. ws ! i = datagram_of s (k + 1 + i) (fst (fs ! i)) (snd (fs ! i))"
    by (auto simp: f)
  have "\<forall>i < Suc (length fs). (datagram_of s k ts d # ws) ! i =
      datagram_of s (k + i) (fst ((f # fs) ! i)) (snd ((f # fs) ! i))"
    using ws(3) by (auto simp: f nth_Cons split: nat.splits)
  then show ?case
    using send ws(1,2) by (intro exI [of _ "datagram_of s k ts d # ws"]) (simp add: f)
qed (auto simp: RtpAudioSender.defs)

subsection \<open>Delivery\<close>

text \<open>Every datagram that arrives, in an order within the window, is decrypted to the frame it was
  made of.\<close>

lemma session_delivers:
  assumes "paired s r" "sequenceNumber s = 0" "synced (sequenceCounter r) 0"
    and frames: "\<forall>(ts, d) \<in> set fs. d \<noteq> [] \<and> length d + 32 \<le> 4096" "length fs \<le> 2 ^ 32"
    and arrival: "set ks \<subseteq> {..<length fs}" "in_window 0 ks"
  shows "\<exists>ws s' qs r'. send_all s fs = Some (ws, s') \<and> length ws = length fs \<and>
    receive_all r (map ((!) ws) ks) = Some (map Some qs, r') \<and>
    map payload_bytes qs = map (\<lambda>k. Some (snd (fs ! k))) ks \<and>
    map getTimestamp qs = map (\<lambda>k. Some (fst (fs ! k))) ks"
proof -
  have "srtp_ready (snd_stream s)" using assms(1) by (simp add: paired_def)
  moreover have "\<forall>(ts, d) \<in> set fs. length d + 32 < 2 ^ 31" using frames(1) by fastforce
  ultimately obtain ws where ws: "send_all s fs = Some (ws, s\<lparr>sequenceNumber := of_nat (length fs)\<rparr>)"
    "length ws = length fs" "\<forall>i < length fs. ws ! i = datagram_of s i (fst (fs ! i)) (snd (fs ! i))"
    using send_all_datagrams [of s fs 0] assms(2) by auto
  let ?f = "\<lambda>k. (k, fs ! k)"
  have "map fst (map ?f ks) = ks" by (simp add: comp_def)
  then have win: "in_window 0 (map fst (map ?f ks))" using arrival(2) by simp
  have "k < 2 ^ 32 \<and> snd (fs ! k) \<noteq> [] \<and> length (snd (fs ! k)) + 32 \<le> 4096" if "k \<in> set ks" for k
  proof -
    have "k < length fs" using that arrival(1) by auto
    then have "fs ! k \<in> set fs" by simp
    then show ?thesis using frames \<open>k < length fs\<close> by (auto simp: case_prod_beta)
  qed
  then have "\<forall>(k, ts, d) \<in> set (map ?f ks). k < 2 ^ 32 \<and> d \<noteq> [] \<and> length d + 32 \<le> 4096"
    by (auto simp: case_prod_beta)
  from receive_all_delivers [OF assms(1,3) win this]
  obtain qs r' where q: "receive_all r (map (\<lambda>(k, ts, d). datagram_of s k ts d) (map ?f ks)) = Some (map Some qs, r')"
    "map payload_bytes qs = map (\<lambda>(k, ts, d). Some d) (map ?f ks)"
    "map getTimestamp qs = map (\<lambda>(k, ts, d). Some ts) (map ?f ks)" by blast
  have sent: "map (\<lambda>(k, ts, d). datagram_of s k ts d) (map ?f ks) = map ((!) ws) ks"
    using ws(3) arrival(1) by (auto simp: case_prod_beta)
  then show ?thesis
    using ws(1,2) q(2,3) q(1) [unfolded sent] by (auto simp: case_prod_beta comp_def)
qed

text \<open>What the receiver makes of datagrams, as a run of its counter: two forged datagrams, each just
  inside the window, take the counter a whole short range ahead.\<close>

definition forged :: "SrtpStreamParameters \<Rightarrow> u16 \<Rightarrow> u8 list \<Rightarrow> bool" where
  "forged ps short w \<longleftrightarrow>
     33 \<le> length w \<and> length w \<le> 4096 \<and> take 2 (drop 2 w) = be16 short \<and>
     drop (length w - 20) w \<noteq> hmac_sha1 (macKey ps) (take (length w - 20) w)"

lemma receive_forged_synced:
  assumes "srtp_ready (rcv_stream r)" "forged (parameters (rcv_stream r)) (of_int n) w"
    and "synced (sequenceCounter r) l" "- 0x8000 \<le> n - l" "n - l \<le> 0x7fff"
  shows "\<exists>c. receiver_receive r (Some w) 4096 = Some (None, r\<lparr>sequenceCounter := c\<rparr>) \<and> synced c n"
proof -
  have len: "33 \<le> length w" "length w \<le> 4096" using assms(2) by (simp_all add: forged_def)
  obtain hdr ct mac where w: "w = hdr @ ct @ mac" and
    sz: "length hdr = header_size" "length mac = 20" "ct \<noteq> []" "length ct = length w - 32" and
    hdr: "hdr = take header_size w" and mac: "mac = drop (length w - 20) w" and
    body: "hdr @ ct = take (length w - 20) w"
    by (rule wire_split [OF len(1)])
  note sz(1-3)
  moreover have "take 2 (drop 2 hdr) = be16 (of_int n)"
    using assms(2) by (simp add: forged_def hdr header_size_def take_drop)
  moreover have "mac \<noteq> hmac_sha1 (macKey (parameters (rcv_stream r))) (hdr @ ct)"
    using assms(2) by (simp add: forged_def mac body)
  moreover have "length ct + 32 \<le> 4096" using sz(4) len by auto
  ultimately have "receiver_receive r (Some w) 4096 =
      Some (None, r\<lparr>sequenceCounter := snd (convertNext (sequenceCounter r) (of_int n))\<rparr>)"
    using assms(1) by (intro receive_forged [OF _ w]) (simp_all add: srtp_ready_def)
  then show ?thesis
    using convertNext_synced [OF assms(3-5)] by auto
qed

end
