(* ===== verification/Media_Theorems.thy ===== *)
theory Media_Theorems
  imports Rtp_Session
begin

text \<open>
  The properties of the media path: a session from initialisation to delivery, authentication, the
  IV, the sequence counter, the packet format, and what the receiver does with datagrams that are
  forged or too short.
\<close>

subsection \<open>An instance\<close>

definition demo_parameters :: SrtpStreamParameters where
  "demo_parameters = \<lparr>cipherKey = replicate 16 1, macKey = replicate 20 2, salt = replicate 14 3\<rparr>"

definition demo_key :: AES_KEY where
  "demo_key = \<lparr>rd_key = replicate 60 0, rounds = 0\<rparr>"

definition demo_sender :: RtpAudioSender where
  "demo_sender = \<lparr>sequenceNumber = 0, snd_stream = \<lparr>parameters = demo_parameters, aes_key = demo_key\<rparr>\<rparr>"

definition demo_receiver :: RtpAudioReceiver where
  "demo_receiver = \<lparr>sequenceCounter = new_SequenceCounter,
     rcv_stream = \<lparr>parameters = demo_parameters, aes_key = demo_key\<rparr>\<rparr>"

lemma demo_simps [simp]:
  "paired demo_sender demo_receiver" "srtp_ready (rcv_stream demo_receiver)"
  "srtp_ready (snd_stream demo_sender)" "synced (sequenceCounter demo_receiver) 0"
  "sequenceNumber demo_sender = 0" "length (salt demo_parameters) = 14" "length (rd_key demo_key) = 60"
  "parameters (rcv_stream demo_receiver) = demo_parameters"
  by (simp_all add: demo_sender_def demo_receiver_def paired_def srtp_ready_def same_cipher_def
      demo_parameters_def demo_key_def synced_new)

text \<open>A datagram with every byte of its MAC off by one.\<close>

definition demo_forgery :: "u16 \<Rightarrow> u8 list" where
  "demo_forgery short =
     (let body = [0, 0] @ be16 short @ replicate 9 0
      in body @ map (\<lambda>b. b + 1) (hmac_sha1 (macKey demo_parameters) body))"

lemma demo_forgery_forged: "forged demo_parameters short (demo_forgery short)"
proof -
  let ?body = "[0, 0] @ be16 short @ replicate 9 0"
  let ?mac = "hmac_sha1 (macKey demo_parameters) ?body"
  have "length (demo_forgery short) = 33" by (simp add: demo_forgery_def Let_def)
  moreover have "drop 13 (demo_forgery short) = map (\<lambda>b. b + 1) ?mac" "take 13 (demo_forgery short) = ?body"
    by (simp_all add: demo_forgery_def Let_def)
  moreover have "map (\<lambda>b. b + 1) ?mac \<noteq> ?mac"
  proof
    assume eq: "map (\<lambda>b. b + 1) ?mac = ?mac"
    have "0 < length ?mac" by simp
    then show False using arg_cong [OF eq, of "\<lambda>xs. xs ! 0"] by (simp del: length_hmac_sha1)
  qed
  ultimately show ?thesis
    by (simp add: forged_def) (simp add: demo_forgery_def Let_def)
qed

subsection \<open>Sessions\<close>

text \<open>C11: when both ends are initialised with the same parameters, whatever their memory held, every
  datagram of a call that arrives, in any order within the window, with losses and repetitions, is
  accepted and gives back the frame and the timestamp it was made of.\<close>

theorem media_session:
  assumes "length (salt ps) = 14" "length (rd_key g) = 60" "length (rd_key g') = 60"
    and "\<forall>(ts, d) \<in> set fs. d \<noteq> [] \<and> length d + 32 \<le> 4096" "length fs \<le> 2 ^ 32"
    and "set ks \<subseteq> {..<length fs}" "in_window 0 ks"
  shows "\<exists>s r ws s' qs r'.
    sender_init (new_RtpAudioSender ps g) = (0, s) \<and>
    receiver_init (new_RtpAudioReceiver ps g') = (0, r) \<and>
    send_all s fs = Some (ws, s') \<and> length ws = length fs \<and>
    receive_all r (map ((!) ws) ks) = Some (map Some qs, r') \<and>
    map payload_bytes qs = map (\<lambda>k. Some (snd (fs ! k))) ks \<and>
    map getTimestamp qs = map (\<lambda>k. Some (fst (fs ! k))) ks"
proof -
  obtain s r where init: "sender_init (new_RtpAudioSender ps g) = (0, s)"
    "receiver_init (new_RtpAudioReceiver ps g') = (0, r)" "paired s r" "sequenceNumber s = 0"
    "synced (sequenceCounter r) 0"
    by (rule init_paired [OF assms(1-3)])
  show ?thesis
    using session_delivers [OF init(3-5) assms(4-7)] init(1,2) by blast
qed

theorem media_session_witness:
  "\<exists>s r ws s' qs r'.
    sender_init (new_RtpAudioSender demo_parameters demo_key) = (0, s) \<and>
    receiver_init (new_RtpAudioReceiver demo_parameters (demo_key\<lparr>rounds := 7\<rparr>)) = (0, r) \<and>
    send_all s [(0, [1]), (160, [2, 3]), (320, [4])] = Some (ws, s') \<and>
    length ws = length [(0 :: u32, [1 :: u8]), (160, [2, 3]), (320, [4])] \<and>
    receive_all r (map ((!) ws) [2, 0]) = Some (map Some qs, r') \<and>
    map payload_bytes qs =
      map (\<lambda>k. Some (snd ([(0 :: u32, [1]), (160, [2, 3]), (320, [4])] ! k))) [2, 0] \<and>
    map getTimestamp qs =
      map (\<lambda>k. Some (fst ([(0, [1 :: u8]), (160, [2, 3]), (320, [4])] ! k))) [2, 0]"
  by (rule media_session) simp_all

text \<open>C12: a packet of at least one byte of payload is accepted exactly when its last twenty bytes are the
  HMAC-SHA1 of the bytes before them under the MAC key; then the payload is unmasked and the header
  kept, and otherwise the packet comes back as it was with the result -1.\<close>

theorem srtp_authenticated:
  assumes "33 \<le> length w" "length w < 2 ^ 31" "length (salt (parameters s)) = 14"
  shows "srtp_decrypt s (RtpPacket_received w (length w)) sq =
    Some (if drop (length w - 20) w = hmac_sha1 (macKey (parameters s)) (take (length w - 20) w)
      then (0, \<lparr>packet = take header_size w @
          xor_bytes (take (length w - 32) (drop header_size w))
            (packet_keystream s sq (from_be32 (drop 8 (take header_size w))) (length w - 32)) @
          drop (length w - 20) w,
          payloadLen = of_nat (length w - 32)\<rparr>)
      else (-1, RtpPacket_received w (length w)))"
  using assms by (intro srtp_decrypt_wire) (simp_all add: srtp_ready_def)

theorem srtp_authenticated_witness:
  "srtp_decrypt (rcv_stream demo_receiver) (RtpPacket_received (demo_forgery 5) 33) 5 =
    Some (-1, RtpPacket_received (demo_forgery 5) 33)"
proof -
  have len: "length (demo_forgery 5) = 33" by (simp add: demo_forgery_def Let_def)
  have "length (salt (parameters (rcv_stream demo_receiver))) = 14" by simp
  from srtp_authenticated [OF _ _ this, of "demo_forgery 5" 5] demo_forgery_forged [of 5] len
  show ?thesis by (simp add: forged_def)
qed

text \<open>C13: two blocks of keystream are made from the same counter block only when they are the same
  block of packets whose sequence numbers agree in 48 bits and whose SSRCs agree in 16.\<close>

theorem keystream_no_reuse:
  assumes "length s = 14" "i < 65536" "j < 65536"
    and "counter_at (setIv q ssrc s) i = counter_at (setIv q' ssrc' s) j"
  shows "i = j \<and> take_bit 48 q = take_bit 48 q' \<and> take_bit 16 ssrc = take_bit 16 ssrc'"
  using counter_block_inject [OF assms] by simp

theorem keystream_no_reuse_witness:
  "(3 :: nat) = 3 \<and> take_bit 48 (7 :: u64) = take_bit 48 (7 + 2 ^ 48 :: u64) \<and>
   take_bit 16 (1 :: u32) = take_bit 16 (1 + 2 ^ 16 :: u32)"
proof (rule keystream_no_reuse)
  have "setIv 7 1 (replicate 14 3) = setIv (7 + 2 ^ 48) (1 + 2 ^ 16) (replicate 14 3)" by code_simp
  then show "counter_at (setIv 7 1 (replicate 14 3)) 3 =
      counter_at (setIv (7 + 2 ^ 48) (1 + 2 ^ 16) (replicate 14 3)) 3" by simp
qed simp_all

text \<open>C14: an encrypted packet decrypts to its payload and header at a receiver with the same parameters
  and an equivalent key schedule.\<close>

theorem srtp_encrypt_decrypt:
  assumes "sendable p pl" "pl \<noteq> []" "srtp_ready s" "srtp_ready r"
    and "same_cipher (aes_key r) (aes_key s)" "parameters r = parameters s"
  shows "\<exists>p' wire q. srtp_encrypt s p sq = Some (0, p') \<and> serialized_bytes p' = Some wire \<and>
    length wire = header_size + length pl + 20 \<and>
    srtp_decrypt r (RtpPacket_received wire (length wire)) sq = Some (0, q) \<and>
    payload_bytes q = Some pl \<and> take header_size (packet q) = take header_size (packet p)"
proof -
  obtain hdr ct p' where "length hdr = header_size" "length ct = length pl" "srtp_encrypt s p sq = Some (0, p')"
    "serialized_bytes p' = Some (hdr @ ct @ hmac_sha1 (macKey (parameters s)) (hdr @ ct))"
    by (rule srtp_encrypt_wire [OF assms(1,3)])
  with srtp_roundtrip [OF assms this(3,4)] show ?thesis by auto
qed

theorem srtp_encrypt_decrypt_witness:
  "\<exists>p' wire q. srtp_encrypt (snd_stream demo_sender) (RtpPacket_new [1, 2] 9 8) 9 = Some (0, p') \<and>
    serialized_bytes p' = Some wire \<and> length wire = header_size + length [1 :: u8, 2] + 20 \<and>
    srtp_decrypt (rcv_stream demo_receiver) (RtpPacket_received wire (length wire)) 9 = Some (0, q) \<and>
    payload_bytes q = Some [1, 2] \<and>
    take header_size (packet q) = take header_size (packet (RtpPacket_new [1, 2] 9 8))"
proof (rule srtp_encrypt_decrypt)
  show "sendable (RtpPacket_new [1, 2] 9 8) [1, 2]" by (rule RtpPacket_new_sendable) simp
qed (simp_all add: demo_sender_def demo_receiver_def same_cipher_def srtp_ready_def demo_parameters_def)

text \<open>C20: two datagrams that fail authentication, each within the window, move the receiver's counter,
  and the next genuine frame is accepted but decrypted with the keystream of a sequence number that is
  65536 too high; the receiver stays out of step.\<close>

theorem forgeries_desynchronise:
  assumes "paired s r" "synced (sequenceCounter r) (int l)" "l + 1 < 2 ^ 32"
    and "forged (parameters (rcv_stream r)) (of_nat (l + 0x7fff)) w1"
    and "forged (parameters (rcv_stream r)) (of_nat (l + 0xfffe)) w2"
    and "d \<noteq> []" "length d + 32 \<le> 4096"
  shows "\<exists>q r'. receive_all r [w1, w2, datagram_of s (l + 1) ts d] = Some ([None, None, Some q], r') \<and>
    payload_bytes q = Some (xor_bytes
      (xor_bytes d (packet_keystream (snd_stream s) (of_nat (l + 1)) 0 (length d)))
      (packet_keystream (snd_stream s) (of_nat (l + 1 + 65536)) 0 (length d))) \<and>
    synced (sequenceCounter r') (int (l + 1 + 65536))"
proof -
  have ready: "srtp_ready (rcv_stream r)" using assms(1) by (simp add: paired_def srtp_ready_def)
  obtain c1 where 1: "receiver_receive r (Some w1) 4096 = Some (None, r\<lparr>sequenceCounter := c1\<rparr>)"
    "synced c1 (int (l + 0x7fff))"
    using receive_forged_synced [OF ready _ assms(2), of "int (l + 0x7fff)" w1] assms(4) by auto
  obtain c2 where 2: "receiver_receive (r\<lparr>sequenceCounter := c1\<rparr>) (Some w2) 4096 =
      Some (None, r\<lparr>sequenceCounter := c2\<rparr>)" "synced c2 (int (l + 0xfffe))"
    using receive_forged_synced [of "r\<lparr>sequenceCounter := c1\<rparr>" "int (l + 0xfffe)" w2 "int (l + 0x7fff)"]
      1(2) ready assms(5) by auto
  have "paired s (r\<lparr>sequenceCounter := c2\<rparr>)" using assms(1) by (simp add: paired_def)
  moreover have "of_int (int (l + 1 + 65536)) = (of_nat (l + 1) :: u16)" by simp
  ultimately obtain q r' where
    "receiver_receive (r\<lparr>sequenceCounter := c2\<rparr>) (Some (datagram_of s (l + 1) ts d)) 4096 = Some (Some q, r')"
    "payload_bytes q = Some (xor_bytes
      (xor_bytes d (packet_keystream (snd_stream s) (of_nat (l + 1)) 0 (length d)))
      (packet_keystream (snd_stream s) (of_int (int (l + 1 + 65536))) 0 (length d)))"
    "synced (sequenceCounter r') (int (l + 1 + 65536))"
    using receive_desynced [of s "r\<lparr>sequenceCounter := c2\<rparr>" d "l + 1" "int (l + 0xfffe)"
      "int (l + 1 + 65536)" ts] assms(3,6,7) 2(2) by auto
  then show ?thesis
    using 1(1) 2(1) by (simp only: receive_all.simps Option.bind.simps prod.case of_int_of_nat_eq) auto
qed

theorem forgeries_desynchronise_witness:
  "\<exists>q r'. receive_all demo_receiver [demo_forgery (of_nat (0 + 0x7fff)), demo_forgery (of_nat (0 + 0xfffe)),
        datagram_of demo_sender (0 + 1) 160 [7]] = Some ([None, None, Some q], r') \<and>
    payload_bytes q = Some (xor_bytes
      (xor_bytes [7] (packet_keystream (snd_stream demo_sender) (of_nat (0 + 1)) 0 (length [7 :: u8])))
      (packet_keystream (snd_stream demo_sender) (of_nat (0 + 1 + 65536)) 0 (length [7 :: u8]))) \<and>
    synced (sequenceCounter r') (int (0 + 1 + 65536))"
  by (rule forgeries_desynchronise) (simp_all only: demo_simps demo_forgery_forged of_nat_0, simp_all)

text \<open>C21: the receiver stays inside the datagram it was given exactly when that has a whole header; the
  empty datagram and those of fewer than twelve bytes are read beyond their end.\<close>

theorem receiver_bounds:
  assumes "length (salt (parameters (rcv_stream r))) = 14"
  shows "receiver_receive r (Some w) 4096 \<noteq> None \<longleftrightarrow> 12 \<le> length w"
  using receive_defined [of r w] receive_undefined [of w r] assms
  by (cases "12 \<le> length w") (auto simp: srtp_ready_def header_size_def)

theorem receiver_bounds_witness:
  "receiver_receive demo_receiver (Some (replicate 11 0)) 4096 \<noteq> None \<longleftrightarrow> 12 \<le> length (replicate 11 (0 :: u8))"
  by (rule receiver_bounds) simp

subsection \<open>The sequence counter\<close>

lemma wrap_range:
  fixes a b :: int
  assumes "0 \<le> a" "a < 65536" "0 \<le> b" "b < 65536"
  shows "(let d = (if a - b > 0x7fff then a - b - 2 ^ 16 else a - b)
    in if d < - 0x8000 then d + 2 ^ 16 else d) \<in> {- 0x8000..0x7fff}"
  using assms by (auto simp: Let_def)

text \<open>\<open>convertNext\<close> returns the number nearest to the last one, from 32768 below to 32767 above it,
  and the 16-bit number it remembers is the last one plus the same difference.\<close>

theorem convertNext_nearest:
  "\<exists>d \<in> {- 0x8000..0x7fff :: int}.
     convertNext c short = (prevLongId c + of_int d, c\<lparr>prevShortId := short, prevLongId := prevLongId c + of_int d\<rparr>) \<and>
     short = prevShortId c + of_int d"
proof -
  let ?d = "int (unat short) - int (unat (prevShortId c))"
  let ?e = "let d = (if ?d > 0x7fff then ?d - 2 ^ 16 else ?d) in if d < - 0x8000 then d + 2 ^ 16 else d"
  have lt: "int (unat w) < 65536" "0 \<le> int (unat w)" for w :: u16
    using uint_bounded [of w] by simp_all
  have "?e \<in> {- 0x8000..0x7fff}"
    by (rule wrap_range [OF lt(2,1) lt(2,1)])
  moreover have "(of_int ?e :: u16) = of_int ?d" by (simp add: Let_def)
  then have "short = prevShortId c + of_int ?e" by simp
  ultimately show ?thesis
    by (intro bexI [of _ ?e]) (simp_all add: convertNext_def ShortRange_def Let_def)
qed

fun convert_all :: "SequenceCounter \<Rightarrow> u16 list \<Rightarrow> u64 list" where
  "convert_all c [] = []"
| "convert_all c (short # ids) = (case convertNext c short of (l, c) \<Rightarrow> l # convert_all c ids)"

lemma convert_all_synced:
  "synced c l \<Longrightarrow> in_window l ks \<Longrightarrow> convert_all c (map of_nat ks) = map of_nat ks"
proof (induction ks arbitrary: c l)
  case (Cons k ks)
  obtain c' where "convertNext c (of_int (int k)) = (of_int (int k), c')" "synced c' (int k)"
    using convertNext_synced [OF Cons.prems(1), of "int k"] Cons.prems(2) by auto
  then show ?case using Cons.IH [of c' "int k"] Cons.prems(2) by simp
qed simp

text \<open>C22: from the 16-bit numbers of a stream whose jumps stay within half the range, a new counter
  recovers every full number, through any number of wrap-arounds.\<close>

theorem sequence_recovery:
  assumes "in_window 0 ks"
  shows "convert_all new_SequenceCounter (map of_nat ks) = map of_nat ks"
  using convert_all_synced [OF synced_new assms] .

theorem sequence_recovery_witness:
  "convert_all new_SequenceCounter (map of_nat [20000, 45000, 70000, 65000, 90000]) =
   map of_nat [20000, 45000, 70000, 65000, 90000]"
  by (rule sequence_recovery) simp

subsection \<open>Packets and sending\<close>

text \<open>The bytes of a new packet, received at the other side, give back its sequence number modulo
  2^16, its timestamp, the SSRC 0 and its payload.\<close>

theorem packet_roundtrip:
  assumes "length pl + 32 < 2 ^ 31"
  shows "\<exists>w. serialized_bytes (RtpPacket_new pl sq ts) = Some w \<and> length w = header_size + length pl \<and>
    (let q = RtpPacket_received w (length w)
     in getSequenceNumber q = Some (ucast sq) \<and> getTimestamp q = Some ts \<and> getSsrc q = Some 0 \<and>
        payload_bytes q = Some pl)"
proof -
  let ?p = "RtpPacket_new pl sq ts"
  let ?w = "layout (be16 32768) (be16 (ucast sq)) (be32 ts) (be32 0) pl []"
  have lay: "packet ?p = ?w @ replicate 20 0"
    by (simp only: RtpPacket_new_layout be32_0 [symmetric]) (simp add: layout_def)
  have len: "length ?w = header_size + length pl" by (simp add: layout_def header_size_def)
  have slen: "getSerializedPacketLen ?p = of_nat (header_size + length pl)"
    by (simp add: getSerializedPacketLen_def RtpPacket_new_def Let_def)
  have small: "header_size + length pl < 2 ^ 31" using assms by (simp add: header_size_def)
  have ser: "serialized_bytes ?p = Some ?w"
    unfolding serialized_bytes_def slen sint_small [OF small] unat_small [OF small] lay
    by (simp add: read_bytes_def len)
  have q: "packet (RtpPacket_received ?w (length ?w)) = ?w"
    by (simp add: RtpPacket_received_def)
  have pl: "getPayloadLen (RtpPacket_received ?w (length ?w)) = of_nat (length pl)"
    by (simp add: getPayloadLen_def RtpPacket_received_def len)
  have "length pl < 2 ^ 32" using assms by simp
  note f = layout_fields(1-3) [OF q length_be16] layout_fields(4) [OF q length_be16 pl this]
  show ?thesis
    unfolding Let_def by (intro exI [of _ ?w] conjI) (rule ser len f)+
qed

theorem packet_roundtrip_witness:
  "\<exists>w. serialized_bytes (RtpPacket_new [5, 6] 70000 3) = Some w \<and> length w = header_size + length [5 :: u8, 6] \<and>
    (let q = RtpPacket_received w (length w)
     in getSequenceNumber q = Some (ucast (70000 :: u32)) \<and> getTimestamp q = Some 3 \<and> getSsrc q = Some 0 \<and>
        payload_bytes q = Some [5, 6])"
  by (rule packet_roundtrip) simp

text \<open>\<open>send\<close> hands one encrypted datagram to \<open>sendto\<close> and moves the sequence number by one modulo
  2^32, also when \<open>sendto\<close> fails and \<open>send\<close> returns -1.\<close>

theorem send_outcome:
  assumes "length (salt (parameters (snd_stream s))) = 14" "length d + 32 < 2 ^ 31"
  shows "sender_send sendto_ok s ts d =
    (let w = datagram_of s (unat (sequenceNumber s)) ts d
     in Some (if sendto_ok w then 0 else -1, s\<lparr>sequenceNumber := sequenceNumber s + 1\<rparr>, Some w))"
  using sender_send_datagram [of s d "unat (sequenceNumber s)" sendto_ok ts] assms
  by (simp add: srtp_ready_def Let_def add.commute)

theorem send_outcome_witness:
  "sender_send (\<lambda>_. False) (demo_sender\<lparr>sequenceNumber := -1\<rparr>) 160 [1] =
    Some (-1, demo_sender\<lparr>sequenceNumber := 0\<rparr>, Some (datagram_of demo_sender (2 ^ 32 - 1) 160 [1]))"
proof -
  have "length (salt (parameters (snd_stream (demo_sender\<lparr>sequenceNumber := -1\<rparr>)))) = 14"
    using demo_simps(3) by (simp add: srtp_ready_def)
  moreover have "unat (-1 :: u32) = 2 ^ 32 - 1"
    by (simp add: unsigned_minus_1_eq_mask mask_eq_exp_minus_1)
  ultimately show ?thesis
    using send_outcome [of "demo_sender\<lparr>sequenceNumber := -1\<rparr>" "[1]" "\<lambda>_. False" 160]
    by (simp add: Let_def)
qed

end
