(* ===== verification/Speex_Bits.thy ===== *)
theory Speex_Bits
  imports Prelude "HOL-Library.Monad_Syntax"
begin

text \<open>
  \<open>src/jni/libspeex/bits.c\<close>: the bit-packing buffer in which Speex frames are written and read
  (\<open>BYTES_PER_CHAR\<close> is 1).  \<open>chars\<close> is the whole allocated buffer; the \<open>int\<close> fields are natural
  numbers, for buffers below 2^28 bytes.

  The allocator is a parameter: \<open>speex_realloc\<close> returns \<open>None\<close> or a buffer of the new size that
  starts with the old bytes (\<open>realloc_ok\<close>).  An access outside the buffer is \<open>None\<close> where the
  code's own checks do not rule it out, and a loop that does not end is \<open>None\<close> as well.
\<close>

record SpeexBits =
  chars :: "u8 list"
  nbBits :: nat
  charPtr :: nat
  bitPtr :: nat
  owner :: bool
  overflow :: bool
  buf_size :: nat

type_synonym realloc = "u8 list \<Rightarrow> nat \<Rightarrow> u8 list option"

definition realloc_ok :: "realloc \<Rightarrow> bool" where
  "realloc_ok ra \<longleftrightarrow> (\<forall>cs n cs'. ra cs n = Some cs' \<longrightarrow>
     length cs' = n \<and> take (min (length cs) n) cs' = take (min (length cs) n) cs)"

subsection \<open>Life cycle\<close>

definition speex_bits_reset :: "SpeexBits \<Rightarrow> SpeexBits" where
  "speex_bits_reset b =
     b\<lparr>chars := (chars b)[0 := 0], nbBits := 0, charPtr := 0, bitPtr := 0, overflow := False\<rparr>"

text \<open>\<open>speex_alloc\<close> is \<open>calloc\<close>; \<open>alloc\<close> says whether it succeeds.\<close>

definition speex_bits_init :: "bool \<Rightarrow> SpeexBits \<Rightarrow> SpeexBits" where
  "speex_bits_init alloc b =
     (if \<not> alloc then b
      else speex_bits_reset (b\<lparr>chars := replicate 2000 0, buf_size := 2000, owner := True\<rparr>))"

definition speex_bits_init_buffer :: "SpeexBits \<Rightarrow> u8 list \<Rightarrow> SpeexBits" where
  "speex_bits_init_buffer b buff =
     speex_bits_reset (b\<lparr>chars := buff, buf_size := length buff, owner := False\<rparr>)"

definition speex_bits_set_bit_buffer :: "SpeexBits \<Rightarrow> u8 list \<Rightarrow> SpeexBits" where
  "speex_bits_set_bit_buffer b buff =
     b\<lparr>chars := buff, buf_size := length buff, owner := False,
       nbBits := push_bit 3 (length buff), charPtr := 0, bitPtr := 0, overflow := False\<rparr>"

definition speex_bits_rewind :: "SpeexBits \<Rightarrow> SpeexBits" where
  "speex_bits_rewind b = b\<lparr>charPtr := 0, bitPtr := 0, overflow := False\<rparr>"

text \<open>Whether \<open>speex_bits_destroy\<close> frees \<open>chars\<close>.\<close>

definition speex_bits_destroy :: "SpeexBits \<Rightarrow> bool" where
  "speex_bits_destroy b = owner b"

subsection \<open>Whole bytes\<close>

definition speex_bits_read_from :: "realloc \<Rightarrow> SpeexBits \<Rightarrow> u8 list \<Rightarrow> SpeexBits" where
  "speex_bits_read_from ra b inp =
     (let nchars = length inp;
          (b, nchars) =
            (if nchars > buf_size b then
               if owner b then
                 case ra (chars b) nchars of
                   Some tmp \<Rightarrow> (b\<lparr>buf_size := nchars, chars := tmp\<rparr>, nchars)
                 | None \<Rightarrow> (b, buf_size b)
               else (b, buf_size b)
             else (b, nchars))
      in b\<lparr>chars := write_at (chars b) 0 (take nchars inp), nbBits := push_bit 3 nchars,
           charPtr := 0, bitPtr := 0, overflow := False\<rparr>)"

definition speex_bits_flush :: "SpeexBits \<Rightarrow> SpeexBits" where
  "speex_bits_flush b =
     (let nchars = drop_bit 3 (nbBits b + 8 - 1);
          b = (if charPtr b > 0
               then b\<lparr>chars := write_at (chars b) 0 (take (nchars - charPtr b) (drop (charPtr b) (chars b)))\<rparr>
               else b)
      in b\<lparr>nbBits := nbBits b - push_bit 3 (charPtr b), charPtr := 0\<rparr>)"

definition speex_bits_read_whole_bytes :: "realloc \<Rightarrow> SpeexBits \<Rightarrow> u8 list \<Rightarrow> SpeexBits option" where
  "speex_bits_read_whole_bytes ra b inp =
     (let nchars = length inp;
          (b, nchars) =
            (if drop_bit 3 (nbBits b + 8 - 1) + nchars > buf_size b then
               if owner b then
                 let n = drop_bit 3 (nbBits b) + nchars + 1
                 in case ra (chars b) n of
                      Some tmp \<Rightarrow> (b\<lparr>buf_size := n, chars := tmp\<rparr>, nchars)
                    | None \<Rightarrow> (b, buf_size b - drop_bit 3 (nbBits b) - 1)
               else (b, buf_size b)
             else (b, nchars));
          b = speex_bits_flush b;
          pos = drop_bit 3 (nbBits b)
      in do {
           src \<leftarrow> read_bytes inp 0 nchars;
           cs \<leftarrow> write_bytes (chars b) pos src;
           Some (b\<lparr>chars := cs, nbBits := nbBits b + push_bit 3 nchars\<rparr>)
         })"

definition speex_bits_write_whole_bytes :: "SpeexBits \<Rightarrow> nat \<Rightarrow> u8 list \<times> SpeexBits" where
  "speex_bits_write_whole_bytes b max_nbytes =
     (let max_nchars = max_nbytes;
          max_nchars = (if max_nchars > drop_bit 3 (nbBits b) then drop_bit 3 (nbBits b) else max_nchars);
          out = take max_nchars (chars b);
          b = b\<lparr>chars := (chars b)[0 := if bitPtr b > 0 then chars b ! max_nchars else 0]\<rparr>
      in (out, b\<lparr>charPtr := 0, nbBits := nbBits b AND 7\<rparr>))"

definition speex_bits_nbytes :: "SpeexBits \<Rightarrow> nat" where
  "speex_bits_nbytes b = drop_bit 3 (nbBits b + 8 - 1)"

subsection \<open>Packing\<close>

text \<open>The loop \<open>while (nbBits)\<close> of \<open>speex_bits_pack\<close>.\<close>

fun pack_bits :: "SpeexBits \<Rightarrow> u32 \<Rightarrow> nat \<Rightarrow> SpeexBits" where
  "pack_bits b d 0 = b"
| "pack_bits b d (Suc n) =
     (let v = (if bit d n then push_bit (8 - 1 - bitPtr b) 1 else 0);
          b = b\<lparr>chars := (chars b)[charPtr b := chars b ! charPtr b OR v], bitPtr := bitPtr b + 1\<rparr>;
          b = (if bitPtr b = 8
               then b\<lparr>bitPtr := 0, charPtr := charPtr b + 1, chars := (chars b)[charPtr b + 1 := 0]\<rparr>
               else b)
      in pack_bits (b\<lparr>nbBits := nbBits b + 1\<rparr>) d n)"

definition speex_bits_pack :: "realloc \<Rightarrow> SpeexBits \<Rightarrow> u32 \<Rightarrow> nat \<Rightarrow> SpeexBits" where
  "speex_bits_pack ra b data n =
     (if charPtr b + drop_bit 3 (n + bitPtr b) \<ge> buf_size b then
        if owner b then
          let new_nchars = drop_bit 1 ((buf_size b + 5) * 3)
          in case ra (chars b) new_nchars of
               Some tmp \<Rightarrow> pack_bits (b\<lparr>buf_size := new_nchars, chars := tmp\<rparr>) data n
             | None \<Rightarrow> b
        else b
      else pack_bits b data n)"

text \<open>\<open>while (bits->bitPtr)\<close>: it does not end when packing is refused.\<close>

partial_function (option) terminator_loop :: "realloc \<Rightarrow> SpeexBits \<Rightarrow> SpeexBits option" where
  "terminator_loop ra b =
     (if bitPtr b = 0 then Some b else terminator_loop ra (speex_bits_pack ra b 1 1))"

definition speex_bits_insert_terminator :: "realloc \<Rightarrow> SpeexBits \<Rightarrow> SpeexBits option" where
  "speex_bits_insert_terminator ra b =
     terminator_loop ra (if bitPtr b \<noteq> 0 then speex_bits_pack ra b 0 1 else b)"

definition speex_bits_write :: "realloc \<Rightarrow> SpeexBits \<Rightarrow> nat \<Rightarrow> (u8 list \<times> SpeexBits) option" where
  "speex_bits_write ra b max_nbytes =
     do {
       b' \<leftarrow> speex_bits_insert_terminator ra b;
       let b = b'\<lparr>bitPtr := bitPtr b, charPtr := charPtr b, nbBits := nbBits b\<rparr>;
       let max_nchars = max_nbytes;
       let max_nchars = (if max_nchars > drop_bit 3 (nbBits b + 8 - 1)
         then drop_bit 3 (nbBits b + 8 - 1) else max_nchars);
       Some (take max_nchars (chars b), b)
     }"

subsection \<open>Unpacking\<close>

definition cursor :: "SpeexBits \<Rightarrow> nat" where
  "cursor b = push_bit 3 (charPtr b) + bitPtr b"

fun unpack_bits :: "SpeexBits \<Rightarrow> u32 \<Rightarrow> nat \<Rightarrow> u32 \<times> SpeexBits" where
  "unpack_bits b d 0 = (d, b)"
| "unpack_bits b d (Suc n) =
     (let d = push_bit 1 d;
          d = d OR (ucast (drop_bit (8 - 1 - bitPtr b) (chars b ! charPtr b)) AND 1);
          b = b\<lparr>bitPtr := bitPtr b + 1\<rparr>;
          b = (if bitPtr b = 8 then b\<lparr>bitPtr := 0, charPtr := charPtr b + 1\<rparr> else b)
      in unpack_bits b d n)"

definition speex_bits_unpack_unsigned :: "SpeexBits \<Rightarrow> nat \<Rightarrow> u32 \<times> SpeexBits" where
  "speex_bits_unpack_unsigned b n =
     (let b = (if cursor b + n > nbBits b then b\<lparr>overflow := True\<rparr> else b)
      in if overflow b then (0, b) else unpack_bits b 0 n)"

text \<open>For \<open>0 < nbBits < 32\<close>, where the shifts are defined.\<close>

definition speex_bits_unpack_signed :: "SpeexBits \<Rightarrow> nat \<Rightarrow> u32 \<times> SpeexBits" where
  "speex_bits_unpack_signed b n =
     (case speex_bits_unpack_unsigned b n of
        (d, b) \<Rightarrow> (if drop_bit (n - 1) d \<noteq> 0 then d OR push_bit n (-1) else d, b))"

definition speex_bits_peek_unsigned :: "SpeexBits \<Rightarrow> nat \<Rightarrow> u32 \<times> SpeexBits" where
  "speex_bits_peek_unsigned b n =
     (let b = (if cursor b + n > nbBits b then b\<lparr>overflow := True\<rparr> else b)
      in if overflow b then (0, b) else (fst (unpack_bits b 0 n), b))"

definition speex_bits_peek :: "SpeexBits \<Rightarrow> u8 \<times> SpeexBits" where
  "speex_bits_peek b =
     (let b = (if cursor b + 1 > nbBits b then b\<lparr>overflow := True\<rparr> else b)
      in if overflow b then (0, b)
         else (drop_bit (8 - 1 - bitPtr b) (chars b ! charPtr b) AND 1, b))"

text \<open>\<open>n\<close> may be negative: the shift and the mask then move the cursor back.\<close>

definition speex_bits_advance :: "SpeexBits \<Rightarrow> int \<Rightarrow> SpeexBits" where
  "speex_bits_advance b n =
     (if int (cursor b) + n > int (nbBits b) \<or> overflow b then b\<lparr>overflow := True\<rparr>
      else b\<lparr>charPtr := nat (int (charPtr b) + drop_bit 3 (int (bitPtr b) + n)),
             bitPtr := nat ((int (bitPtr b) + n) AND 7)\<rparr>)"

definition speex_bits_remaining :: "SpeexBits \<Rightarrow> int" where
  "speex_bits_remaining b = (if overflow b then -1 else int (nbBits b) - int (cursor b))"

subsection \<open>The bits of a buffer\<close>

definition stream_bit :: "u8 list \<Rightarrow> nat \<Rightarrow> bool" where
  "stream_bit cs i = bit (cs ! (i div 8)) (7 - i mod 8)"

definition written :: "SpeexBits \<Rightarrow> bool list" where
  "written b = map (stream_bit (chars b)) [0..<nbBits b]"

definition bits_msb :: "u32 \<Rightarrow> nat \<Rightarrow> bool list" where
  "bits_msb d n = map (bit d) (rev [0..<n])"

text \<open>A buffer that is being written: the cursor is at the end, and the rest of its byte is clear.\<close>

definition appending :: "SpeexBits \<Rightarrow> bool" where
  "appending b \<longleftrightarrow>
     cursor b = nbBits b \<and> bitPtr b < 8 \<and> charPtr b < length (chars b) \<and>
     length (chars b) = buf_size b \<and> (\<forall>k < 8 - bitPtr b. \<not> bit (chars b ! charPtr b) k)"

lemma bits_msb_0 [simp]: "bits_msb d 0 = []"
  by (simp add: bits_msb_def)

lemma bits_msb_Suc: "bits_msb d (Suc n) = bit d n # bits_msb d n"
  by (simp add: bits_msb_def)

lemma length_bits_msb [simp]: "length (bits_msb d n) = n"
  by (simp add: bits_msb_def)

lemma length_written [simp]: "length (written b) = nbBits b"
  by (simp add: written_def)

lemma cursor_simps [simp]:
  "cursor (b\<lparr>chars := cs\<rparr>) = cursor b" "cursor (b\<lparr>nbBits := m\<rparr>) = cursor b"
  "cursor (b\<lparr>overflow := v\<rparr>) = cursor b" "cursor (b\<lparr>buf_size := m\<rparr>) = cursor b"
  by (simp_all add: cursor_def)

lemma cursor_eq: "cursor b = 8 * charPtr b + bitPtr b"
  by (simp add: cursor_def push_bit_eq_mult)

lemma cursor_div_mod:
  "bitPtr b < 8 \<Longrightarrow> cursor b div 8 = charPtr b" "bitPtr b < 8 \<Longrightarrow> cursor b mod 8 = bitPtr b"
  by (simp_all add: cursor_eq)

subsection \<open>Packing appends\<close>

text \<open>One turn of the packing loop.\<close>

definition pack_one :: "SpeexBits \<Rightarrow> bool \<Rightarrow> SpeexBits" where
  "pack_one b x =
     (let v = (if x then push_bit (8 - 1 - bitPtr b) 1 else 0);
          b = b\<lparr>chars := (chars b)[charPtr b := chars b ! charPtr b OR v], bitPtr := bitPtr b + 1\<rparr>;
          b = (if bitPtr b = 8
               then b\<lparr>bitPtr := 0, charPtr := charPtr b + 1, chars := (chars b)[charPtr b + 1 := 0]\<rparr>
               else b)
      in b\<lparr>nbBits := nbBits b + 1\<rparr>)"

lemma pack_bits_one: "pack_bits b d (Suc n) = pack_bits (pack_one b (bit d n)) d n"
  by (simp add: pack_one_def Let_def)

lemma pack_one_frame [simp]:
  "nbBits (pack_one b x) = nbBits b + 1" "buf_size (pack_one b x) = buf_size b"
  "owner (pack_one b x) = owner b" "overflow (pack_one b x) = overflow b"
  "length (chars (pack_one b x)) = length (chars b)"
  by (simp_all add: pack_one_def Let_def)

lemma pack_one_appending:
  assumes "appending b" "(nbBits b + 1) div 8 < buf_size b"
  shows "appending (pack_one b x)" "written (pack_one b x) = written b @ [x]"
proof -
  let ?c = "charPtr b" and ?p = "bitPtr b" and ?cs = "chars b"
  let ?v = "if x then push_bit (7 - ?p) 1 else (0 :: u8)"
  have a: "nbBits b = 8 * ?c + ?p" "?p < 8" "?c < length ?cs" "length ?cs = buf_size b"
    "\<And>k. k < 8 - ?p \<Longrightarrow> \<not> bit (?cs ! ?c) k"
    using assms(1) by (simp_all add: appending_def cursor_eq)
  have v: "bit ?v k \<longleftrightarrow> x \<and> k = 7 - ?p" for k
    using a(2) by (auto simp: bit_simps)
  have room: "?p = 7 \<Longrightarrow> ?c + 1 < length ?cs" using assms(2) a by simp
  have new: "chars (pack_one b x) =
      (if ?p = 7 then ?cs[?c := ?cs ! ?c OR ?v, ?c + 1 := 0] else ?cs[?c := ?cs ! ?c OR ?v])"
    by (simp add: pack_one_def Let_def)
  have ptr: "charPtr (pack_one b x) = (if ?p = 7 then ?c + 1 else ?c)"
    "bitPtr (pack_one b x) = (if ?p = 7 then 0 else ?p + 1)"
    by (simp_all add: pack_one_def Let_def)
  show "appending (pack_one b x)"
  proof (cases "?p = 7")
    case True
    then show ?thesis using a room by (simp add: appending_def cursor_eq new ptr)
  next
    case False
    have "\<not> bit (?cs ! ?c OR ?v) k" if "k < 8 - (?p + 1)" for k
      using that a(5) [of k] v [of k] a(2) by (auto simp: bit_or_iff)
    then show ?thesis using False a by (simp add: appending_def cursor_eq new ptr)
  qed
  have old: "stream_bit (chars (pack_one b x)) i = stream_bit ?cs i" if "i < nbBits b" for i
  proof (cases "i div 8 = ?c")
    case True
    have "i mod 8 < ?p" using that a(1) True mult_div_mod_eq [of 8 i] by linarith
    then have "7 - i mod 8 \<noteq> 7 - ?p" using a(2) by linarith
    then have "\<not> bit ?v (7 - i mod 8)" using v by simp
    then show ?thesis using True a(3) by (simp add: stream_bit_def new bit_or_iff)
  next
    case False
    have "i div 8 < ?c + 1" using that a(1,2) by (simp add: div_less_iff_less_mult) 
    then show ?thesis using False by (simp add: stream_bit_def new)
  qed
  have "stream_bit (chars (pack_one b x)) (nbBits b) = x"
    using a v by (simp add: stream_bit_def new bit_or_iff)
  then show "written (pack_one b x) = written b @ [x]"
    using old by (simp add: written_def)
qed

lemma pack_bits_appending:
  assumes "appending b" "(nbBits b + n) div 8 < buf_size b"
  shows "appending (pack_bits b d n) \<and> written (pack_bits b d n) = written b @ bits_msb d n \<and>
    nbBits (pack_bits b d n) = nbBits b + n \<and> owner (pack_bits b d n) = owner b \<and>
    buf_size (pack_bits b d n) = buf_size b \<and> overflow (pack_bits b d n) = overflow b"
  using assms
proof (induction n arbitrary: b)
  case (Suc n)
  have "(nbBits b + 1) div 8 \<le> (nbBits b + Suc n) div 8" by (simp add: div_le_mono)
  then have room: "(nbBits b + 1) div 8 < buf_size b" using Suc.prems(2) by simp
  note one = pack_one_appending [OF Suc.prems(1) room, of "bit d n"]
  have "(nbBits (pack_one b (bit d n)) + n) div 8 < buf_size (pack_one b (bit d n))"
    using Suc.prems(2) by simp
  from Suc.IH [OF one(1) this] one(2) show ?case
    by (simp only: pack_bits_one bits_msb_Suc) simp
qed simp

lemma written_grow:
  assumes "appending b" "realloc_ok ra" "ra (chars b) n = Some cs" "buf_size b \<le> n"
  shows "appending (b\<lparr>buf_size := n, chars := cs\<rparr>)" "written (b\<lparr>buf_size := n, chars := cs\<rparr>) = written b"
proof -
  have len: "length (chars b) = buf_size b" using assms(1) by (simp add: appending_def)
  have "length cs = n \<and> take (min (length (chars b)) n) cs = take (min (length (chars b)) n) (chars b)"
    using assms(2,3) unfolding realloc_ok_def by blast
  then have cs: "length cs = n" "take (length (chars b)) cs = chars b"
    using assms(4) len by (simp_all add: min_def)
  have nth: "cs ! i = chars b ! i" if "i < length (chars b)" for i
    using that cs(2) by (metis nth_take)
  show "appending (b\<lparr>buf_size := n, chars := cs\<rparr>)"
    using assms(1,4) cs(1) nth by (auto simp: appending_def)
  have "i div 8 < length (chars b)" if "i < nbBits b" for i
    using that assms(1) by (auto simp: appending_def cursor_eq div_less_iff_less_mult)
  then show "written (b\<lparr>buf_size := n, chars := cs\<rparr>) = written b"
    using nth by (simp add: written_def stream_bit_def)
qed

text \<open>An allocator that never fails.\<close>

definition reliable :: "realloc \<Rightarrow> bool" where
  "reliable ra \<longleftrightarrow> realloc_ok ra \<and> (\<forall>cs n. ra cs n \<noteq> None)"

lemma speex_bits_pack_appending:
  assumes "appending b" "owner b" "reliable ra" "n \<le> 32"
  shows "appending (speex_bits_pack ra b d n) \<and> owner (speex_bits_pack ra b d n) \<and>
    written (speex_bits_pack ra b d n) = written b @ bits_msb d n \<and>
    nbBits (speex_bits_pack ra b d n) = nbBits b + n \<and>
    overflow (speex_bits_pack ra b d n) = overflow b"
proof (cases "charPtr b + drop_bit 3 (n + bitPtr b) \<ge> buf_size b")
  case False
  have "(nbBits b + n) div 8 = charPtr b + (n + bitPtr b) div 8"
    using assms(1) by (simp add: appending_def cursor_eq add.assoc add.commute [of "bitPtr b"])
      (metis add.commute add.left_commute div_mult_self2 mult.commute zero_neq_numeral)
  then have "(nbBits b + n) div 8 < buf_size b" using False by (simp add: drop_bit_eq_div)
  from pack_bits_appending [OF assms(1) this] show ?thesis
    using False assms(2) by (simp add: speex_bits_pack_def)
next
  case True
  let ?n = "drop_bit 1 ((buf_size b + 5) * 3)"
  have n: "buf_size b + 7 \<le> ?n" by (simp add: drop_bit_eq_div)
  obtain cs where cs: "ra (chars b) ?n = Some cs" using assms(3) by (fastforce simp: reliable_def)
  let ?b = "b\<lparr>buf_size := ?n, chars := cs\<rparr>"
  have ok: "realloc_ok ra" using assms(3) by (simp add: reliable_def)
  have grown: "appending ?b" "written ?b = written b"
    using written_grow [OF assms(1) ok cs] n by simp_all
  have "nbBits b < 8 * buf_size b"
    using assms(1) by (simp add: appending_def cursor_eq)
  then have "(nbBits ?b + n) div 8 < buf_size ?b"
    using assms(4) n by (simp add: div_less_iff_less_mult)
  from pack_bits_appending [OF grown(1) this] show ?thesis
    using True assms(2) cs grown(2) by (simp add: speex_bits_pack_def Let_def)
qed

subsection \<open>The terminator\<close>

lemma terminator_loop_appending:
  assumes "appending b" "owner b" "reliable ra"
  shows "\<exists>b'. terminator_loop ra b = Some b' \<and> appending b' \<and> bitPtr b' = 0 \<and>
    written b' = written b @ replicate ((8 - bitPtr b) mod 8) True"
  using assms(1,2)
proof (induction "(8 - bitPtr b) mod 8" arbitrary: b rule: less_induct)
  case less
  show ?case
  proof (cases "bitPtr b = 0")
    case True
    then show ?thesis using less.prems by (simp add: terminator_loop.simps [of ra b])
  next
    case False
    let ?b = "speex_bits_pack ra b 1 1"
    have pk: "appending ?b" "owner ?b" "written ?b = written b @ bits_msb 1 1" "nbBits ?b = nbBits b + 1"
      using speex_bits_pack_appending [OF less.prems assms(3), of 1 1] by simp_all
    have b: "bitPtr b = nbBits b mod 8" "bitPtr ?b = nbBits ?b mod 8"
      using less.prems(1) pk(1) by (auto simp: appending_def dest: cursor_div_mod(2))
    have "bitPtr ?b = (bitPtr b + 1) mod 8" by (simp only: b pk(4)) (simp add: mod_Suc_eq)
    moreover have "bitPtr b < 8" using less.prems(1) by (simp add: appending_def)
    ultimately have k: "(8 - bitPtr b) mod 8 = Suc ((8 - bitPtr ?b) mod 8)"
      using False by (cases "bitPtr b = 7") auto
    have "bits_msb 1 1 = [True]" by (simp add: bits_msb_def)
    then show ?thesis
      using less.hyps [OF _ pk(1,2)] pk(3) k False by (auto simp: terminator_loop.simps [of ra b])
  qed
qed

definition padding :: "SpeexBits \<Rightarrow> bool list" where
  "padding b = (if bitPtr b = 0 then [] else False # replicate (7 - bitPtr b) True)"

lemma insert_terminator_appending:
  assumes "appending b" "owner b" "reliable ra"
  shows "\<exists>b'. speex_bits_insert_terminator ra b = Some b' \<and> appending b' \<and> bitPtr b' = 0 \<and>
    written b' = written b @ padding b"
proof (cases "bitPtr b = 0")
  case True
  then show ?thesis
    using terminator_loop_appending [OF assms] by (simp add: speex_bits_insert_terminator_def padding_def)
next
  case False
  let ?b = "speex_bits_pack ra b 0 1"
  have pk: "appending ?b" "owner ?b" "written ?b = written b @ bits_msb 0 1" "nbBits ?b = nbBits b + 1"
    using speex_bits_pack_appending [OF assms, of 1 0] by simp_all
  have b: "bitPtr b = nbBits b mod 8" "bitPtr ?b = nbBits ?b mod 8"
    using assms(1) pk(1) by (auto simp: appending_def dest: cursor_div_mod(2))
  have "bitPtr ?b = (bitPtr b + 1) mod 8" by (simp only: b pk(4)) (simp add: mod_Suc_eq)
  moreover have "bitPtr b < 8" using assms(1) by (simp add: appending_def)
  ultimately have "(8 - bitPtr ?b) mod 8 = 7 - bitPtr b"
    using False by (cases "bitPtr b = 7") auto
  moreover have "bits_msb 0 1 = [False]" by (simp add: bits_msb_def)
  ultimately show ?thesis
    using terminator_loop_appending [OF pk(1,2) assms(3)] pk(3) False
    by (auto simp: speex_bits_insert_terminator_def padding_def)
qed

lemma speex_bits_write_bytes:
  assumes "appending b" "owner b" "reliable ra" "speex_bits_nbytes b \<le> m"
  obtains bytes b' where "speex_bits_write ra b m = Some (bytes, b')"
    "length bytes = speex_bits_nbytes b"
    "map (stream_bit bytes) [0..<nbBits b] = written b"
proof -
  obtain b' xs where t: "speex_bits_insert_terminator ra b = Some b'" "appending b'" "bitPtr b' = 0"
    "written b' = written b @ xs"
    using insert_terminator_appending [OF assms(1-3)] by blast
  let ?n = "speex_bits_nbytes b"
  have n: "?n = (nbBits b + 7) div 8" by (simp add: speex_bits_nbytes_def drop_bit_eq_div)
  have "nbBits b' = nbBits b + length xs" using arg_cong [OF t(4), of length] by simp
  moreover have "nbBits b' = 8 * charPtr b'" "charPtr b' < length (chars b')"
    using t(2,3) by (simp_all add: appending_def cursor_eq)
  ultimately have le: "?n \<le> length (chars b')" "nbBits b \<le> nbBits b'" by (simp_all add: n)
  have "stream_bit (take ?n (chars b')) i = stream_bit (chars b') i" if "i < nbBits b" for i
  proof -
    have "i div 8 < ?n" using that n by linarith
    then show ?thesis by (simp add: stream_bit_def)
  qed
  moreover have "map (stream_bit (chars b')) [0..<nbBits b] = take (nbBits b) (written b')"
    using le(2) by (simp add: written_def take_map min_def)
  moreover have "map (stream_bit (take ?n (chars b'))) [0..<nbBits b] = map (stream_bit (chars b')) [0..<nbBits b]"
    using calculation(1) by (intro map_cong) simp_all
  ultimately have "map (stream_bit (take ?n (chars b'))) [0..<nbBits b] = written b"
    using t(4) by simp
  moreover have "speex_bits_write ra b m =
      Some (take ?n (chars b'), b'\<lparr>bitPtr := bitPtr b, charPtr := charPtr b, nbBits := nbBits b\<rparr>)"
    using t(1) assms(4) by (simp add: speex_bits_write_def Let_def speex_bits_nbytes_def)
  moreover have "length (take ?n (chars b')) = ?n" using le(1) by simp
  ultimately show ?thesis using that by blast
qed

text \<open>Without room for the next byte and without the right to grow, the terminator is refused bit by bit
  and the loop does not end.\<close>

definition full_borrowed :: "SpeexBits \<Rightarrow> bool" where
  "full_borrowed b \<longleftrightarrow> \<not> owner b \<and> charPtr b + 1 = buf_size b \<and> 0 < bitPtr b \<and> bitPtr b < 8"

lemma full_borrowed_pack: "full_borrowed b \<Longrightarrow> full_borrowed (speex_bits_pack ra b d 1)"
  by (auto simp: full_borrowed_def speex_bits_pack_def drop_bit_eq_div Let_def)

lemma terminator_loop_stuck: "full_borrowed b \<Longrightarrow> terminator_loop ra b = None"
proof -
  have "\<not> full_borrowed b" if "terminator_loop ra b = Some b'" for b'
    using that
  proof (rule terminator_loop.raw_induct [where P = "\<lambda>ra b b'. \<not> full_borrowed b", rotated])
    fix f ra b b'
    assume ih: "\<And>ra b b'. f ra b = Some b' \<Longrightarrow> \<not> full_borrowed b"
      and step: "(if bitPtr b = 0 then Some b else f ra (speex_bits_pack ra b 1 1)) = Some b'"
    show "\<not> full_borrowed b"
    proof
      assume full: "full_borrowed b"
      then have "f ra (speex_bits_pack ra b 1 1) = Some b'" using step by (simp add: full_borrowed_def)
      from ih [OF this] full_borrowed_pack [OF full] show False by simp
    qed
  qed
  moreover assume "full_borrowed b"
  ultimately show ?thesis by (metis not_None_eq)
qed

subsection \<open>Unpacking reads\<close>

definition number_of :: "u32 \<Rightarrow> bool list \<Rightarrow> u32" where
  "number_of d xs = foldl (\<lambda>d x. push_bit 1 d OR of_bool x) d xs"

lemma number_of_bits_msb: "number_of d (bits_msb v n) = push_bit n d OR take_bit n v"
proof (induction n arbitrary: d)
  case (Suc n)
  have "number_of d (bits_msb v (Suc n)) = push_bit n (push_bit 1 d OR of_bool (bit v n)) OR take_bit n v"
    using Suc.IH by (simp add: number_of_def bits_msb_Suc)
  also have "\<dots> = push_bit (Suc n) d OR take_bit (Suc n) v"
    by (rule bit_word_eqI) (auto simp: bit_simps less_Suc_eq not_le simp del: push_bit_Suc)
  finally show ?case .
qed (simp add: number_of_def)

lemma unpack_bit: "p < 8 \<Longrightarrow> (ucast (drop_bit (7 - p) (c :: u8)) AND 1 :: u32) = of_bool (bit c (7 - p))"
  by (rule bit_word_eqI) (auto simp: bit_simps)

lemma unpack_bits_stream:
  assumes "bitPtr b < 8"
  shows "fst (unpack_bits b d n) = number_of d (map (stream_bit (chars b)) [cursor b..<cursor b + n]) \<and>
    cursor (snd (unpack_bits b d n)) = cursor b + n \<and> bitPtr (snd (unpack_bits b d n)) < 8 \<and>
    chars (snd (unpack_bits b d n)) = chars b \<and> nbBits (snd (unpack_bits b d n)) = nbBits b \<and>
    overflow (snd (unpack_bits b d n)) = overflow b"
  using assms
proof (induction n arbitrary: b d)
  case (Suc n)
  let ?d = "push_bit 1 d OR of_bool (stream_bit (chars b) (cursor b))"
  let ?b = "if bitPtr b = 7 then b\<lparr>bitPtr := 0, charPtr := charPtr b + 1\<rparr> else b\<lparr>bitPtr := bitPtr b + 1\<rparr>"
  have bit: "(ucast (drop_bit (7 - bitPtr b) (chars b ! charPtr b)) AND 1 :: u32) =
      of_bool (stream_bit (chars b) (cursor b))"
    using unpack_bit [OF Suc.prems] cursor_div_mod [OF Suc.prems] by (simp add: stream_bit_def)
  have step: "unpack_bits b d (Suc n) = unpack_bits ?b ?d n"
    by (auto simp: Let_def bit)
  have cur: "cursor ?b = cursor b + 1" "bitPtr ?b < 8"
    "chars ?b = chars b" "nbBits ?b = nbBits b" "overflow ?b = overflow b"
    using Suc.prems by (auto simp: cursor_eq)
  have "map (stream_bit (chars b)) [cursor b..<cursor b + Suc n] =
      stream_bit (chars b) (cursor b) # map (stream_bit (chars b)) [cursor b + 1..<cursor b + 1 + n]"
    by (subst upt_conv_Cons) simp_all
  then show ?case
    using Suc.IH [OF cur(2), of ?d] cur unfolding step
    by (simp only: number_of_def foldl.simps) simp
qed (simp add: number_of_def)

text \<open>A buffer that is being read.\<close>

definition reading :: "SpeexBits \<Rightarrow> bool" where
  "reading b \<longleftrightarrow> bitPtr b < 8 \<and> \<not> overflow b \<and> cursor b \<le> nbBits b"

definition ahead :: "SpeexBits \<Rightarrow> bool list" where
  "ahead b = map (stream_bit (chars b)) [cursor b..<nbBits b]"

lemma ahead_split:
  assumes "n \<le> length (ahead b)"
  shows "take n (ahead b) = map (stream_bit (chars b)) [cursor b..<cursor b + n]"
    and "drop n (ahead b) = map (stream_bit (chars b)) [cursor b + n..<nbBits b]"
proof -
  have "cursor b + n \<le> nbBits b \<or> n = 0" using assms by (auto simp: ahead_def)
  then show "take n (ahead b) = map (stream_bit (chars b)) [cursor b..<cursor b + n]"
    by (auto simp: ahead_def take_map take_upt)
  show "drop n (ahead b) = map (stream_bit (chars b)) [cursor b + n..<nbBits b]"
    by (simp add: ahead_def drop_map)
qed

lemma unpack_unsigned_reading:
  assumes "reading b" "ahead b = xs @ ys" "length xs = n"
  shows "\<exists>b'. speex_bits_unpack_unsigned b n = (number_of 0 xs, b') \<and> reading b' \<and> ahead b' = ys \<and>
    nbBits b' = nbBits b \<and> chars b' = chars b"
proof -
  obtain v b' where u: "unpack_bits b 0 n = (v, b')" by fastforce
  have len: "length (ahead b) = nbBits b - cursor b" by (simp add: ahead_def)
  have "n \<le> nbBits b - cursor b" using arg_cong [OF assms(2), of length] assms(3) len by simp
  then have le: "cursor b + n \<le> nbBits b" using assms(1) unfolding reading_def by linarith
  have n: "n \<le> length (ahead b)" using assms by simp
  have "map (stream_bit (chars b)) [cursor b..<cursor b + n] = xs"
    "map (stream_bit (chars b)) [cursor b + n..<nbBits b] = ys"
    using ahead_split [OF n] assms by simp_all
  moreover have "bitPtr b < 8" using assms(1) by (simp add: reading_def)
  note unpack_bits_stream [OF this, of 0 n, unfolded u fst_conv snd_conv]
  ultimately show ?thesis
    using assms(1) le u by (auto simp: speex_bits_unpack_unsigned_def Let_def reading_def ahead_def)
qed

subsection \<open>Fields\<close>

fun pack_fields :: "realloc \<Rightarrow> SpeexBits \<Rightarrow> (u32 \<times> nat) list \<Rightarrow> SpeexBits" where
  "pack_fields ra b [] = b"
| "pack_fields ra b ((v, n) # fs) = pack_fields ra (speex_bits_pack ra b v n) fs"

fun unpack_fields :: "SpeexBits \<Rightarrow> nat list \<Rightarrow> u32 list \<times> SpeexBits" where
  "unpack_fields b [] = ([], b)"
| "unpack_fields b (n # ns) =
     (case speex_bits_unpack_unsigned b n of (v, b) \<Rightarrow>
      case unpack_fields b ns of (vs, b) \<Rightarrow> (v # vs, b))"

definition field_bits :: "(u32 \<times> nat) list \<Rightarrow> bool list" where
  "field_bits fs = concat (map (\<lambda>(v, n). bits_msb v n) fs)"

definition field_len :: "(u32 \<times> nat) list \<Rightarrow> nat" where
  "field_len fs = sum_list (map snd fs)"

lemma length_field_bits: "length (field_bits fs) = field_len fs"
  by (induction fs) (auto simp: field_bits_def field_len_def)

lemma pack_fields_appending:
  assumes "appending b" "owner b" "reliable ra" "\<forall>(v, n) \<in> set fs. n \<le> 32"
  shows "appending (pack_fields ra b fs) \<and> owner (pack_fields ra b fs) \<and>
    written (pack_fields ra b fs) = written b @ field_bits fs"
  using assms(1,2,4)
proof (induction fs arbitrary: b)
  case (Cons f fs)
  obtain v n where f: "f = (v, n)" by (cases f)
  have "n \<le> 32" using Cons.prems(3) f by simp
  note pk = speex_bits_pack_appending [OF Cons.prems(1,2) assms(3) this, of v]
  from Cons.IH [of "speex_bits_pack ra b v n"] pk Cons.prems(3) show ?case
    by (simp add: f field_bits_def)
qed (simp add: field_bits_def)

lemma unpack_fields_reading:
  assumes "reading b" "ahead b = field_bits fs @ ys"
  shows "\<exists>b'. unpack_fields b (map snd fs) = (map (\<lambda>(v, n). take_bit n v) fs, b') \<and>
    reading b' \<and> ahead b' = ys"
  using assms
proof (induction fs arbitrary: b)
  case (Cons f fs)
  obtain v n where f: "f = (v, n)" by (cases f)
  have "ahead b = bits_msb v n @ (field_bits fs @ ys)" using Cons.prems(2) by (simp add: f field_bits_def)
  from unpack_unsigned_reading [OF Cons.prems(1) this] obtain b1 where
    1: "speex_bits_unpack_unsigned b n = (take_bit n v, b1)" "reading b1" "ahead b1 = field_bits fs @ ys"
    by (auto simp: number_of_bits_msb)
  from Cons.IH [OF 1(2,3)] 1(1) show ?case by (auto simp: f)
qed (simp add: field_bits_def)

lemma init_appending: "appending (speex_bits_init True b)" "owner (speex_bits_init True b)"
  "written (speex_bits_init True b) = []"
  by (simp_all add: speex_bits_init_def speex_bits_reset_def appending_def cursor_def written_def)

lemma read_from_reading:
  assumes "owner r" "length (chars r) = buf_size r" "reliable ra"
  shows "reading (speex_bits_read_from ra r bytes)"
    and "ahead (speex_bits_read_from ra r bytes) = map (stream_bit bytes) [0..<8 * length bytes]"
proof -
  obtain cs where cs: "chars (speex_bits_read_from ra r bytes) = write_at cs 0 bytes"
    "length bytes \<le> length cs" "nbBits (speex_bits_read_from ra r bytes) = 8 * length bytes"
    "cursor (speex_bits_read_from ra r bytes) = 0" "bitPtr (speex_bits_read_from ra r bytes) = 0"
    "\<not> overflow (speex_bits_read_from ra r bytes)"
  proof (cases "length bytes > buf_size r")
    case True
    obtain cs where "ra (chars r) (length bytes) = Some cs" using assms(3) by (fastforce simp: reliable_def)
    moreover from this have "length cs = length bytes" using assms(3) by (auto simp: reliable_def realloc_ok_def)
    ultimately show ?thesis
      using that [of cs] True assms(1)
      by (simp add: speex_bits_read_from_def Let_def cursor_def push_bit_eq_mult)
  next
    case False
    then show ?thesis
      using that [of "chars r"] assms(2)
      by (simp add: speex_bits_read_from_def Let_def cursor_def push_bit_eq_mult)
  qed
  show "reading (speex_bits_read_from ra r bytes)" using cs by (simp add: reading_def)
  have "stream_bit (write_at cs 0 bytes) i = stream_bit bytes i" if "i < 8 * length bytes" for i
  proof -
    have "i div 8 < length bytes" using that by (simp add: div_less_iff_less_mult mult.commute)
    then show ?thesis by (simp add: stream_bit_def write_at_def nth_append)
  qed
  then show "ahead (speex_bits_read_from ra r bytes) = map (stream_bit bytes) [0..<8 * length bytes]"
    by (simp add: ahead_def cs)
qed

lemma speex_bits_transmit:
  assumes "reliable ra" "\<forall>(v, n) \<in> set fs. n \<le> 32" "(field_len fs + 7) div 8 \<le> m"
    and "owner r" "length (chars r) = buf_size r"
  shows "\<exists>bytes b'. speex_bits_write ra (pack_fields ra (speex_bits_init True b) fs) m = Some (bytes, b') \<and>
    length bytes = (field_len fs + 7) div 8 \<and>
    fst (unpack_fields (speex_bits_read_from ra r bytes) (map snd fs)) = map (\<lambda>(v, n). take_bit n v) fs"
proof -
  let ?b = "pack_fields ra (speex_bits_init True b) fs"
  have b: "appending ?b" "owner ?b" "written ?b = field_bits fs"
    using pack_fields_appending [OF init_appending(1,2) assms(1,2)] by (simp_all add: init_appending)
  have nb: "nbBits ?b = field_len fs"
    using arg_cong [OF b(3), of length] by (simp add: length_field_bits)
  then have n: "speex_bits_nbytes ?b = (field_len fs + 7) div 8"
    by (simp add: speex_bits_nbytes_def drop_bit_eq_div)
  obtain bytes b' where w: "speex_bits_write ra ?b m = Some (bytes, b')"
    "length bytes = speex_bits_nbytes ?b" "map (stream_bit bytes) [0..<nbBits ?b] = written ?b"
    using speex_bits_write_bytes [OF b(1,2) assms(1)] assms(3) n by metis
  let ?r = "speex_bits_read_from ra r bytes"
  have "nbBits ?b \<le> 8 * length bytes" using w(2) n nb by linarith
  then have "[0..<8 * length bytes] = [0..<field_len fs] @ [field_len fs..<8 * length bytes]"
    using upt_add_eq_append [of 0 "field_len fs" "8 * length bytes - field_len fs"] nb by simp
  then have "ahead ?r = field_bits fs @ map (stream_bit bytes) [field_len fs..<8 * length bytes]"
    using read_from_reading(2) [OF assms(4,5,1), of bytes] w(3) b(3) nb by simp
  from unpack_fields_reading [OF read_from_reading(1) [OF assms(4,5,1)] this] w(1,2) n
  show ?thesis by auto
qed

end
