(* ===== verification/Speex_Frame.thy ===== *)
theory Speex_Frame
  imports Speex_Bits
begin

text \<open>
  How the narrowband decoder of \<open>src/jni/libspeex/nb_celp.c\<close> finds the next frame in a packet: the
  \<open>do ... while (m > 8)\<close> loop of \<open>nb_decode\<close>, which skips wideband layers and in-band requests, with
  \<open>speex_inband_handler\<close> and \<open>speex_default_user_handler\<close> of \<open>speex_callbacks.c\<close> (no callback is
  registered, \<open>encode_submode\<close> is 1, as \<open>nb_decoder_init\<close> leaves them).

  The synthesis of the 160 samples of a frame is the parameter \<open>ops\<close>: \<open>nb_silence\<close> for sub-mode 0
  (\<open>submodes[0]\<close> is \<open>NULL\<close>, no further bits are read), \<open>nb_synth\<close> for the sub-modes 1 to 8, which read
  their parameters from the buffer, \<open>nb_lost\<close> for a lost packet.
\<close>

definition wb_skip_table :: "int list" where
  "wb_skip_table = [0, 36, 112, 192, 352, 0, 0, 0]"

text \<open>Reading the sub-mode of a wideband layer and skipping it; \<open>True\<close> for the return of -2.\<close>

definition skip_layer :: "SpeexBits \<Rightarrow> bool \<times> SpeexBits" where
  "skip_layer b =
     (case speex_bits_unpack_unsigned b 3 of (submode, b) \<Rightarrow>
        let advance = wb_skip_table ! unat submode
        in if advance < 0 then (True, b)
           else (False, speex_bits_advance b (advance - (3 + 1))))"

text \<open>One turn of the loop up to the reading of \<open>m\<close>: \<open>Inl\<close> is a return.\<close>

definition nb_header :: "SpeexBits \<Rightarrow> (int + nat) \<times> SpeexBits" where
  "nb_header b =
     (if speex_bits_remaining b < 5 then (Inl (-1), b)
      else case speex_bits_unpack_unsigned b 1 of (wideband, b) \<Rightarrow>
        let (ret, b) =
          (if wideband \<noteq> 0 then
             case skip_layer b of (bad, b) \<Rightarrow>
               if bad then (Some (-2), b)
               else if speex_bits_remaining b < 5 then (Some (-1), b)
               else case speex_bits_unpack_unsigned b 1 of (wideband, b) \<Rightarrow>
                 if wideband \<noteq> 0 then
                   case skip_layer b of (bad, b) \<Rightarrow>
                     if bad then (Some (-2), b)
                     else case speex_bits_unpack_unsigned b 1 of (wideband, b) \<Rightarrow>
                       if wideband \<noteq> 0 then (Some (-2), b) else (None, b)
                 else (None, b)
           else (None, b))
        in case ret of
             Some r \<Rightarrow> (Inl r, b)
           | None \<Rightarrow>
               if speex_bits_remaining b < 4 then (Inl (-1), b)
               else case speex_bits_unpack_unsigned b 4 of (m, b) \<Rightarrow> (Inr (unat m), b))"

text \<open>An in-band request without a callback is skipped.\<close>

definition speex_inband_handler :: "SpeexBits \<Rightarrow> SpeexBits" where
  "speex_inband_handler b =
     (case speex_bits_unpack_unsigned b 4 of (i, b) \<Rightarrow>
        let adv = (if i < 2 then 1 else if i < 8 then 4 else if i < 10 then 8
                   else if i < 12 then 16 else if i < 14 then 32 else 64)
        in speex_bits_advance b adv)"

definition speex_default_user_handler :: "SpeexBits \<Rightarrow> SpeexBits" where
  "speex_default_user_handler b =
     (case speex_bits_unpack_unsigned b 4 of (req_size, b) \<Rightarrow>
        speex_bits_advance b (5 + 8 * int (unat req_size)))"

partial_function (option) nb_search :: "SpeexBits \<Rightarrow> ((int + nat) \<times> SpeexBits) option" where
  "nb_search b =
     (case nb_header b of
        (Inl r, b) \<Rightarrow> Some (Inl r, b)
      | (Inr m, b) \<Rightarrow>
          if m = 15 then Some (Inl (-1), b)
          else if m = 14 then nb_search (speex_inband_handler b)
          else if m = 13 then nb_search (speex_default_user_handler b)
          else if m > 8 then Some (Inl (-2), b)
          else Some (Inr m, b))"

record 'd nb_ops =
  nb_dtx_enabled :: "'d \<Rightarrow> bool"
  nb_silence :: "'d \<Rightarrow> u16 list \<times> 'd"
  nb_synth :: "'d \<Rightarrow> nat \<Rightarrow> SpeexBits \<Rightarrow> u16 list \<times> 'd \<times> SpeexBits"
  nb_lost :: "'d \<Rightarrow> u16 list \<times> 'd"

text \<open>The result, the samples written to \<open>vout\<close>, the decoder and the buffer.\<close>

definition nb_decode ::
  "'d nb_ops \<Rightarrow> 'd \<Rightarrow> SpeexBits \<Rightarrow> (int \<times> u16 list \<times> 'd \<times> SpeexBits) option" where
  "nb_decode ops st b =
     (case nb_search b of
        None \<Rightarrow> None
      | Some (Inl r, b) \<Rightarrow> Some (r, [], st, b)
      | Some (Inr m, b) \<Rightarrow>
          if m = 0 then case nb_silence ops st of (out, st) \<Rightarrow> Some (0, out, st, b)
          else case nb_synth ops st m b of (out, st, b) \<Rightarrow> Some (0, out, st, b))"

text \<open>\<open>bits\<close> is \<open>NULL\<close>.\<close>

definition nb_decode_null :: "'d nb_ops \<Rightarrow> 'd \<Rightarrow> u16 list \<times> 'd" where
  "nb_decode_null ops st = (if nb_dtx_enabled ops st then nb_silence ops st else nb_lost ops st)"

subsection \<open>The search moves forward\<close>

text \<open>\<open>progress b b'\<close>: reading has gone from \<open>b\<close> to \<open>b'\<close> in the same bytes, or run out of them.\<close>

definition bits_left :: "SpeexBits \<Rightarrow> nat" where
  "bits_left b = (if overflow b then 0 else nbBits b - cursor b)"

definition readable :: "SpeexBits \<Rightarrow> bool" where
  "readable b \<longleftrightarrow> bitPtr b < 8 \<and> cursor b \<le> nbBits b"

definition same_data :: "SpeexBits \<Rightarrow> SpeexBits \<Rightarrow> bool" where
  "same_data b b' \<longleftrightarrow> chars b' = chars b \<and> nbBits b' = nbBits b \<and> owner b' = owner b \<and>
     buf_size b' = buf_size b"

lemma remaining_left:
  "readable b \<Longrightarrow> 0 < n \<Longrightarrow> \<not> speex_bits_remaining b < int n \<Longrightarrow> n \<le> bits_left b \<and> \<not> overflow b"
  by (auto simp: speex_bits_remaining_def bits_left_def readable_def split: if_splits)

lemma unpack_bits_frame: "owner (snd (unpack_bits b d n)) = owner b \<and> buf_size (snd (unpack_bits b d n)) = buf_size b"
  by (induction b d n rule: unpack_bits.induct) (simp_all add: Let_def)

lemma unpack_unsigned_frame:
  "speex_bits_unpack_unsigned b n = (v, b') \<Longrightarrow> owner b' = owner b \<and> buf_size b' = buf_size b"
  using unpack_bits_frame [of b 0 n]
  by (auto simp: speex_bits_unpack_unsigned_def Let_def split: if_splits)

lemma unpack_unsigned_readable:
  assumes "readable b" "speex_bits_unpack_unsigned b n = (v, b')"
  shows "readable b' \<and> same_data b b' \<and> bits_left b' = bits_left b - n \<and>
    (n \<le> bits_left b \<longrightarrow> \<not> overflow b \<longrightarrow> \<not> overflow b')"
proof (cases "cursor b + n > nbBits b \<or> overflow b")
  case True
  then show ?thesis
    using assms by (auto simp: speex_bits_unpack_unsigned_def Let_def readable_def bits_left_def same_data_def
        split: if_splits)
next
  case False
  have "bitPtr b < 8" using assms(1) by (simp add: readable_def)
  note u = unpack_bits_stream [OF this, of 0 n]
  have "unpack_bits b 0 n = (v, b')"
    using False assms(2) by (simp add: speex_bits_unpack_unsigned_def Let_def)
  then show ?thesis
    using u False unpack_unsigned_frame [OF assms(2)] by (simp add: readable_def bits_left_def same_data_def)
qed

lemma advance_readable:
  assumes "readable b" "0 \<le> n"
  shows "readable (speex_bits_advance b n) \<and> same_data b (speex_bits_advance b n) \<and>
    bits_left (speex_bits_advance b n) = bits_left b - nat n"
proof (cases "int (cursor b) + n > int (nbBits b) \<or> overflow b")
  case True
  then show ?thesis
    using assms by (auto simp: speex_bits_advance_def readable_def bits_left_def same_data_def)
next
  case False
  define t where "t = bitPtr b + nat n"
  have n: "int (bitPtr b) + n = int t" using assms(2) by (simp add: t_def)
  have "drop_bit 3 (int t) = int (t div 8)" "int t AND 7 = int (t mod 8)"
    using take_bit_eq_mask [of 3 "int t"]
    by (simp_all add: drop_bit_eq_div take_bit_eq_mod mask_eq_exp_minus_1 zdiv_int zmod_int)
  then have "speex_bits_advance b n = b\<lparr>charPtr := charPtr b + t div 8, bitPtr := t mod 8\<rparr>"
    using False by (simp add: speex_bits_advance_def n nat_int_add)
  moreover have "8 * (charPtr b + t div 8) + t mod 8 = cursor b + nat n"
    by (simp add: cursor_eq t_def algebra_simps)
  ultimately have "cursor (speex_bits_advance b n) = cursor b + nat n" "bitPtr (speex_bits_advance b n) < 8"
    by (simp_all add: cursor_eq)
  moreover have "cursor b + nat n \<le> nbBits b" using False assms(2) by linarith
  ultimately show ?thesis
    using False assms(1) by (simp add: readable_def bits_left_def same_data_def)
      (simp add: speex_bits_advance_def)
qed

lemma number_of_less: "length xs \<le> 32 \<Longrightarrow> take_bit (length xs) (number_of 0 xs) = number_of 0 xs"
proof (induction xs rule: rev_induct)
  case (snoc x xs)
  have "bit (number_of 0 xs) k \<Longrightarrow> k < length xs" for k
    using snoc by (metis Suc_leD bit_take_bit_iff length_append_singleton)
  moreover have "number_of 0 (xs @ [x]) = push_bit 1 (number_of 0 xs) OR of_bool x"
    by (simp add: number_of_def)
  ultimately have "bit (number_of 0 (xs @ [x])) k \<Longrightarrow> k < length (xs @ [x])" for k
    by (cases k; cases x) (auto simp: bit_or_iff bit_push_bit_iff bit_1_iff simp del: push_bit_Suc
      dest: bit_imp_le_length)
  then show ?case
    by (intro bit_word_eqI) (auto simp: bit_take_bit_iff)
qed (simp add: number_of_def)

lemma unpack_value_less:
  assumes "readable b" "n \<le> 31" "speex_bits_unpack_unsigned b n = (v, b')"
  shows "unat v < 2 ^ n"
proof -
  have "take_bit n v = v"
  proof (cases "cursor b + n > nbBits b \<or> overflow b")
    case True
    then show ?thesis using assms(3) by (auto simp: speex_bits_unpack_unsigned_def Let_def split: if_splits)
  next
    case False
    then have "unpack_bits b 0 n = (v, b')"
      using assms(3) by (simp add: speex_bits_unpack_unsigned_def Let_def)
    then have "v = number_of 0 (map (stream_bit (chars b)) [cursor b..<cursor b + n])"
      using unpack_bits_stream [of b 0 n] assms(1) by (simp add: readable_def)
    then show ?thesis
      using number_of_less [of "map (stream_bit (chars b)) [cursor b..<cursor b + n]"] assms(2) by simp
  qed
  then have "unat v = take_bit n (unat v)" by (metis unsigned_take_bit_eq)
  then show ?thesis by (metis take_bit_nat_less_exp)
qed

text \<open>A layer of no length moves the cursor back to its first bit.\<close>

lemma readable_inject:
  assumes "readable b" "readable b'" "same_data b b'" "cursor b' = cursor b" "overflow b' = overflow b"
  shows "b' = b"
proof -
  have "charPtr b' = charPtr b" "bitPtr b' = bitPtr b"
    using assms(1,2,4) cursor_div_mod [of b] cursor_div_mod [of b'] by (simp_all add: readable_def)
  then show ?thesis using assms(3,5) by (simp add: same_data_def)
qed

lemma back_four:
  "int ((c + 4) div 8) + (int ((c + 4) mod 8) - 4) div 8 = int (c div 8)"
  "(int ((c + 4) mod 8) - 4) mod 8 = int (c mod 8)"
proof -
  let ?q = "int ((c + 4) div 8)" and ?r = "int ((c + 4) mod 8)"
  have "int (8 * ((c + 4) div 8) + (c + 4) mod 8) = int (c + 4)" by (simp only: mult_div_mod_eq)
  then have "8 * ?q + ?r = int c + 4" by (simp only: of_nat_add of_nat_mult of_nat_numeral)
  then have c: "?r - 4 + ?q * 8 = int c" by linarith
  show "?q + (?r - 4) div 8 = int (c div 8)"
    using div_mult_self1 [of 8 "?r - 4" ?q] unfolding c by (simp only: zdiv_int of_nat_numeral)
  show "(?r - 4) mod 8 = int (c mod 8)"
    using mod_mult_self1 [of "?r - 4" ?q 8] unfolding c by (simp only: zmod_int of_nat_numeral)
qed

lemma skip_back:
  assumes "readable b" "\<not> overflow b" "4 \<le> bits_left b"
    and "speex_bits_unpack_unsigned b 1 = (w, b1)" "speex_bits_unpack_unsigned b1 3 = (v, b2)"
  shows "speex_bits_advance b2 (-4) = b"
proof -
  have 1: "readable b1" "same_data b b1" "bits_left b1 = bits_left b - 1" "\<not> overflow b1"
    using unpack_unsigned_readable [OF assms(1,4)] assms(2,3) by simp_all
  have 2: "readable b2" "same_data b1 b2" "bits_left b2 = bits_left b1 - 3" "\<not> overflow b2"
    using unpack_unsigned_readable [OF 1(1) assms(5)] 1(3,4) assms(3) by simp_all
  have cur: "cursor b2 = cursor b + 4"
    proof -
    have "nbBits b2 - cursor b2 = nbBits b - cursor b - 1 - 3" "4 \<le> nbBits b - cursor b"
      "nbBits b2 = nbBits b" "cursor b2 \<le> nbBits b2"
      using 1 2 assms(1-3) by (simp_all add: bits_left_def readable_def same_data_def)
    then show ?thesis by arith
  qed
  have t: "int (bitPtr b2) + -4 = int (bitPtr b2) - 4" by simp
  have ptr: "charPtr b2 = (cursor b + 4) div 8" "bitPtr b2 = (cursor b + 4) mod 8"
    using cursor_div_mod [of b2] 2(1) cur by (simp_all add: readable_def)
  have m: "(x :: int) AND 7 = x mod 8" for x
    using take_bit_eq_mask [of 3 x] by (simp add: take_bit_eq_mod mask_eq_exp_minus_1)
  have "int (charPtr b2) + (int (bitPtr b2) - 4) div 8 = int (cursor b div 8)"
    "(int (bitPtr b2) - 4) mod 8 = int (cursor b mod 8)"
    unfolding ptr by (rule back_four)+
  then have adv: "speex_bits_advance b2 (-4) = b2\<lparr>charPtr := cursor b div 8, bitPtr := cursor b mod 8\<rparr>"
    using 1 2 assms(1) cur by (simp add: speex_bits_advance_def m drop_bit_eq_div readable_def same_data_def)
  show ?thesis
  proof (rule readable_inject [OF assms(1)])
    show "cursor (speex_bits_advance b2 (-4)) = cursor b" by (simp add: adv cursor_eq)
    then show "readable (speex_bits_advance b2 (-4))"
      using assms(1) 1(2) 2(2) by (simp add: readable_def same_data_def) (simp add: adv)
    show "same_data b (speex_bits_advance b2 (-4))" using 1(2) 2(2) by (simp add: adv same_data_def)
  qed (use assms(2) 2(4) in \<open>simp_all add: adv\<close>)
qed

text \<open>A layer is skipped forward by at least 36 bits in all, or not at all.\<close>

lemma skip_layer_cases:
  assumes "readable b" "\<not> overflow b" "5 \<le> bits_left b" "speex_bits_unpack_unsigned b 1 = (w, b1)"
    and "skip_layer b1 = (bad, b2)"
  shows "\<not> bad \<and> (b2 = b \<or> readable b2 \<and> same_data b b2 \<and> bits_left b2 \<le> bits_left b - 36)"
proof -
  obtain v b1' where u: "speex_bits_unpack_unsigned b1 3 = (v, b1')" by fastforce
  have 1: "readable b1" "same_data b b1" "bits_left b1 = bits_left b - 1"
    using unpack_unsigned_readable [OF assms(1,4)] by simp_all
  have 2: "readable b1'" "same_data b1 b1'" "bits_left b1' = bits_left b1 - 3"
    using unpack_unsigned_readable [OF 1(1) u] by simp_all
  have "unat v < 2 ^ 3" using unpack_value_less [OF 1(1) _ u] by simp
  then have "unat v \<in> {0, 1, 2, 3, 4, 5, 6, 7}" by auto
  then consider "wb_skip_table ! unat v = 0" | "36 \<le> wb_skip_table ! unat v"
    by (auto simp: wb_skip_table_def)
  then show ?thesis
  proof cases
    case 1
    then have "bad = False" "b2 = speex_bits_advance b1' (-4)"
      using assms(5) u by (simp_all add: skip_layer_def)
    then show ?thesis using skip_back [OF assms(1,2) _ assms(4) u] assms(3) by simp
  next
    case 2
    let ?a = "wb_skip_table ! unat v - 4"
    have b2: "\<not> bad" "b2 = speex_bits_advance b1' ?a" using 2 assms(5) u by (simp_all add: skip_layer_def)
    have "32 \<le> nat ?a" using 2 by simp
    moreover have "readable b2 \<and> same_data b1' b2 \<and> bits_left b2 = bits_left b1' - nat ?a"
      unfolding b2(2) using 2 by (intro advance_readable) (use \<open>readable b1'\<close> in simp_all)
    ultimately have "bits_left b2 \<le> bits_left b - 36"
      using \<open>bits_left b1' = _\<close> \<open>bits_left b1 = _\<close> by arith
    then show ?thesis
      using b2(1) \<open>readable b2 \<and> _\<close> \<open>same_data b b1\<close> \<open>same_data b1 b1'\<close>
      by (simp add: same_data_def)
  qed
qed

lemma nb_header_progress:
  assumes "readable b" "nb_header b = (r, b')"
  shows "readable b' \<and> same_data b b' \<and> bits_left b' \<le> bits_left b \<and>
    (\<forall>m. r = Inr m \<longrightarrow> bits_left b' + 5 \<le> bits_left b \<and> m < 16)"
proof (cases "speex_bits_remaining b < 5")
  case True
  then show ?thesis using assms by (auto simp: nb_header_def same_data_def)
next
  case False
  then have b: "5 \<le> bits_left b" "\<not> overflow b" using remaining_left [OF assms(1), of 5] by simp_all
  obtain w b1 where u1: "speex_bits_unpack_unsigned b 1 = (w, b1)" by fastforce
  note 1 = unpack_unsigned_readable [OF assms(1) u1]
  text \<open>What is left after the wideband layers.\<close>
  have tail: ?thesis
    if c: "readable c" "same_data b c" "bits_left c \<le> bits_left b - 1"
      and eq: "nb_header b = (if speex_bits_remaining c < 4 then (Inl (-1), c)
        else case speex_bits_unpack_unsigned c 4 of (m, b) \<Rightarrow> (Inr (unat m), b))" for c
  proof (cases "speex_bits_remaining c < 4")
    case True
    then show ?thesis using c eq assms(2) by auto
  next
    case False
    then have l: "4 \<le> bits_left c" using remaining_left [OF c(1), of 4] by simp
    obtain m b2 where u: "speex_bits_unpack_unsigned c 4 = (m, b2)" by fastforce
    have "unat m < 16" using unpack_value_less [OF c(1) _ u] by simp
    then show ?thesis
      using unpack_unsigned_readable [OF c(1) u] c eq assms(2) False u l b(1)
      by (auto simp: same_data_def)
  qed
  show ?thesis
  proof (cases "w = 0")
    case True
    show ?thesis
      by (rule tail [of b1]) (use 1 True u1 False in \<open>simp_all add: nb_header_def\<close>)
  next
    case w: False
    obtain bad c where s1: "skip_layer b1 = (bad, c)" by fastforce
    from skip_layer_cases [OF assms(1) b(2,1) u1 s1]
    have "\<not> bad" and c: "c = b \<or> readable c \<and> same_data b c \<and> bits_left c \<le> bits_left b - 36" by simp_all
    show ?thesis
    proof (cases "c = b")
      case True
      then have "nb_header b = (Inl (-2), b1)"
        using w u1 s1 \<open>\<not> bad\<close> False by (simp add: nb_header_def)
      then show ?thesis using 1 assms(2) by auto
    next
      case fwd: False
      then have c: "readable c" "same_data b c" "bits_left c \<le> bits_left b - 36" using c by simp_all
      show ?thesis
      proof (cases "speex_bits_remaining c < 5")
        case True
        then have "nb_header b = (Inl (-1), c)"
          using w u1 s1 \<open>\<not> bad\<close> False by (simp add: nb_header_def)
        then show ?thesis using c assms(2) by auto
      next
        case more: False
        then have l: "5 \<le> bits_left c" "\<not> overflow c" using remaining_left [OF c(1), of 5] by simp_all
        obtain w' c1 where u2: "speex_bits_unpack_unsigned c 1 = (w', c1)" by fastforce
        note 2 = unpack_unsigned_readable [OF c(1) u2]
        show ?thesis
        proof (cases "w' = 0")
          case True
          show ?thesis
            by (rule tail [of c1]) (use 2 c True u1 u2 s1 w more False \<open>\<not> bad\<close> in
              \<open>auto simp: nb_header_def same_data_def\<close>)
        next
          case w': False
          obtain bad' d where s2: "skip_layer c1 = (bad', d)" by fastforce
          from skip_layer_cases [OF c(1) l(2,1) u2 s2]
          have "\<not> bad'" and d: "d = c \<or> readable d \<and> same_data c d \<and> bits_left d \<le> bits_left c - 36"
            by simp_all
          obtain w'' d1 where u3: "speex_bits_unpack_unsigned d 1 = (w'', d1)" by fastforce
          have d': "readable d" "same_data b d" "bits_left d \<le> bits_left c"
            using d c by (auto simp: same_data_def)
          note 3 = unpack_unsigned_readable [OF d'(1) u3]
          show ?thesis
          proof (cases "w'' = 0")
            case True
            show ?thesis
              by (rule tail [of d1]) (use 3 d' c True u1 u2 u3 s1 s2 w w' more False \<open>\<not> bad\<close> \<open>\<not> bad'\<close> in
                \<open>auto simp: nb_header_def same_data_def\<close>)
          next
            case False
            then have "nb_header b = (Inl (-2), d1)"
              using w w' u1 u2 u3 s1 s2 more \<open>\<not> bad\<close> \<open>\<not> bad'\<close> \<open>\<not> speex_bits_remaining b < 5\<close>
              by (simp add: nb_header_def)
            then show ?thesis using 3 d' c assms(2) by (auto simp: same_data_def)
          qed
        qed
      qed
    qed
  qed
qed

lemma inband_handler_readable:
  assumes "readable b"
  shows "readable (speex_inband_handler b) \<and> same_data b (speex_inband_handler b) \<and>
    bits_left (speex_inband_handler b) \<le> bits_left b"
proof -
  obtain i b1 where u: "speex_bits_unpack_unsigned b 4 = (i, b1)" by fastforce
  let ?adv = "(if i < 2 then 1 else if i < 8 then 4 else if i < 10 then 8
    else if i < 12 then 16 else if i < 14 then 32 else 64) :: int"
  have "0 \<le> ?adv" by simp
  from advance_readable [OF _ this, of b1] unpack_unsigned_readable [OF assms u]
  show ?thesis by (auto simp: speex_inband_handler_def u Let_def same_data_def)
qed

lemma user_handler_readable:
  assumes "readable b"
  shows "readable (speex_default_user_handler b) \<and> same_data b (speex_default_user_handler b) \<and>
    bits_left (speex_default_user_handler b) \<le> bits_left b"
proof -
  obtain n b1 where u: "speex_bits_unpack_unsigned b 4 = (n, b1)" by fastforce
  have "0 \<le> 5 + 8 * int (unat n)" by simp
  from advance_readable [OF _ this, of b1] unpack_unsigned_readable [OF assms u]
  show ?thesis by (auto simp: speex_default_user_handler_def u same_data_def)
qed

text \<open>\<open>advanced k b b'\<close>: reading has gone at least \<open>k\<close> bits further.\<close>

definition advanced :: "nat \<Rightarrow> SpeexBits \<Rightarrow> SpeexBits \<Rightarrow> bool" where
  "advanced k b b' \<longleftrightarrow> readable b' \<and> same_data b b' \<and> bits_left b' + k \<le> bits_left b"

lemma advanced_trans: "advanced k b b1 \<Longrightarrow> advanced l b1 b2 \<Longrightarrow> advanced (k + l) b b2"
  by (simp add: advanced_def same_data_def)

lemma advanced_mono: "advanced k b b' \<Longrightarrow> l \<le> k \<Longrightarrow> advanced l b b'"
  by (simp add: advanced_def)

lemma nb_search_total:
  assumes "readable b"
  shows "\<exists>r b'. nb_search b = Some (r, b') \<and> (case r of Inl e \<Rightarrow> e \<noteq> 0 \<and> advanced 0 b b'
    | Inr m \<Rightarrow> m \<le> 8 \<and> advanced 5 b b')"
  using assms
proof (induction "bits_left b" arbitrary: b rule: less_induct)
  case less
  obtain r b1 where h: "nb_header b = (r, b1)" by fastforce
  note p = nb_header_progress [OF less.prems h]
  show ?case
  proof (cases r)
    case (Inl e)
    have "e \<noteq> 0" using h unfolding Inl nb_header_def
      by (auto simp: Let_def split: if_splits prod.splits option.splits)
    then show ?thesis
      using Inl h p by (subst nb_search.simps) (simp add: advanced_def)
  next
    case (Inr m)
    then have adv: "advanced 5 b b1" using p by (simp add: advanced_def)
    have again: ?thesis if "nb_search b = nb_search c" "advanced 0 b1 c" for c
    proof -
      have c: "advanced 5 b c" using advanced_trans [OF adv that(2)] by simp
      then have "bits_left c < bits_left b" "readable c" by (simp_all add: advanced_def)
      from less.hyps [OF this] obtain r' b' where r: "nb_search c = Some (r', b')"
        and fin: "case r' of Inl e \<Rightarrow> e \<noteq> 0 \<and> advanced 0 c b' | Inr m \<Rightarrow> m \<le> 8 \<and> advanced 5 c b'" by blast
      have "advanced l b b'" if "l \<le> 5" "advanced k c b'" for l k
        using advanced_mono [OF advanced_trans [OF c that(2)], of l] that(1) by simp
      then have "case r' of Inl e \<Rightarrow> e \<noteq> 0 \<and> advanced 0 b b' | Inr m \<Rightarrow> m \<le> 8 \<and> advanced 5 b b'"
        using fin by (cases r') auto
      then show ?thesis using that(1) r by auto
    qed
    have b1: "readable b1" using p by simp
    consider "m = 15" | "m = 14" | "m = 13" | "8 < m" "m < 13" | "m \<le> 8" using p Inr by fastforce
    then show ?thesis
    proof cases
      case 2
      then show ?thesis
        using again [of "speex_inband_handler b1"] inband_handler_readable [OF b1] h Inr
        by (simp add: advanced_def nb_search.simps [of b])
    next
      case 3
      then show ?thesis
        using again [of "speex_default_user_handler b1"] user_handler_readable [OF b1] h Inr
        by (simp add: advanced_def nb_search.simps [of b])
    qed (use h Inr adv in \<open>auto simp: nb_search.simps [of b] intro: advanced_mono\<close>)
  qed
qed

subsection \<open>A frame\<close>

text \<open>What is needed of the synthesis: it writes 160 samples and reads forward.\<close>

definition synth_ok :: "'d nb_ops \<Rightarrow> bool" where
  "synth_ok ops \<longleftrightarrow>
     (\<forall>st. length (fst (nb_silence ops st)) = 160 \<and> length (fst (nb_lost ops st)) = 160) \<and>
     (\<forall>st m b. readable b \<longrightarrow> (case nb_synth ops st m b of (out, st', b') \<Rightarrow>
        length out = 160 \<and> advanced 0 b b'))"

lemma nb_decode_total:
  assumes "synth_ok ops" "readable b"
  shows "\<exists>r out st' b'. nb_decode ops st b = Some (r, out, st', b') \<and>
    (if r = 0 then length out = 160 \<and> advanced 5 b b' else out = [] \<and> advanced 0 b b')"
proof -
  obtain r b1 where s: "nb_search b = Some (r, b1)" and
    c: "case r of Inl e \<Rightarrow> e \<noteq> 0 \<and> advanced 0 b b1 | Inr m \<Rightarrow> m \<le> 8 \<and> advanced 5 b b1"
    using nb_search_total [OF assms(2)] by blast
  show ?thesis
  proof (cases r)
    case (Inl e)
    then show ?thesis using s c by (simp add: nb_decode_def)
  next
    case (Inr m)
    then have adv: "advanced 5 b b1" using c by simp
    show ?thesis
    proof (cases "m = 0")
      case True
      obtain out st' where y: "nb_silence ops st = (out, st')" by fastforce
      have "length (fst (nb_silence ops st)) = 160" using assms(1) by (simp add: synth_ok_def)
      then show ?thesis using True Inr s adv y by (simp add: nb_decode_def)
    next
      case False
      obtain out st' b2 where y: "nb_synth ops st m b1 = (out, st', b2)" by (metis prod_cases3)
      have "readable b1" using adv by (simp add: advanced_def)
      then have "case nb_synth ops st m b1 of (out, st', b') \<Rightarrow> length out = 160 \<and> advanced 0 b1 b'"
        using assms(1) by (simp add: synth_ok_def)
      then have "length out = 160" "advanced 0 b1 b2" by (simp_all add: y)
      then show ?thesis
        using False Inr s y advanced_trans [OF adv, of 0 b2] by (simp add: nb_decode_def)
    qed
  qed
qed

end
