(* ===== verification/Audio_Codec.thy ===== *)
theory Audio_Codec
  imports Speex_Frame
begin

text \<open>
  \<open>src/jni/redphone/AudioCodec.cpp\<close> and \<open>WebRtcCodec.h\<close>: one Speex encoder, one Speex decoder and one
  echo canceller behind the calls \<open>init\<close>, \<open>encode\<close>, \<open>decode\<close>, \<open>conceal\<close> and the destructor.

  The signal processing is the parameter \<open>codec_ops\<close>: creation and control of the two Speex states,
  encoding of one frame, synthesis (\<open>nb_ops\<close>) and the echo canceller.  Samples are 16-bit words in a
  buffer of the caller; an access outside it is the fault \<open>Overrun\<close>.  A call before \<open>init\<close> has
  succeeded is the fault \<open>Not_Initialized\<close>.  A loop that does not end is
  \<open>None\<close>.
\<close>

datatype codec_fault = Overrun | Not_Initialized | Double_Free

text \<open>A pointer member: null, to a live object, or to memory that has been freed.\<close>

datatype 'a ptr = Null | Live (target: 'a) | Dangling

text \<open>What \<open>WebRtcAecm_Create\<close> does: it stores the new pointer before it builds the parts, and when a
  part fails it frees the object and returns -1 without clearing the pointer.\<close>

datatype 'a created = Created 'a | No_Memory | Part_Failed

datatype enc_request = SET_VBR int | SET_QUALITY int | SET_COMPLEXITY int
datatype dec_request = SET_ENH int

record ('e, 'd, 'a) codec_ops =
  spx_encoder_init :: "'e option"
  spx_decoder_init :: "'d option"
  spx_encoder_ctl :: "enc_request \<Rightarrow> 'e \<Rightarrow> 'e"
  spx_decoder_ctl :: "dec_request \<Rightarrow> 'd \<Rightarrow> 'd"
  enc_frame_len :: "'e \<Rightarrow> nat"
  dec_frame_len :: "'d \<Rightarrow> nat"
  spx_encode :: "'e \<Rightarrow> u16 list \<Rightarrow> SpeexBits \<Rightarrow> 'e \<times> SpeexBits"
  spx_nb :: "'d nb_ops"
  aecm_create :: "'a created"
  aecm_init :: "nat \<Rightarrow> 'a \<Rightarrow> bool \<times> 'a"
  aecm_process :: "'a \<Rightarrow> u16 list \<Rightarrow> u16 list \<times> 'a"
  aecm_farend :: "'a \<Rightarrow> u16 list \<Rightarrow> 'a"
  spx_realloc :: realloc

record ('e, 'd, 'a) AudioCodec =
  enc :: "'e option"
  dec :: "'d option"
  aecm :: "'a ptr"
  enc_bits :: SpeexBits
  dec_bits :: SpeexBits
  enc_frame_size :: nat
  dec_frame_size :: nat
  initialized :: bool

definition SPEEX_SAMPLE_RATE :: nat where "SPEEX_SAMPLE_RATE = 8000"
definition SPEEX_FRAME_RATE :: nat where "SPEEX_FRAME_RATE = 50"
definition SPEEX_FRAME_SIZE :: nat where "SPEEX_FRAME_SIZE = SPEEX_SAMPLE_RATE div SPEEX_FRAME_RATE"
definition SPEEX_ENCODED_FRAME_SIZE :: nat where "SPEEX_ENCODED_FRAME_SIZE = 20"

lemma frame_size [simp]: "SPEEX_FRAME_SIZE = 160"
  by (simp add: SPEEX_FRAME_SIZE_def SPEEX_SAMPLE_RATE_def SPEEX_FRAME_RATE_def)

subsection \<open>Life cycle\<close>

text \<open>The bit buffers and the frame sizes are left as the memory had them (\<open>garbage\<close>).\<close>

definition new_AudioCodec :: "('e, 'd, 'a) AudioCodec \<Rightarrow> ('e, 'd, 'a) AudioCodec" where
  "new_AudioCodec garbage =
     garbage\<lparr>enc := None, dec := None, aecm := Null, initialized := False\<rparr>"

definition codec_init ::
  "('e, 'd, 'a) codec_ops \<Rightarrow> ('e, 'd, 'a) AudioCodec \<Rightarrow> int \<times> ('e, 'd, 'a) AudioCodec" where
  "codec_init ops c =
     (let c = c\<lparr>enc := spx_encoder_init ops\<rparr>
      in case enc c of None \<Rightarrow> (-1, c) | Some e \<Rightarrow>
      let c = c\<lparr>dec := spx_decoder_init ops\<rparr>
      in case dec c of None \<Rightarrow> (-1, c) | Some d \<Rightarrow>
      case aecm_create ops of
        No_Memory \<Rightarrow> (-1, c\<lparr>aecm := Null\<rparr>)
      | Part_Failed \<Rightarrow> (-1, c\<lparr>aecm := Dangling\<rparr>)
      | Created a \<Rightarrow>
          case aecm_init ops SPEEX_SAMPLE_RATE a of (ok, a) \<Rightarrow>
          let c = c\<lparr>aecm := Live a\<rparr>
          in if \<not> ok then (-1, c)
             else
               let d = spx_decoder_ctl ops (SET_ENH 1) d;
                   e = spx_encoder_ctl ops (SET_VBR 0) e;
                   e = spx_encoder_ctl ops (SET_QUALITY 4) e;
                   e = spx_encoder_ctl ops (SET_COMPLEXITY 1) e
               in (0, c\<lparr>enc := Some e, dec := Some d,
                        enc_frame_size := enc_frame_len ops e, dec_frame_size := dec_frame_len ops d,
                        enc_bits := speex_bits_init True (enc_bits c),
                        dec_bits := speex_bits_init True (dec_bits c), initialized := True\<rparr>))"

text \<open>What the destructor frees: the names of the members, in order.\<close>

datatype member = Enc_Bits | Dec_Bits | Aecm | Enc | Dec

definition codec_destroy :: "('e, 'd, 'a) AudioCodec \<Rightarrow> codec_fault + member list" where
  "codec_destroy c =
     (let bits = (if initialized c then [Enc_Bits, Dec_Bits] else [])
      in case aecm c of
           Dangling \<Rightarrow> Inl Double_Free
         | p \<Rightarrow> Inr (bits @ (if p \<noteq> Null then [Aecm] else []) @ (if enc c \<noteq> None then [Enc] else []) @
             (if dec c \<noteq> None then [Dec] else [])))"

subsection \<open>Encoding\<close>

definition codec_encode ::
  "('e, 'd, 'a) codec_ops \<Rightarrow> ('e, 'd, 'a) AudioCodec \<Rightarrow> u16 list \<Rightarrow> nat \<Rightarrow>
   (codec_fault + u8 list \<times> ('e, 'd, 'a) AudioCodec) option" where
  "codec_encode ops c rawData maxEncodedDataLen =
     (case (aecm c, enc c, read_bytes rawData 0 SPEEX_FRAME_SIZE) of
        (Live a, Some e, Some raw) \<Rightarrow>
          (case aecm_process ops a raw of (cleanData, a) \<Rightarrow>
           case spx_encode ops e cleanData (speex_bits_reset (enc_bits c)) of (e, b) \<Rightarrow>
           case speex_bits_write (spx_realloc ops) b maxEncodedDataLen of
             None \<Rightarrow> None
           | Some (bytes, b) \<Rightarrow> Some (Inr (bytes, c\<lparr>aecm := Live a, enc := Some e, enc_bits := b\<rparr>)))
      | (Live _, Some _, None) \<Rightarrow> Some (Inl Overrun)
      | _ \<Rightarrow> Some (Inl Not_Initialized))"

subsection \<open>Decoding\<close>

text \<open>The loop of \<open>decode\<close>: the decoder, the canceller, the bits, the buffer and the offset.\<close>

partial_function (option) decode_loop ::
  "('e, 'd, 'a) codec_ops \<Rightarrow> nat \<Rightarrow> 'd \<Rightarrow> 'a \<Rightarrow> SpeexBits \<Rightarrow> u16 list \<Rightarrow> nat \<Rightarrow>
   (codec_fault + nat \<times> u16 list \<times> 'd \<times> 'a \<times> SpeexBits) option" where
  "decode_loop ops fs d a b rawData off =
     (case nb_decode (spx_nb ops) d b of
        None \<Rightarrow> None
      | Some (r, out, d, b) \<Rightarrow>
         (case write_bytes rawData off out of
            None \<Rightarrow> Some (Inl Overrun)
          | Some rawData \<Rightarrow>
              if r \<noteq> 0 then Some (Inr (off, rawData, d, a, b))
              else (case read_bytes rawData off fs of
                      None \<Rightarrow> Some (Inl Overrun)
                    | Some far \<Rightarrow> decode_loop ops fs d (aecm_farend ops a far) b rawData (off + fs))))"

definition codec_decode ::
  "('e, 'd, 'a) codec_ops \<Rightarrow> ('e, 'd, 'a) AudioCodec \<Rightarrow> u8 list \<Rightarrow> u16 list \<Rightarrow>
   (codec_fault + nat \<times> u16 list \<times> ('e, 'd, 'a) AudioCodec) option" where
  "codec_decode ops c encodedData rawData =
     (case (dec c, aecm c) of
        (Some d, Live a) \<Rightarrow>
          (let b = speex_bits_read_from (spx_realloc ops) (dec_bits c) encodedData
           in case decode_loop ops (dec_frame_size c) d a b rawData 0 of
                None \<Rightarrow> None
              | Some (Inl f) \<Rightarrow> Some (Inl f)
              | Some (Inr (n, rawData, d, a, b)) \<Rightarrow>
                  Some (Inr (n, rawData, c\<lparr>dec := Some d, aecm := Live a, dec_bits := b\<rparr>)))
      | _ \<Rightarrow> Some (Inl Not_Initialized))"

text \<open>\<open>conceal\<close>: the frames \<open>i\<close>, \<open>i + 1\<close>, \dots of a loss.\<close>

fun conceal_loop ::
  "('e, 'd, 'a) codec_ops \<Rightarrow> nat \<Rightarrow> 'd \<Rightarrow> u16 list \<Rightarrow> nat \<Rightarrow> nat \<Rightarrow> codec_fault + u16 list \<times> 'd" where
  "conceal_loop ops fs d rawData i 0 = Inr (rawData, d)"
| "conceal_loop ops fs d rawData i (Suc k) =
     (case nb_decode_null (spx_nb ops) d of (out, d) \<Rightarrow>
      case write_bytes rawData (i * fs) out of
        None \<Rightarrow> Inl Overrun
      | Some rawData \<Rightarrow> conceal_loop ops fs d rawData (i + 1) k)"

definition codec_conceal ::
  "('e, 'd, 'a) codec_ops \<Rightarrow> ('e, 'd, 'a) AudioCodec \<Rightarrow> int \<Rightarrow> u16 list \<Rightarrow>
   codec_fault + int \<times> u16 list \<times> ('e, 'd, 'a) AudioCodec" where
  "codec_conceal ops c frames rawData =
     (case dec c of
        None \<Rightarrow> Inl Not_Initialized
      | Some d \<Rightarrow>
         (case conceal_loop ops (dec_frame_size c) d rawData 0 (nat frames) of
            Inl f \<Rightarrow> Inl f
          | Inr (rawData, d) \<Rightarrow> Inr (frames * int (dec_frame_size c), rawData, c\<lparr>dec := Some d\<rparr>)))"

text \<open>\<open>WebRtcCodec::PacketDuration\<close>; \<open>Decode\<close> and \<open>DecodePlc\<close> are the calls above.\<close>

definition PacketDuration :: "nat \<Rightarrow> nat" where
  "PacketDuration encoded_len = encoded_len div SPEEX_ENCODED_FRAME_SIZE * SPEEX_FRAME_SIZE"

subsection \<open>A codec that is ready\<close>

text \<open>What is needed of the parameters.\<close>

definition ops_ok :: "('e, 'd, 'a) codec_ops \<Rightarrow> bool" where
  "ops_ok ops \<longleftrightarrow> synth_ok (spx_nb ops) \<and> reliable (spx_realloc ops) \<and> (\<forall>d. dec_frame_len ops d = 160)"

definition own_buffer :: "SpeexBits \<Rightarrow> bool" where
  "own_buffer b \<longleftrightarrow> owner b \<and> length (chars b) = buf_size b \<and> 0 < buf_size b"

definition codec_ready :: "('e, 'd, 'a) AudioCodec \<Rightarrow> bool" where
  "codec_ready c \<longleftrightarrow> enc c \<noteq> None \<and> dec c \<noteq> None \<and> (\<exists>a. aecm c = Live a) \<and> initialized c \<and>
     dec_frame_size c = 160 \<and> own_buffer (enc_bits c) \<and> own_buffer (dec_bits c)"

lemma own_buffer_init [simp]: "own_buffer (speex_bits_init True b)"
  by (simp add: own_buffer_def speex_bits_init_def speex_bits_reset_def)

lemma codec_init_ready:
  assumes "ops_ok ops" "fst (codec_init ops c) = 0"
  shows "codec_ready (snd (codec_init ops c))"
  using assms
  by (auto simp: codec_init_def codec_ready_def ops_ok_def Let_def
      split: option.splits created.splits prod.splits if_splits)

lemma own_buffer_read_from:
  assumes "own_buffer b" "reliable ra"
  shows "own_buffer (speex_bits_read_from ra b bytes)"
proof (cases "length bytes > buf_size b")
  case True
  obtain cs where "ra (chars b) (length bytes) = Some cs" using assms(2) by (fastforce simp: reliable_def)
  moreover from this have "length cs = length bytes" using assms(2) by (auto simp: reliable_def realloc_ok_def)
  ultimately show ?thesis
    using True assms(1) by (auto simp: speex_bits_read_from_def own_buffer_def Let_def)
qed (use assms(1) in \<open>auto simp: speex_bits_read_from_def own_buffer_def Let_def\<close>)

lemma reading_readable: "reading b \<Longrightarrow> readable b \<and> bits_left b = length (ahead b) \<and> \<not> overflow b"
  by (simp add: reading_def readable_def bits_left_def ahead_def)

lemma own_buffer_same: "own_buffer b \<Longrightarrow> same_data b b' \<Longrightarrow> own_buffer b'"
  by (simp add: own_buffer_def same_data_def)

subsection \<open>Decoding ends, and how much it writes\<close>

definition frames_in :: "nat \<Rightarrow> nat" where
  "frames_in k = 160 * (k div 5)"

lemma frames_in_step: "k + 5 \<le> l \<Longrightarrow> frames_in k + 160 \<le> frames_in l"
  using div_le_mono [of "k + 5" l 5] div_add_self2 [of 5 k] by (simp add: frames_in_def)

lemma frames_in_mono: "k \<le> l \<Longrightarrow> frames_in k \<le> frames_in l"
  by (simp add: frames_in_def div_le_mono)

text \<open>The samples below the offset stay, and so do those from the end of what is written on.\<close>

lemma decode_loop_total:
  assumes "synth_ok (spx_nb ops)" "readable b" "off \<le> length rawData"
  shows "\<exists>res. decode_loop ops 160 d a b rawData off = Some res \<and> (case res of
      Inl f \<Rightarrow> f = Overrun \<and> length rawData < off + frames_in (bits_left b)
    | Inr (n, rawData', d', a', b') \<Rightarrow> off \<le> n \<and> n \<le> off + frames_in (bits_left b) \<and> 160 dvd n - off \<and>
        n \<le> length rawData \<and> length rawData' = length rawData \<and> take off rawData' = take off rawData \<and>
        drop n rawData' = drop n rawData \<and> advanced 0 b b')"
  using assms(2,3)
proof (induction "bits_left b" arbitrary: b d a rawData off rule: less_induct)
  case less
  from nb_decode_total [OF assms(1) less.prems(1)] obtain r out d1 b1 where
    f: "nb_decode (spx_nb ops) d b = Some (r, out, d1, b1)"
    and adv: "if r = 0 then length out = 160 \<and> advanced 5 b b1 else out = [] \<and> advanced 0 b b1" by blast
  show ?case
  proof (cases "r = 0")
    case False
    then show ?thesis
      using f adv less.prems(2) by (subst decode_loop.simps) (auto simp: write_bytes_def write_at_def)
  next
    case True
    then have out: "length out = 160" and a1: "advanced 5 b b1" using adv by simp_all
    then have b1: "readable b1" "bits_left b1 + 5 \<le> bits_left b" by (simp_all add: advanced_def)
    show ?thesis
    proof (cases "off + 160 \<le> length rawData")
      case False
      have "0 + 160 \<le> frames_in (bits_left b)"
        using frames_in_step [of 0 "bits_left b"] b1(2) by (simp add: frames_in_def)
      then show ?thesis
        using f True out False by (subst decode_loop.simps) (simp add: write_bytes_def)
    next
      case fits: True
      define raw1 where "raw1 = write_at rawData off out"
      have w: "write_bytes rawData off out = Some raw1" using fits out by (simp add: write_bytes_def raw1_def)
      have len: "length raw1 = length rawData" using fits out by (simp add: raw1_def)
      have "read_bytes raw1 off 160 = Some (take 160 (drop off raw1))"
        using fits len by (simp add: read_bytes_def)
      then have step: "decode_loop ops 160 d a b rawData off =
          decode_loop ops 160 d1 (aecm_farend ops a (take 160 (drop off raw1))) b1 raw1 (off + 160)"
        using f w True by (subst decode_loop.simps) simp
      have lt: "bits_left b1 < bits_left b" "off + 160 \<le> length raw1" using b1(2) fits len by simp_all
      have grow: "frames_in (bits_left b1) + 160 \<le> frames_in (bits_left b)" by (rule frames_in_step [OF b1(2)])
      have old: "take off raw1 = take off rawData" using fits by (simp add: raw1_def)
      have new: "drop n raw1 = drop n rawData" if "off + 160 \<le> n" for n
        using that fits out by (simp add: raw1_def write_at_def drop_append)
      from less.hyps [OF lt(1) b1(1) lt(2)] obtain res where
        res: "decode_loop ops 160 d1 (aecm_farend ops a (take 160 (drop off raw1))) b1 raw1 (off + 160) = Some res"
        and ok: "case res of
            Inl f \<Rightarrow> f = Overrun \<and> length raw1 < off + 160 + frames_in (bits_left b1)
          | Inr (n, rawData', d', a', b') \<Rightarrow> off + 160 \<le> n \<and> n \<le> off + 160 + frames_in (bits_left b1) \<and>
              160 dvd n - (off + 160) \<and> n \<le> length raw1 \<and> length rawData' = length raw1 \<and>
              take (off + 160) rawData' = take (off + 160) raw1 \<and> drop n rawData' = drop n raw1 \<and> advanced 0 b1 b'"
        by blast
      show ?thesis
      proof (cases res)
        case (Inl f)
        then show ?thesis using step res ok len grow by simp
      next
        case (Inr q)
        obtain n raw' d' a' b' where q: "q = (n, raw', d', a', b')" by (metis prod_cases5)
        note k = ok [unfolded Inr q, simplified]
        have "take off raw' = take off rawData"
          using arg_cong [OF conjunct1 [OF conjunct2 [OF conjunct2 [OF conjunct2 [OF conjunct2 [OF conjunct2 [OF k]]]]]],
            of "take off"] old by (simp add: take_take min_def)
        moreover have "160 dvd n - off"
        proof -
          have "n - off = (n - (off + 160)) + 160" using k by arith
          then show ?thesis using k by (metis dvd_add dvd_refl)
        qed
        moreover have "advanced 0 b b'"
          using advanced_mono [OF advanced_trans [OF a1], of 0 b' 0] k by simp
        ultimately show ?thesis using step res k len grow new Inr q by simp
      qed
    qed
  qed
qed

lemma codec_decode_result:
  assumes "ops_ok ops" "codec_ready c"
  shows "\<exists>res. codec_decode ops c bytes rawData = Some res \<and> (case res of
      Inl f \<Rightarrow> f = Overrun \<and> length rawData < frames_in (8 * length bytes)
    | Inr (n, rawData', c') \<Rightarrow> n \<le> frames_in (8 * length bytes) \<and> 160 dvd n \<and> n \<le> length rawData \<and>
        length rawData' = length rawData \<and> drop n rawData' = drop n rawData \<and> codec_ready c')"
proof -
  obtain d a where c: "dec c = Some d" "aecm c = Live a" "own_buffer (dec_bits c)" "dec_frame_size c = 160"
    using assms(2) by (auto simp: codec_ready_def)
  have ops: "synth_ok (spx_nb ops)" "reliable (spx_realloc ops)" using assms(1) by (simp_all add: ops_ok_def)
  let ?b = "speex_bits_read_from (spx_realloc ops) (dec_bits c) bytes"
  have own: "own_buffer ?b" by (rule own_buffer_read_from [OF c(3) ops(2)])
  have rd: "reading ?b" "ahead ?b = map (stream_bit bytes) [0..<8 * length bytes]"
    using read_from_reading [OF _ _ ops(2)] c(3) by (simp_all add: own_buffer_def)
  then have b: "readable ?b" "bits_left ?b = 8 * length bytes" using reading_readable [OF rd(1)] by simp_all
  from decode_loop_total [OF ops(1) b(1), of 0 rawData d a] obtain res where
    res: "decode_loop ops 160 d a ?b rawData 0 = Some res"
    and ok: "case res of
        Inl f \<Rightarrow> f = Overrun \<and> length rawData < 0 + frames_in (8 * length bytes)
      | Inr (n, rawData', d', a', b') \<Rightarrow> 0 \<le> n \<and> n \<le> 0 + frames_in (8 * length bytes) \<and> 160 dvd n - 0 \<and>
          n \<le> length rawData \<and> length rawData' = length rawData \<and> take 0 rawData' = take 0 rawData \<and>
          drop n rawData' = drop n rawData \<and> advanced 0 ?b b'"
    unfolding b(2) by blast
  show ?thesis
  proof (cases res)
    case (Inl f)
    then show ?thesis using c res ok by (simp add: codec_decode_def)
  next
    case (Inr q)
    obtain n raw' d' a' b' where q: "q = (n, raw', d', a', b')" by (metis prod_cases5)
    have "own_buffer b'"
      using ok Inr q own own_buffer_same [of ?b b'] by (simp add: advanced_def)
    then show ?thesis using c res ok Inr q assms(2) by (simp add: codec_decode_def codec_ready_def)
  qed
qed

subsection \<open>A packet of zeros\<close>

text \<open>Five zero bits are a whole frame of sub-mode 0, so a packet of \<open>n\<close> zero bytes holds
  \<open>8 * n div 5\<close> frames, 12.8 times what a packet of the sender's frames of that length holds.\<close>

lemma number_of_zeros [simp]: "number_of 0 (replicate n False) = 0"
  by (induction n) (simp_all add: number_of_def)

lemma nb_header_zeros:
  assumes "reading b" "ahead b = replicate k False"
  shows "if k < 5 then nb_header b = (Inl (-1), b)
    else \<exists>b'. nb_header b = (Inr 0, b') \<and> reading b' \<and> ahead b' = replicate (k - 5) False"
proof -
  have rem: "speex_bits_remaining b = int (length (ahead b))" if "reading b" for b
    using that by (simp add: speex_bits_remaining_def reading_def ahead_def of_nat_diff)
  show ?thesis
  proof (cases "k < 5")
    case True
    then show ?thesis using rem [OF assms(1)] assms(2) by (simp add: nb_header_def)
  next
    case False
    then have k: "k = 1 + (4 + (k - 5))" by simp
    have "ahead b = replicate 1 False @ replicate (4 + (k - 5)) False"
      unfolding replicate_add [symmetric] assms(2) using k by simp
    from unpack_unsigned_reading [OF assms(1) this, of 1] obtain b1 where
      1: "speex_bits_unpack_unsigned b 1 = (0, b1)" "reading b1" "ahead b1 = replicate (4 + (k - 5)) False"
      using number_of_zeros [of 1] by auto
    from unpack_unsigned_reading [OF 1(2), of "replicate 4 False" "replicate (k - 5) False" 4] obtain b2 where
      2: "speex_bits_unpack_unsigned b1 4 = (0, b2)" "reading b2" "ahead b2 = replicate (k - 5) False"
      using 1(3) by (auto simp: replicate_add simp del: replicate_Suc replicate.simps)
    show ?thesis
      using False rem [OF assms(1)] rem [OF 1(2)] assms(2) 1 2 by (simp add: nb_header_def)
  qed
qed

lemma nb_decode_zeros:
  assumes "synth_ok ops" "reading b" "ahead b = replicate k False"
  shows "if k < 5 then nb_decode ops d b = Some (-1, [], d, b)
    else \<exists>out d' b'. nb_decode ops d b = Some (0, out, d', b') \<and> length out = 160 \<and> reading b' \<and>
      ahead b' = replicate (k - 5) False"
proof (cases "k < 5")
  case True
  then show ?thesis
    using nb_header_zeros [OF assms(2,3)] by (simp add: nb_decode_def nb_search.simps)
next
  case False
  then obtain b' where b': "nb_header b = (Inr 0, b')" "reading b'" "ahead b' = replicate (k - 5) False"
    using nb_header_zeros [OF assms(2,3)] by auto
  obtain out d' where s: "nb_silence ops d = (out, d')" by fastforce
  have "length (fst (nb_silence ops d)) = 160" using assms(1) by (simp add: synth_ok_def)
  then show ?thesis using False b' s by (simp add: nb_decode_def nb_search.simps)
qed

lemma decode_loop_zeros:
  assumes "synth_ok (spx_nb ops)" "reading b" "ahead b = replicate k False" "off \<le> length rawData"
  shows "if off + frames_in k \<le> length rawData
    then \<exists>rawData' d' a' b'. decode_loop ops 160 d a b rawData off =
      Some (Inr (off + frames_in k, rawData', d', a', b'))
    else decode_loop ops 160 d a b rawData off = Some (Inl Overrun)"
  using assms(2-4)
proof (induction k arbitrary: b d a rawData off rule: less_induct)
  case (less k)
  note z = nb_decode_zeros [OF assms(1) less.prems(1,2), of d]
  show ?case
  proof (cases "k < 5")
    case True
    then show ?thesis
      using z less.prems(3)
      by (subst (1 2) decode_loop.simps) (simp add: frames_in_def write_bytes_def write_at_def)
  next
    case False
    then obtain out d1 b1 where f: "nb_decode (spx_nb ops) d b = Some (0, out, d1, b1)" "length out = 160"
      "reading b1" "ahead b1 = replicate (k - 5) False" using z by auto
    have k: "frames_in k = 160 + frames_in (k - 5)"
      using False le_div_geq [of 5 k] by (simp add: frames_in_def)
    show ?thesis
    proof (cases "off + 160 \<le> length rawData")
      case nofit: False
      then have "decode_loop ops 160 d a b rawData off = Some (Inl Overrun)"
        using f by (subst decode_loop.simps) (simp add: write_bytes_def)
      then show ?thesis using nofit k by simp
    next
      case True
      define raw1 where "raw1 = write_at rawData off out"
      have len: "length raw1 = length rawData" using True f(2) by (simp add: raw1_def)
      have "decode_loop ops 160 d a b rawData off =
          decode_loop ops 160 d1 (aecm_farend ops a (take 160 (drop off raw1))) b1 raw1 (off + 160)"
        using f True len
        by (subst decode_loop.simps) (simp add: write_bytes_def read_bytes_def raw1_def [symmetric])
      moreover have "k - 5 < k" "off + 160 \<le> length raw1" using False True len by simp_all
      note less.IH [OF this(1) f(3,4) this(2), of d1 "aecm_farend ops a (take 160 (drop off raw1))"]
      ultimately show ?thesis using k len by (simp add: add.assoc split: if_splits)
    qed
  qed
qed

lemma codec_decode_zero_bytes:
  assumes "ops_ok ops" "codec_ready c"
  shows "if frames_in (8 * n) \<le> length rawData
    then \<exists>rawData' c'. codec_decode ops c (replicate n 0) rawData = Some (Inr (frames_in (8 * n), rawData', c'))
    else codec_decode ops c (replicate n 0) rawData = Some (Inl Overrun)"
proof -
  obtain d a where c: "dec c = Some d" "aecm c = Live a" "own_buffer (dec_bits c)" "dec_frame_size c = 160"
    using assms(2) by (auto simp: codec_ready_def)
  have ops: "synth_ok (spx_nb ops)" "reliable (spx_realloc ops)" using assms(1) by (simp_all add: ops_ok_def)
  let ?b = "speex_bits_read_from (spx_realloc ops) (dec_bits c) (replicate n 0)"
  have rd: "reading ?b" "ahead ?b = map (stream_bit (replicate n 0)) [0..<8 * n]"
    using read_from_reading [OF _ _ ops(2), of "dec_bits c" "replicate n 0"] c(3) by (simp_all add: own_buffer_def)
  have "stream_bit (replicate n 0) i = False" if "i < 8 * n" for i
    using that by (simp add: stream_bit_def div_less_iff_less_mult mult.commute)
  then have "ahead ?b = replicate (8 * n) False"
    unfolding rd(2) by (intro nth_equalityI) simp_all
  from decode_loop_zeros [OF ops(1) rd(1) this, of 0 rawData d a] show ?thesis
    using c by (auto simp: codec_decode_def)
qed

subsection \<open>Concealing\<close>

lemma conceal_loop_writes:
  assumes "synth_ok (spx_nb ops)" "160 * i \<le> length rawData"
  shows "if 160 * (i + k) \<le> length rawData
    then \<exists>rawData' d'. conceal_loop ops 160 d rawData i k = Inr (rawData', d') \<and>
      length rawData' = length rawData \<and> take (160 * i) rawData' = take (160 * i) rawData \<and>
      drop (160 * (i + k)) rawData' = drop (160 * (i + k)) rawData
    else conceal_loop ops 160 d rawData i k = Inl Overrun"
  using assms(2)
proof (induction k arbitrary: d rawData i)
  case (Suc k)
  obtain out d1 where n: "nb_decode_null (spx_nb ops) d = (out, d1)" by fastforce
  have "length (fst (nb_decode_null (spx_nb ops) d)) = 160"
    using assms(1) by (simp add: synth_ok_def nb_decode_null_def)
  then have out: "length out = 160" by (simp add: n)
  show ?case
  proof (cases "160 * (i + 1) \<le> length rawData")
    case False
    then have "conceal_loop ops 160 d rawData i (Suc k) = Inl Overrun"
      using out by (simp add: n write_bytes_def mult.commute)
    then show ?thesis using False by auto
  next
    case True
    define raw1 where "raw1 = write_at rawData (160 * i) out"
    have len: "length raw1 = length rawData" using True out by (simp add: raw1_def)
    have step: "conceal_loop ops 160 d rawData i (Suc k) = conceal_loop ops 160 d1 raw1 (i + 1) k"
      using True out by (simp add: n write_bytes_def raw1_def mult.commute)
    have keep: "take (160 * i) raw1 = take (160 * i) rawData" using True by (simp add: raw1_def)
    have rest: "drop m raw1 = drop m rawData" if "160 * i + 160 \<le> m" for m
      using that True out by (simp add: raw1_def write_at_def drop_append)
    have short: "take (160 * i) xs = take (160 * i) ys" if "take (160 * (i + 1)) xs = take (160 * (i + 1)) ys"
      for xs ys :: "u16 list"
      using arg_cong [OF that, of "take (160 * i)"] by (simp add: take_take min_def)
    show ?thesis
    proof (cases "160 * (i + Suc k) \<le> length rawData")
      case fits: True
      then obtain raw' d' where r: "conceal_loop ops 160 d1 raw1 (i + 1) k = Inr (raw', d')"
        "length raw' = length raw1" "take (160 * (i + 1)) raw' = take (160 * (i + 1)) raw1"
        "drop (160 * (i + 1 + k)) raw' = drop (160 * (i + 1 + k)) raw1"
        using Suc.IH [of "i + 1" raw1 d1] True len by auto
      have "drop (160 * (i + Suc k)) raw' = drop (160 * (i + Suc k)) rawData"
        using r(4) rest [of "160 * (i + 1 + k)"] by simp
      then show ?thesis using fits step r(1,2) len short [OF r(3)] keep by simp
    next
      case False
      then show ?thesis using Suc.IH [of "i + 1" raw1 d1] True len step by simp
    qed
  qed
qed simp

subsection \<open>What the encoder hands over\<close>

text \<open>\<open>frames_of ops n\<close>: a frame is \<open>n\<close> whole bytes appended to an empty buffer, as at quality 4 (sub-mode 3,
  160 bits).\<close>

definition frames_of :: "('e, 'd, 'a) codec_ops \<Rightarrow> nat \<Rightarrow> bool" where
  "frames_of ops n \<longleftrightarrow> (\<forall>e xs b. appending b \<longrightarrow> owner b \<longrightarrow> nbBits b = 0 \<longrightarrow>
     (let b' = snd (spx_encode ops e xs b)
      in appending b' \<and> owner b' \<and> nbBits b' = 8 * n))"

lemma appending_own: "appending b \<Longrightarrow> owner b \<Longrightarrow> own_buffer b"
  by (auto simp: appending_def own_buffer_def)

lemma reset_appending:
  "own_buffer b \<Longrightarrow> appending (speex_bits_reset b) \<and> owner (speex_bits_reset b) \<and> nbBits (speex_bits_reset b) = 0"
  by (simp add: own_buffer_def appending_def speex_bits_reset_def cursor_def)

lemma write_whole:
  assumes "appending b" "nbBits b = 8 * n" "n \<le> m"
  shows "speex_bits_write ra b m = Some (take n (chars b), b)" "length (take n (chars b)) = n"
proof -
  have "8 * charPtr b + bitPtr b = 8 * n" "bitPtr b < 8" using assms(1,2) by (simp_all add: appending_def cursor_eq)
  then have b: "bitPtr b = 0" "charPtr b = n" by presburger+
  show "speex_bits_write ra b m = Some (take n (chars b), b)"
    using b assms(2,3)
    by (simp add: speex_bits_write_def speex_bits_insert_terminator_def terminator_loop.simps Let_def
        drop_bit_eq_div)
  show "length (take n (chars b)) = n" using b assms(1) by (simp add: appending_def)
qed

lemma codec_encode_frame:
  assumes "codec_ready c" "frames_of ops n" "160 \<le> length rawData" "n \<le> m"
  shows "\<exists>bytes c'. codec_encode ops c rawData m = Some (Inr (bytes, c')) \<and> length bytes = n \<and>
    codec_ready c' \<and> (\<forall>rest m'. n \<le> m' \<longrightarrow> codec_encode ops c (take 160 rawData @ rest) m' = Some (Inr (bytes, c')))"
proof -
  obtain e a where c: "enc c = Some e" "aecm c = Live a" "own_buffer (enc_bits c)"
    using assms(1) by (auto simp: codec_ready_def)
  obtain clean a' where p: "aecm_process ops a (take 160 rawData) = (clean, a')" by fastforce
  obtain e' b where s: "spx_encode ops e clean (speex_bits_reset (enc_bits c)) = (e', b)" by fastforce
  have b: "appending b" "owner b" "nbBits b = 8 * n"
    using assms(2) reset_appending [OF c(3)] s unfolding frames_of_def by (metis snd_conv)+
  let ?c = "c\<lparr>aecm := Live a', enc := Some e', enc_bits := b\<rparr>"
  have enc: "codec_encode ops c (take 160 rawData @ rest) m' = Some (Inr (take n (chars b), ?c))"
    if "n \<le> m'" for rest m'
    using c p s write_whole(1) [OF b(1,3) that] assms(3) by (simp add: codec_encode_def read_bytes_def)
  moreover have "codec_encode ops c rawData m = Some (Inr (take n (chars b), ?c))"
    using enc [OF assms(4), of "drop 160 rawData"] by simp
  moreover have "codec_ready ?c" using assms(1) appending_own [OF b(1,2)] by (simp add: codec_ready_def)
  ultimately show ?thesis using write_whole(2) [OF b(1,3) assms(4)] by blast
qed

end
