(* ===== verification/Speex_Theorems.thy ===== *)
theory Speex_Theorems
  imports Audio_Codec
begin

text \<open>
  The properties of the bit buffer and of the codec: a round trip of packed fields, the terminator,
  how much a packet makes \<open>decode\<close> write, and what the codec's destructor frees.
\<close>

subsection \<open>An instance\<close>

definition demo_realloc :: realloc where
  "demo_realloc cs n = Some (take n cs @ replicate (n - length cs) 0)"

definition demo_bits :: SpeexBits where
  "demo_bits = \<lparr>chars = [0], nbBits = 0, charPtr = 0, bitPtr = 0, owner = True, overflow = False, buf_size = 1\<rparr>"

definition demo_fields :: "u16 list \<Rightarrow> (u32 \<times> nat) list" where
  "demo_fields xs = map (\<lambda>i. (ucast (xs ! i), 8)) [0..<20]"

text \<open>A synthesis that reads no parameters and an encoder that sends the low bytes of twenty samples.\<close>

definition demo_nb :: "unit nb_ops" where
  "demo_nb = \<lparr>nb_dtx_enabled = (\<lambda>_. False), nb_silence = (\<lambda>d. (replicate 160 0, d)),
     nb_synth = (\<lambda>d m b. (replicate 160 (of_nat m), d, b)), nb_lost = (\<lambda>d. (replicate 160 1, d))\<rparr>"

definition demo_ops :: "(unit, unit, unit) codec_ops" where
  "demo_ops = \<lparr>spx_encoder_init = Some (), spx_decoder_init = Some (),
     spx_encoder_ctl = (\<lambda>_ e. e), spx_decoder_ctl = (\<lambda>_ d. d),
     enc_frame_len = (\<lambda>_. 160), dec_frame_len = (\<lambda>_. 160),
     spx_encode = (\<lambda>e xs b. (e, pack_fields demo_realloc b (demo_fields xs))),
     spx_nb = demo_nb, aecm_create = Created (), aecm_init = (\<lambda>_ a. (True, a)),
     aecm_process = (\<lambda>a xs. (xs, a)), aecm_farend = (\<lambda>a _. a), spx_realloc = demo_realloc\<rparr>"

definition demo_memory :: "(unit, unit, unit) AudioCodec" where
  "demo_memory = \<lparr>enc = None, dec = None, aecm = Dangling, enc_bits = demo_bits, dec_bits = demo_bits,
     enc_frame_size = 0, dec_frame_size = 0, initialized = True\<rparr>"

definition demo_codec :: "(unit, unit, unit) AudioCodec" where
  "demo_codec = snd (codec_init demo_ops (new_AudioCodec demo_memory))"

lemma demo_reliable [simp]: "reliable demo_realloc"
  by (auto simp: reliable_def realloc_ok_def demo_realloc_def)

lemma demo_ops_ok [simp]: "ops_ok demo_ops"
  by (simp add: ops_ok_def demo_ops_def synth_ok_def demo_nb_def advanced_def same_data_def)

lemma demo_codec_init: "codec_init demo_ops (new_AudioCodec demo_memory) = (0, demo_codec)"
proof -
  have "fst (codec_init demo_ops (new_AudioCodec demo_memory)) = 0"
    by (simp add: codec_init_def demo_ops_def)
  then show ?thesis unfolding demo_codec_def by (metis prod.collapse)
qed

lemma demo_codec_ready [simp]: "codec_ready demo_codec"
  using codec_init_ready [OF demo_ops_ok, of "new_AudioCodec demo_memory"] by (simp add: demo_codec_init)

lemma demo_fields: "field_len (demo_fields xs) = 160" "\<forall>(v, n) \<in> set (demo_fields xs). n \<le> 32"
  by (simp add: demo_fields_def field_len_def comp_def map_replicate_const sum_list_replicate)
    (auto simp: demo_fields_def)

lemma demo_frames_of [simp]: "frames_of demo_ops 20"
  unfolding frames_of_def
proof (intro allI impI)
  fix e xs b
  assume b: "appending b" "owner b" "nbBits b = 0"
  let ?b = "pack_fields demo_realloc b (demo_fields xs)"
  note p = pack_fields_appending [OF b(1,2) demo_reliable demo_fields(2), of xs]
  then have "nbBits ?b = nbBits b + field_len (demo_fields xs)"
    by (metis length_written length_append length_field_bits)
  then have "appending ?b \<and> owner ?b \<and> nbBits ?b = 8 * 20"
    using p b(3) by (simp add: demo_fields(1))
  then show "let b' = snd (spx_encode demo_ops e xs b) in appending b' \<and> owner b' \<and> nbBits b' = 8 * 20"
    by (simp add: demo_ops_def)
qed

subsection \<open>The bit buffer\<close>

text \<open>C23: fields packed into a fresh buffer, written out, and read into any buffer that owns its memory are
  unpacked as the low bits that were packed; the bytes are as many as the bits need.\<close>

theorem speex_bits_roundtrip:
  assumes "reliable ra" "\<forall>(v, n) \<in> set fs. n \<le> 32" "(field_len fs + 7) div 8 \<le> m"
    and "owner r" "length (chars r) = buf_size r"
  shows "\<exists>bytes b'. speex_bits_write ra (pack_fields ra (speex_bits_init True b) fs) m = Some (bytes, b') \<and>
    length bytes = (field_len fs + 7) div 8 \<and>
    fst (unpack_fields (speex_bits_read_from ra r bytes) (map snd fs)) = map (\<lambda>(v, n). take_bit n v) fs"
  using assms by (rule speex_bits_transmit)

theorem speex_bits_roundtrip_witness:
  "\<exists>bytes b'. speex_bits_write demo_realloc
      (pack_fields demo_realloc (speex_bits_init True demo_bits) [(5, 3), (1000, 10)]) 4 = Some (bytes, b') \<and>
    length bytes = 2 \<and>
    fst (unpack_fields (speex_bits_read_from demo_realloc demo_bits bytes) [3, 10]) = [5, 1000]"
  using speex_bits_roundtrip [of demo_realloc "[(5, 3), (1000, 10)]" 4 demo_bits demo_bits]
  by (simp add: field_len_def demo_bits_def take_bit_eq_mask mask_eq_exp_minus_1)

text \<open>C24: the terminator fills the last byte of a buffer that owns its memory with a zero and ones; on a
  borrowed buffer with its last byte begun, the loop that writes it does not end, and neither does
  \<open>speex_bits_write\<close>.\<close>

theorem speex_terminator:
  assumes "reliable ra"
  shows "(appending b \<and> owner b \<longrightarrow> (\<exists>b'. speex_bits_insert_terminator ra b = Some b' \<and> bitPtr b' = 0 \<and>
      written b' = written b @ (if bitPtr b = 0 then [] else False # replicate (7 - bitPtr b) True))) \<and>
    (full_borrowed b \<longrightarrow> speex_bits_insert_terminator ra b = None \<and> speex_bits_write ra b m = None)"
proof (intro conjI impI)
  assume "appending b \<and> owner b"
  then show "\<exists>b'. speex_bits_insert_terminator ra b = Some b' \<and> bitPtr b' = 0 \<and>
      written b' = written b @ (if bitPtr b = 0 then [] else False # replicate (7 - bitPtr b) True)"
    using insert_terminator_appending [OF _ _ assms] unfolding padding_def by blast
next
  assume "full_borrowed b"
  then show stuck: "speex_bits_insert_terminator ra b = None"
    using terminator_loop_stuck [OF full_borrowed_pack, of b ra ra 0]
    by (simp add: speex_bits_insert_terminator_def full_borrowed_def)
  show "speex_bits_write ra b m = None" by (simp add: speex_bits_write_def stuck)
qed

theorem speex_terminator_witness:
  "(\<exists>b'. speex_bits_insert_terminator demo_realloc (demo_bits\<lparr>chars := [0x80], nbBits := 3, bitPtr := 3\<rparr>) = Some b' \<and>
      bitPtr b' = 0 \<and>
      written b' = written (demo_bits\<lparr>chars := [0x80], nbBits := 3, bitPtr := 3\<rparr>) @ [False, True, True, True, True]) \<and>
    speex_bits_insert_terminator demo_realloc (demo_bits\<lparr>owner := False, nbBits := 3, bitPtr := 3\<rparr>) = None \<and>
    speex_bits_write demo_realloc (demo_bits\<lparr>owner := False, nbBits := 3, bitPtr := 3\<rparr>) 1 = None"
proof (intro conjI)
  let ?b = "demo_bits\<lparr>chars := [0x80], nbBits := 3, bitPtr := 3\<rparr>"
  have "\<not> bit (0x80 :: u8) k" if "k < 5" for k
    using that by (auto simp: less_Suc_eq numeral_eq_Suc)
  then have "appending ?b" "owner ?b"
    by (simp_all add: appending_def demo_bits_def cursor_def)
  then have "appending ?b \<and> owner ?b" ..
  from mp [OF conjunct1 [OF speex_terminator [OF demo_reliable, where m = 0]] this]
  show "\<exists>b'. speex_bits_insert_terminator demo_realloc ?b = Some b' \<and> bitPtr b' = 0 \<and>
      written b' = written ?b @ [False, True, True, True, True]"
    by (simp add: demo_bits_def numeral_eq_Suc)
  have full: "full_borrowed (demo_bits\<lparr>owner := False, nbBits := 3, bitPtr := 3\<rparr>)"
    by (simp add: full_borrowed_def demo_bits_def)
  show "speex_bits_insert_terminator demo_realloc (demo_bits\<lparr>owner := False, nbBits := 3, bitPtr := 3\<rparr>) = None"
    "speex_bits_write demo_realloc (demo_bits\<lparr>owner := False, nbBits := 3, bitPtr := 3\<rparr>) 1 = None"
    using mp [OF conjunct2 [OF speex_terminator [OF demo_reliable, where m = 1]] full] by simp_all
qed

subsection \<open>Decoding a packet\<close>

text \<open>C18: \<open>decode\<close> ends for every packet: it writes a whole number of frames, at most 160 samples for every
  five bits of the packet, and nothing beyond what it reports, or it runs over a buffer that is shorter
  than that.  The codec is ready for the next packet.\<close>

theorem codec_decode_bound:
  assumes "ops_ok ops" "codec_ready c"
  shows "\<exists>res. codec_decode ops c bytes rawData = Some res \<and> (case res of
      Inl f \<Rightarrow> f = Overrun \<and> length rawData < 160 * (8 * length bytes div 5)
    | Inr (n, rawData', c') \<Rightarrow> n \<le> 160 * (8 * length bytes div 5) \<and> 160 dvd n \<and> n \<le> length rawData \<and>
        length rawData' = length rawData \<and> drop n rawData' = drop n rawData \<and> codec_ready c')"
  using codec_decode_result [OF assms, of bytes rawData] unfolding frames_in_def .

theorem codec_decode_bound_witness:
  "\<exists>res. codec_decode demo_ops demo_codec [1, 2, 3] (replicate 640 0) = Some res \<and> (case res of
      Inl f \<Rightarrow> False
    | Inr (n, rawData', c') \<Rightarrow> n \<le> 640 \<and> 160 dvd n \<and> length rawData' = 640 \<and> codec_ready c')"
  using codec_decode_bound [OF demo_ops_ok demo_codec_ready, of "[1, 2, 3]" "replicate 640 0"]
  by (auto split: sum.splits)

text \<open>C19: the bound is reached: a packet of \<open>n\<close> zero bytes is decoded to \<open>8 * n div 5\<close> frames of silence,
  and overruns every buffer that has no room for them, such as the 2880 samples of NetEq's for \<open>n = 12\<close>.\<close>

theorem codec_decode_zeros:
  assumes "ops_ok ops" "codec_ready c"
  shows "if 160 * (8 * n div 5) \<le> length rawData
    then \<exists>rawData' c'. codec_decode ops c (replicate n 0) rawData =
      Some (Inr (160 * (8 * n div 5), rawData', c'))
    else codec_decode ops c (replicate n 0) rawData = Some (Inl Overrun)"
  using codec_decode_zero_bytes [OF assms, of n rawData] unfolding frames_in_def .

theorem codec_decode_zeros_witness:
  "codec_decode demo_ops demo_codec (replicate 12 0) (replicate 2880 0) = Some (Inl Overrun) \<and>
    (\<exists>rawData' c'. codec_decode demo_ops demo_codec (replicate 11 0) (replicate 2880 0) =
      Some (Inr (2720, rawData', c')))"
  using codec_decode_zeros [OF demo_ops_ok demo_codec_ready, of 12 "replicate 2880 0"]
    codec_decode_zeros [OF demo_ops_ok demo_codec_ready, of 11 "replicate 2880 0"]
  by simp

text \<open>\<open>conceal\<close> writes 160 samples for each frame it is asked for and nothing beyond them; it overruns a
  buffer without room for them, and for a negative count it returns a negative number.\<close>

theorem codec_conceal_bound:
  assumes "ops_ok ops" "codec_ready c"
  shows "if 160 * nat frames \<le> length rawData
    then \<exists>rawData' c'. codec_conceal ops c frames rawData = Inr (160 * frames, rawData', c') \<and>
      length rawData' = length rawData \<and> drop (160 * nat frames) rawData' = drop (160 * nat frames) rawData \<and>
      codec_ready c'
    else codec_conceal ops c frames rawData = Inl Overrun"
proof -
  obtain d where c: "dec c = Some d" "dec_frame_size c = 160" using assms(2) by (auto simp: codec_ready_def)
  have "synth_ok (spx_nb ops)" using assms(1) by (simp add: ops_ok_def)
  from conceal_loop_writes [OF this, of 0 rawData "nat frames" d] show ?thesis
    using c assms(2) by (auto simp: codec_conceal_def codec_ready_def)
qed

theorem codec_conceal_bound_witness:
  "\<exists>rawData' c'. codec_conceal demo_ops demo_codec 2 (replicate 400 9) = Inr (320, rawData', c') \<and>
    drop 320 rawData' = drop 320 (replicate 400 9)"
  using codec_conceal_bound [OF demo_ops_ok demo_codec_ready, of 2 "replicate 400 9"]
  by (fastforce simp del: replicate.simps)

subsection \<open>The codec's life cycle\<close>

text \<open>C25: after \<open>init\<close>, whatever it returned, the destructor frees each part that exists, once, in order;
  the exception is an echo canceller that failed to build a part of itself, which \<open>WebRtcAecm_Create\<close>
  has freed already: the destructor frees it again.\<close>

theorem codec_lifecycle:
  "case codec_init ops (new_AudioCodec memory) of (r, c) \<Rightarrow>
     codec_destroy c =
       (if spx_encoder_init ops = None then Inr []
        else if spx_decoder_init ops = None then Inr [Enc]
        else case aecm_create ops of
            No_Memory \<Rightarrow> Inr [Enc, Dec]
          | Part_Failed \<Rightarrow> Inl Double_Free
          | Created a \<Rightarrow> Inr (if fst (aecm_init ops 8000 a) then [Enc_Bits, Dec_Bits, Aecm, Enc, Dec]
              else [Aecm, Enc, Dec]))"
  by (auto simp: codec_init_def new_AudioCodec_def codec_destroy_def Let_def SPEEX_SAMPLE_RATE_def
      split: option.splits created.splits prod.splits)

end
