(* ===== verification/Audio_Devices.thy ===== *)
theory Audio_Devices
  imports Audio_Codec Rtp_Session
begin

text \<open>
  The audio devices at the two ends of a call: \<open>src/jni/redphone/MicrophoneReader.cpp\<close>,
  \<open>AudioPlayer.cpp\<close> and \<open>Clock.h\<close>.

  OpenSL ES is outside.  \<open>sl_step\<close> is what the interface asks of its callers: an object is created once, from
  an engine that exists, used while it exists, and destroyed before the objects it is built on.  \<open>start\<close> and
  \<open>stop\<close> are lists of instructions, one for each call of OpenSL ES and each assignment of a shared pointer,
  because other threads run between them; \<open>Call_Manager\<close> executes them.  A pointer member is \<open>True\<close> when it is
  not null; a failed creation or \<open>GetInterface\<close> leaves null.
\<close>

subsection \<open>OpenSL ES objects\<close>

datatype sl_object = Engine_Object | Recorder | Output_Mix | Player
datatype sl_interface = IID_ENGINE | IID_CONFIGURATION | IID_RECORD | IID_PLAY | IID_BUFFERQUEUE
datatype sl_call =
    Create sl_object
  | Realize sl_object
  | Get_Interface sl_object sl_interface
  | Set_Configuration sl_object nat
  | Register_Callback sl_object
  | Enqueue sl_object nat
  | Set_State sl_object bool
  | Clear sl_object
  | Destroy sl_object

text \<open>The objects that exist, each with whether it is recording or playing.\<close>

type_synonym sl_world = "sl_object \<rightharpoonup> bool"

fun target_object :: "sl_call \<Rightarrow> sl_object" where
  "target_object (Create x) = x"
| "target_object (Realize x) = x"
| "target_object (Get_Interface x i) = x"
| "target_object (Set_Configuration x v) = x"
| "target_object (Register_Callback x) = x"
| "target_object (Enqueue x n) = x"
| "target_object (Set_State x v) = x"
| "target_object (Clear x) = x"
| "target_object (Destroy x) = x"

definition built_on :: "sl_object \<Rightarrow> sl_object list" where
  "built_on x = (case x of Engine_Object \<Rightarrow> [] | Player \<Rightarrow> [Engine_Object, Output_Mix] | _ \<Rightarrow> [Engine_Object])"

fun sl_step :: "sl_call \<Rightarrow> sl_world \<Rightarrow> sl_world option" where
  "sl_step (Create x) w =
     (if w x \<noteq> None \<or> list_ex (\<lambda>y. w y = None) (built_on x) then None else Some (w(x \<mapsto> False)))"
| "sl_step (Destroy x) w =
     (if w x = None \<or> list_ex (\<lambda>y. w y \<noteq> None \<and> x \<in> set (built_on y)) [Engine_Object, Recorder, Output_Mix, Player]
      then None else Some (w(x := None)))"
| "sl_step (Set_State x v) w = (if w x = None then None else Some (w(x \<mapsto> v)))"
| "sl_step c w = (if w (target_object c) = None then None else Some w)"

text \<open>The pointers to objects and interfaces that the threads share, the one a call is made through and the one it
  assigns.  The engine's interface and the configuration interfaces are used where they have just been got.\<close>

datatype sl_pointer =
  The_Engine | The_Recorder | The_Record | The_Recorder_Queue | The_Mix | The_Player | The_Play | The_Player_Queue

fun object_pointer :: "sl_object \<Rightarrow> sl_pointer" where
  "object_pointer Engine_Object = The_Engine"
| "object_pointer Recorder = The_Recorder"
| "object_pointer Output_Mix = The_Mix"
| "object_pointer Player = The_Player"

fun queue_pointer :: "sl_object \<Rightarrow> sl_pointer option" where
  "queue_pointer Recorder = Some The_Recorder_Queue"
| "queue_pointer Player = Some The_Player_Queue"
| "queue_pointer x = None"

fun state_pointer :: "sl_object \<Rightarrow> sl_pointer option" where
  "state_pointer Recorder = Some The_Record"
| "state_pointer Player = Some The_Play"
| "state_pointer x = None"

fun made_through :: "sl_call \<Rightarrow> sl_pointer option" where
  "made_through (Create x) = None"
| "made_through (Set_Configuration x v) = None"
| "made_through (Realize x) = Some (object_pointer x)"
| "made_through (Get_Interface x i) = Some (object_pointer x)"
| "made_through (Destroy x) = Some (object_pointer x)"
| "made_through (Register_Callback x) = queue_pointer x"
| "made_through (Enqueue x n) = queue_pointer x"
| "made_through (Clear x) = queue_pointer x"
| "made_through (Set_State x v) = state_pointer x"

fun assigned_pointer :: "sl_call \<Rightarrow> sl_pointer option" where
  "assigned_pointer (Create x) = Some (object_pointer x)"
| "assigned_pointer (Get_Interface x IID_BUFFERQUEUE) = queue_pointer x"
| "assigned_pointer (Get_Interface x IID_RECORD) = state_pointer x"
| "assigned_pointer (Get_Interface x IID_PLAY) = state_pointer x"
| "assigned_pointer c = None"

text \<open>The instructions of \<open>start\<close>: a call whose failure ends it, a call whose failure only skips the next \<open>n\<close>
  instructions, the \<open>memset\<close> of the player's buffer, and the initialisation of a component without a device.
  Those of \<open>stop\<close>: a call made unless its pointer is null, the destruction of an object unless its pointer is
  null, when \<open>n\<close> instructions are skipped, and the assignment of null; the last two of \<open>stop\<close> and of the
  destructor touch no object of OpenSL ES.\<close>

datatype component = Codec | Sender | Receiver | Jitter
datatype start_instr = Must sl_call | May sl_call nat | Zero_Output | Init component
datatype stop_instr = If_Set sl_call | Destroy_Or_Skip sl_object nat | Forget sl_pointer | Stop_Jitter | Free_Address

subsection \<open>Clock\<close>

record Clock =
  tickCount :: u32
  dataReceived :: u32

definition new_Clock :: Clock where
  "new_Clock = \<lparr>tickCount = 0, dataReceived = 0\<rparr>"

definition tick :: "Clock \<Rightarrow> nat \<Rightarrow> u32 \<times> Clock" where
  "tick c frames =
     (let t = tickCount c + of_nat (frames * SPEEX_FRAME_SIZE) in (t, c\<lparr>tickCount := t\<rparr>))"

definition getImprovisedTimestamp :: "Clock \<Rightarrow> u32 \<Rightarrow> u32 \<times> Clock" where
  "getImprovisedTimestamp c dataLen =
     (let n = dataReceived c + dataLen
      in (n div of_nat SPEEX_ENCODED_FRAME_SIZE * of_nat SPEEX_FRAME_SIZE, c\<lparr>dataReceived := n\<rparr>))"

subsection \<open>MicrophoneReader\<close>

definition FRAME_SIZE :: nat where "FRAME_SIZE = 8000 div 50"

lemma FRAME_SIZE [simp]: "FRAME_SIZE = 160"
  by (simp add: FRAME_SIZE_def)

record MicrophoneReader =
  androidSdkVersion :: int
  muteEnabled :: bool
  inputBuffer :: "u16 list"
  encodedAudio :: "u8 list"
  recorderObject :: bool
  recorderRecord :: bool
  recorderBufferQueue :: bool

definition new_MicrophoneReader :: "int \<Rightarrow> MicrophoneReader \<Rightarrow> MicrophoneReader" where
  "new_MicrophoneReader sdk garbage =
     garbage\<lparr>androidSdkVersion := sdk, muteEnabled := False,
       recorderObject := False, recorderRecord := False, recorderBufferQueue := False\<rparr>"

definition setMute :: "MicrophoneReader \<Rightarrow> bool \<Rightarrow> MicrophoneReader" where
  "setMute m v = m\<lparr>muteEnabled := v\<rparr>"

text \<open>The recording preset is 1 (generic) or 4 (voice communication).\<close>

definition mic_start :: "int \<Rightarrow> start_instr list" where
  "mic_start sdk =
     [Must (Create Recorder),
      May (Get_Interface Recorder IID_CONFIGURATION) 1,
      May (Set_Configuration Recorder (if sdk \<ge> 14 then 4 else 1)) 0,
      Must (Realize Recorder),
      Must (Get_Interface Recorder IID_RECORD),
      Must (Get_Interface Recorder IID_BUFFERQUEUE),
      Must (Register_Callback Recorder),
      Must (Enqueue Recorder (FRAME_SIZE * 2 * 2)),
      Must (Set_State Recorder True)]"

definition mic_stop :: "stop_instr list" where
  "mic_stop =
     [If_Set (Set_State Recorder False),
      If_Set (Clear Recorder),
      Destroy_Or_Skip Recorder 3,
      Forget The_Record,
      Forget The_Recorder,
      Forget The_Recorder_Queue]"

text \<open>The members that \<open>recorderCallback\<close> works on: the codec, the sender and the clock are shared with
  the rest of the call.  The result holds the datagram handed to \<open>sendto\<close> and the call that gives the
  buffer back.\<close>

record ('e, 'd, 'a) call_media =
  media_codec :: "('e, 'd, 'a) AudioCodec"
  media_sender :: RtpAudioSender
  media_clock :: Clock

definition recorderCallback ::
  "('e, 'd, 'a) codec_ops \<Rightarrow> (u8 list \<Rightarrow> bool) \<Rightarrow> MicrophoneReader \<Rightarrow> ('e, 'd, 'a) call_media \<Rightarrow>
   (codec_fault + MicrophoneReader \<times> ('e, 'd, 'a) call_media \<times> u8 list option \<times> sl_call) option" where
  "recorderCallback ops sendto_ok m s =
     (let m = (if muteEnabled m then m\<lparr>inputBuffer := replicate (FRAME_SIZE * 2) 0\<rparr> else m)
      in case codec_encode ops (media_codec s) (inputBuffer m) (length (encodedAudio m)) of
           None \<Rightarrow> None
         | Some (Inl f) \<Rightarrow> Some (Inl f)
         | Some (Inr (bytes1, c)) \<Rightarrow>
             let m = m\<lparr>encodedAudio := write_at (encodedAudio m) 0 bytes1\<rparr>;
                 encodedAudioLen = length bytes1
             in case codec_encode ops c (drop FRAME_SIZE (inputBuffer m))
                  (length (encodedAudio m) - encodedAudioLen) of
                  None \<Rightarrow> None
                | Some (Inl f) \<Rightarrow> Some (Inl f)
                | Some (Inr (bytes2, c)) \<Rightarrow>
                    let m = m\<lparr>encodedAudio := write_at (encodedAudio m) encodedAudioLen bytes2\<rparr>;
                        encodedAudioLen = encodedAudioLen + length bytes2;
                        (now, clock) = tick (media_clock s) 2
                    in case sender_send sendto_ok (media_sender s) now (take encodedAudioLen (encodedAudio m)) of
                         None \<Rightarrow> None
                       | Some (_, sender, datagram) \<Rightarrow>
                           Some (Inr (m, s\<lparr>media_codec := c, media_sender := sender, media_clock := clock\<rparr>,
                             datagram, Enqueue Recorder (FRAME_SIZE * 2 * 2))))"

subsection \<open>AudioPlayer\<close>

record AudioPlayer =
  bqPlayerObject :: bool
  bqPlayerPlay :: bool
  outputMixObject :: bool
  bqPlayerBufferQueue :: bool
  outputBuffer :: "u16 list"

definition new_AudioPlayer :: "AudioPlayer \<Rightarrow> AudioPlayer" where
  "new_AudioPlayer garbage =
     garbage\<lparr>bqPlayerObject := False, bqPlayerPlay := False, outputMixObject := False,
       bqPlayerBufferQueue := False\<rparr>"

text \<open>The stream type is 0 (voice).\<close>

definition player_start :: "start_instr list" where
  "player_start =
     [Must (Create Output_Mix),
      Must (Realize Output_Mix),
      Must (Create Player),
      Must (Get_Interface Player IID_CONFIGURATION),
      Must (Set_Configuration Player 0),
      Must (Realize Player),
      Must (Get_Interface Player IID_PLAY),
      Must (Get_Interface Player IID_BUFFERQUEUE),
      Must (Register_Callback Player),
      Zero_Output,
      Must (Enqueue Player (FRAME_SIZE * 2)),
      Must (Set_State Player True)]"

definition player_stop :: "stop_instr list" where
  "player_stop =
     [If_Set (Set_State Player False),
      If_Set (Clear Player),
      Destroy_Or_Skip Player 3,
      Forget The_Play,
      Forget The_Player_Queue,
      Forget The_Player,
      Destroy_Or_Skip Output_Mix 1,
      Forget The_Mix]"

subsection \<open>The recorder callback\<close>

text \<open>What a run of callbacks keeps.\<close>

definition mic_ready :: "MicrophoneReader \<Rightarrow> bool" where
  "mic_ready m \<longleftrightarrow> length (inputBuffer m) = 320 \<and> length (encodedAudio m) = 1024"

definition media_ready :: "('e, 'd, 'a) call_media \<Rightarrow> nat \<Rightarrow> bool" where
  "media_ready s k \<longleftrightarrow> codec_ready (media_codec s) \<and> srtp_ready (snd_stream (media_sender s)) \<and>
     sequenceNumber (media_sender s) = of_nat k \<and> tickCount (media_clock s) = of_nat (320 * k)"

text \<open>The codec fed with two frames at a time, with room for 1024 bytes.\<close>

fun encode_buffers ::
  "('e, 'd, 'a) codec_ops \<Rightarrow> ('e, 'd, 'a) AudioCodec \<Rightarrow> u16 list list \<Rightarrow> u8 list list" where
  "encode_buffers ops c [] = []"
| "encode_buffers ops c (xs # xss) =
     (case codec_encode ops c (take 160 xs) 1024 of
        Some (Inr (b1, c)) \<Rightarrow>
          (case codec_encode ops c (drop 160 xs) 1024 of
             Some (Inr (b2, c)) \<Rightarrow> (b1 @ b2) # encode_buffers ops c xss
           | _ \<Rightarrow> [])
      | _ \<Rightarrow> [])"

definition heard :: "MicrophoneReader \<Rightarrow> u16 list \<Rightarrow> u16 list" where
  "heard m xs = (if muteEnabled m then replicate 320 0 else xs)"

lemma recorderCallback_packet:
  assumes "mic_ready m" "media_ready s k" "frames_of ops n" "2 * n \<le> 1024"
  shows "\<exists>m' s' bytes. recorderCallback ops sendto_ok m s =
      Some (Inr (m', s', Some (datagram_of (media_sender s) k (of_nat (320 * (k + 1))) bytes),
        Enqueue Recorder 640)) \<and>
    length bytes = 2 * n \<and> mic_ready m' \<and> muteEnabled m' = muteEnabled m \<and> media_ready s' (k + 1) \<and>
    media_sender s' = (media_sender s)\<lparr>sequenceNumber := of_nat (k + 1)\<rparr> \<and>
    (\<forall>xss. encode_buffers ops (media_codec s) (heard m (inputBuffer m) # xss) =
      bytes # encode_buffers ops (media_codec s') xss)"
proof -
  define xs where "xs = heard m (inputBuffer m)"
  define m0 where "m0 = m\<lparr>inputBuffer := xs\<rparr>"
  have m0: "(if muteEnabled m then m\<lparr>inputBuffer := replicate (FRAME_SIZE * 2) 0\<rparr> else m) = m0"
    by (simp add: m0_def xs_def heard_def)
  have len: "length xs = 320" "length (encodedAudio m) = 1024"
    using assms(1) by (simp_all add: xs_def heard_def mic_ready_def)
  have s: "codec_ready (media_codec s)" "srtp_ready (snd_stream (media_sender s))"
    "sequenceNumber (media_sender s) = of_nat k" "tickCount (media_clock s) = of_nat (320 * k)"
    using assms(2) by (simp_all add: media_ready_def)
  have n: "n \<le> 1024" "n \<le> 1024 - n" using assms(4) by arith+
  from codec_encode_frame [OF s(1) assms(3) _ n(1), of xs] len obtain b1 c1 where
    1: "codec_encode ops (media_codec s) xs 1024 = Some (Inr (b1, c1))" "length b1 = n" "codec_ready c1"
      "\<forall>rest m'. n \<le> m' \<longrightarrow> codec_encode ops (media_codec s) (take 160 xs @ rest) m' = Some (Inr (b1, c1))" by auto
  from codec_encode_frame [OF 1(3) assms(3) _ n(2), of "drop 160 xs"] len obtain b2 c2 where
    2: "codec_encode ops c1 (drop 160 xs) (1024 - n) = Some (Inr (b2, c2))" "length b2 = n" "codec_ready c2"
      "\<forall>rest m'. n \<le> m' \<longrightarrow> codec_encode ops c1 (take 160 (drop 160 xs) @ rest) m' = Some (Inr (b2, c2))" by auto
  have codes: "encode_buffers ops (media_codec s) (xs # xss) = (b1 @ b2) # encode_buffers ops c2 xss" for xss
    using spec [OF spec [OF 1(4), of "[]"], of 1024] spec [OF spec [OF 2(4), of "[]"], of 1024] n(1) len(1) by simp
  define buf where "buf = write_at (write_at (encodedAudio m) 0 b1) n b2"
  have blen: "length (write_at (encodedAudio m) 0 b1) = 1024" "length buf = 1024"
    using len(2) 1(2) 2(2) assms(4) by (simp_all add: buf_def)
  have data: "take (n + n) buf = b1 @ b2"
    using len(2) 1(2) 2(2) assms(4) by (simp add: buf_def write_at_def)
  define ts where "ts = (of_nat (320 * (k + 1)) :: u32)"
  have tick: "tick (media_clock s) 2 = (ts, media_clock s\<lparr>tickCount := ts\<rparr>)"
    by (simp add: tick_def s(4) ts_def add.commute Let_def)
  have "length (b1 @ b2) + 32 < 2 ^ 31" using 1(2) 2(2) assms(4) by simp
  from sender_send_datagram [OF s(2) this s(3), of sendto_ok ts] obtain r where
    send: "sender_send sendto_ok (media_sender s) ts (b1 @ b2) = Some (r,
      (media_sender s)\<lparr>sequenceNumber := of_nat (k + 1)\<rparr>, Some (datagram_of (media_sender s) k ts (b1 @ b2)))"
    by blast
  let ?s = "s\<lparr>media_codec := c2, media_sender := (media_sender s)\<lparr>sequenceNumber := of_nat (k + 1)\<rparr>,
    media_clock := media_clock s\<lparr>tickCount := ts\<rparr>\<rparr>"
  let ?m = "m0\<lparr>encodedAudio := buf\<rparr>"
  have f: "inputBuffer m0 = xs" "encodedAudio m0 = encodedAudio m" by (simp_all add: m0_def)
  have "recorderCallback ops sendto_ok m s =
      Some (Inr (?m, ?s, Some (datagram_of (media_sender s) k ts (b1 @ b2)), Enqueue Recorder 640))"
    unfolding recorderCallback_def m0 Let_def
    by (simp add: f 1(1,2) 2(1,2) len blen(1) buf_def [symmetric] data tick send del: One_nat_def)
  moreover have "mic_ready ?m" "muteEnabled ?m = muteEnabled m"
    using len blen by (simp_all add: mic_ready_def m0_def)
  moreover have "media_ready ?s (k + 1)"
    using s(2) 2(3) by (simp add: media_ready_def ts_def)
  moreover have "length (b1 @ b2) = 2 * n" using 1(2) 2(2) by simp
  moreover have "\<forall>xss. encode_buffers ops (media_codec s) (heard m (inputBuffer m) # xss) =
      (b1 @ b2) # encode_buffers ops (media_codec ?s) xss"
    using codes by (simp add: xs_def [symmetric])
  ultimately show ?thesis unfolding ts_def by fastforce
qed

text \<open>A run of callbacks: the recorder fills the buffer, then calls.\<close>

fun record_all ::
  "('e, 'd, 'a) codec_ops \<Rightarrow> (u8 list \<Rightarrow> bool) \<Rightarrow> MicrophoneReader \<Rightarrow> ('e, 'd, 'a) call_media \<Rightarrow>
   u16 list list \<Rightarrow> (u8 list list \<times> MicrophoneReader \<times> ('e, 'd, 'a) call_media) option" where
  "record_all ops sendto_ok m s [] = Some ([], m, s)"
| "record_all ops sendto_ok m s (xs # xss) =
     (case recorderCallback ops sendto_ok (m\<lparr>inputBuffer := xs\<rparr>) s of
        Some (Inr (m, s, Some w, _)) \<Rightarrow>
          (case record_all ops sendto_ok m s xss of
             None \<Rightarrow> None
           | Some (ws, m, s) \<Rightarrow> Some (w # ws, m, s))
      | _ \<Rightarrow> None)"

lemma record_all_datagrams:
  assumes "mic_ready m" "media_ready s k" "frames_of ops n" "2 * n \<le> 1024" "\<forall>xs \<in> set xss. length xs = 320"
  shows "\<exists>ws m' s' ds. record_all ops sendto_ok m s xss = Some (ws, m', s') \<and> length ws = length xss \<and>
    ds = encode_buffers ops (media_codec s) (map (heard m) xss) \<and>
    length ds = length xss \<and> (\<forall>d \<in> set ds. length d = 2 * n) \<and>
    (\<forall>i < length xss. ws ! i = datagram_of (media_sender s) (k + i) (of_nat (320 * (k + i + 1))) (ds ! i)) \<and>
    mic_ready m' \<and> muteEnabled m' = muteEnabled m \<and> media_ready s' (k + length xss)"
  using assms(1,2,5)
proof (induction xss arbitrary: m s k)
  case (Cons xs xss)
  have "mic_ready (m\<lparr>inputBuffer := xs\<rparr>)" using Cons.prems(1,3) by (simp add: mic_ready_def)
  from recorderCallback_packet [OF this Cons.prems(2) assms(3,4), of sendto_ok] obtain m1 s1 d where
    1: "recorderCallback ops sendto_ok (m\<lparr>inputBuffer := xs\<rparr>) s =
      Some (Inr (m1, s1, Some (datagram_of (media_sender s) k (of_nat (320 * (k + 1))) d), Enqueue Recorder 640))"
      "length d = 2 * n" "mic_ready m1" "muteEnabled m1 = muteEnabled m" "media_ready s1 (k + 1)"
      "media_sender s1 = (media_sender s)\<lparr>sequenceNumber := of_nat (k + 1)\<rparr>"
      "\<forall>xss. encode_buffers ops (media_codec s) (heard (m\<lparr>inputBuffer := xs\<rparr>) xs # xss) =
        d # encode_buffers ops (media_codec s1) xss" by auto
  have h: "heard (m\<lparr>inputBuffer := xs\<rparr>) = heard m" "heard m1 = heard m"
    using 1(4) by (simp_all add: heard_def fun_eq_iff)
  from Cons.IH [OF 1(3,5)] Cons.prems(3) obtain ws m' s' ds where
    2: "record_all ops sendto_ok m1 s1 xss = Some (ws, m', s')" "length ws = length xss"
      "ds = encode_buffers ops (media_codec s1) (map (heard m) xss)" "length ds = length xss"
      "\<forall>d \<in> set ds. length d = 2 * n"
      "\<forall>i < length xss. ws ! i = datagram_of (media_sender s1) (k + 1 + i) (of_nat (320 * (k + 1 + i + 1))) (ds ! i)"
      "mic_ready m'" "muteEnabled m' = muteEnabled m1" "media_ready s' (k + 1 + length xss)"
    unfolding h by auto
  let ?w = "datagram_of (media_sender s) k (of_nat (320 * (k + 1))) d"
  have w: "\<forall>i < length (xs # xss). (?w # ws) ! i =
      datagram_of (media_sender s) (k + i) (of_nat (320 * (k + i + 1))) ((d # ds) ! i)"
  proof (intro allI impI)
    fix i assume "i < length (xs # xss)"
    then show "(?w # ws) ! i =
        datagram_of (media_sender s) (k + i) (of_nat (320 * (k + i + 1))) ((d # ds) ! i)"
      using 2(6) by (cases i) (simp_all add: 1(6) algebra_simps)
  qed
  have ds: "d # ds = encode_buffers ops (media_codec s) (map (heard m) (xs # xss))"
    using 1(7) 2(3) by (simp only: h list.map)
  show ?case
  proof (intro exI conjI)
    show "record_all ops sendto_ok m s (xs # xss) = Some (?w # ws, m', s')" using 1(1) 2(1) by simp
    show "d # ds = encode_buffers ops (media_codec s) (map (heard m) (xs # xss))" by (rule ds)
    show "media_ready s' (k + length (xs # xss))" using 2(9) by simp
  qed (use w 1(2,4) 2(2,4,5,7,8) in simp_all)
qed simp

end
