(* ===== verification/Audio_Playback.thy ===== *)
theory Audio_Playback
  imports Audio_Devices
begin

text \<open>
  From the socket to the loudspeaker: \<open>src/jni/redphone/WebRtcJitterBuffer.cpp\<close>, the body of the
  receive loop of \<open>CallAudioManager::start\<close>, and the player's callback.

  NetEq is the parameter \<open>neteq_ops\<close>: an object of type \<open>'n\<close> with the calls that the code makes.  It
  copies the payload it is given, so the block that \<open>addAudio\<close> allocates stays allocated; those blocks
  are the field \<open>payload_blocks\<close>.
\<close>

record WebRtcRTPHeader =
  hdr_payloadType :: u8
  hdr_sequenceNumber :: u16
  hdr_timestamp :: u32
  hdr_ssrc :: u32

record 'n neteq_ops =
  neteq_create :: "'n option"
  neteq_register :: "'n \<Rightarrow> bool \<times> 'n"
  neteq_insert :: "WebRtcRTPHeader \<Rightarrow> u8 list \<Rightarrow> u32 \<Rightarrow> 'n \<Rightarrow> bool \<times> 'n"
  neteq_get :: "nat \<Rightarrow> 'n \<Rightarrow> u16 list \<times> 'n"

record 'n WebRtcJitterBuffer =
  neteq :: "'n option"
  payload_blocks :: "u8 list list"

definition new_WebRtcJitterBuffer :: "'n WebRtcJitterBuffer" where
  "new_WebRtcJitterBuffer = \<lparr>neteq = None, payload_blocks = []\<rparr>"

text \<open>After a success the thread that collects statistics is running.\<close>

definition jitter_init :: "'n neteq_ops \<Rightarrow> 'n WebRtcJitterBuffer \<Rightarrow> int \<times> 'n WebRtcJitterBuffer" where
  "jitter_init nops jb =
     (case neteq_create nops of
        None \<Rightarrow> (-1, jb\<lparr>neteq := None\<rparr>)
      | Some n \<Rightarrow> (case neteq_register nops n of (ok, n) \<Rightarrow> (if ok then 0 else -1, jb\<lparr>neteq := Some n\<rparr>)))"

definition addAudio ::
  "'n neteq_ops \<Rightarrow> 'n WebRtcJitterBuffer \<Rightarrow> RtpPacket \<Rightarrow> u32 \<Rightarrow> 'n WebRtcJitterBuffer option" where
  "addAudio nops jb p now =
     do {
       ty \<leftarrow> getPayloadType p;
       sq \<leftarrow> getSequenceNumber p;
       ts \<leftarrow> getTimestamp p;
       ssrc \<leftarrow> getSsrc p;
       payload \<leftarrow> payload_bytes p;
       n \<leftarrow> neteq jb;
       let header = \<lparr>hdr_payloadType = ucast ty, hdr_sequenceNumber = sq, hdr_timestamp = ts, hdr_ssrc = ssrc\<rparr>;
       let (_, n) = neteq_insert nops header payload now n;
       Some (jb\<lparr>neteq := Some n, payload_blocks := payload # payload_blocks jb\<rparr>)
     }"

definition getAudio ::
  "'n neteq_ops \<Rightarrow> 'n WebRtcJitterBuffer \<Rightarrow> u16 list \<Rightarrow> nat \<Rightarrow>
   (nat \<times> u16 list \<times> 'n WebRtcJitterBuffer) option" where
  "getAudio nops jb rawData maxRawData =
     do {
       n \<leftarrow> neteq jb;
       let (samples, n) = neteq_get nops maxRawData n;
       rawData \<leftarrow> write_bytes rawData 0 samples;
       Some (length samples, rawData, jb\<lparr>neteq := Some n\<rparr>)
     }"

definition playerCallback ::
  "'n neteq_ops \<Rightarrow> AudioPlayer \<Rightarrow> 'n WebRtcJitterBuffer \<Rightarrow>
   (AudioPlayer \<times> 'n WebRtcJitterBuffer \<times> sl_call) option" where
  "playerCallback nops p jb =
     do {
       (samples, buf, jb) \<leftarrow> getAudio nops jb (outputBuffer p) FRAME_SIZE;
       Some (p\<lparr>outputBuffer := buf\<rparr>, jb, Enqueue Player (samples * 2))
     }"

subsection \<open>One turn of the receive loop\<close>

record 'n receive_side =
  rs_receiver :: RtpAudioReceiver
  rs_jitter :: "'n WebRtcJitterBuffer"
  rs_clock :: Clock

definition receive_turn ::
  "'n neteq_ops \<Rightarrow> 'n receive_side \<Rightarrow> u8 list option \<Rightarrow> 'n receive_side option" where
  "receive_turn nops st recv =
     do {
       (q, r) \<leftarrow> receiver_receive (rs_receiver st) recv 4096;
       let st = st\<lparr>rs_receiver := r\<rparr>;
       case q of
         None \<Rightarrow> Some st
       | Some p \<Rightarrow>
           do {
             ts \<leftarrow> getTimestamp p;
             (p, clock) \<leftarrow>
               (if ts = 0 then
                  let (t, clock) = getImprovisedTimestamp (rs_clock st) (getPayloadLen p)
                  in map_option (\<lambda>p. (p, clock)) (setTimestamp p t)
                else Some (p, rs_clock st));
             jb \<leftarrow> addAudio nops (rs_jitter st) p (tickCount clock);
             Some (st\<lparr>rs_jitter := jb, rs_clock := clock\<rparr>)
           }
     }"

fun receive_turns ::
  "'n neteq_ops \<Rightarrow> 'n receive_side \<Rightarrow> u8 list option list \<Rightarrow> 'n receive_side option" where
  "receive_turns nops st [] = Some st"
| "receive_turns nops st (w # ws) =
     (case receive_turn nops st w of None \<Rightarrow> None | Some st \<Rightarrow> receive_turns nops st ws)"

subsection \<open>A genuine datagram reaches NetEq\<close>

definition header_of :: "nat \<Rightarrow> u32 \<Rightarrow> WebRtcRTPHeader" where
  "header_of k ts = \<lparr>hdr_payloadType = 0, hdr_sequenceNumber = of_nat k, hdr_timestamp = ts, hdr_ssrc = 0\<rparr>"

text \<open>NetEq after it has been given a list of packets.\<close>

definition neteq_given ::
  "'n neteq_ops \<Rightarrow> u32 \<Rightarrow> (WebRtcRTPHeader \<times> u8 list) list \<Rightarrow> 'n \<Rightarrow> 'n" where
  "neteq_given nops now ps n = foldl (\<lambda>n (h, d). snd (neteq_insert nops h d now n)) n ps"

lemma receive_turn_delivers:
  assumes "paired s (rs_receiver st)" "synced (sequenceCounter (rs_receiver st)) l"
    and "- 0x8000 \<le> int k - l" "int k - l \<le> 0x7fff" "k < 2 ^ 32"
    and "d \<noteq> []" "length d + 32 \<le> 4096" "ts \<noteq> 0" "neteq (rs_jitter st) = Some n"
  shows "\<exists>st'. receive_turn nops st (Some (datagram_of s k ts d)) = Some st' \<and>
    neteq (rs_jitter st') = Some (neteq_given nops (tickCount (rs_clock st)) [(header_of k ts, d)] n) \<and>
    payload_blocks (rs_jitter st') = d # payload_blocks (rs_jitter st) \<and>
    rs_clock st' = rs_clock st \<and> paired s (rs_receiver st') \<and> synced (sequenceCounter (rs_receiver st')) (int k)"
proof -
  let ?s = "s\<lparr>sequenceNumber := of_nat k\<rparr>"
  have "paired ?s (rs_receiver st)" "sequenceNumber ?s = of_nat k" using assms(1) by (simp_all add: paired_upd)
  from send_receive [OF this(1) assms(6,7) this(2) assms(5,2-4), of ts] obtain s' w q r' where
    1: "sender_send (\<lambda>_. True) ?s ts d = Some (0, s', Some w)"
      "receiver_receive (rs_receiver st) (Some w) 4096 = Some (Some q, r')" "payload_bytes q = Some d"
      "getTimestamp q = Some ts" "getSequenceNumber q = Some (of_nat k)" "synced (sequenceCounter r') (int k)"
      "getPayloadType q = Some 0" "getSsrc q = Some 0" by metis
  have w: "datagram_of s k ts d = w" using 1(1) by (simp add: datagram_of_def)
  have "rcv_stream r' = rcv_stream (rs_receiver st)"
    using 1(2) by (auto simp: receiver_receive_def Let_def split: option.splits bind_splits prod.splits if_splits)
  then have "paired s r'" using assms(1) by (simp add: paired_def)
  then show ?thesis
    using 1 assms(8,9)
    by (simp add: receive_turn_def w addAudio_def Let_def case_prod_beta neteq_given_def header_of_def)
qed

lemma receive_turns_deliver:
  assumes "paired s (rs_receiver st)" "synced (sequenceCounter (rs_receiver st)) l" "in_window l (map fst fs)"
    and "\<forall>(k, ts, d) \<in> set fs. k < 2 ^ 32 \<and> d \<noteq> [] \<and> length d + 32 \<le> 4096 \<and> ts \<noteq> 0"
    and "neteq (rs_jitter st) = Some n"
  shows "\<exists>st'. receive_turns nops st (map (\<lambda>(k, ts, d). Some (datagram_of s k ts d)) fs) = Some st' \<and>
    neteq (rs_jitter st') =
      Some (neteq_given nops (tickCount (rs_clock st)) (map (\<lambda>(k, ts, d). (header_of k ts, d)) fs) n) \<and>
    payload_blocks (rs_jitter st') = rev (map (\<lambda>(k, ts, d). d) fs) @ payload_blocks (rs_jitter st)"
  using assms
proof (induction fs arbitrary: st l n)
  case (Cons f fs)
  obtain k ts d where f: "f = (k, ts, d)" by (cases f)
  have "- 0x8000 \<le> int k - l" "int k - l \<le> 0x7fff" "k < 2 ^ 32" "d \<noteq> []" "length d + 32 \<le> 4096" "ts \<noteq> 0"
    using Cons.prems(3,4) by (auto simp: f)
  from receive_turn_delivers [OF Cons.prems(1,2) this Cons.prems(5), of nops] obtain st1 where
    1: "receive_turn nops st (Some (datagram_of s k ts d)) = Some st1"
      "neteq (rs_jitter st1) = Some (neteq_given nops (tickCount (rs_clock st)) [(header_of k ts, d)] n)"
      "payload_blocks (rs_jitter st1) = d # payload_blocks (rs_jitter st)"
      "rs_clock st1 = rs_clock st" "paired s (rs_receiver st1)" "synced (sequenceCounter (rs_receiver st1)) (int k)"
    by blast
  from Cons.IH [OF 1(5,6) _ _ 1(2)] Cons.prems(3,4) show ?case
    by (auto simp: f 1 neteq_given_def)
qed (simp add: neteq_given_def)

subsection \<open>From one microphone to the other end's NetEq\<close>

lemma timestamp_nonzero: "k < 2 ^ 23 \<Longrightarrow> (of_nat (320 * (k + 1)) :: u32) \<noteq> 0"
proof -
  assume k: "k < 2 ^ 23"
  have "unat (of_nat (320 * (k + 1)) :: u32) = 320 * (k + 1)"
    using k by (subst unsigned_of_nat) (simp add: take_bit_nat_eq_self)
  then show ?thesis by (metis nat_zero_less_power_iff unat_0 mult_is_0 add_is_0 zero_neq_one zero_neq_numeral)
qed

lemma media_path:
  assumes "mic_ready m" "media_ready s 0" "frames_of ops n" "0 < n" "2 * n \<le> 1024"
    and "\<forall>xs \<in> set xss. length xs = 320" "length xss < 2 ^ 23"
    and "paired (media_sender s) (rs_receiver st)" "synced (sequenceCounter (rs_receiver st)) 0"
    and "neteq (rs_jitter st) = Some nq" "set ks \<subseteq> {..<length xss}" "in_window 0 ks"
  shows "\<exists>ws m' s' ds st'. record_all ops sendto_ok m s xss = Some (ws, m', s') \<and>
    length ws = length xss \<and> ds = encode_buffers ops (media_codec s) (map (heard m) xss) \<and>
    length ds = length xss \<and> (\<forall>d \<in> set ds. length d = 2 * n) \<and>
    receive_turns nops st (map (\<lambda>k. Some (ws ! k)) ks) = Some st' \<and>
    neteq (rs_jitter st') = Some (neteq_given nops (tickCount (rs_clock st))
      (map (\<lambda>k. (header_of k (of_nat (320 * (k + 1))), ds ! k)) ks) nq) \<and>
    payload_blocks (rs_jitter st') = rev (map ((!) ds) ks) @ payload_blocks (rs_jitter st)"
proof -
  from record_all_datagrams [OF assms(1-3,5,6), of sendto_ok] obtain ws m' s' ds where
    r: "record_all ops sendto_ok m s xss = Some (ws, m', s')" "length ws = length xss" "length ds = length xss"
      "\<forall>d \<in> set ds. length d = 2 * n" and ds: "ds = encode_buffers ops (media_codec s) (map (heard m) xss)" and
    wire:
      "\<forall>i < length xss. ws ! i = datagram_of (media_sender s) i (of_nat (320 * (i + 1))) (ds ! i)"
    by auto
  let ?f = "\<lambda>k. (k, of_nat (320 * (k + 1)) :: u32, ds ! k)"
  have fs: "\<forall>(k, ts, d) \<in> set (map ?f ks). k < 2 ^ 32 \<and> d \<noteq> [] \<and> length d + 32 \<le> 4096 \<and> ts \<noteq> 0"
  proof -
    have "k < 2 ^ 32 \<and> ds ! k \<noteq> [] \<and> length (ds ! k) + 32 \<le> 4096 \<and> (of_nat (320 * (k + 1)) :: u32) \<noteq> 0"
      if "k \<in> set ks" for k
    proof -
      have k: "k < length xss" "k < 2 ^ 23" using that assms(7,11) by auto
      then have "length (ds ! k) = 2 * n" using r(3,4) by simp
      then show ?thesis using timestamp_nonzero [OF k(2)] k(2) assms(4,5) by auto
    qed
    then show ?thesis by auto
  qed
  have "in_window 0 (map fst (map ?f ks))" using assms(12) by (simp add: comp_def)
  from receive_turns_deliver [OF assms(8,9) this fs assms(10), of nops] obtain st' where
    st': "receive_turns nops st (map (\<lambda>(k, ts, d). Some (datagram_of (media_sender s) k ts d)) (map ?f ks)) = Some st'"
      "neteq (rs_jitter st') = Some (neteq_given nops (tickCount (rs_clock st))
        (map (\<lambda>(k, ts, d). (header_of k ts, d)) (map ?f ks)) nq)"
      "payload_blocks (rs_jitter st') = rev (map (\<lambda>(k, ts, d). d) (map ?f ks)) @ payload_blocks (rs_jitter st)"
    by blast
  have sent: "map (\<lambda>(k, ts, d). Some (datagram_of (media_sender s) k ts d)) (map ?f ks) = map (\<lambda>k. Some (ws ! k)) ks"
    using wire assms(11) by auto
  then show ?thesis
    using r ds st'(1) [unfolded sent] st'(2,3)
    by (intro exI [of _ ws] exI [of _ m'] exI [of _ s'] exI [of _ ds] exI [of _ st'])
      (simp add: comp_def)
qed

end
