(* ===== verification/Call_Manager.thy ===== *)
theory Call_Manager
  imports Audio_Playback
begin

text \<open>
  \<open>src/jni/redphone/CallAudioManager.cpp\<close>: the object of one call, and its life between the threads
  that use it.  The Java side calls \<open>start\<close> on one thread, which stays in the receive loop for the whole
  call, \<open>stop\<close> and then \<open>dispose\<close> on another; OpenSL ES calls back on threads of its own.

  \<open>call_step env who s s'\<close> is one step of the thread \<open>who\<close>.  Each call of OpenSL ES in \<open>start\<close>, \<open>stop\<close> and
  \<open>dispose\<close> (with the test of its pointer), each assignment of a pointer to null or of a flag, each
  initialisation of a component without a device and each turn of the loop is one step, so that the threads
  interleave between them.  Locking and signalling the initialised mutex and condition do not fail.
\<close>

subsection \<open>The manager\<close>

text \<open>\<open>env_sl\<close> tells which calls of \<open>start\<close> succeed; what those of \<open>stop\<close> return is ignored.\<close>

record ('e, 'd, 'a, 'n) call_env =
  env_codec :: "('e, 'd, 'a) codec_ops"
  env_neteq :: "'n neteq_ops"
  env_sl :: "sl_call \<Rightarrow> bool"
  env_sendto :: "u8 list \<Rightarrow> bool"

record ('e, 'd, 'a, 'n) CallAudioManager =
  running :: bool
  finished :: bool
  engineObject :: bool
  cm_media :: "('e, 'd, 'a) call_media"
  cm_receiver :: RtpAudioReceiver
  cm_jitter :: "'n WebRtcJitterBuffer"
  cm_mic :: MicrophoneReader
  cm_player :: AudioPlayer

definition new_CallAudioManager ::
  "int \<Rightarrow> SrtpStreamParameters \<Rightarrow> SrtpStreamParameters \<Rightarrow> AES_KEY \<Rightarrow> AES_KEY \<Rightarrow>
   ('e, 'd, 'a) AudioCodec \<Rightarrow> MicrophoneReader \<Rightarrow> AudioPlayer \<Rightarrow> ('e, 'd, 'a, 'n) CallAudioManager" where
  "new_CallAudioManager sdk senderParameters receiverParameters key1 key2 codec mic player =
     \<lparr>running = False, finished = True, engineObject = False,
      cm_media = \<lparr>media_codec = new_AudioCodec codec,
        media_sender = new_RtpAudioSender senderParameters key1, media_clock = new_Clock\<rparr>,
      cm_receiver = new_RtpAudioReceiver receiverParameters key2,
      cm_jitter = new_WebRtcJitterBuffer,
      cm_mic = new_MicrophoneReader sdk mic, cm_player = new_AudioPlayer player\<rparr>"

fun is_set :: "('e, 'd, 'a, 'n) CallAudioManager \<Rightarrow> sl_pointer \<Rightarrow> bool" where
  "is_set c The_Engine = engineObject c"
| "is_set c The_Recorder = recorderObject (cm_mic c)"
| "is_set c The_Record = recorderRecord (cm_mic c)"
| "is_set c The_Recorder_Queue = recorderBufferQueue (cm_mic c)"
| "is_set c The_Mix = outputMixObject (cm_player c)"
| "is_set c The_Player = bqPlayerObject (cm_player c)"
| "is_set c The_Play = bqPlayerPlay (cm_player c)"
| "is_set c The_Player_Queue = bqPlayerBufferQueue (cm_player c)"

fun set_pointer ::
  "sl_pointer \<Rightarrow> bool \<Rightarrow> ('e, 'd, 'a, 'n) CallAudioManager \<Rightarrow> ('e, 'd, 'a, 'n) CallAudioManager" where
  "set_pointer The_Engine v c = c\<lparr>engineObject := v\<rparr>"
| "set_pointer The_Recorder v c = c\<lparr>cm_mic := (cm_mic c)\<lparr>recorderObject := v\<rparr>\<rparr>"
| "set_pointer The_Record v c = c\<lparr>cm_mic := (cm_mic c)\<lparr>recorderRecord := v\<rparr>\<rparr>"
| "set_pointer The_Recorder_Queue v c = c\<lparr>cm_mic := (cm_mic c)\<lparr>recorderBufferQueue := v\<rparr>\<rparr>"
| "set_pointer The_Mix v c = c\<lparr>cm_player := (cm_player c)\<lparr>outputMixObject := v\<rparr>\<rparr>"
| "set_pointer The_Player v c = c\<lparr>cm_player := (cm_player c)\<lparr>bqPlayerObject := v\<rparr>\<rparr>"
| "set_pointer The_Play v c = c\<lparr>cm_player := (cm_player c)\<lparr>bqPlayerPlay := v\<rparr>\<rparr>"
| "set_pointer The_Player_Queue v c = c\<lparr>cm_player := (cm_player c)\<lparr>bqPlayerBufferQueue := v\<rparr>\<rparr>"

lemma is_set_pointer: "is_set (set_pointer p v c) = (is_set c)(p := v)"
proof
  fix q show "is_set (set_pointer p v c) q = ((is_set c)(p := v)) q" by (cases p; cases q) simp_all
qed

lemma set_pointer_flags: "running (set_pointer p v c) = running c" "finished (set_pointer p v c) = finished c"
  by (cases p; simp)+

subsection \<open>Single instructions\<close>

text \<open>\<open>None\<close> once an object has been misused, a null pointer used, or the manager used after it was deleted.  A call
  that fails needs its object as well, but has no effect.\<close>

definition through_ok :: "(sl_pointer \<Rightarrow> bool) \<Rightarrow> sl_call \<Rightarrow> bool" where
  "through_ok P call \<longleftrightarrow> (case made_through call of None \<Rightarrow> True | Some p \<Rightarrow> P p)"

definition use_object :: "(sl_pointer \<Rightarrow> bool) \<Rightarrow> bool \<Rightarrow> sl_call \<Rightarrow> sl_world option \<Rightarrow> sl_world option" where
  "use_object P ok call w =
     (if through_ok P call
      then do { w \<leftarrow> w; w' \<leftarrow> sl_step call w; Some (if ok then w' else w) }
      else None)"

definition assign :: "sl_call \<Rightarrow> ('e, 'd, 'a, 'n) CallAudioManager \<Rightarrow> ('e, 'd, 'a, 'n) CallAudioManager" where
  "assign call c = (case assigned_pointer call of None \<Rightarrow> c | Some p \<Rightarrow> set_pointer p True c)"

fun init_component ::
  "('e, 'd, 'a, 'n) call_env \<Rightarrow> component \<Rightarrow> ('e, 'd, 'a, 'n) CallAudioManager \<Rightarrow>
   int \<times> ('e, 'd, 'a, 'n) CallAudioManager" where
  "init_component env Codec c =
     (case codec_init (env_codec env) (media_codec (cm_media c)) of
        (r, codec) \<Rightarrow> (r, c\<lparr>cm_media := (cm_media c)\<lparr>media_codec := codec\<rparr>\<rparr>))"
| "init_component env Sender c =
     (case sender_init (media_sender (cm_media c)) of
        (r, s) \<Rightarrow> (r, c\<lparr>cm_media := (cm_media c)\<lparr>media_sender := s\<rparr>\<rparr>))"
| "init_component env Receiver c = (case receiver_init (cm_receiver c) of (r, s) \<Rightarrow> (r, c\<lparr>cm_receiver := s\<rparr>))"
| "init_component env Jitter c = (case jitter_init (env_neteq env) (cm_jitter c) of (r, j) \<Rightarrow> (r, c\<lparr>cm_jitter := j\<rparr>))"

text \<open>The first result is \<open>None\<close> when \<open>start\<close> returns -1, and otherwise how many instructions are skipped.\<close>

fun exec_start ::
  "('e, 'd, 'a, 'n) call_env \<Rightarrow> start_instr \<Rightarrow> ('e, 'd, 'a, 'n) CallAudioManager \<times> sl_world option \<Rightarrow>
   nat option \<times> ('e, 'd, 'a, 'n) CallAudioManager \<times> sl_world option" where
  "exec_start env (Must call) (c, w) =
     (if env_sl env call then (Some 0, assign call c, use_object (is_set c) True call w)
      else (None, c, use_object (is_set c) False call w))"
| "exec_start env (May call n) (c, w) =
     (if env_sl env call then (Some 0, assign call c, use_object (is_set c) True call w)
      else (Some n, c, use_object (is_set c) False call w))"
| "exec_start env Zero_Output (c, w) =
     (Some 0, c\<lparr>cm_player := (cm_player c)\<lparr>outputBuffer := replicate FRAME_SIZE 0\<rparr>\<rparr>, w)"
| "exec_start env (Init x) (c, w) =
     (case init_component env x c of (r, c) \<Rightarrow> (if r = 0 then Some 0 else None, c, w))"

fun exec_stop ::
  "stop_instr \<Rightarrow> ('e, 'd, 'a, 'n) CallAudioManager \<times> sl_world option \<Rightarrow>
   nat \<times> ('e, 'd, 'a, 'n) CallAudioManager \<times> sl_world option" where
  "exec_stop (If_Set call) (c, w) = (0, c, if through_ok (is_set c) call then use_object (is_set c) True call w else w)"
| "exec_stop (Destroy_Or_Skip x n) (c, w) =
     (if is_set c (object_pointer x) then (0, c, use_object (is_set c) True (Destroy x) w) else (n, c, w))"
| "exec_stop (Forget p) (c, w) = (0, set_pointer p False c, w)"
| "exec_stop Stop_Jitter (c, w) = (0, c, w)"
| "exec_stop Free_Address (c, w) = (0, c, w)"

subsection \<open>The code of start, stop and dispose\<close>

text \<open>\<open>start\<close> up to its loop, \<open>stop\<close> up to its wait, and the destructor.\<close>

definition start_code :: "int \<Rightarrow> start_instr list" where
  "start_code sdk =
     [Must (Create Engine_Object), Must (Realize Engine_Object), Must (Get_Interface Engine_Object IID_ENGINE),
      Init Codec, Init Sender, Init Receiver, Init Jitter] @ mic_start sdk @ player_start"

definition stop_code :: "stop_instr list" where
  "stop_code = mic_stop @ player_stop @ [Stop_Jitter]"

definition dispose_code :: "stop_instr list" where
  "dispose_code = mic_stop @ player_stop @ [Stop_Jitter, Free_Address, Destroy_Or_Skip Engine_Object 0]"

text \<open>\<open>start\<close> up to the loop, when no other thread interferes.\<close>

function run_start ::
  "('e, 'd, 'a, 'n) call_env \<Rightarrow> start_instr list \<Rightarrow> ('e, 'd, 'a, 'n) CallAudioManager \<times> sl_world option \<Rightarrow>
   bool \<times> ('e, 'd, 'a, 'n) CallAudioManager \<times> sl_world option" where
  "run_start env [] s = (True, s)"
| "run_start env (i # is) s =
     (case exec_start env i s of
        (None, s) \<Rightarrow> (False, s)
      | (Some n, s) \<Rightarrow> run_start env (drop n is) s)"
  by pat_completeness auto
termination by (relation "measure (\<lambda>(env, is, s). length is)") auto

subsection \<open>Steps\<close>

datatype start_pc = Not_Started | Begun | Starting "start_instr list" | Looping | Leaving | Returned int
datatype stop_pc = Not_Stopped | In_Stop nat | Waiting | Stopped | In_Dispose nat | Disposed
datatype actor = Start_Thread | Stop_Thread | Audio_Thread | User

text \<open>The order in which \<open>stop\<close> and \<open>dispose\<close> go through their states.\<close>

fun stop_phase :: "stop_pc \<Rightarrow> nat \<times> nat" where
  "stop_phase Not_Stopped = (0, 0)"
| "stop_phase (In_Stop k) = (1, k)"
| "stop_phase Waiting = (2, 0)"
| "stop_phase Stopped = (3, 0)"
| "stop_phase (In_Dispose k) = (4, k)"
| "stop_phase Disposed = (5, 0)"

lemma stop_phase_inject: "stop_phase x = stop_phase y \<longleftrightarrow> x = y"
  by (cases x; cases y) simp_all

instantiation stop_pc :: linorder
begin

definition less_eq_stop_pc :: "stop_pc \<Rightarrow> stop_pc \<Rightarrow> bool" where
  "x \<le> y \<longleftrightarrow> fst (stop_phase x) < fst (stop_phase y) \<or>
     fst (stop_phase x) = fst (stop_phase y) \<and> snd (stop_phase x) \<le> snd (stop_phase y)"

definition less_stop_pc :: "stop_pc \<Rightarrow> stop_pc \<Rightarrow> bool" where
  "x < y \<longleftrightarrow> fst (stop_phase x) < fst (stop_phase y) \<or>
     fst (stop_phase x) = fst (stop_phase y) \<and> snd (stop_phase x) < snd (stop_phase y)"

instance
proof
  fix x y :: stop_pc
  assume "x \<le> y" "y \<le> x"
  then have "stop_phase x = stop_phase y" by (auto simp: less_eq_stop_pc_def prod_eq_iff)
  then show "x = y" by (simp add: stop_phase_inject)
qed (auto simp: less_eq_stop_pc_def less_stop_pc_def)

end

lemmas stop_pc_order = less_eq_stop_pc_def less_stop_pc_def

text \<open>\<open>objects\<close> is \<open>None\<close> after a misuse.\<close>

record ('e, 'd, 'a, 'n) call_state =
  cam :: "('e, 'd, 'a, 'n) CallAudioManager"
  start_pc :: start_pc
  stop_pc :: stop_pc
  objects :: "sl_world option"
  sent :: "u8 list list"

definition init_state :: "('e, 'd, 'a, 'n) CallAudioManager \<Rightarrow> ('e, 'd, 'a, 'n) call_state" where
  "init_state c =
     \<lparr>cam = c, start_pc = Not_Started, stop_pc = Not_Stopped, objects = Some Map.empty, sent = []\<rparr>"

text \<open>The threads that do not know that the manager has been deleted use it in every step.\<close>

definition living :: "('e, 'd, 'a, 'n) call_state \<Rightarrow> sl_world option \<Rightarrow> sl_world option" where
  "living s w = (if stop_pc s = Disposed then None else w)"

definition is_on :: "sl_world option \<Rightarrow> sl_object \<Rightarrow> bool" where
  "is_on w x \<longleftrightarrow> (case w of None \<Rightarrow> False | Some w \<Rightarrow> w x = Some True)"

definition put_receive_side ::
  "'n receive_side \<Rightarrow> ('e, 'd, 'a, 'n) CallAudioManager \<Rightarrow> ('e, 'd, 'a, 'n) CallAudioManager" where
  "put_receive_side r c =
     c\<lparr>cm_receiver := rs_receiver r, cm_jitter := rs_jitter r,
       cm_media := (cm_media c)\<lparr>media_clock := rs_clock r\<rparr>\<rparr>"

definition receive_side_of :: "('e, 'd, 'a, 'n) CallAudioManager \<Rightarrow> 'n receive_side" where
  "receive_side_of c =
     \<lparr>rs_receiver = cm_receiver c, rs_jitter = cm_jitter c, rs_clock = media_clock (cm_media c)\<rparr>"

inductive call_step ::
  "('e, 'd, 'a, 'n) call_env \<Rightarrow> actor \<Rightarrow> ('e, 'd, 'a, 'n) call_state \<Rightarrow> ('e, 'd, 'a, 'n) call_state \<Rightarrow> bool"
  for env where
  start: "start_pc s = Not_Started \<Longrightarrow>
    call_step env Start_Thread s
      (s\<lparr>cam := (cam s)\<lparr>running := True\<rparr>, objects := living s (objects s), start_pc := Begun\<rparr>)"
| begun: "start_pc s = Begun \<Longrightarrow>
    call_step env Start_Thread s
      (s\<lparr>cam := (cam s)\<lparr>finished := False\<rparr>, objects := living s (objects s),
         start_pc := Starting (start_code (androidSdkVersion (cm_mic (cam s))))\<rparr>)"
| instr_ok: "start_pc s = Starting (i # is) \<Longrightarrow> exec_start env i (cam s, objects s) = (Some n, c, w) \<Longrightarrow>
    call_step env Start_Thread s (s\<lparr>cam := c, objects := living s w, start_pc := Starting (drop n is)\<rparr>)"
| instr_fail: "start_pc s = Starting (i # is) \<Longrightarrow> exec_start env i (cam s, objects s) = (None, c, w) \<Longrightarrow>
    call_step env Start_Thread s (s\<lparr>cam := c, objects := living s w, start_pc := Returned (-1)\<rparr>)"
| enter: "start_pc s = Starting [] \<Longrightarrow> call_step env Start_Thread s (s\<lparr>start_pc := Looping\<rparr>)"
| turn: "start_pc s = Looping \<Longrightarrow> running (cam s) \<Longrightarrow>
    receive_turn (env_neteq env) (receive_side_of (cam s)) recv = Some r \<Longrightarrow>
    call_step env Start_Thread s (s\<lparr>cam := put_receive_side r (cam s), objects := living s (objects s)\<rparr>)"
| leave: "start_pc s = Looping \<Longrightarrow> \<not> running (cam s) \<Longrightarrow>
    call_step env Start_Thread s (s\<lparr>objects := living s (objects s), start_pc := Leaving\<rparr>)"
| signal: "start_pc s = Leaving \<Longrightarrow>
    call_step env Start_Thread s
      (s\<lparr>cam := (cam s)\<lparr>finished := True\<rparr>, objects := living s (objects s), start_pc := Returned 0\<rparr>)"
| stop: "stop_pc s = Not_Stopped \<Longrightarrow>
    call_step env Stop_Thread s (s\<lparr>cam := (cam s)\<lparr>running := False\<rparr>, stop_pc := In_Stop 0\<rparr>)"
| stop_instr: "stop_pc s = In_Stop k \<Longrightarrow> k < length stop_code \<Longrightarrow>
    exec_stop (stop_code ! k) (cam s, objects s) = (n, c, w) \<Longrightarrow>
    call_step env Stop_Thread s (s\<lparr>cam := c, objects := w, stop_pc := In_Stop (k + 1 + n)\<rparr>)"
| wait: "stop_pc s = In_Stop k \<Longrightarrow> length stop_code \<le> k \<Longrightarrow> call_step env Stop_Thread s (s\<lparr>stop_pc := Waiting\<rparr>)"
| woken: "stop_pc s = Waiting \<Longrightarrow> finished (cam s) \<Longrightarrow>
    call_step env Stop_Thread s (s\<lparr>stop_pc := Stopped\<rparr>)"
| dispose: "stop_pc s = Stopped \<Longrightarrow> call_step env Stop_Thread s (s\<lparr>stop_pc := In_Dispose 0\<rparr>)"
| dispose_instr: "stop_pc s = In_Dispose k \<Longrightarrow> k < length dispose_code \<Longrightarrow>
    exec_stop (dispose_code ! k) (cam s, objects s) = (n, c, w) \<Longrightarrow>
    call_step env Stop_Thread s (s\<lparr>cam := c, objects := w, stop_pc := In_Dispose (k + 1 + n)\<rparr>)"
| disposed: "stop_pc s = In_Dispose k \<Longrightarrow> length dispose_code \<le> k \<Longrightarrow>
    call_step env Stop_Thread s (s\<lparr>stop_pc := Disposed\<rparr>)"
| recorded: "is_on (objects s) Recorder \<Longrightarrow> length xs = 320 \<Longrightarrow>
    recorderCallback (env_codec env) (env_sendto env) ((cm_mic (cam s))\<lparr>inputBuffer := xs\<rparr>) (cm_media (cam s)) =
      Some (Inr (m, media, w, call)) \<Longrightarrow>
    call_step env Audio_Thread s
      (s\<lparr>cam := (cam s)\<lparr>cm_mic := m, cm_media := media\<rparr>, objects := living s (Option.bind (objects s) (sl_step call)),
         sent := sent s @ (case w of None \<Rightarrow> [] | Some w \<Rightarrow> [w])\<rparr>)"
| played: "is_on (objects s) Player \<Longrightarrow>
    playerCallback (env_neteq env) (cm_player (cam s)) (cm_jitter (cam s)) = Some (p, jb, call) \<Longrightarrow>
    call_step env Audio_Thread s
      (s\<lparr>cam := (cam s)\<lparr>cm_player := p, cm_jitter := jb\<rparr>, objects := living s (Option.bind (objects s) (sl_step call))\<rparr>)"
| mute: "stop_pc s \<noteq> Disposed \<Longrightarrow>
    call_step env User s (s\<lparr>cam := (cam s)\<lparr>cm_mic := setMute (cm_mic (cam s)) v\<rparr>\<rparr>)"

inductive call_steps ::
  "('e, 'd, 'a, 'n) call_env \<Rightarrow> ('e, 'd, 'a, 'n) call_state \<Rightarrow> ('e, 'd, 'a, 'n) call_state \<Rightarrow> bool"
  for env where
  none: "call_steps env s s"
| more: "call_steps env s t \<Longrightarrow> call_step env who t u \<Longrightarrow> call_steps env s u"

lemma call_steps_trans: "call_steps env t u \<Longrightarrow> call_steps env s t \<Longrightarrow> call_steps env s u"
  by (induction rule: call_steps.induct) (auto intro: call_steps.intros)

lemma call_steps_one: "call_step env who s t \<Longrightarrow> call_steps env s t"
  by (rule call_steps.more [OF call_steps.none])

inductive_cases start_thread_step: "call_step env Start_Thread s t"
inductive_cases stop_thread_step: "call_step env Stop_Thread s t"
inductive_cases audio_thread_step: "call_step env Audio_Thread s t"
inductive_cases user_step: "call_step env User s t"

text \<open>Which program counters the steps of each actor move.\<close>

lemma start_thread_frame: "call_step env Start_Thread s t \<Longrightarrow> stop_pc t = stop_pc s"
  by (erule start_thread_step) auto

lemma stop_thread_frame: "call_step env Stop_Thread s t \<Longrightarrow> start_pc t = start_pc s \<and> stop_pc s < stop_pc t"
  by (erule stop_thread_step) (auto simp: stop_pc_order)

lemma audio_thread_frame: "call_step env Audio_Thread s t \<Longrightarrow> start_pc t = start_pc s \<and> stop_pc t = stop_pc s"
  by (erule audio_thread_step) auto

lemma user_frame: "call_step env User s t \<Longrightarrow> start_pc t = start_pc s \<and> stop_pc t = stop_pc s"
  by (erule user_step) auto

lemmas actor_frames = start_thread_frame stop_thread_frame audio_thread_frame user_frame

lemma stop_forward: "call_steps env s t \<Longrightarrow> stop_pc s \<le> stop_pc t"
proof (induction rule: call_steps.induct)
  case (more s t who u)
  then show ?case by (cases who) (auto dest: actor_frames)
qed simp

end
