(* ===== verification/Call_Release.thy ===== *)
theory Call_Release
  imports Call_Manager
begin

text \<open>
  What the threads of a call do to the objects of OpenSL ES, for every interleaving in which \<open>stop\<close> is not
  called before \<open>start\<close> has reached its loop or has failed: \<open>calm\<close> is the invariant, \<open>orderly\<close> adds that the loop
  was reached.  At the end, runs in which \<open>stop\<close> comes earlier.
\<close>

subsection \<open>What the instructions keep\<close>

lemma recorderCallback_frame:
  "recorderCallback ops sendto_ok m s = Some (Inr (m', s', w, call)) \<Longrightarrow>
    recorderObject m' = recorderObject m \<and> recorderRecord m' = recorderRecord m \<and>
    recorderBufferQueue m' = recorderBufferQueue m \<and> call = Enqueue Recorder 640"
  by (auto simp: recorderCallback_def Let_def split: option.splits sum.splits prod.splits if_splits)

lemma playerCallback_frame:
  "playerCallback nops p jb = Some (p', jb', call) \<Longrightarrow>
    bqPlayerObject p' = bqPlayerObject p \<and> bqPlayerPlay p' = bqPlayerPlay p \<and>
    bqPlayerBufferQueue p' = bqPlayerBufferQueue p \<and> outputMixObject p' = outputMixObject p \<and>
    (\<exists>n. call = Enqueue Player n)"
  by (auto simp: playerCallback_def getAudio_def Let_def split: bind_splits prod.splits)

lemma is_set_cong:
  assumes "engineObject c' = engineObject c"
    and "recorderObject (cm_mic c') = recorderObject (cm_mic c)" "recorderRecord (cm_mic c') = recorderRecord (cm_mic c)"
    and "recorderBufferQueue (cm_mic c') = recorderBufferQueue (cm_mic c)"
    and "outputMixObject (cm_player c') = outputMixObject (cm_player c)"
    and "bqPlayerObject (cm_player c') = bqPlayerObject (cm_player c)" "bqPlayerPlay (cm_player c') = bqPlayerPlay (cm_player c)"
    and "bqPlayerBufferQueue (cm_player c') = bqPlayerBufferQueue (cm_player c)"
  shows "is_set c' = is_set c"
proof
  fix p show "is_set c' p = is_set c p" using assms by (cases p) simp_all
qed

lemma is_set_frame [simp]:
  "is_set (c\<lparr>running := v\<rparr>) = is_set c" "is_set (c\<lparr>finished := v\<rparr>) = is_set c"
  "is_set (c\<lparr>cm_mic := setMute (cm_mic c) v\<rparr>) = is_set c" "is_set (put_receive_side r c) = is_set c"
  "is_set (c\<lparr>cm_player := (cm_player c)\<lparr>outputBuffer := xs\<rparr>\<rparr>) = is_set c"
  by (rule is_set_cong; simp add: setMute_def put_receive_side_def)+

lemma recorded_is_set:
  "recorderCallback ops sendto_ok ((cm_mic c)\<lparr>inputBuffer := xs\<rparr>) s = Some (Inr (m', s', w, call)) \<Longrightarrow>
    is_set (c\<lparr>cm_mic := m', cm_media := s'\<rparr>) = is_set c"
  by (drule recorderCallback_frame, rule is_set_cong) simp_all

lemma played_is_set:
  "playerCallback nops (cm_player c) jb = Some (p', jb', call) \<Longrightarrow>
    is_set (c\<lparr>cm_player := p', cm_jitter := jb'\<rparr>) = is_set c"
  by (drule playerCallback_frame, rule is_set_cong) auto

lemma init_component_frame:
  "init_component env x c = (r, c') \<Longrightarrow>
    is_set c' = is_set c \<and> running c' = running c \<and> finished c' = finished c"
  by (cases x) (auto intro!: is_set_cong split: prod.splits)

definition assigned :: "sl_call \<Rightarrow> (sl_pointer \<Rightarrow> bool) \<Rightarrow> sl_pointer \<Rightarrow> bool" where
  "assigned call P = (case assigned_pointer call of None \<Rightarrow> P | Some p \<Rightarrow> P(p := True))"

lemma assign_frame:
  "is_set (assign call c) = assigned call (is_set c)" "running (assign call c) = running c"
  "finished (assign call c) = finished c"
  by (simp_all add: assign_def assigned_def is_set_pointer set_pointer_flags split: option.splits)

lemma start_instr_flags:
  "exec_start env i (c, w) = (r, c', w') \<Longrightarrow> running c' = running c \<and> finished c' = finished c"
  by (cases i) (auto simp: assign_frame split: if_splits prod.splits dest: init_component_frame)

lemma stop_instr_flags:
  "exec_stop i (c, w) = (n, c', w') \<Longrightarrow> running c' = running c \<and> finished c' = finished c"
  by (cases i) (auto simp: set_pointer_flags split: if_splits)

subsection \<open>Pointers and objects\<close>

text \<open>A pointer to an object is set exactly when the object exists, and every object and interface has what it
  rests on.\<close>

definition held :: "(sl_pointer \<Rightarrow> bool) \<Rightarrow> sl_world \<Rightarrow> bool" where
  "held P w \<longleftrightarrow> (P The_Engine \<longleftrightarrow> w Engine_Object \<noteq> None) \<and> (P The_Recorder \<longleftrightarrow> w Recorder \<noteq> None) \<and>
     (P The_Mix \<longleftrightarrow> w Output_Mix \<noteq> None) \<and> (P The_Player \<longleftrightarrow> w Player \<noteq> None) \<and>
     (P The_Record \<or> P The_Recorder_Queue \<longrightarrow> P The_Recorder) \<and>
     (P The_Play \<or> P The_Player_Queue \<longrightarrow> P The_Player) \<and>
     (P The_Player \<longrightarrow> P The_Mix) \<and> (P The_Recorder \<or> P The_Mix \<longrightarrow> P The_Engine)"

text \<open>Whatever calls fail, the instructions of \<open>start\<close> use objects that exist and keep \<open>held\<close>; \<open>F\<close> holds at the end.\<close>

function sound_start ::
  "((sl_pointer \<Rightarrow> bool) \<Rightarrow> sl_world \<Rightarrow> bool) \<Rightarrow> start_instr list \<Rightarrow> (sl_pointer \<Rightarrow> bool) \<Rightarrow> sl_world \<Rightarrow> bool" where
  "sound_start F [] P w \<longleftrightarrow> held P w \<and> F P w"
| "sound_start F (Must call # is) P w \<longleftrightarrow> held P w \<and> through_ok P call \<and>
     (case sl_step call w of None \<Rightarrow> False | Some w' \<Rightarrow> sound_start F is (assigned call P) w')"
| "sound_start F (May call n # is) P w \<longleftrightarrow> held P w \<and> through_ok P call \<and>
     (case sl_step call w of None \<Rightarrow> False | Some w' \<Rightarrow> sound_start F is (assigned call P) w') \<and>
     sound_start F (drop n is) P w"
| "sound_start F (Zero_Output # is) P w \<longleftrightarrow> held P w \<and> sound_start F is P w"
| "sound_start F (Init x # is) P w \<longleftrightarrow> held P w \<and> sound_start F is P w"
  by pat_completeness auto
termination by (relation "measure (\<lambda>(F, is, P, w). length is)") auto

lemma sound_start_held: "sound_start F is P w \<Longrightarrow> held P w"
  by (cases "(F, is, P, w)" rule: sound_start.cases) auto

lemma start_instr_sound:
  assumes "sound_start F (i # is) (is_set c) w" "exec_start env i (c, Some w) = (r, c', w')"
  shows "\<exists>v. w' = Some v \<and> held (is_set c') v \<and> (\<forall>n. r = Some n \<longrightarrow> sound_start F (drop n is) (is_set c') v)"
proof (cases i)
  case (Init x)
  obtain q c1 where 1: "init_component env x c = (q, c1)" by fastforce
  show ?thesis using assms init_component_frame [OF 1] by (auto simp: Init 1 dest: sound_start_held)
qed (use assms in \<open>auto simp: use_object_def assign_frame split: if_splits option.splits dest: sound_start_held\<close>)

lemma run_start_sound:
  "sound_start F is (is_set c) w \<Longrightarrow> run_start env is (c, Some w) = (True, c', w') \<Longrightarrow>
    \<exists>v. w' = Some v \<and> F (is_set c') v"
proof (induction "is" arbitrary: c w rule: measure_induct_rule [where f = size])
  case (less "is")
  show ?case
  proof (cases "is")
    case Nil
    then show ?thesis using less.prems by auto
  next
    case (Cons i js)
    then obtain n c1 w1 where 1: "exec_start env i (c, Some w) = (Some n, c1, w1)"
      "run_start env (drop n js) (c1, w1) = (True, c', w')"
      using less.prems(2) by (auto split: prod.splits option.splits)
    from start_instr_sound [OF _ 1(1), of F js] less.prems(1) obtain v where
      "w1 = Some v" "sound_start F (drop n js) (is_set c1) v" unfolding Cons by auto
    then show ?thesis using less.IH [of "drop n js" c1 v] 1(2) Cons by simp
  qed
qed

text \<open>Likewise for the instructions of \<open>stop\<close> and of the destructor.\<close>

function sound_stop ::
  "((sl_pointer \<Rightarrow> bool) \<Rightarrow> sl_world \<Rightarrow> bool) \<Rightarrow> stop_instr list \<Rightarrow> (sl_pointer \<Rightarrow> bool) \<Rightarrow> sl_world \<Rightarrow> bool" where
  "sound_stop F [] P w \<longleftrightarrow> F P w"
| "sound_stop F (If_Set call # is) P w \<longleftrightarrow>
     (if through_ok P call then (case sl_step call w of None \<Rightarrow> False | Some w' \<Rightarrow> sound_stop F is P w')
      else sound_stop F is P w)"
| "sound_stop F (Destroy_Or_Skip x n # is) P w \<longleftrightarrow>
     (if P (object_pointer x)
      then (case sl_step (Destroy x) w of None \<Rightarrow> False | Some w' \<Rightarrow> sound_stop F is P w')
      else sound_stop F (drop n is) P w)"
| "sound_stop F (Forget p # is) P w \<longleftrightarrow> sound_stop F is (P(p := False)) w"
| "sound_stop F (Stop_Jitter # is) P w \<longleftrightarrow> sound_stop F is P w"
| "sound_stop F (Free_Address # is) P w \<longleftrightarrow> sound_stop F is P w"
  by pat_completeness auto
termination by (relation "measure (\<lambda>(F, is, P, w). length is)") auto

lemma stop_instr_sound:
  assumes "sound_stop F (drop k is) (is_set c) w" "k < length is" "exec_stop (is ! k) (c, Some w) = (n, c', w')"
  shows "\<exists>v. w' = Some v \<and> sound_stop F (drop (k + 1 + n) is) (is_set c') v"
proof -
  have "drop k is = is ! k # drop (k + 1) is" using assms(2) by (simp add: Cons_nth_drop_Suc)
  then show ?thesis
    using assms(1,3)
    by (cases "is ! k") (auto simp: use_object_def through_ok_def is_set_pointer add.commute split: if_splits option.splits)
qed

text \<open>After \<open>stop\<close> only the engine is left, and after the destructor nothing.\<close>

definition only_engine :: "(sl_pointer \<Rightarrow> bool) \<Rightarrow> sl_world \<Rightarrow> bool" where
  "only_engine P w \<longleftrightarrow> (\<forall>p. P p \<longrightarrow> p = The_Engine) \<and> (P The_Engine \<longleftrightarrow> w Engine_Object \<noteq> None) \<and>
     (\<forall>x. w x \<noteq> None \<longrightarrow> x = Engine_Object)"

lemma start_code_sound: "sound_start (\<lambda>_ w. w Recorder = Some True) (start_code sdk) (\<lambda>_. False) Map.empty"
  by (simp add: start_code_def mic_start_def player_start_def held_def through_ok_def assigned_def built_on_def)

lemma all_pointers: "(\<forall>p. Q p) \<longleftrightarrow> Q The_Engine \<and> Q The_Recorder \<and> Q The_Record \<and> Q The_Recorder_Queue \<and>
    Q The_Mix \<and> Q The_Player \<and> Q The_Play \<and> Q The_Player_Queue"
  by (metis sl_pointer.exhaust)

lemma all_objects: "(\<forall>x. Q x) \<longleftrightarrow> Q Engine_Object \<and> Q Recorder \<and> Q Output_Mix \<and> Q Player"
  by (metis sl_object.exhaust)

lemma mic_stop_sound:
  assumes "held P w" "sound_stop F is (P(The_Record := False, The_Recorder := False, The_Recorder_Queue := False))
    (w(Recorder := None))"
  shows "sound_stop F (mic_stop @ is) P w"
proof (cases "P The_Recorder")
  case True
  then obtain v where "w Recorder = Some v" using assms(1) by (auto simp: held_def)
  then show ?thesis using assms(2) True by (simp add: mic_stop_def through_ok_def built_on_def)
next
  case False
  then have "\<not> P The_Record" "\<not> P The_Recorder_Queue" "w Recorder = None" using assms(1) by (auto simp: held_def)
  then have "P(The_Record := False, The_Recorder := False, The_Recorder_Queue := False) = P" "w(Recorder := None) = w"
    using False by (auto simp: fun_eq_iff)
  then show ?thesis
    using assms(2) False \<open>\<not> P The_Record\<close> \<open>\<not> P The_Recorder_Queue\<close> by (simp add: mic_stop_def through_ok_def)
qed

lemma player_stop_sound:
  assumes "held P w" "sound_stop F is (P(The_Play := False, The_Player_Queue := False, The_Player := False, The_Mix := False))
    (w(Player := None, Output_Mix := None))"
  shows "sound_stop F (player_stop @ is) P w"
proof -
  consider "P The_Player" "P The_Mix" | "\<not> P The_Player" "P The_Mix" | "\<not> P The_Player" "\<not> P The_Mix"
    using assms(1) by (auto simp: held_def)
  then show ?thesis
  proof cases
    case 1
    then obtain u v where "w Player = Some u" "w Output_Mix = Some v" using assms(1) by (auto simp: held_def)
    then show ?thesis using assms(2) 1 by (simp add: player_stop_def through_ok_def built_on_def)
  next
    case 2
    then obtain v where "\<not> P The_Play" "\<not> P The_Player_Queue" "w Player = None" "w Output_Mix = Some v"
      using assms(1) by (auto simp: held_def)
    moreover from this have "P(The_Play := False, The_Player_Queue := False, The_Player := False) = P" "w(Player := None) = w"
      using 2 by (auto simp: fun_eq_iff)
    ultimately show ?thesis using assms(2) 2 by (simp add: player_stop_def through_ok_def built_on_def)
  next
    case 3
    then have "\<not> P The_Play" "\<not> P The_Player_Queue" "w Player = None" "w Output_Mix = None"
      using assms(1) by (auto simp: held_def)
    moreover from this have "P(The_Play := False, The_Player_Queue := False, The_Player := False, The_Mix := False) = P"
      "w(Player := None, Output_Mix := None) = w" using 3 by (auto simp: fun_eq_iff)
    ultimately show ?thesis using assms(2) 3 by (simp add: player_stop_def through_ok_def)
  qed
qed

text \<open>The pointers and the objects once both devices are stopped.\<close>

lemma devices_stopped:
  assumes "held P w"
    and "\<And>Q v. only_engine Q v \<Longrightarrow> sound_stop F is Q v"
  shows "sound_stop F (mic_stop @ player_stop @ is) P w"
proof (rule mic_stop_sound [OF assms(1)], rule player_stop_sound)
  show "held (P(The_Record := False, The_Recorder := False, The_Recorder_Queue := False)) (w(Recorder := None))"
    using assms(1) by (auto simp: held_def)
  show "sound_stop F is (P(The_Record := False, The_Recorder := False, The_Recorder_Queue := False, The_Play := False,
      The_Player_Queue := False, The_Player := False, The_Mix := False)) (w(Recorder := None, Player := None, Output_Mix := None))"
    using assms(1) by (intro assms(2)) (simp add: only_engine_def all_pointers all_objects held_def)
qed

lemma stop_code_sound: "held P w \<Longrightarrow> sound_stop only_engine stop_code P w"
  unfolding stop_code_def by (rule devices_stopped) simp_all

lemma only_engine_held: "only_engine P w \<Longrightarrow> held P w"
  unfolding only_engine_def all_pointers all_objects held_def by auto

lemma dispose_code_sound: "only_engine P w \<Longrightarrow> sound_stop (\<lambda>_ w. w = Map.empty) dispose_code P w"
  unfolding dispose_code_def
  by (rule devices_stopped)
    (auto simp: only_engine_held only_engine_def all_pointers all_objects built_on_def fun_eq_iff)

subsection \<open>The invariant\<close>

text \<open>\<open>finished\<close> is set before \<open>start\<close> has cleared it and after it has left the loop, and until \<open>stop\<close> is called
  \<open>running\<close> is set once \<open>start\<close> has begun.\<close>

definition control_inv :: "('e, 'd, 'a, 'n) call_state \<Rightarrow> bool" where
  "control_inv s \<longleftrightarrow> (finished (cam s) \<longleftrightarrow> start_pc s \<in> {Not_Started, Begun, Returned 0}) \<and>
     (stop_pc s = Not_Stopped \<longrightarrow> start_pc s \<notin> {Leaving, Returned 0} \<and>
       (running (cam s) \<longleftrightarrow> start_pc s \<noteq> Not_Started))"

lemma call_step_control:
  assumes "call_step env who s t" "control_inv s"
  shows "control_inv t"
  using assms
proof (cases rule: call_step.cases)
  case (instr_ok i js n c w)
  then show ?thesis using assms(2) start_instr_flags [OF instr_ok(4)] by (auto simp: control_inv_def)
next
  case (instr_fail i js c w)
  then show ?thesis using assms(2) start_instr_flags [OF instr_fail(4)] by (auto simp: control_inv_def)
next
  case (stop_instr k n c w)
  then show ?thesis using assms(2) stop_instr_flags [OF stop_instr(5)] by (auto simp: control_inv_def)
next
  case (dispose_instr k n c w)
  then show ?thesis using assms(2) stop_instr_flags [OF dispose_instr(5)] by (auto simp: control_inv_def)
qed (use assms in \<open>auto simp: control_inv_def put_receive_side_def\<close>)

text \<open>\<open>start\<close> has reached its loop, or has returned.\<close>

fun over :: "start_pc \<Rightarrow> bool" where
  "over Not_Started \<longleftrightarrow> False"
| "over Begun \<longleftrightarrow> False"
| "over (Starting is) \<longleftrightarrow> False"
| "over Looping \<longleftrightarrow> True"
| "over Leaving \<longleftrightarrow> True"
| "over (Returned r) \<longleftrightarrow> True"

definition objects_inv :: "('e, 'd, 'a, 'n) call_state \<Rightarrow> sl_world \<Rightarrow> bool" where
  "objects_inv s w \<longleftrightarrow> (case stop_pc s of
     Not_Stopped \<Rightarrow> (case start_pc s of
         Starting is \<Rightarrow> sound_start (\<lambda>_ w. w Recorder = Some True) is (is_set (cam s)) w
       | p \<Rightarrow> if over p then held (is_set (cam s)) w else is_set (cam s) = (\<lambda>_. False) \<and> w = Map.empty)
   | In_Stop k \<Rightarrow> sound_stop only_engine (drop k stop_code) (is_set (cam s)) w
   | Waiting \<Rightarrow> only_engine (is_set (cam s)) w
   | Stopped \<Rightarrow> only_engine (is_set (cam s)) w
   | In_Dispose k \<Rightarrow> sound_stop (\<lambda>_ w. w = Map.empty) (drop k dispose_code) (is_set (cam s)) w
   | Disposed \<Rightarrow> w = Map.empty)"

definition calm :: "('e, 'd, 'a, 'n) call_state \<Rightarrow> bool" where
  "calm s \<longleftrightarrow> control_inv s \<and> (\<exists>w. objects s = Some w \<and> objects_inv s w) \<and>
     (stop_pc s \<noteq> Not_Stopped \<longrightarrow> over (start_pc s)) \<and> (Stopped \<le> stop_pc s \<longrightarrow> start_pc s = Returned 0)"

lemma living [simp]: "stop_pc s \<noteq> Disposed \<Longrightarrow> living s w = w"
  by (simp add: living_def)

lemma calmI:
  "control_inv s \<Longrightarrow> objects s = Some w \<Longrightarrow> objects_inv s w \<Longrightarrow>
    (stop_pc s \<noteq> Not_Stopped \<Longrightarrow> over (start_pc s)) \<Longrightarrow> (Stopped \<le> stop_pc s \<Longrightarrow> start_pc s = Returned 0) \<Longrightarrow> calm s"
  by (auto simp: calm_def)

text \<open>The callbacks change neither the pointers nor the objects.\<close>

lemma audio_objects:
  assumes "call_step env who s t" "who = Audio_Thread" "objects s = Some w" "stop_pc s = Disposed \<Longrightarrow> w = Map.empty"
  shows "objects t = Some w \<and> is_set (cam t) = is_set (cam s)"
  using assms(1)
proof (cases rule: call_step.cases)
  case (recorded xs m media x call)
  have "stop_pc s \<noteq> Disposed" using recorded(3) assms(3,4) by (auto simp: is_on_def)
  then show ?thesis
    using recorderCallback_frame [OF recorded(5)] recorded_is_set [OF recorded(5)] recorded(2,3) assms(3)
    by (auto simp: is_on_def)
next
  case (played p jb call)
  have "stop_pc s \<noteq> Disposed" using played(3) assms(3,4) by (auto simp: is_on_def)
  then show ?thesis
    using playerCallback_frame [OF played(4)] played_is_set [OF played(4)] played(2,3) assms(3)
    by (auto simp: is_on_def)
qed (use assms(2) in simp_all)

lemma objects_inv_phase:
  "stop_pc s = Not_Stopped \<Longrightarrow> start_pc s = Starting is \<Longrightarrow>
    objects_inv s w \<longleftrightarrow> sound_start (\<lambda>_ w. w Recorder = Some True) is (is_set (cam s)) w"
  "stop_pc s = Not_Stopped \<Longrightarrow> over (start_pc s) \<Longrightarrow> objects_inv s w \<longleftrightarrow> held (is_set (cam s)) w"
  "stop_pc s = Not_Stopped \<Longrightarrow> start_pc s = Not_Started \<or> start_pc s = Begun \<Longrightarrow>
    objects_inv s w \<longleftrightarrow> is_set (cam s) = (\<lambda>_. False) \<and> w = Map.empty"
  "stop_pc s = In_Stop k \<Longrightarrow> objects_inv s w \<longleftrightarrow> sound_stop only_engine (drop k stop_code) (is_set (cam s)) w"
  "stop_pc s = Waiting \<or> stop_pc s = Stopped \<Longrightarrow> objects_inv s w \<longleftrightarrow> only_engine (is_set (cam s)) w"
  "stop_pc s = In_Dispose k \<Longrightarrow>
    objects_inv s w \<longleftrightarrow> sound_stop (\<lambda>_ w. w = Map.empty) (drop k dispose_code) (is_set (cam s)) w"
  "stop_pc s = Disposed \<Longrightarrow> objects_inv s w \<longleftrightarrow> w = Map.empty"
  by (auto simp: objects_inv_def split: start_pc.splits)

lemma calm_same:
  assumes "calm s" "control_inv t" "objects t = objects s" "is_set (cam t) = is_set (cam s)" "stop_pc t = stop_pc s"
    and "start_pc t = start_pc s \<or> over (start_pc s) \<and> over (start_pc t)"
    and "Stopped \<le> stop_pc s \<Longrightarrow> start_pc t = Returned 0"
  shows "calm t"
proof -
  obtain w where w: "objects s = Some w" "objects_inv s w" using assms(1) by (auto simp: calm_def)
  have "objects_inv t w"
    using w(2) assms(4-6) by (cases "stop_pc s"; cases "start_pc s") (auto simp: objects_inv_def split: start_pc.splits)
  then show ?thesis using assms w(1) by (auto intro!: calmI simp: calm_def)
qed

lemma calm_live: "calm s \<Longrightarrow> start_pc s \<noteq> Returned 0 \<Longrightarrow> stop_pc s \<noteq> Disposed"
  by (auto simp: calm_def stop_pc_order)

lemma calm_new: "calm s \<Longrightarrow> \<not> over (start_pc s) \<Longrightarrow> stop_pc s = Not_Stopped"
  by (auto simp: calm_def)

lemma calm_start_instr:
  assumes "calm s" "start_pc s = Starting (i # is)" "exec_start env i (cam s, objects s) = (r, c, w)"
  shows "\<exists>v. objects s \<noteq> None \<and> w = Some v \<and> held (is_set c) v \<and>
    (\<forall>n. r = Some n \<longrightarrow> sound_start (\<lambda>_ w. w Recorder = Some True) (drop n is) (is_set c) v)"
proof -
  obtain u where u: "objects s = Some u" "objects_inv s u" using assms(1) by (auto simp: calm_def)
  have "stop_pc s = Not_Stopped" using calm_new [OF assms(1)] assms(2) by simp
  then have "sound_start (\<lambda>_ w. w Recorder = Some True) (i # is) (is_set (cam s)) u"
    using u(2) assms(2) by (simp add: objects_inv_phase)
  from start_instr_sound [OF this assms(3) [unfolded u(1)]] u(1) show ?thesis by simp
qed

lemma calm_start_thread:
  assumes "call_step env Start_Thread s t" "calm s"
  shows "calm t"
proof -
  have c: "control_inv s" using assms(2) by (simp add: calm_def)
  note inv = call_step_control [OF assms(1) c]
  note live = calm_live [OF assms(2)] and new = calm_new [OF assms(2)]
  from assms(1) show ?thesis
  proof (cases rule: call_step.cases)
    case start
    then show ?thesis
      using assms(2) inv new by (auto intro!: calmI simp: calm_def objects_inv_phase stop_pc_order)
  next
    case begun
    then show ?thesis
      using assms(2) inv new start_code_sound
      by (auto intro!: calmI simp: calm_def objects_inv_phase stop_pc_order)
  next
    case (instr_ok i js n c w)
    have k: "stop_pc s = Not_Stopped" using new instr_ok(2) by simp
    from calm_start_instr [OF assms(2) instr_ok(2,3)] show ?thesis
      using inv instr_ok(1) k by (auto intro!: calmI simp: objects_inv_phase stop_pc_order)
  next
    case (instr_fail i js c w)
    have k: "stop_pc s = Not_Stopped" using new instr_fail(2) by simp
    from calm_start_instr [OF assms(2) instr_fail(2,3)] show ?thesis
      using inv instr_fail(1) k by (auto intro!: calmI simp: objects_inv_phase stop_pc_order)
  next
    case enter
    then have "stop_pc s = Not_Stopped" using new by simp
    then show ?thesis
      using enter assms(2) inv by (auto intro!: calmI simp: calm_def objects_inv_phase stop_pc_order)
  next
    case (turn recv r)
    then show ?thesis
      using live by (intro calm_same [OF assms(2) inv]) (use assms(2) in \<open>auto simp: calm_def\<close>)
  next
    case leave
    then show ?thesis
      using live by (intro calm_same [OF assms(2) inv]) (use assms(2) in \<open>auto simp: calm_def\<close>)
  next
    case signal
    then show ?thesis using live by (intro calm_same [OF assms(2) inv]) auto
  qed
qed

lemma calm_stop_thread:
  assumes "call_step env Stop_Thread s t" "calm s" "stop_pc s = Not_Stopped \<Longrightarrow> over (start_pc s)"
  shows "calm t"
proof -
  obtain w where w: "control_inv s" "objects s = Some w" "objects_inv s w" "stop_pc s \<noteq> Not_Stopped \<Longrightarrow> over (start_pc s)"
    "Stopped \<le> stop_pc s \<Longrightarrow> start_pc s = Returned 0" using assms(2) by (auto simp: calm_def)
  note inv = call_step_control [OF assms(1) w(1)]
  from assms(1) show ?thesis
  proof (cases rule: call_step.cases)
    case stop
    have "held (is_set (cam s)) w" using w(3) assms(3) stop(2) by (simp add: objects_inv_phase)
    then show ?thesis
      using inv stop w(2) assms(3) stop_code_sound
      by (intro calmI [of _ w]) (auto simp: objects_inv_phase stop_pc_order)
  next
    case (stop_instr k n c w')
    from stop_instr_sound [OF _ stop_instr(3) stop_instr(4) [unfolded w(2)]] w(3) stop_instr(2) obtain v where
      "w' = Some v" "sound_stop only_engine (drop (k + 1 + n) stop_code) (is_set c) v"
      by (auto simp: objects_inv_phase)
    then show ?thesis
      using inv stop_instr w(4) by (intro calmI [of _ v]) (auto simp: objects_inv_phase stop_pc_order)
  next
    case (wait k)
    then show ?thesis
      using inv w by (intro calmI [of _ w]) (auto simp: objects_inv_phase stop_pc_order)
  next
    case woken
    then have "start_pc s = Returned 0" using w(1,4) by (auto simp: control_inv_def)
    then show ?thesis
      using woken inv w by (intro calmI [of _ w]) (auto simp: objects_inv_phase stop_pc_order)
  next
    case dispose
    then have "only_engine (is_set (cam s)) w" "start_pc s = Returned 0"
      using w(3,5) by (simp_all add: objects_inv_phase)
    then show ?thesis
      using dispose inv w dispose_code_sound by (intro calmI [of _ w]) (auto simp: objects_inv_phase stop_pc_order)
  next
    case (dispose_instr k n c w')
    from stop_instr_sound [OF _ dispose_instr(3) dispose_instr(4) [unfolded w(2)]] w(3) dispose_instr(2) obtain v where
      "w' = Some v" "sound_stop (\<lambda>_ w. w = Map.empty) (drop (k + 1 + n) dispose_code) (is_set c) v"
      by (auto simp: objects_inv_phase)
    moreover have "start_pc s = Returned 0" using w(5) dispose_instr(2) by (simp add: stop_pc_order)
    ultimately show ?thesis
      using inv dispose_instr by (intro calmI [of _ v]) (auto simp: objects_inv_phase stop_pc_order)
  next
    case (disposed k)
    then have "start_pc s = Returned 0" using w(5) by (simp add: stop_pc_order)
    then show ?thesis
      using disposed inv w by (intro calmI [of _ w]) (auto simp: objects_inv_phase stop_pc_order)
  qed
qed

lemma calm_step:
  assumes "call_step env who s t" "calm s" "stop_pc s = Not_Stopped \<Longrightarrow> stop_pc t = Not_Stopped \<or> over (start_pc s)"
  shows "calm t"
proof -
  obtain w where w: "control_inv s" "objects s = Some w" "objects_inv s w" "Stopped \<le> stop_pc s \<Longrightarrow> start_pc s = Returned 0"
    using assms(2) by (auto simp: calm_def)
  note inv = call_step_control [OF assms(1) w(1)]
  show ?thesis
  proof (cases who)
    case Start_Thread
    then show ?thesis using calm_start_thread assms(1,2) by blast
  next
    case Stop_Thread
    have "stop_pc s = Not_Stopped \<Longrightarrow> over (start_pc s)"
      using assms(1,3) stop_thread_frame [of env s t] Stop_Thread by auto
    then show ?thesis using calm_stop_thread assms(1,2) Stop_Thread by blast
  next
    case Audio_Thread
    have "stop_pc s = Disposed \<Longrightarrow> w = Map.empty" using w(3) by (simp add: objects_inv_phase)
    from audio_objects [OF assms(1) Audio_Thread w(2) this] show ?thesis
      using audio_thread_frame [of env s t] assms(1) w(2,4) Audio_Thread
      by (intro calm_same [OF assms(2) inv]) auto
  next
    case User
    then show ?thesis
      using assms(1) w(4) by (intro calm_same [OF assms(2) inv]) (auto elim!: user_step)
  qed
qed

lemma calm_before: "call_steps env s t \<Longrightarrow> calm s \<Longrightarrow> stop_pc t = Not_Stopped \<Longrightarrow> calm t"
proof (induction rule: call_steps.induct)
  case (more s t who u)
  have "stop_pc t \<le> stop_pc u" using stop_forward [OF call_steps_one [OF more.hyps(2)]] .
  then have "stop_pc t = Not_Stopped" using more.prems(2) by (cases "stop_pc t") (auto simp: stop_pc_order)
  then show ?case using more.IH more.prems calm_step [OF more.hyps(2)] by simp
qed simp

lemma over_step: "call_step env who s t \<Longrightarrow> over (start_pc s) \<Longrightarrow> over (start_pc t)"
  by (cases rule: call_step.cases) auto

lemma calm_after: "call_steps env s t \<Longrightarrow> calm s \<Longrightarrow> over (start_pc s) \<Longrightarrow> calm t \<and> over (start_pc t)"
  by (induction rule: call_steps.induct) (auto intro: calm_step over_step)

text \<open>A manager as the constructor leaves it.\<close>

definition fresh_manager :: "('e, 'd, 'a, 'n) CallAudioManager \<Rightarrow> bool" where
  "fresh_manager c \<longleftrightarrow> \<not> running c \<and> finished c \<and> \<not> engineObject c \<and>
     \<not> recorderObject (cm_mic c) \<and> \<not> recorderRecord (cm_mic c) \<and> \<not> recorderBufferQueue (cm_mic c) \<and>
     \<not> bqPlayerObject (cm_player c) \<and> \<not> bqPlayerPlay (cm_player c) \<and> \<not> outputMixObject (cm_player c) \<and>
     \<not> bqPlayerBufferQueue (cm_player c)"

lemma new_manager_fresh: "fresh_manager (new_CallAudioManager sdk sp rp k1 k2 codec mic player)"
  by (simp add: fresh_manager_def new_CallAudioManager_def new_MicrophoneReader_def new_AudioPlayer_def)

lemma fresh_pointers: "fresh_manager c \<Longrightarrow> is_set c = (\<lambda>_. False)"
  by (simp add: fresh_manager_def fun_eq_iff all_pointers)

lemma init_state_calm: "fresh_manager c \<Longrightarrow> calm (init_state c)"
  by (rule calmI [of _ Map.empty])
    (simp_all add: init_state_def control_inv_def objects_inv_phase fresh_pointers stop_pc_order, simp add: fresh_manager_def)

lemma calm_released:
  assumes "calm s"
  shows "Stopped \<le> stop_pc s \<Longrightarrow> start_pc s = Returned 0"
    and "stop_pc s = Stopped \<Longrightarrow> \<exists>w. objects s = Some w \<and> dom w \<subseteq> {Engine_Object}"
    and "stop_pc s = Disposed \<Longrightarrow> objects s = Some Map.empty"
proof -
  obtain w where w: "objects s = Some w" "objects_inv s w" using assms by (auto simp: calm_def)
  show "Stopped \<le> stop_pc s \<Longrightarrow> start_pc s = Returned 0" using assms by (simp add: calm_def)
  show "stop_pc s = Stopped \<Longrightarrow> \<exists>w. objects s = Some w \<and> dom w \<subseteq> {Engine_Object}"
    using w by (auto simp: objects_inv_phase only_engine_def)
  show "stop_pc s = Disposed \<Longrightarrow> objects s = Some Map.empty" using w by (simp add: objects_inv_phase)
qed

subsection \<open>A stop during the call\<close>

text \<open>The states from the moment the loop is reached with no \<open>stop\<close> before.\<close>

definition orderly :: "('e, 'd, 'a, 'n) call_state \<Rightarrow> bool" where
  "orderly s \<longleftrightarrow> calm s \<and> start_pc s \<in> {Looping, Leaving, Returned 0} \<and>
     (running (cam s) \<longleftrightarrow> stop_pc s = Not_Stopped)"

lemma orderly_loop: "calm s \<Longrightarrow> start_pc s = Looping \<Longrightarrow> stop_pc s = Not_Stopped \<Longrightarrow> orderly s"
  by (simp add: orderly_def calm_def control_inv_def)

lemma orderly_step:
  assumes "call_step env who s t" "orderly s"
  shows "orderly t"
proof -
  have "calm t" using calm_step [OF assms(1)] assms(2) by (auto simp: orderly_def)
  with assms(1) show ?thesis
  proof (cases rule: call_step.cases)
    case (stop_instr k n c w)
    then show ?thesis using \<open>calm t\<close> assms(2) stop_instr_flags [OF stop_instr(5)] by (auto simp: orderly_def)
  next
    case (dispose_instr k n c w)
    then show ?thesis using \<open>calm t\<close> assms(2) stop_instr_flags [OF dispose_instr(5)] by (auto simp: orderly_def)
  qed (use assms(2) \<open>calm t\<close> in \<open>auto simp: orderly_def put_receive_side_def\<close>)
qed

lemma orderly_steps: "call_steps env s t \<Longrightarrow> orderly s \<Longrightarrow> orderly t"
  by (induction rule: call_steps.induct) (auto intro: orderly_step)

text \<open>What \<open>stop\<close> and \<open>dispose\<close>, and \<open>start\<close> after its loop, still have to do.\<close>

fun stop_work :: "stop_pc \<Rightarrow> nat" where
  "stop_work Not_Stopped = 5 + length stop_code + length dispose_code"
| "stop_work (In_Stop k) = 4 + (length stop_code - k) + length dispose_code"
| "stop_work Waiting = 3 + length dispose_code"
| "stop_work Stopped = 2 + length dispose_code"
| "stop_work (In_Dispose k) = 1 + (length dispose_code - k)"
| "stop_work Disposed = 0"

definition work :: "('e, 'd, 'a, 'n) call_state \<Rightarrow> nat" where
  "work s = stop_work (stop_pc s) + (case start_pc s of Looping \<Rightarrow> 2 | Leaving \<Rightarrow> 1 | _ \<Rightarrow> 0)"

lemma orderly_progress:
  assumes "orderly s" "stop_pc s \<noteq> Not_Stopped" "call_step env who s t"
  shows "if who \<in> {Start_Thread, Stop_Thread} then work t < work s
    else work t = work s \<and> stop_pc t = stop_pc s"
proof (cases who)
  case Start_Thread
  have "\<not> running (cam s)" "start_pc s \<in> {Looping, Leaving, Returned 0}"
    using assms(1,2) by (auto simp: orderly_def)
  then have "work t < work s"
    using assms(3) unfolding Start_Thread by (auto elim!: start_thread_step simp: work_def)
  then show ?thesis using Start_Thread by simp
next
  case Stop_Thread
  have "work t < work s"
    using assms(3) unfolding Stop_Thread by (auto elim!: stop_thread_step simp: work_def)
  then show ?thesis using Stop_Thread by simp
next
  case Audio_Thread
  then show ?thesis using audio_thread_frame [of env s t] assms(3) by (simp add: work_def)
next
  case User
  then show ?thesis using user_frame [of env s t] assms(3) by (simp add: work_def)
qed

lemma orderly_enabled:
  assumes "orderly s" "stop_pc s \<noteq> Not_Stopped" "stop_pc s \<noteq> Disposed"
  shows "\<exists>who t. who \<in> {Start_Thread, Stop_Thread} \<and> call_step env who s t"
proof (cases "stop_pc s")
  case (In_Stop k)
  show ?thesis
  proof (cases "k < length stop_code")
    case True
    obtain n c w where "exec_stop (stop_code ! k) (cam s, objects s) = (n, c, w)" by (metis prod_cases3)
    from call_step.stop_instr [OF In_Stop True this] show ?thesis by blast
  next
    case False
    then show ?thesis using call_step.wait [OF In_Stop] by (metis insertCI not_less)
  qed
next
  case (In_Dispose k)
  show ?thesis
  proof (cases "k < length dispose_code")
    case True
    obtain n c w where "exec_stop (dispose_code ! k) (cam s, objects s) = (n, c, w)" by (metis prod_cases3)
    from call_step.dispose_instr [OF In_Dispose True this] show ?thesis by blast
  next
    case False
    then show ?thesis using call_step.disposed [OF In_Dispose] by (metis insertCI not_less)
  qed
next
  case Stopped
  then show ?thesis by (metis call_step.dispose insertCI)
next
  case Waiting
  consider "start_pc s = Looping" "\<not> running (cam s)" | "start_pc s = Leaving" | "start_pc s = Returned 0"
    using assms(1,2) by (auto simp: orderly_def)
  then show ?thesis
  proof cases
    case 3
    then have "finished (cam s)" using assms(1) by (simp add: orderly_def calm_def control_inv_def)
    then show ?thesis by (metis Waiting call_step.woken insertCI)
  qed (metis call_step.leave call_step.signal insertCI)+
qed (use assms in simp_all)

end
