(* ===== verification/Call_Hazards.thy ===== *)
theory Call_Hazards
  imports Call_Release
begin

text \<open>Runs in which \<open>stop\<close> is called before \<open>start\<close> has reached its loop, or after \<open>start\<close> has failed.\<close>

subsection \<open>Runs of one thread\<close>

lemma run_start_steps:
  assumes "start_pc s = Starting is" "stop_pc s \<noteq> Disposed" "run_start env is (cam s, objects s) = (ok, c, w)"
  shows "call_steps env s (s\<lparr>cam := c, objects := w, start_pc := if ok then Looping else Returned (-1)\<rparr>)"
  using assms
proof (induction "is" arbitrary: s rule: measure_induct_rule [where f = size])
  case (less "is")
  show ?case
  proof (cases "is")
    case Nil
    then have "ok" "c = cam s" "w = objects s" using less.prems(3) by simp_all
    then show ?thesis using call_steps_one [OF call_step.enter [of s env]] less.prems(1) Nil by simp
  next
    case (Cons i js)
    obtain r c1 w1 where 1: "exec_start env i (cam s, objects s) = (r, c1, w1)" by (metis prod_cases3)
    note pc = less.prems(1) [unfolded Cons]
    show ?thesis
    proof (cases r)
      case None
      then have "\<not> ok" "c1 = c" "w1 = w" using less.prems(3) 1 by (simp_all add: Cons)
      then show ?thesis
        using call_steps_one [OF call_step.instr_fail [OF pc 1 [unfolded None]]] less.prems(2) by simp
    next
      case (Some n)
      let ?s = "s\<lparr>cam := c1, objects := w1, start_pc := Starting (drop n js)\<rparr>"
      have "call_steps env s ?s"
        using call_steps_one [OF call_step.instr_ok [OF pc 1 [unfolded Some]]] less.prems(2) by simp
      moreover have "call_steps env ?s (?s\<lparr>cam := c, objects := w, start_pc := if ok then Looping else Returned (-1)\<rparr>)"
        by (rule less.IH [of "drop n js"]) (use less.prems(2,3) 1 Some Cons in simp_all)
      ultimately show ?thesis using call_steps_trans by fastforce
    qed
  qed
qed

text \<open>A beginning of the code without optional calls is run on its own first.\<close>

fun mandatory :: "start_instr \<Rightarrow> bool" where
  "mandatory (May call n) \<longleftrightarrow> False"
| "mandatory _ \<longleftrightarrow> True"

lemma mandatory_instr: "mandatory i \<Longrightarrow> exec_start env i s = (Some n, t) \<Longrightarrow> n = 0"
  by (cases i; cases s) (auto split: if_splits prod.splits)

lemma run_start_begin:
  assumes "list_all mandatory is" "run_start env (is @ js) (cam s, objects s) = (True, t)"
    and "start_pc s = Starting (is @ js)" "stop_pc s \<noteq> Disposed"
  shows "\<exists>c w. run_start env is (cam s, objects s) = (True, c, w) \<and>
    call_steps env s (s\<lparr>cam := c, objects := w, start_pc := Starting js\<rparr>)"
  using assms
proof (induction "is" arbitrary: s)
  case Nil
  have "s\<lparr>cam := cam s, objects := objects s, start_pc := Starting js\<rparr> = s" using Nil.prems(3) by simp
  then show ?case using call_steps.none [of env s] by (intro exI [of _ "cam s"] exI [of _ "objects s"]) simp
next
  case (Cons i "is")
  obtain r c1 w1 where 1: "exec_start env i (cam s, objects s) = (r, c1, w1)" by (metis prod_cases3)
  then have r: "r = Some 0" using Cons.prems(1,2) mandatory_instr [of i env] by (cases r) auto
  let ?s = "s\<lparr>cam := c1, objects := w1, start_pc := Starting (is @ js)\<rparr>"
  have 2: "call_steps env s ?s"
    using call_steps_one [OF call_step.instr_ok [OF _ 1 [unfolded r]]] Cons.prems(3,4) by simp
  from Cons.IH [of ?s] Cons.prems 1 r obtain c w where
    "run_start env is (c1, w1) = (True, c, w)" "call_steps env ?s (?s\<lparr>cam := c, objects := w, start_pc := Starting js\<rparr>)"
    by auto
  then show ?case using call_steps_trans [OF _ 2] 1 r by fastforce
qed

lemma assign_running: "assign call (c\<lparr>running := v\<rparr>) = (assign call c)\<lparr>running := v\<rparr>"
proof (cases "assigned_pointer call")
  case (Some p)
  then show ?thesis by (cases p) (simp_all add: assign_def)
qed (simp add: assign_def)

lemma start_instr_running:
  "exec_start env i (c, w) = (r, c', w') \<Longrightarrow>
    exec_start env i (c\<lparr>running := v\<rparr>, w) = (r, c'\<lparr>running := v\<rparr>, w')"
proof (cases i)
  case (Init x)
  then show "exec_start env i (c, w) = (r, c', w') \<Longrightarrow> ?thesis" by (cases x) (auto split: prod.splits if_splits)
qed (auto simp: assign_running split: if_splits)

lemma run_start_running:
  "run_start env is (c, w) = (ok, c', w') \<Longrightarrow>
    run_start env is (c\<lparr>running := v\<rparr>, w) = (ok, c'\<lparr>running := v\<rparr>, w')"
proof (induction "is" arbitrary: c w rule: measure_induct_rule [where f = size])
  case (less "is")
  show ?case
  proof (cases "is")
    case (Cons i js)
    obtain r c1 w1 where 1: "exec_start env i (c, w) = (r, c1, w1)" by (metis prod_cases3)
    show ?thesis
      using less.prems less.IH [of "drop (the r) js" c1 w1] 1 start_instr_running [OF 1, of v]
      by (cases r) (simp_all add: Cons)
  qed (use less.prems in simp)
qed

lemma run_start_flags:
  "run_start env is (c, w) = (ok, c', w') \<Longrightarrow> running c' = running c \<and> finished c' = finished c"
proof (induction "is" arbitrary: c w rule: measure_induct_rule [where f = size])
  case (less "is")
  show ?case
  proof (cases "is")
    case (Cons i js)
    obtain r c1 w1 where 1: "exec_start env i (c, w) = (r, c1, w1)" by (metis prod_cases3)
    show ?thesis
      using less.prems less.IH [of "drop (the r) js" c1 w1] 1 start_instr_flags [OF 1]
      by (cases r) (simp_all add: Cons)
  qed (use less.prems in simp)
qed

text \<open>\<open>stop\<close> and the destructor find nothing to do as long as no pointer is set.\<close>

fun idle :: "stop_instr \<Rightarrow> bool" where
  "idle (If_Set call) \<longleftrightarrow> made_through call \<noteq> None"
| "idle _ \<longleftrightarrow> True"

lemma set_pointer_same: "\<not> is_set c p \<Longrightarrow> set_pointer p False c = c"
  by (cases p) simp_all

lemma idle_instr: "is_set c = (\<lambda>_. False) \<Longrightarrow> idle i \<Longrightarrow> \<exists>n. exec_stop i (c, w) = (n, c, w)"
  by (cases i) (auto simp: through_ok_def set_pointer_same)

lemma idle_codes: "list_all idle stop_code" "list_all idle dispose_code"
  by (simp_all add: stop_code_def dispose_code_def mic_stop_def player_stop_def)

lemma stop_idle:
  assumes "is_set (cam s) = (\<lambda>_. False)" "stop_pc s = In_Stop k"
  shows "call_steps env s (s\<lparr>stop_pc := Waiting\<rparr>)"
  using assms
proof (induction "length stop_code - k" arbitrary: k s rule: less_induct)
  case less
  show ?case
  proof (cases "k < length stop_code")
    case True
    obtain n where n: "exec_stop (stop_code ! k) (cam s, objects s) = (n, cam s, objects s)"
      using idle_instr less.prems(1) idle_codes(1) True unfolding list_all_length by metis
    note 1 = call_steps_one [OF call_step.stop_instr [OF less.prems(2) True n, of env]]
    have "length stop_code - (k + 1 + n) < length stop_code - k" using True by simp
    from less.hyps [OF this, of "s\<lparr>cam := cam s, objects := objects s, stop_pc := In_Stop (k + 1 + n)\<rparr>"] less.prems(1)
    show ?thesis using call_steps_trans [OF _ 1] by simp
  next
    case False
    then show ?thesis using call_steps_one [OF call_step.wait [OF less.prems(2)]] by simp
  qed
qed

lemma dispose_idle:
  assumes "is_set (cam s) = (\<lambda>_. False)" "stop_pc s = In_Dispose k"
  shows "call_steps env s (s\<lparr>stop_pc := Disposed\<rparr>)"
  using assms
proof (induction "length dispose_code - k" arbitrary: k s rule: less_induct)
  case less
  show ?case
  proof (cases "k < length dispose_code")
    case True
    obtain n where n: "exec_stop (dispose_code ! k) (cam s, objects s) = (n, cam s, objects s)"
      using idle_instr less.prems(1) idle_codes(2) True unfolding list_all_length by metis
    note 1 = call_steps_one [OF call_step.dispose_instr [OF less.prems(2) True n, of env]]
    have "length dispose_code - (k + 1 + n) < length dispose_code - k" using True by simp
    from less.hyps [OF this, of "s\<lparr>cam := cam s, objects := objects s, stop_pc := In_Dispose (k + 1 + n)\<rparr>"] less.prems(1)
    show ?thesis using call_steps_trans [OF _ 1] by simp
  next
    case False
    then show ?thesis using call_steps_one [OF call_step.disposed [OF less.prems(2)]] by simp
  qed
qed

subsection \<open>States that are never left\<close>

text \<open>After a \<open>start\<close> that failed, nobody sets \<open>finished\<close>.\<close>

definition hung :: "('e, 'd, 'a, 'n) call_state \<Rightarrow> bool" where
  "hung s \<longleftrightarrow> start_pc s = Returned (-1) \<and> \<not> finished (cam s) \<and> stop_pc s < Stopped"

lemma hung_step:
  assumes "call_step env who s t" "hung s"
  shows "hung t"
  using assms
proof (cases rule: call_step.cases)
  case (stop_instr k n c w)
  then show ?thesis using assms(2) stop_instr_flags [OF stop_instr(5)] by (simp add: hung_def stop_pc_order)
qed (auto simp: hung_def stop_pc_order)

lemma hung_steps: "call_steps env s t \<Longrightarrow> hung s \<Longrightarrow> hung t"
  by (induction rule: call_steps.induct) (auto intro: hung_step)

text \<open>A \<open>stop\<close> whose \<open>running = 0\<close> came before the \<open>running = 1\<close> of \<open>start\<close>.\<close>

definition lost_stop :: "('e, 'd, 'a, 'n) call_state \<Rightarrow> bool" where
  "lost_stop s \<longleftrightarrow> start_pc s = Looping \<and> running (cam s) \<and> \<not> finished (cam s) \<and> stop_pc s = Waiting \<and>
     is_on (objects s) Recorder"

lemma lost_stop_step:
  assumes "call_step env who s t" "lost_stop s"
  shows "lost_stop t"
  using assms
proof (cases rule: call_step.cases)
  case (recorded xs m media x call)
  then show ?thesis
    using assms(2) recorderCallback_frame [OF recorded(5)]
    by (auto simp: lost_stop_def is_on_def split: option.splits)
next
  case (played p jb call)
  then show ?thesis
    using assms(2) playerCallback_frame [OF played(4)]
    by (auto simp: lost_stop_def is_on_def split: option.splits)
qed (auto simp: lost_stop_def put_receive_side_def)

lemma lost_stop_steps: "call_steps env s t \<Longrightarrow> lost_stop s \<Longrightarrow> lost_stop t"
  by (induction rule: call_steps.induct) (auto intro: lost_stop_step)

subsection \<open>Runs into them\<close>

text \<open>The state of a fresh manager with other flags, where no device has been started.\<close>

definition early :: "('e, 'd, 'a, 'n) CallAudioManager \<Rightarrow> bool \<Rightarrow> bool \<Rightarrow> start_pc \<Rightarrow> stop_pc \<Rightarrow> sl_world option \<Rightarrow>
    ('e, 'd, 'a, 'n) call_state" where
  "early c v f p q w = \<lparr>cam = c\<lparr>running := v, finished := f\<rparr>, start_pc = p, stop_pc = q, objects = w, sent = []\<rparr>"

lemma swap_flags: "c\<lparr>finished := f, running := v\<rparr> = c\<lparr>running := v, finished := f\<rparr>" for c :: "('e, 'd, 'a, 'n) CallAudioManager"
  by simp

abbreviation code_of :: "('e, 'd, 'a, 'n) CallAudioManager \<Rightarrow> start_instr list" where
  "code_of c \<equiv> start_code (androidSdkVersion (cm_mic c))"

lemma early_init: "fresh_manager c \<Longrightarrow> init_state c = early c False True Not_Started Not_Stopped (Some Map.empty)"
  by (simp add: init_state_def early_def fresh_manager_def)

lemma early_start:
  "q \<noteq> Disposed \<Longrightarrow> call_steps env (early c v f Not_Started q w) (early c True False (Starting (code_of c)) q w)"
proof -
  assume q: "q \<noteq> Disposed"
  have "call_step env Start_Thread (early c v f Not_Started q w) (early c True f Begun q w)"
    using call_step.start [of "early c v f Not_Started q w" env] q by (simp add: early_def swap_flags)
  moreover have "call_step env Start_Thread (early c True f Begun q w) (early c True False (Starting (code_of c)) q w)"
    using call_step.begun [of "early c True f Begun q w" env] q by (simp add: early_def swap_flags)
  ultimately show ?thesis by (rule call_steps.more [OF call_steps_one])
qed

lemma early_stop:
  "fresh_manager c \<Longrightarrow> call_steps env (early c v f p Not_Stopped w) (early c False f p (In_Stop 0) w)"
  using call_step.stop [of "early c v f p Not_Stopped w" env] by (auto simp: early_def swap_flags intro: call_steps_one)

lemma early_wait: "fresh_manager c \<Longrightarrow> call_steps env (early c v f p (In_Stop 0) w) (early c v f p Waiting w)"
  using stop_idle [of "early c v f p (In_Stop 0) w" 0 env] by (simp add: early_def fresh_pointers)

lemma started_recording:
  "is_set c = (\<lambda>_. False) \<Longrightarrow> run_start env (start_code sdk) (c, Some Map.empty) = (True, c', w) \<Longrightarrow> is_on w Recorder"
  using run_start_sound [of "\<lambda>_ w. w Recorder = Some True" "start_code sdk" c Map.empty env c' w] start_code_sound
  by (auto simp: is_on_def)

lemma lost_stop_reached:
  assumes "fresh_manager c"
    and "run_start env (code_of c) (c\<lparr>running := True, finished := False\<rparr>, Some Map.empty) = (True, c', w)"
  shows "\<exists>s. call_steps env (init_state c) s \<and> lost_stop s"
proof -
  let ?w = "Some Map.empty" and ?s = "early c True False (Starting (code_of c)) Waiting (Some Map.empty)"
  let ?t = "?s\<lparr>cam := c', objects := w, start_pc := Looping\<rparr>"
  have "call_steps env (init_state c) (early c False True Not_Started (In_Stop 0) ?w)"
    unfolding early_init [OF assms(1)] by (rule early_stop [OF assms(1)])
  from call_steps_trans [OF early_wait [OF assms(1)] this]
  have "call_steps env (init_state c) (early c False True Not_Started Waiting ?w)" .
  from call_steps_trans [OF early_start this] have 1: "call_steps env (init_state c) ?s" by simp
  have "call_steps env ?s ?t"
    using run_start_steps [of ?s "code_of c" env True c' w] assms(2) by (simp add: early_def)
  from call_steps_trans [OF this 1] have "call_steps env (init_state c) ?t" .
  moreover have "is_on w Recorder"
    using started_recording [OF _ assms(2)] fresh_pointers [OF assms(1)] by simp
  then have "lost_stop ?t"
    using run_start_flags [OF assms(2)] by (simp add: lost_stop_def early_def)
  ultimately show ?thesis by blast
qed

lemma early_return_reached:
  assumes "fresh_manager c"
    and "run_start env (code_of c) (c\<lparr>running := True, finished := False\<rparr>, Some Map.empty) = (True, c', w)"
  shows "\<exists>s. call_steps env (init_state c) s \<and> stop_pc s = Stopped \<and> is_on (objects s) Recorder"
proof -
  let ?w = "Some Map.empty" and ?s = "early c False False (Starting (code_of c)) Waiting (Some Map.empty)"
  let ?t = "?s\<lparr>cam := c'\<lparr>running := False\<rparr>, objects := w, start_pc := Looping\<rparr>"
  have "call_steps env (init_state c) (early c True False (Starting (code_of c)) Not_Stopped ?w)"
    unfolding early_init [OF assms(1)] by (rule early_start) simp
  from call_steps_trans [OF early_wait [OF assms(1)] call_steps_trans [OF early_stop [OF assms(1)] this]]
  have 1: "call_steps env (init_state c) ?s" .
  have "run_start env (code_of c) (c\<lparr>running := False, finished := False\<rparr>, Some Map.empty) =
      (True, c'\<lparr>running := False\<rparr>, w)"
    using run_start_running [OF assms(2), of False] by (simp add: swap_flags)
  then have 2: "call_steps env ?s ?t"
    using run_start_steps [of ?s "code_of c" env True "c'\<lparr>running := False\<rparr>" w] by (simp add: early_def)
  let ?u = "?t\<lparr>start_pc := Leaving\<rparr>"
  have 3: "call_step env Start_Thread ?t ?u"
    using call_step.leave [of ?t env] by (simp add: early_def)
  let ?v = "?u\<lparr>cam := (cam ?u)\<lparr>finished := True\<rparr>, start_pc := Returned 0\<rparr>"
  have 4: "call_step env Start_Thread ?u ?v"
    using call_step.signal [of ?u env] by (simp add: early_def)
  have 5: "call_step env Stop_Thread ?v (?v\<lparr>stop_pc := Stopped\<rparr>)"
    by (rule call_step.woken) (simp_all add: early_def)
  have "call_steps env (init_state c) (?v\<lparr>stop_pc := Stopped\<rparr>)"
    by (rule call_steps.more [OF call_steps.more [OF call_steps.more [OF call_steps_trans [OF 2 1] 3] 4] 5])
  moreover have "is_on w Recorder"
    using started_recording [OF _ assms(2)] fresh_pointers [OF assms(1)] by simp
  ultimately show ?thesis by (intro exI [of _ "?v\<lparr>stop_pc := Stopped\<rparr>"]) simp
qed

lemma late_start_reached:
  assumes "fresh_manager c"
  shows "\<exists>s. call_steps env (init_state c) s \<and> stop_pc s = Disposed \<and> start_pc s = Starting (code_of c) \<and> objects s = None"
proof -
  let ?e = "early c False True Not_Started" and ?w = "Some Map.empty"
  have "call_steps env (init_state c) (?e (In_Stop 0) ?w)"
    unfolding early_init [OF assms] by (rule early_stop [OF assms])
  from call_steps_trans [OF early_wait [OF assms] this] have 1: "call_steps env (init_state c) (?e Waiting ?w)" .
  have 2: "call_step env Stop_Thread (?e Waiting ?w) (?e Stopped ?w)"
    using call_step.woken [of "?e Waiting ?w" env] by (simp add: early_def)
  have 3: "call_step env Stop_Thread (?e Stopped ?w) (?e (In_Dispose 0) ?w)"
    using call_step.dispose [of "?e Stopped ?w" env] by (simp add: early_def)
  have 4: "call_steps env (?e (In_Dispose 0) ?w) (?e Disposed ?w)"
    using dispose_idle [of "?e (In_Dispose 0) ?w" 0 env] by (simp add: early_def fresh_pointers [OF assms])
  have 5: "call_step env Start_Thread (?e Disposed ?w) (early c True True Begun Disposed None)"
    using call_step.start [of "?e Disposed ?w" env] by (simp add: early_def living_def swap_flags)
  have 6: "call_step env Start_Thread (early c True True Begun Disposed None)
      (early c True False (Starting (code_of c)) Disposed None)"
    using call_step.begun [of "early c True True Begun Disposed None" env] by (simp add: early_def living_def)
  have "call_steps env (init_state c) (early c True False (Starting (code_of c)) Disposed None)"
    by (rule call_steps.more [OF call_steps.more [OF call_steps_trans [OF 4
      call_steps.more [OF call_steps.more [OF 1 2] 3]] 5] 6])
  then show ?thesis by (intro exI [of _ "early c True False (Starting (code_of c)) Disposed None"]) (simp add: early_def)
qed

text \<open>The recorder is destroyed by \<open>stop\<close> between two calls that \<open>start\<close> makes on it.\<close>

lemma misuse_reached:
  assumes "fresh_manager c"
    and "run_start env (code_of c) (c\<lparr>running := True, finished := False\<rparr>, Some Map.empty) = (True, c', w)"
  shows "\<exists>s. call_steps env (init_state c) s \<and> stop_pc s = In_Stop 3 \<and> objects s = None"
proof -
  let ?w = "Some Map.empty" and ?sdk = "androidSdkVersion (cm_mic c)"
  let ?s = "early c True False (Starting (code_of c)) Not_Stopped ?w"
  have 1: "call_steps env (init_state c) ?s"
    unfolding early_init [OF assms(1)] by (rule early_start) simp
  let ?is = "[Must (Create Engine_Object), Must (Realize Engine_Object), Must (Get_Interface Engine_Object IID_ENGINE),
    Init Codec, Init Sender, Init Receiver, Init Jitter, Must (Create Recorder)]"
  let ?i = "May (Get_Interface Recorder IID_CONFIGURATION) 1"
  let ?js = "drop 2 (mic_start ?sdk) @ player_start"
  have code: "code_of c = ?is @ ?i # ?js" by (simp add: start_code_def mic_start_def)
  from run_start_begin [of ?is env "?i # ?js" ?s] assms(2) obtain c1 w1 where
    2: "run_start env ?is (cam ?s, ?w) = (True, c1, w1)"
      "call_steps env ?s (?s\<lparr>cam := c1, objects := w1, start_pc := Starting (?i # ?js)\<rparr>)"
    by (auto simp: early_def code)
  let ?F = "\<lambda>P w. P = (\<lambda>_. False)(The_Engine := True, The_Recorder := True) \<and> w = [Engine_Object \<mapsto> False, Recorder \<mapsto> False]"
  have "sound_start ?F ?is (\<lambda>_. False) Map.empty"
    by (simp add: held_def through_ok_def assigned_def built_on_def)
  then have s1: "is_set c1 = (\<lambda>_. False)(The_Engine := True, The_Recorder := True)"
    "w1 = Some [Engine_Object \<mapsto> False, Recorder \<mapsto> False]"
    using run_start_sound [of ?F ?is "cam ?s" Map.empty env c1 w1] 2(1) fresh_pointers [OF assms(1)]
    by (auto simp: early_def)
  define c2 where "c2 = c1\<lparr>running := False\<rparr>"
  have c2: "is_set c2 = is_set c1" by (simp add: c2_def)
  let ?at = "\<lambda>k w. \<lparr>cam = c2, start_pc = Starting (?i # ?js), stop_pc = In_Stop k, objects = w, sent = []\<rparr>"
  have 3: "call_step env Stop_Thread (?s\<lparr>cam := c1, objects := w1, start_pc := Starting (?i # ?js)\<rparr>) (?at 0 w1)"
    using call_step.stop [of "?s\<lparr>cam := c1, objects := w1, start_pc := Starting (?i # ?js)\<rparr>" env]
    by (simp add: early_def c2_def)
  have codes: "stop_code ! 0 = If_Set (Set_State Recorder False)" "stop_code ! Suc 0 = If_Set (Clear Recorder)"
    "stop_code ! 2 = Destroy_Or_Skip Recorder 3" "length stop_code = 15"
    by (simp_all add: stop_code_def mic_stop_def player_stop_def)
  have 4: "call_step env Stop_Thread (?at 0 w1) (?at 1 w1)"
    using call_step.stop_instr [of "?at 0 w1" 0 0 c2 w1 env] by (simp add: codes through_ok_def c2 s1)
  have 5: "call_step env Stop_Thread (?at 1 w1) (?at 2 w1)"
    using call_step.stop_instr [of "?at 1 w1" 1 0 c2 w1 env] by (simp add: codes through_ok_def c2 s1 numeral_2_eq_2)
  have 6: "call_step env Stop_Thread (?at 2 w1) (?at 3 (Some [Engine_Object \<mapsto> False]))"
    using call_step.stop_instr [of "?at 2 w1" 2 0 c2 "Some [Engine_Object \<mapsto> False]" env]
    by (simp add: codes use_object_def through_ok_def c2 s1 built_on_def fun_upd_twist)
  have "use_object P ok (Get_Interface Recorder IID_CONFIGURATION) (Some [Engine_Object \<mapsto> False]) = None" for P ok
    by (simp add: use_object_def)
  then obtain r c3 where instr: "exec_start env ?i (c2, Some [Engine_Object \<mapsto> False]) = (Some r, c3, None)"
    by (cases "env_sl env (Get_Interface Recorder IID_CONFIGURATION)") simp_all
  have 7: "call_step env Start_Thread (?at 3 (Some [Engine_Object \<mapsto> False]))
      (?at 3 None\<lparr>cam := c3, start_pc := Starting (drop r ?js)\<rparr>)"
    using call_step.instr_ok [of "?at 3 (Some [Engine_Object \<mapsto> False])" ?i ?js env r c3 None] instr by simp
  have "call_steps env (init_state c) (?at 3 None\<lparr>cam := c3, start_pc := Starting (drop r ?js)\<rparr>)"
    by (rule call_steps.more [OF call_steps.more [OF call_steps.more [OF call_steps.more [OF call_steps.more
      [OF call_steps_trans [OF 2(2) 1] 3] 4] 5] 6] 7])
  then show ?thesis by (intro exI [of _ "?at 3 None\<lparr>cam := c3, start_pc := Starting (drop r ?js)\<rparr>"]) simp
qed

end
