(* ===== verification/Call_Setup.thy ===== *)
theory Call_Setup
  imports Call_Hazards
begin

text \<open>
  How a call is made: \<open>src/jni/redphone/NetworkUtil.cpp\<close> and the JNI entry points at the end of
  \<open>CallAudioManager.cpp\<close>.  The resolver and the address parsers of the C library are parameters:
  \<open>getaddrinfo\<close> gives the family of a numeric address, \<open>inet_aton\<close> and \<open>inet_pton\<close> its bytes.
\<close>

datatype family = AF_INET | AF_INET6 | AF_OTHER

record net_ops =
  getaddrinfo :: "string \<Rightarrow> family option"
  inet_aton :: "string \<Rightarrow> u8 list option"
  inet_pton6 :: "string \<Rightarrow> u8 list option"

definition getAddressType :: "net_ops \<Rightarrow> string \<Rightarrow> int" where
  "getAddressType net serverIp =
     (case getaddrinfo net serverIp of
        None \<Rightarrow> -1
      | Some f \<Rightarrow> if f = AF_INET then 1 else if f = AF_INET6 then 0 else -1)"

text \<open>\<open>sin_port\<close> in network byte order, and the address.\<close>

datatype sockaddr = Sockaddr_In "u8 list" "u8 list" | Sockaddr_In6 "u8 list" "u8 list"

definition constructSockAddr :: "net_ops \<Rightarrow> string \<Rightarrow> int \<Rightarrow> sockaddr option \<times> nat" where
  "constructSockAddr net serverIp serverPort =
     (let addressType = getAddressType net serverIp
      in if addressType = 1 then
           (map_option (Sockaddr_In (be16 (of_int serverPort))) (inet_aton net serverIp), 16)
         else if addressType = 0 then
           (map_option (Sockaddr_In6 (be16 (of_int serverPort))) (inet_pton6 net serverIp), 28)
         else (None, 0))"

text \<open>\<open>create\<close>: \<open>Inl\<close> is the \<open>NativeAudioException\<close>, \<open>None\<close> a key or salt that is too short to be copied.
  \<open>locks\<close> says whether the mutex and the condition are initialised; the manager of a call that fails
  there is deleted.\<close>

datatype native_exception = Init_Failed | Start_Failed

definition create_manager ::
  "net_ops \<Rightarrow> bool \<Rightarrow> int \<Rightarrow> string \<Rightarrow> int \<Rightarrow> u8 list \<times> u8 list \<times> u8 list \<Rightarrow> u8 list \<times> u8 list \<times> u8 list \<Rightarrow>
   AES_KEY \<Rightarrow> AES_KEY \<Rightarrow> ('e, 'd, 'a) AudioCodec \<Rightarrow> MicrophoneReader \<Rightarrow> AudioPlayer \<Rightarrow>
   (native_exception + sockaddr \<times> nat \<times> ('e, 'd, 'a, 'n) CallAudioManager) option" where
  "create_manager net locks sdk serverIp serverPort sender receiver key1 key2 codec mic player =
     (case constructSockAddr net serverIp serverPort of
        (None, _) \<Rightarrow> Some (Inl Init_Failed)
      | (Some addr, len) \<Rightarrow>
          (case (sender, receiver) of
             ((c1, m1, s1), (c2, m2, s2)) \<Rightarrow>
               do {
                 ps1 \<leftarrow> new_SrtpStreamParameters c1 m1 s1;
                 ps2 \<leftarrow> new_SrtpStreamParameters c2 m2 s2;
                 let manager = new_CallAudioManager sdk ps1 ps2 key1 key2 codec mic player;
                 if \<not> locks then Some (Inl Init_Failed) else Some (Inr (addr, len, manager))
               }))"

lemma create_manager_fresh:
  "create_manager net locks sdk ip port sp rp k1 k2 codec mic player = Some (Inr (addr, len, c)) \<Longrightarrow>
    fresh_manager c \<and> (addr, len) \<in> {(Sockaddr_In (be16 (of_int port)) x, 16) | x. inet_aton net ip = Some x} \<union>
      {(Sockaddr_In6 (be16 (of_int port)) x, 28) | x. inet_pton6 net ip = Some x}"
  by (auto simp: create_manager_def constructSockAddr_def Let_def new_manager_fresh
      split: option.splits prod.splits if_splits bind_splits)

end
