(* ===== verification/Ring_Buffer.thy ===== *)
theory Ring_Buffer
  imports Prelude
begin

text \<open>
  \<open>src/jni/webrtc/modules/audio_processing/utility/ring_buffer.c\<close>, the buffer between the decoder and
  the echo canceller.  Every offset and size in the code is a number of elements times
  \<open>element_size\<close>; \<open>data\<close> is the list of the elements.  Counts are below 2^31, where the code's
  conversions between \<open>size_t\<close> and \<open>int\<close> keep them.
\<close>

datatype Wrap = SAME_WRAP | DIFF_WRAP

record 'a RingBuffer =
  read_pos :: nat
  write_pos :: nat
  element_count :: nat
  rw_wrap :: Wrap
  ring_data :: "'a list"

text \<open>\<open>malloc\<close> leaves the positions and the data as they are in \<open>memory\<close>, if it succeeds.\<close>

definition WebRtc_CreateBuffer :: "nat \<Rightarrow> 'a RingBuffer option \<Rightarrow> 'a RingBuffer option" where
  "WebRtc_CreateBuffer n memory =
     (if n = 0 then None else map_option (\<lambda>self. self\<lparr>element_count := n\<rparr>) memory)"

definition WebRtc_InitBuffer :: "'a \<Rightarrow> 'a RingBuffer option \<Rightarrow> int \<times> 'a RingBuffer option" where
  "WebRtc_InitBuffer zero self =
     (case self of
        None \<Rightarrow> (-1, None)
      | Some self \<Rightarrow>
          (0, Some (self\<lparr>read_pos := 0, write_pos := 0, rw_wrap := SAME_WRAP,
                         ring_data := replicate (element_count self) zero\<rparr>)))"

definition available_read :: "'a RingBuffer \<Rightarrow> nat" where
  "available_read self =
     (if rw_wrap self = SAME_WRAP then write_pos self - read_pos self
      else element_count self - read_pos self + write_pos self)"

definition available_write :: "'a RingBuffer \<Rightarrow> nat" where
  "available_write self = element_count self - available_read self"

text \<open>The two regions, each a position and a length.\<close>

definition GetBufferReadRegions ::
  "'a RingBuffer \<Rightarrow> nat \<Rightarrow> nat \<times> (nat \<times> nat) \<times> (nat \<times> nat)" where
  "GetBufferReadRegions buf n =
     (let readable_elements = available_read buf;
          read_elements = (if readable_elements < n then readable_elements else n);
          margin = element_count buf - read_pos buf
      in if read_elements > margin
         then (read_elements, (read_pos buf, margin), (0, read_elements - margin))
         else (read_elements, (read_pos buf, read_elements), (0, 0)))"

definition MoveReadPtr :: "'a RingBuffer \<Rightarrow> int \<Rightarrow> int \<times> 'a RingBuffer" where
  "MoveReadPtr self n =
     (let free_elements = int (available_write self);
          readable_elements = int (available_read self);
          n = (if n > readable_elements then readable_elements else n);
          n = (if n < - free_elements then - free_elements else n);
          pos = int (read_pos self) + n;
          (pos, self) = (if pos > int (element_count self)
            then (pos - int (element_count self), self\<lparr>rw_wrap := SAME_WRAP\<rparr>) else (pos, self));
          (pos, self) = (if pos < 0
            then (pos + int (element_count self), self\<lparr>rw_wrap := DIFF_WRAP\<rparr>) else (pos, self))
      in (n, self\<lparr>read_pos := nat pos\<rparr>))"

text \<open>\<open>data\<close> is the caller's memory, \<open>want_ptr\<close> says that \<open>data_ptr\<close> is not null.  \<open>where_data\<close> is what
  \<open>*data_ptr\<close> points to: the caller's memory, or a position in the buffer.\<close>

datatype where_data = To_Data | To_Buffer nat

definition ReadBuffer ::
  "'a RingBuffer \<Rightarrow> bool \<Rightarrow> 'a list \<Rightarrow> nat \<Rightarrow> nat \<times> 'a list \<times> where_data \<times> 'a RingBuffer" where
  "ReadBuffer self want_ptr data n =
     (case GetBufferReadRegions self n of
        (read_count, (pos1, len1), (pos2, len2)) \<Rightarrow>
          let region = (\<lambda>pos len. take len (drop pos (ring_data self)));
              (data, ptr) =
                (if len2 > 0 then (write_at (write_at data 0 (region pos1 len1)) len1 (region pos2 len2), To_Data)
                 else if \<not> want_ptr then (write_at data 0 (region pos1 len1), To_Data)
                 else (data, To_Buffer pos1))
          in (read_count, data, ptr, snd (MoveReadPtr self (int read_count))))"

definition WriteBuffer :: "'a RingBuffer \<Rightarrow> 'a list \<Rightarrow> nat \<times> 'a RingBuffer" where
  "WriteBuffer self data =
     (let free_elements = available_write self;
          write_elements = (if free_elements < length data then free_elements else length data);
          n = write_elements;
          margin = element_count self - write_pos self;
          (self, n) =
            (if write_elements > margin
             then (self\<lparr>ring_data := write_at (ring_data self) (write_pos self) (take margin data),
                        write_pos := 0, rw_wrap := DIFF_WRAP\<rparr>, n - margin)
             else (self, n))
      in (write_elements,
          self\<lparr>ring_data := write_at (ring_data self) (write_pos self) (take n (drop (write_elements - n) data)),
               write_pos := write_pos self + n\<rparr>))"

subsection \<open>The queue that it is\<close>

definition ring_inv :: "'a RingBuffer \<Rightarrow> bool" where
  "ring_inv b \<longleftrightarrow> 0 < element_count b \<and> length (ring_data b) = element_count b \<and>
     read_pos b \<le> element_count b \<and> write_pos b \<le> element_count b \<and>
     (if rw_wrap b = SAME_WRAP then read_pos b \<le> write_pos b else write_pos b \<le> read_pos b)"

definition contents :: "'a RingBuffer \<Rightarrow> 'a list" where
  "contents b =
     (if rw_wrap b = SAME_WRAP then take (write_pos b - read_pos b) (drop (read_pos b) (ring_data b))
      else drop (read_pos b) (ring_data b) @ take (write_pos b) (ring_data b))"

lemma length_contents: "ring_inv b \<Longrightarrow> length (contents b) = available_read b"
  by (auto simp: ring_inv_def contents_def available_read_def)

lemma available_read_le: "ring_inv b \<Longrightarrow> available_read b \<le> element_count b"
  by (auto simp: ring_inv_def available_read_def split: if_splits)

lemma init_ring:
  "WebRtc_CreateBuffer n memory = Some b \<Longrightarrow>
    \<exists>b'. WebRtc_InitBuffer zero (Some b) = (0, Some b') \<and> ring_inv b' \<and> contents b' = [] \<and> element_count b' = n"
  by (auto simp: WebRtc_CreateBuffer_def WebRtc_InitBuffer_def ring_inv_def contents_def split: if_splits)

lemma WriteBuffer_contents:
  assumes "ring_inv b" "WriteBuffer b xs = (k, b')"
  shows "ring_inv b'" "element_count b' = element_count b"
    and "k = min (length xs) (element_count b - length (contents b))"
    and "contents b' = contents b @ take k xs"
proof -
  let ?r = "read_pos b" and ?w = "write_pos b" and ?n = "element_count b" and ?d = "ring_data b"
  have len: "length ?d = ?n" "?r \<le> ?n" "?w \<le> ?n" "0 < ?n" using assms(1) by (simp_all add: ring_inv_def)
  have k: "k = min (length xs) (available_write b)"
    using assms(2) by (auto simp: WriteBuffer_def Let_def split: if_splits)
  then show "k = min (length xs) (?n - length (contents b))"
    using length_contents [OF assms(1)] by (simp add: available_write_def)
  have kx: "length (take k xs) = k" using k by simp
  consider (wrap) "rw_wrap b = SAME_WRAP" "k > ?n - ?w" | (same) "rw_wrap b = SAME_WRAP" "k \<le> ?n - ?w"
    | (diff) "rw_wrap b = DIFF_WRAP" "k \<le> ?n - ?w"
  proof (cases "rw_wrap b")
    case DIFF_WRAP
    then have "?w \<le> ?r" using assms(1) by (simp add: ring_inv_def)
    then have "k \<le> ?n - ?w" using k DIFF_WRAP len by (simp add: available_write_def available_read_def)
    then show ?thesis using that(3) DIFF_WRAP by simp
  qed (use that(1,2) in linarith)
  then have "ring_inv b' \<and> element_count b' = ?n \<and> contents b' = contents b @ take k xs"
  proof cases
    case wrap
    have le: "?r \<le> ?w" using assms(1) wrap(1) by (simp add: ring_inv_def)
    define d1 where "d1 = take ?w ?d @ take (?n - ?w) xs"
    have d1: "write_at ?d ?w (take (?n - ?w) xs) = d1" "length d1 = ?n"
      using wrap(2) k len by (simp_all add: write_at_def d1_def)
    have b': "b' = b\<lparr>ring_data := write_at d1 0 (take (k - (?n - ?w)) (drop (?n - ?w) xs)),
        write_pos := k - (?n - ?w), rw_wrap := DIFF_WRAP\<rparr>"
      using assms(2) wrap(2) k d1(1) by (auto simp: WriteBuffer_def Let_def min_def split: if_splits)
    have fits: "k - (?n - ?w) \<le> ?r" using k wrap le len by (simp add: available_write_def available_read_def)
    have kn: "k - (?n - ?w) \<le> length xs - (?n - ?w)" using k by simp
    have "drop ?r (write_at d1 0 (take (k - (?n - ?w)) (drop (?n - ?w) xs))) = drop ?r d1"
      using fits kn d1(2) len by (simp add: write_at_def drop_append min_absorb2)
    moreover have "drop ?r d1 = take (?w - ?r) (drop ?r ?d) @ take (?n - ?w) xs"
      using le len by (simp add: d1_def drop_take)
    moreover have "take (k - (?n - ?w)) (write_at d1 0 (take (k - (?n - ?w)) (drop (?n - ?w) xs))) =
        take (k - (?n - ?w)) (drop (?n - ?w) xs)"
      using kn by (simp add: write_at_def)
    moreover have "take (?n - ?w) xs @ take (k - (?n - ?w)) (drop (?n - ?w) xs) = take k xs"
      using wrap(2) take_add [of "?n - ?w" "k - (?n - ?w)" xs] by simp
    ultimately have "contents b' = contents b @ take k xs"
      by (simp add: b' contents_def wrap(1))
    moreover have "ring_inv b'"
      using fits kn d1(2) len by (simp add: b' ring_inv_def write_at_def)
    ultimately show ?thesis by (simp add: b')
  next
    case same
    have le: "?r \<le> ?w" using assms(1) same(1) by (simp add: ring_inv_def)
    have b': "b' = b\<lparr>ring_data := write_at ?d ?w (take k xs), write_pos := ?w + k\<rparr>"
      using assms(2) same(2) k by (auto simp: WriteBuffer_def Let_def min_def split: if_splits)
    have "take (?w + k - ?r) (drop ?r (write_at ?d ?w (take k xs))) = take (?w - ?r) (drop ?r ?d) @ take k xs"
      using le same(2) len kx by (simp add: write_at_def drop_take)
    then show ?thesis
      using le same len kx by (simp add: b' contents_def ring_inv_def)
  next
    case diff
    have le: "?w \<le> ?r" using assms(1) diff(1) by (simp add: ring_inv_def)
    have fits: "?w + k \<le> ?r" using k diff(1) le len by (simp add: available_write_def available_read_def)
    have b': "b' = b\<lparr>ring_data := write_at ?d ?w (take k xs), write_pos := ?w + k\<rparr>"
      using assms(2) diff(2) k by (auto simp: WriteBuffer_def Let_def min_def split: if_splits)
    have "drop ?r (write_at ?d ?w (take k xs)) = drop ?r ?d"
      using fits len kx by (simp add: write_at_def drop_append)
    moreover have "take (?w + k) (write_at ?d ?w (take k xs)) = take ?w ?d @ take k xs"
      using len kx by (simp add: write_at_def)
    ultimately show ?thesis
      using fits diff len kx by (simp add: b' contents_def ring_inv_def)
  qed
  then show "ring_inv b'" "element_count b' = ?n" "contents b' = contents b @ take k xs" by simp_all
qed

lemma MoveReadPtr_forward:
  assumes "ring_inv b" "n \<le> available_read b" "MoveReadPtr b (int n) = (k, b')"
  shows "ring_inv b' \<and> element_count b' = element_count b \<and> k = int n \<and> contents b' = drop n (contents b)"
proof -
  let ?r = "read_pos b" and ?w = "write_pos b" and ?n = "element_count b" and ?d = "ring_data b"
  have len: "length ?d = ?n" "?r \<le> ?n" "?w \<le> ?n" "0 < ?n" using assms(1) by (simp_all add: ring_inv_def)
  show ?thesis
  proof (cases "rw_wrap b")
    case SAME_WRAP
    then have le: "?r + n \<le> ?w" "?r \<le> ?w"
      using assms(1,2) by (auto simp: ring_inv_def available_read_def)
    then have b': "k = int n" "b' = b\<lparr>read_pos := ?r + n\<rparr>"
      using assms(2,3) len by (auto simp: MoveReadPtr_def Let_def nat_int_add split: if_splits)
    have "take (?w - (?r + n)) (drop (?r + n) ?d) = drop n (take (?w - ?r) (drop ?r ?d))"
      using le by (simp add: drop_take add.commute)
    then show ?thesis using le len SAME_WRAP by (simp add: b' ring_inv_def contents_def)
  next
    case DIFF_WRAP
    then have le: "?w \<le> ?r" using assms(1) by (simp add: ring_inv_def)
    have av: "n \<le> ?n - ?r + ?w" using assms(2) DIFF_WRAP by (simp add: available_read_def)
    show ?thesis
    proof (cases "?r + n > ?n")
      case True
      then have b': "k = int n" "b' = b\<lparr>rw_wrap := SAME_WRAP, read_pos := ?r + n - ?n\<rparr>"
        using assms(2,3) len by (auto simp: MoveReadPtr_def Let_def split: if_splits)
      have "take (?w - (?r + n - ?n)) (drop (?r + n - ?n) ?d) = drop n (drop ?r ?d @ take ?w ?d)"
        using True av len by (simp add: drop_append drop_take add.commute)
      moreover have "?r + n - ?n \<le> ?w" using av len by linarith
      ultimately show ?thesis using len DIFF_WRAP by (simp add: b' ring_inv_def contents_def)
    next
      case False
      then have b': "k = int n" "b' = b\<lparr>read_pos := ?r + n\<rparr>"
        using assms(2,3) len by (auto simp: MoveReadPtr_def Let_def nat_int_add split: if_splits)
      show ?thesis using False le len DIFF_WRAP by (simp add: b' ring_inv_def contents_def add.commute)
    qed
  qed
qed

text \<open>Moving back makes the elements before the read position, as far as there is room, readable again.\<close>

lemma MoveReadPtr_back:
  assumes "ring_inv b" "0 < n" "n \<le> available_write b" "MoveReadPtr b (- int n) = (k, b')"
  shows "ring_inv b' \<and> element_count b' = element_count b \<and> k = - int n \<and>
    length (contents b') = length (contents b) + n \<and> drop n (contents b') = contents b"
proof -
  let ?r = "read_pos b" and ?w = "write_pos b" and ?n = "element_count b" and ?d = "ring_data b"
  have len: "length ?d = ?n" "?r \<le> ?n" "?w \<le> ?n" "0 < ?n" using assms(1) by (simp_all add: ring_inv_def)
  show ?thesis
  proof (cases "n \<le> ?r")
    case True
    then have b': "k = - int n" "b' = b\<lparr>read_pos := ?r - n\<rparr>"
      using assms(2-4) len by (auto simp: MoveReadPtr_def Let_def split: if_splits)
    show ?thesis
    proof (cases "rw_wrap b")
      case SAME_WRAP
      then have le: "?r \<le> ?w" using assms(1) by (simp add: ring_inv_def)
      have "drop n (take (?w - (?r - n)) (drop (?r - n) ?d)) = take (?w - ?r) (drop ?r ?d)"
        using True le by (simp add: drop_take)
      then show ?thesis using True le len SAME_WRAP by (auto simp: b' ring_inv_def contents_def)
    next
      case DIFF_WRAP
      then have le: "?w \<le> ?r - n" "?w \<le> ?r"
        using assms(1,3) len by (auto simp: ring_inv_def available_write_def available_read_def)
      then show ?thesis using True len DIFF_WRAP by (auto simp: b' ring_inv_def contents_def)
    qed
  next
    case False
    have same: "rw_wrap b = SAME_WRAP"
    proof (rule ccontr)
      assume "rw_wrap b \<noteq> SAME_WRAP"
      then show False using False assms(3) len by (simp add: available_write_def available_read_def)
    qed
    have le: "?r \<le> ?w" using assms(1) same by (simp add: ring_inv_def)
    have av: "n \<le> ?n - (?w - ?r)" using assms(3) same by (simp add: available_write_def available_read_def)
    have b': "k = - int n" "b' = b\<lparr>rw_wrap := DIFF_WRAP, read_pos := ?r + ?n - n\<rparr>"
      using False assms(2-4) len by (auto simp: MoveReadPtr_def Let_def split: if_splits)
    have le': "?w \<le> ?r + ?n - n" "?r + ?n - n \<le> ?n" "n + (?r + ?n - n) = ?r + ?n" using av le len False by linarith+
    have "drop n (drop (?r + ?n - n) ?d @ take ?w ?d) = take (?w - ?r) (drop ?r ?d)"
      using False le le' len by (simp add: drop_take)
    then show ?thesis using False le le' len same by (simp add: b' ring_inv_def contents_def)
  qed
qed

lemma ReadBuffer_contents:
  assumes "ring_inv b" "n \<le> length data" "ReadBuffer b want data n = (k, data', ptr, b')"
  shows "ring_inv b'" "element_count b' = element_count b" "k = min n (length (contents b))"
    and "contents b' = drop k (contents b)"
    and "ptr = To_Data \<Longrightarrow> data' = take k (contents b) @ drop k data"
    and "ptr = To_Buffer p \<Longrightarrow> data' = data \<and> take k (drop p (ring_data b')) = take k (contents b)"
    and "\<not> want \<Longrightarrow> ptr = To_Data"
proof -
  let ?r = "read_pos b" and ?w = "write_pos b" and ?n = "element_count b" and ?d = "ring_data b"
  have len: "length ?d = ?n" "?r \<le> ?n" "?w \<le> ?n" "0 < ?n" using assms(1) by (simp_all add: ring_inv_def)
  define j where "j = min n (available_read b)"
  have k: "k = j" "b' = snd (MoveReadPtr b (int j))"
    using assms(3) by (auto simp: ReadBuffer_def GetBufferReadRegions_def Let_def j_def min_def split: if_splits)
  then show k': "k = min n (length (contents b))" using length_contents [OF assms(1)] by (simp add: j_def)
  obtain i b1 where mv: "MoveReadPtr b (int j) = (i, b1)" by fastforce
  have "j \<le> available_read b" by (simp add: j_def)
  note fw = MoveReadPtr_forward [OF assms(1) this mv]
  show "ring_inv b'" "element_count b' = ?n" "contents b' = drop k (contents b)"
    using fw k mv by simp_all
  have d: "ring_data b' = ?d" unfolding k(2) by (auto simp: MoveReadPtr_def Let_def)
  have jn: "j \<le> length data" using assms(2) by (simp add: j_def)
  have one: "take j (drop ?r ?d) = take j (contents b)" if "j \<le> ?n - ?r"
    using that len by (auto simp: contents_def j_def available_read_def min_absorb1)
  show "data' = take k (contents b) @ drop k data" if "ptr = To_Data"
  proof (cases "j > ?n - ?r")
    case True
    then have diff: "rw_wrap b = DIFF_WRAP"
      using len by (cases "rw_wrap b") (auto simp: j_def available_read_def)
    have dt: "data' = write_at (write_at data 0 (drop ?r ?d)) (?n - ?r) (take (j - (?n - ?r)) ?d)"
      using assms(3) True len
      by (auto simp: ReadBuffer_def GetBufferReadRegions_def Let_def j_def min_def split: if_splits)
    have "j - (?n - ?r) \<le> ?w" using diff by (simp add: j_def available_read_def)
    then show ?thesis using True diff len jn by (simp add: dt k(1) contents_def write_at_def min_absorb1)
  next
    case False
    then have "data' = write_at data 0 (take j (drop ?r ?d))"
      using assms(3) that
      by (auto simp: ReadBuffer_def GetBufferReadRegions_def Let_def j_def min_def split: if_splits)
    moreover have "j \<le> length (contents b)" using length_contents [OF assms(1)] by (simp add: j_def)
    ultimately show ?thesis using one False len by (simp add: k(1) write_at_def min_absorb2)
  qed
  show "data' = data \<and> take k (drop p (ring_data b')) = take k (contents b)" if "ptr = To_Buffer p"
  proof -
    have "data' = data" "p = ?r" "j \<le> ?n - ?r"
      using assms(3) that
      by (auto simp: ReadBuffer_def GetBufferReadRegions_def Let_def j_def min_def split: if_splits)
    then show ?thesis using one d by (simp add: k(1))
  qed
  show "ptr = To_Data" if "\<not> want"
    using assms(3) that by (auto simp: ReadBuffer_def GetBufferReadRegions_def Let_def split: if_splits)
qed

subsection \<open>The memory behind the queue\<close>

text \<open>All elements of the buffer in the order in which they were written: the readable ones are the last of
  them, and moving the read position back makes older ones readable again.\<close>

definition ring_mem :: "'a RingBuffer \<Rightarrow> 'a list" where
  "ring_mem b = drop (write_pos b) (ring_data b) @ take (write_pos b) (ring_data b)"

lemma length_ring_mem: "ring_inv b \<Longrightarrow> length (ring_mem b) = element_count b"
  by (simp add: ring_inv_def ring_mem_def)

lemma contents_ring_mem:
  assumes "ring_inv b"
  shows "contents b = drop (element_count b - available_read b) (ring_mem b)"
proof (cases "rw_wrap b")
  case SAME_WRAP
  then have "element_count b - (write_pos b - read_pos b) = (element_count b - write_pos b) + read_pos b"
    using assms by (simp add: ring_inv_def)
  then show ?thesis
    using assms SAME_WRAP by (simp add: ring_inv_def contents_def available_read_def ring_mem_def drop_take)
next
  case DIFF_WRAP
  then have "element_count b - (element_count b - read_pos b + write_pos b) = read_pos b - write_pos b"
    using assms by (simp add: ring_inv_def)
  then show ?thesis
    using assms DIFF_WRAP by (simp add: ring_inv_def contents_def available_read_def ring_mem_def)
qed

lemma WriteBuffer_mem:
  assumes "ring_inv b" "WriteBuffer b xs = (k, b')"
  shows "ring_mem b' = drop k (ring_mem b) @ take k xs"
proof -
  let ?w = "write_pos b" and ?n = "element_count b" and ?d = "ring_data b"
  have len: "length ?d = ?n" "?w \<le> ?n" using assms(1) by (simp_all add: ring_inv_def)
  have k: "k \<le> length xs" "k \<le> ?n"
    using assms(2) by (auto simp: WriteBuffer_def Let_def available_write_def split: if_splits)
  show ?thesis
  proof (cases "k > ?n - ?w")
    case True
    have "write_pos b' = k - (?n - ?w)"
      "ring_data b' = write_at (write_at ?d ?w (take (?n - ?w) xs)) 0 (take (k - (?n - ?w)) (drop (?n - ?w) xs))"
      using assms(2) True by (auto simp: WriteBuffer_def Let_def split: if_splits)
    moreover have "take (?n - ?w) xs @ take (k - (?n - ?w)) (drop (?n - ?w) xs) = take k xs"
      using True take_add [of "?n - ?w" "k - (?n - ?w)" xs] by simp
    moreover have "min (length xs - (?n - ?w)) (k - (?n - ?w)) = k - (?n - ?w)" using k by simp
    ultimately show ?thesis
      using True k len by (simp add: ring_mem_def write_at_def drop_take min_def)
  next
    case False
    have "write_pos b' = ?w + k" "ring_data b' = write_at ?d ?w (take k xs)"
      using assms(2) False by (auto simp: WriteBuffer_def Let_def split: if_splits)
    then show ?thesis using False k len by (simp add: ring_mem_def write_at_def min_def add.commute)
  qed
qed

text \<open>\<open>MoveReadPtr\<close> and \<open>ReadBuffer\<close> move the read position only.\<close>

lemma MoveReadPtr_mem: "MoveReadPtr b n = (k, b') \<Longrightarrow> ring_mem b' = ring_mem b"
  unfolding MoveReadPtr_def Let_def ring_mem_def split_beta by auto

lemma ReadBuffer_mem: "ReadBuffer b want data n = (k, data', ptr, b') \<Longrightarrow> ring_mem b' = ring_mem b"
  unfolding ReadBuffer_def Let_def split_beta
  by (metis MoveReadPtr_mem prod.collapse prod.inject)

text \<open>How far the read position moves: no further than there is something to read, or to read again.\<close>

lemma MoveReadPtr_available:
  assumes "ring_inv b" "MoveReadPtr b n = (k, b')"
  shows "ring_inv b'" "element_count b' = element_count b"
    "k = max (- int (available_write b)) (min n (int (available_read b)))"
    "int (available_read b') = int (available_read b) - k"
proof -
  have av: "available_read b \<le> element_count b" by (rule available_read_le [OF assms(1)])
  define clamp where "clamp i = (let i = (if i > int (available_read b) then int (available_read b) else i)
    in if i < - int (available_write b) then - int (available_write b) else i)" for i
  define move where "move m = (let pos = int (read_pos b) + m;
      (pos, self) = (if pos > int (element_count b)
        then (pos - int (element_count b), b\<lparr>rw_wrap := SAME_WRAP\<rparr>) else (pos, b));
      (pos, self) = (if pos < 0
        then (pos + int (element_count self), self\<lparr>rw_wrap := DIFF_WRAP\<rparr>) else (pos, self))
    in (m, self\<lparr>read_pos := nat pos\<rparr>))" for m
  have move: "MoveReadPtr b i = move (clamp i)" for i
    by (simp only: MoveReadPtr_def Let_def clamp_def move_def)
  have fst_move: "fst (move m) = m" for m by (simp add: move_def Let_def split_beta)
  have k_clamp: "k = clamp n" using assms(2) fst_move [of "clamp n"] by (simp add: move)
  then show k: "k = max (- int (available_write b)) (min n (int (available_read b)))"
    by (simp add: clamp_def Let_def max_def min_def)
  have "clamp k = k" by (auto simp: k_clamp clamp_def Let_def)
  then have same: "MoveReadPtr b n = MoveReadPtr b k" by (simp add: move k_clamp)
  have "ring_inv b' \<and> element_count b' = element_count b \<and> int (available_read b') = int (available_read b) - k"
  proof (cases "0 \<le> k")
    case True
    then have le: "nat k \<le> available_read b" and i: "int (nat k) = k" using k by auto
    have "MoveReadPtr b (int (nat k)) = (k, b')" using assms(2) by (simp only: i same)
    note fw = MoveReadPtr_forward [OF assms(1) le this]
    then have "available_read b' = available_read b - nat k"
      using length_contents [of b'] length_contents [OF assms(1)] by simp
    then show ?thesis using fw le i by linarith
  next
    case False
    then have le: "0 < nat (- k)" "nat (- k) \<le> available_write b" and i: "- int (nat (- k)) = k"
      using k by auto
    have "MoveReadPtr b (- int (nat (- k))) = (k, b')" using assms(2) by (simp only: i same)
    note bk = MoveReadPtr_back [OF assms(1) le this]
    then have "available_read b' = available_read b + nat (- k)"
      using length_contents [of b'] length_contents [OF assms(1)] by simp
    then show ?thesis using bk i by linarith
  qed
  then show "ring_inv b'" "element_count b' = element_count b" "int (available_read b') = int (available_read b) - k"
    by simp_all
qed

subsection \<open>First in, first out\<close>

text \<open>What the callers rely on: a bounded queue that takes what fits and gives back in order.\<close>

locale bounded_queue =
  fixes inv :: "'q \<Rightarrow> bool"
    and abs :: "'q \<Rightarrow> 'a list"
    and capacity :: "'q \<Rightarrow> nat"
    and put :: "'q \<Rightarrow> 'a list \<Rightarrow> nat \<times> 'q"
    and get :: "'q \<Rightarrow> nat \<Rightarrow> 'a list \<times> 'q"
  assumes put_ok: "inv q \<Longrightarrow> put q xs = (k, q') \<Longrightarrow> inv q' \<and> capacity q' = capacity q \<and>
      k = min (length xs) (capacity q - length (abs q)) \<and> abs q' = abs q @ take k xs"
    and get_ok: "inv q \<Longrightarrow> get q n = (ys, q') \<Longrightarrow> inv q' \<and> capacity q' = capacity q \<and>
      ys = take n (abs q) \<and> abs q' = drop n (abs q)"
    and within: "inv q \<Longrightarrow> length (abs q) \<le> capacity q"
begin

text \<open>A run of puts (\<open>Inl\<close>) and gets (\<open>Inr\<close>): what was accepted, what was given, and the queue.\<close>

fun run :: "'q \<Rightarrow> ('a list + nat) list \<Rightarrow> 'a list \<times> 'a list \<times> 'q" where
  "run q [] = ([], [], q)"
| "run q (Inl xs # ops) =
     (case put q xs of (k, q) \<Rightarrow> case run q ops of (ins, outs, q) \<Rightarrow> (take k xs @ ins, outs, q))"
| "run q (Inr n # ops) =
     (case get q n of (ys, q) \<Rightarrow> case run q ops of (ins, outs, q) \<Rightarrow> (ins, ys @ outs, q))"

lemma run_fifo:
  "inv q \<Longrightarrow> run q ops = (ins, outs, q') \<Longrightarrow>
    inv q' \<and> capacity q' = capacity q \<and> length (abs q') \<le> capacity q \<and> abs q @ ins = outs @ abs q'"
proof (induction q ops arbitrary: ins outs q' rule: run.induct)
  case (1 q)
  then show ?case using within by simp
next
  case (2 q xs ops)
  obtain k q1 where p: "put q xs = (k, q1)" by fastforce
  obtain ins1 outs1 q2 where r: "run q1 ops = (ins1, outs1, q2)" by (metis prod_cases3)
  note ok = put_ok [OF 2(2) p]
  then show ?case using 2(1) [OF p [symmetric] _ r] 2(3) p r by simp
next
  case (3 q n ops)
  obtain ys q1 where p: "get q n = (ys, q1)" by fastforce
  obtain ins1 outs1 q2 where r: "run q1 ops = (ins1, outs1, q2)" by (metis prod_cases3)
  note ok = get_ok [OF 3(2) p]
  note ih = 3(1) [OF p [symmetric] _ r]
  have outs: "ins1 = ins" "outs = ys @ outs1" "q2 = q'" using 3(3) p r by simp_all
  have "abs q @ ins = ys @ (abs q1 @ ins)" using ok by simp
  also have "abs q1 @ ins = outs1 @ abs q'" using ih ok outs by simp
  finally show ?case using ih ok outs by simp
qed

end

text \<open>The buffer read as the echo canceller reads it, into memory of the caller's; the elements are
  where \<open>*data_ptr\<close> points.\<close>

definition ring_get :: "bool \<Rightarrow> 'a list \<Rightarrow> 'a RingBuffer \<Rightarrow> nat \<Rightarrow> 'a list \<times> 'a RingBuffer" where
  "ring_get want memory b n =
     (case ReadBuffer b want (take n memory @ replicate (n - length memory) (ring_data b ! 0)) n of
        (k, data, To_Data, b') \<Rightarrow> (take k data, b')
      | (k, data, To_Buffer p, b') \<Rightarrow> (take k (drop p (ring_data b')), b'))"

interpretation ring: bounded_queue ring_inv contents element_count WriteBuffer "ring_get want memory"
  for want memory
proof unfold_locales
  fix q :: "'a RingBuffer" and xs k q'
  assume "ring_inv q" "WriteBuffer q xs = (k, q')"
  then show "ring_inv q' \<and> element_count q' = element_count q \<and>
      k = min (length xs) (element_count q - length (contents q)) \<and> contents q' = contents q @ take k xs"
    using WriteBuffer_contents by blast
next
  fix q :: "'a RingBuffer" and n ys q'
  assume q: "ring_inv q" "ring_get want memory q n = (ys, q')"
  let ?m = "take n memory @ replicate (n - length memory) (ring_data q ! 0)"
  obtain k data ptr b' where r: "ReadBuffer q want ?m n = (k, data, ptr, b')" by (metis prod_cases4)
  have "n \<le> length ?m" by simp
  note ok = ReadBuffer_contents [OF q(1) this r]
  have "ys = take k (contents q) \<and> q' = b'"
    using q(2) r ok(5,6) by (cases ptr) (auto simp: ring_get_def ok(3) min_absorb1)
  then show "ring_inv q' \<and> element_count q' = element_count q \<and> ys = take n (contents q) \<and> contents q' = drop n (contents q)"
    using ok(1-4) by (auto simp: min_def)
qed (simp add: length_contents available_read_le)

lemma ring_get_mem: "ring_get want memory b n = (ys, b') \<Longrightarrow> ring_mem b' = ring_mem b"
  by (auto simp: ring_get_def split: prod.splits where_data.splits dest: ReadBuffer_mem)

subsection \<open>A ring by the history of what was written to it\<close>

text \<open>The last \<open>N\<close> elements of the history are in the memory; the last \<open>n\<close> of them are to be read.  Moving
  the read position backwards makes older ones readable again.\<close>

definition history_ring :: "nat \<Rightarrow> 'a RingBuffer \<Rightarrow> 'a list \<Rightarrow> nat \<Rightarrow> bool" where
  "history_ring N b h n \<longleftrightarrow> ring_inv b \<and> element_count b = N \<and> N \<le> length h \<and>
     ring_mem b = drop (length h - N) h \<and> available_read b = n"

lemma history_contents: "history_ring N b h n \<Longrightarrow> n \<le> N \<and> contents b = drop (length h - n) h"
  using available_read_le [of b] by (auto simp: history_ring_def contents_ring_mem)

text \<open>A write takes what there is room for; the rest is lost.\<close>

lemma history_put_some:
  assumes "history_ring N b h n"
  shows "history_ring N (snd (WriteBuffer b xs)) (h @ take (N - n) xs) (n + min (length xs) (N - n))"
proof (cases "WriteBuffer b xs")
  case (Pair k b')
  have inv: "ring_inv b" and h: "N \<le> length h" "n \<le> N"
    using assms(1) history_contents [OF assms] by (simp_all add: history_ring_def)
  note ok = WriteBuffer_contents [OF inv Pair]
  have k: "k = min (length xs) (N - n)" using ok(3) length_contents [OF inv] assms by (simp add: history_ring_def)
  have "ring_mem b' = drop k (drop (length h - N) h) @ take k xs"
    using WriteBuffer_mem [OF inv Pair] assms(1) by (simp add: history_ring_def)
  moreover have t: "take (N - n) xs = take k xs" unfolding k by (simp add: min_def)
  moreover have l: "k \<le> N" "length (take k xs) = k" using k h(2) by simp_all
  moreover have "drop k (drop (length h - N) h) @ take k xs = drop (length h + k - N) (h @ take k xs)"
  proof -
    have "length h + k - N = k + (length h - N)" "length h + k - N - length h = 0" using h(1) l(1) by linarith+
    then show ?thesis by (simp only: drop_append drop_drop drop_0)
  qed
  ultimately have mem: "ring_mem b' = drop (length (h @ take (N - n) xs) - N) (h @ take (N - n) xs)"
    by (simp only: length_append)
  have "available_read b' = n + k"
    using ok(4) length_contents [OF inv] length_contents [OF ok(1)] l(2) assms by (simp add: history_ring_def)
  moreover have "element_count b' = N" "N \<le> length (h @ take (N - n) xs)" using ok(2) assms h(1) by (simp_all add: history_ring_def)
  ultimately show ?thesis using Pair ok(1) mem k by (simp add: history_ring_def)
qed

lemma history_put:
  assumes "history_ring N b h n" "n + length xs \<le> N"
  shows "history_ring N (snd (WriteBuffer b xs)) (h @ xs) (n + length xs)"
proof -
  have "length xs \<le> N - n" using assms(2) by simp
  then show ?thesis using history_put_some [OF assms(1), of xs] by (simp add: min_def)
qed

lemma history_move:
  assumes "history_ring N b h n" "- int (N - n) \<le> i" "i \<le> int n"
  shows "history_ring N (snd (MoveReadPtr b i)) h (nat (int n - i))"
proof (cases "MoveReadPtr b i")
  case (Pair k b')
  have inv: "ring_inv b" using assms(1) by (simp add: history_ring_def)
  note ok = MoveReadPtr_available [OF inv Pair]
  have "available_write b = N - n" using assms(1) by (simp add: history_ring_def available_write_def)
  then have "k = i" using ok(3) assms by (simp add: history_ring_def)
  then show ?thesis using assms ok Pair MoveReadPtr_mem [OF Pair] by (simp add: history_ring_def)
qed

lemma history_get:
  assumes "history_ring N b h n" "k \<le> n"
  obtains b' where "ring_get want memory b k = (take k (drop (length h - n) h), b')" "history_ring N b' h (n - k)"
proof (cases "ring_get want memory b k")
  case (Pair ys b')
  have inv: "ring_inv b" using assms(1) by (simp add: history_ring_def)
  note ok = ring.get_ok [OF inv Pair] and c = history_contents [OF assms(1)]
  have n: "n \<le> length h" using c assms(1) by (simp add: history_ring_def)
  have "available_read b' = n - k"
    using ok c length_contents [of b'] n assms by (simp add: history_ring_def)
  then show ?thesis
    using that [of b'] assms Pair ok c ring_get_mem [OF Pair] by (simp add: history_ring_def)
qed

end
