(* ===== verification/Jitter_Buffer.thy ===== *)
theory Jitter_Buffer
  imports Prelude "HOL-Library.Multiset"
begin

text \<open>
  \<open>src/jni/redphone/JitterBuffer.cpp\<close> and \<open>EncodedAudioData.h\<close>: a queue of encoded frames ordered by
  sequence number.  The order among frames with the same number is the library's; here the frame
  added last comes first.  Each call holds the lock, so the calls are steps of one sequence.
\<close>

record EncodedAudioData =
  audio_data :: "u8 list"
  audio_sequence :: "64 word"

definition new_EncodedAudioData :: "u8 list \<Rightarrow> nat \<Rightarrow> 64 word \<Rightarrow> EncodedAudioData option" where
  "new_EncodedAudioData encoded encodedLen sq =
     map_option (\<lambda>d. \<lparr>audio_data = d, audio_sequence = sq\<rparr>) (read_bytes encoded 0 encodedLen)"

definition CompareSequence :: "EncodedAudioData \<Rightarrow> EncodedAudioData \<Rightarrow> bool" where
  "CompareSequence lh rh \<longleftrightarrow> sint (audio_sequence lh) > sint (audio_sequence rh)"

subsection \<open>std::priority_queue\<close>

text \<open>What the standard promises of \<open>push\<close>, \<open>top\<close>, \<open>pop\<close> and \<open>empty\<close>, for a comparison: no element
  stands before the top.\<close>

locale std_priority_queue =
  fixes compare :: "'a \<Rightarrow> 'a \<Rightarrow> bool"
    and inv :: "'q \<Rightarrow> bool"
    and elems :: "'q \<Rightarrow> 'a multiset"
    and push :: "'a \<Rightarrow> 'q \<Rightarrow> 'q"
    and top :: "'q \<Rightarrow> 'a"
    and pop :: "'q \<Rightarrow> 'q"
  assumes push_ok: "inv q \<Longrightarrow> inv (push x q) \<and> elems (push x q) = add_mset x (elems q)"
    and top_ok: "inv q \<Longrightarrow> elems q \<noteq> {#} \<Longrightarrow> top q \<in># elems q \<and> (\<forall>x \<in># elems q. \<not> compare (top q) x)"
    and pop_ok: "inv q \<Longrightarrow> elems q \<noteq> {#} \<Longrightarrow> inv (pop q) \<and> elems (pop q) = elems q - {#top q#}"
begin

fun drain :: "nat \<Rightarrow> 'q \<Rightarrow> 'a list \<times> 'q" where
  "drain 0 q = ([], q)"
| "drain (Suc n) q = (case drain n (pop q) of (xs, q') \<Rightarrow> (top q # xs, q'))"

lemma drain_ok:
  "inv q \<Longrightarrow> size (elems q) = n \<Longrightarrow> drain n q = (xs, q') \<Longrightarrow>
    inv q' \<and> elems q' = {#} \<and> mset xs = elems q \<and> sorted_wrt (\<lambda>x y. \<not> compare x y) xs"
proof (induction n arbitrary: q xs q')
  case (Suc n)
  have ne: "elems q \<noteq> {#}" using Suc.prems(2) by auto
  obtain ys q1 where d: "drain n (pop q) = (ys, q1)" by fastforce
  note t = top_ok [OF Suc.prems(1) ne] and p = pop_ok [OF Suc.prems(1) ne]
  have "size (elems (pop q)) = n" using Suc.prems(2) t p by (simp add: size_Diff_singleton)
  note ih = Suc.IH [OF conjunct1 [OF p] this d]
  have ys: "mset ys = elems q - {#top q#}" using ih p by simp
  then have "set ys = set_mset (elems q - {#top q#})" by (metis set_mset_mset)
  then have "\<forall>y \<in> set ys. \<not> compare (top q) y" using t by (auto dest: in_diffD)
  moreover have "mset (top q # ys) = elems q" using ys t by simp
  moreover have "xs = top q # ys" "q' = q1" using Suc.prems(3) d by simp_all
  ultimately show ?case using ih by simp
qed simp

end

text \<open>The queue as the list of its elements in the order in which they leave.\<close>

type_synonym audio_queue = "EncodedAudioData list"

definition pq_push :: "EncodedAudioData \<Rightarrow> audio_queue \<Rightarrow> audio_queue" where
  "pq_push x q = insort_key (\<lambda>e. sint (audio_sequence e)) x q"

definition pq_inv :: "audio_queue \<Rightarrow> bool" where
  "pq_inv q \<longleftrightarrow> sorted (map (\<lambda>e. sint (audio_sequence e)) q)"

interpretation pq: std_priority_queue CompareSequence pq_inv mset pq_push hd tl
proof unfold_locales
  fix q :: audio_queue assume q: "pq_inv q" "mset q \<noteq> {#}"
  then obtain x xs where c: "q = x # xs" by (cases q) auto
  show "hd q \<in># mset q \<and> (\<forall>x \<in># mset q. \<not> CompareSequence (hd q) x)"
    using q(1) by (auto simp: c pq_inv_def CompareSequence_def)
  show "pq_inv (tl q) \<and> mset (tl q) = mset q - {#hd q#}"
    using q(1) by (simp add: c pq_inv_def)
qed (simp add: pq_inv_def pq_push_def sorted_insort_key)

subsection \<open>JitterBuffer\<close>

record JitterBuffer =
  pendingAudio :: audio_queue

definition new_JitterBuffer :: JitterBuffer where
  "new_JitterBuffer = \<lparr>pendingAudio = []\<rparr>"

definition jb_addAudio :: "JitterBuffer \<Rightarrow> 64 word \<Rightarrow> u8 list \<Rightarrow> nat \<Rightarrow> JitterBuffer option" where
  "jb_addAudio jb sq encodedData encodedDataLen =
     map_option (\<lambda>e. jb\<lparr>pendingAudio := pq_push e (pendingAudio jb)\<rparr>)
       (new_EncodedAudioData encodedData encodedDataLen sq)"

definition jb_getAudio :: "JitterBuffer \<Rightarrow> EncodedAudioData option \<times> JitterBuffer" where
  "jb_getAudio jb =
     (if pendingAudio jb \<noteq> [] then (Some (hd (pendingAudio jb)), jb\<lparr>pendingAudio := tl (pendingAudio jb)\<rparr>)
      else (None, jb))"

text \<open>Frames added in any order, then taken until the buffer has none.\<close>

fun add_frames :: "JitterBuffer \<Rightarrow> (64 word \<times> u8 list) list \<Rightarrow> JitterBuffer option" where
  "add_frames jb [] = Some jb"
| "add_frames jb ((sq, d) # fs) =
     (case jb_addAudio jb sq d (length d) of None \<Rightarrow> None | Some jb \<Rightarrow> add_frames jb fs)"

fun take_frames :: "nat \<Rightarrow> JitterBuffer \<Rightarrow> EncodedAudioData option list" where
  "take_frames 0 jb = []"
| "take_frames (Suc n) jb = (case jb_getAudio jb of (e, jb) \<Rightarrow> e # take_frames n jb)"

lemma add_frames_elems:
  assumes "pq_inv (pendingAudio jb)"
  shows "\<exists>jb'. add_frames jb fs = Some jb' \<and> pq_inv (pendingAudio jb') \<and> mset (pendingAudio jb') =
    mset (pendingAudio jb) + mset (map (\<lambda>(sq, d). \<lparr>audio_data = d, audio_sequence = sq\<rparr>) fs)"
  using assms
proof (induction fs arbitrary: jb)
  case (Cons f fs)
  obtain sq d where f: "f = (sq, d)" by (cases f)
  let ?e = "\<lparr>audio_data = d, audio_sequence = sq\<rparr>"
  let ?jb = "jb\<lparr>pendingAudio := pq_push ?e (pendingAudio jb)\<rparr>"
  note p = pq.push_ok [OF Cons.prems, of ?e]
  have "jb_addAudio jb sq d (length d) = Some ?jb"
    by (simp add: jb_addAudio_def new_EncodedAudioData_def read_bytes_def)
  then show ?case using Cons.IH [of ?jb] p by (auto simp: f)
qed simp

lemma take_frames_drain:
  "pq_inv (pendingAudio jb) \<Longrightarrow> length (pendingAudio jb) = n \<Longrightarrow>
    take_frames (n + k) jb = map Some (fst (pq.drain n (pendingAudio jb))) @ replicate k None"
proof (induction n arbitrary: jb)
  case 0
  then have "take_frames k jb = replicate k None" by (induction k) (auto simp: jb_getAudio_def)
  then show ?case by simp
next
  case (Suc n)
  obtain x xs where q: "pendingAudio jb = x # xs" using Suc.prems(2) by (cases "pendingAudio jb") auto
  have "pq_inv xs" using Suc.prems(1) by (simp add: q pq_inv_def)
  then show ?case
    using Suc.IH [of "jb\<lparr>pendingAudio := xs\<rparr>"] Suc.prems(2) q
    by (simp add: jb_getAudio_def case_prod_beta)
qed

end
