(* ===== verification/Stats_Thread.thy ===== *)
theory Stats_Thread
  imports Main
begin

text \<open>
  The thread that \<open>WebRtcJitterBuffer::init\<close> starts (\<open>src/jni/redphone/WebRtcJitterBuffer.cpp\<close>): it
  reads the file's \<open>static volatile int running\<close>, asks NetEq for its statistics, and sleeps.  The flag
  is one for the whole process; nobody joins the thread.  Buffers are numbered; \<open>live\<close> is the set of
  those whose NetEq exists.  The destructor of the manager clears the flag and deletes NetEq.
\<close>

datatype stats_pc = Testing | Asking | Sleeping | Ended

record process =
  flag :: bool
  live :: "nat set"
  threads :: "nat \<rightharpoonup> stats_pc"
  made :: "nat set"
  bad_access :: bool

definition start_process :: process where
  "start_process = \<lparr>flag = False, live = {}, threads = Map.empty, made = {}, bad_access = False\<rparr>"

inductive process_step :: "process \<Rightarrow> process \<Rightarrow> bool" where
  construct: "i \<notin> made p \<Longrightarrow> process_step p (p\<lparr>flag := True, made := insert i (made p)\<rparr>)"
| init: "i \<in> made p \<Longrightarrow> threads p i = None \<Longrightarrow>
    process_step p (p\<lparr>live := insert i (live p), threads := (threads p)(i \<mapsto> Testing)\<rparr>)"
| test_on: "threads p i = Some Testing \<Longrightarrow> flag p \<Longrightarrow>
    process_step p (p\<lparr>threads := (threads p)(i \<mapsto> Asking)\<rparr>)"
| test_off: "threads p i = Some Testing \<Longrightarrow> \<not> flag p \<Longrightarrow>
    process_step p (p\<lparr>threads := (threads p)(i \<mapsto> Ended)\<rparr>)"
| ask: "threads p i = Some Asking \<Longrightarrow>
    process_step p (p\<lparr>threads := (threads p)(i \<mapsto> Sleeping), bad_access := bad_access p \<or> i \<notin> live p\<rparr>)"
| wake: "threads p i = Some Sleeping \<Longrightarrow>
    process_step p (p\<lparr>threads := (threads p)(i \<mapsto> Testing)\<rparr>)"
| stop: "process_step p (p\<lparr>flag := False\<rparr>)"
| destroy: "i \<in> live p \<Longrightarrow> process_step p (p\<lparr>flag := False, live := live p - {i}\<rparr>)"

inductive process_run :: "process \<Rightarrow> process \<Rightarrow> bool" where
  none: "process_run p p"
| more: "process_run p q \<Longrightarrow> process_step q r \<Longrightarrow> process_run p r"

text \<open>The flag is off and no thread is between its test and its call.\<close>

definition quiet :: "process \<Rightarrow> bool" where
  "quiet p \<longleftrightarrow> \<not> flag p \<and> (\<forall>i. threads p i \<noteq> Some Asking) \<and> \<not> bad_access p"

lemma quiet_step: "process_step p q \<Longrightarrow> quiet p \<Longrightarrow> made q = made p \<Longrightarrow> quiet q"
  by (erule process_step.cases) (auto simp: quiet_def split: if_splits)

lemma process_run_trans: "process_run q r \<Longrightarrow> process_run p q \<Longrightarrow> process_run p r"
  by (induction rule: process_run.induct) (auto intro: process_run.intros)

text \<open>A second call constructed while the thread of the first sleeps.\<close>

lemma second_call_revives:
  "\<exists>p q. process_run start_process p \<and> quiet p \<and> live p = {} \<and> process_run p q \<and> bad_access q"
proof (intro exI conjI)
  let ?at = "\<lambda>f l t m b. \<lparr>flag = f, live = l, threads = [0 \<mapsto> t], made = m, bad_access = b\<rparr>"
  let ?p = "?at False {} Sleeping {0} False" and ?q = "?at True {} Sleeping {0, 1} True"
  have 1: "process_step start_process (start_process\<lparr>flag := True, made := {0}\<rparr>)"
    using construct [of 0 start_process] by (simp add: start_process_def)
  have 2: "process_step (start_process\<lparr>flag := True, made := {0}\<rparr>) (?at True {0} Testing {0} False)"
    using init [of 0 "start_process\<lparr>flag := True, made := {0}\<rparr>"] by (simp add: start_process_def)
  have 3: "process_step (?at True l Testing m b) (?at True l Asking m b)" for l m b
    using test_on [of "?at True l Testing m b" 0] by simp
  have 4: "process_step (?at f l Asking m b) (?at f l Sleeping m (b \<or> 0 \<notin> l))" for f l m b
    using ask [of "?at f l Asking m b" 0] by simp
  have 5: "process_step (?at True {0} Sleeping {0} False) ?p"
    using destroy [of 0 "?at True {0} Sleeping {0} False"] by simp
  have 6: "process_step ?p (?at True {} Sleeping {0, 1} False)"
    using construct [of 1 ?p] by (simp add: insert_commute)
  have 7: "process_step (?at True {} Sleeping {0, 1} False) (?at True {} Testing {0, 1} False)"
    using wake [of "?at True {} Sleeping {0, 1} False" 0] by simp
  have 8: "process_step (?at True {0} Asking {0} False) (?at True {0} Sleeping {0} False)"
    "process_step (?at True {} Asking {0, 1} False) ?q"
    using 4 [of True "{0}" "{0}" False] 4 [of True "{}" "{0, 1}" False] by simp_all
  show "process_run start_process ?p"
    by (rule more [OF more [OF more [OF more [OF more [OF none 1] 2] 3] 8(1)] 5])
  show "process_run ?p ?q" by (rule more [OF more [OF more [OF more [OF none 6] 7] 3] 8(2)])
qed (simp_all add: quiet_def)

end
