(* ===== verification/Call_Theorems.thy ===== *)
theory Call_Theorems
  imports Call_Setup Ring_Buffer Jitter_Buffer Stats_Thread Speex_Theorems Media_Theorems
begin

text \<open>
  The properties of a call: from the microphone of one end to NetEq at the other, starting and
  stopping, the statistics thread, and the two queues.
\<close>

subsection \<open>An instance\<close>

definition demo_mic :: MicrophoneReader where
  "demo_mic = \<lparr>androidSdkVersion = 16, muteEnabled = False, inputBuffer = replicate 320 0,
     encodedAudio = replicate 1024 0, recorderObject = True, recorderRecord = True, recorderBufferQueue = True\<rparr>"

definition demo_player :: AudioPlayer where
  "demo_player = \<lparr>bqPlayerObject = True, bqPlayerPlay = True, outputMixObject = True,
     bqPlayerBufferQueue = True, outputBuffer = replicate 160 0\<rparr>"

definition demo_media :: "(unit, unit, unit) call_media" where
  "demo_media = \<lparr>media_codec = demo_codec, media_sender = demo_sender, media_clock = new_Clock\<rparr>"

text \<open>A NetEq that keeps the packets it is given and plays silence.\<close>

definition demo_neteq :: "(WebRtcRTPHeader \<times> u8 list) list neteq_ops" where
  "demo_neteq = \<lparr>neteq_create = Some [], neteq_register = (\<lambda>n. (True, n)),
     neteq_insert = (\<lambda>h d now n. (True, n @ [(h, d)])), neteq_get = (\<lambda>k n. (replicate 80 0, n))\<rparr>"

definition demo_side :: "(WebRtcRTPHeader \<times> u8 list) list receive_side" where
  "demo_side = \<lparr>rs_receiver = demo_receiver, rs_jitter = \<lparr>neteq = Some [], payload_blocks = []\<rparr>,
     rs_clock = new_Clock\<rparr>"

definition demo_env :: "bool \<Rightarrow> (unit, unit, unit, (WebRtcRTPHeader \<times> u8 list) list) call_env" where
  "demo_env engine = \<lparr>env_codec = demo_ops, env_neteq = demo_neteq,
     env_sl = (\<lambda>call. engine \<or> call \<noteq> Create Engine_Object), env_sendto = (\<lambda>_. True)\<rparr>"

definition demo_manager :: "(unit, unit, unit, (WebRtcRTPHeader \<times> u8 list) list) CallAudioManager" where
  "demo_manager = new_CallAudioManager 16 demo_parameters demo_parameters demo_key demo_key demo_memory
     demo_mic demo_player"

lemma demo_fresh [simp]: "fresh_manager demo_manager"
  unfolding demo_manager_def by (rule new_manager_fresh)

definition demo_recorded :: "u16 list list" where
  "demo_recorded = [replicate 320 5, replicate 320 6]"

lemma demo_media_ready: "mic_ready demo_mic" "media_ready demo_media 0"
  by (simp_all add: mic_ready_def demo_mic_def media_ready_def demo_media_def new_Clock_def)

definition demo_begun :: "(unit, unit, unit, (WebRtcRTPHeader \<times> u8 list) list) CallAudioManager \<times> sl_world option" where
  "demo_begun = (demo_manager\<lparr>running := True, finished := False\<rparr>, Some Map.empty)"

lemma demo_start: "\<exists>c w. run_start (demo_env True) (code_of demo_manager) demo_begun = (True, c, w)"
proof -
  obtain s where s: "sender_init (new_RtpAudioSender demo_parameters demo_key) = (0, s)"
    using init_paired [of demo_parameters demo_key demo_key] by auto
  obtain r where r: "receiver_init (new_RtpAudioReceiver demo_parameters demo_key) = (0, r)"
    using init_paired [of demo_parameters demo_key demo_key] by auto
  show ?thesis
    by (simp add: start_code_def demo_begun_def demo_env_def demo_manager_def new_CallAudioManager_def s r demo_codec_init
        jitter_init_def demo_neteq_def mic_start_def player_start_def assign_def Let_def)
qed

lemma demo_looping: "\<exists>s. call_steps (demo_env True) (init_state demo_manager) s \<and> start_pc s = Looping \<and>
    stop_pc s = Not_Stopped"
proof -
  obtain c w where r: "run_start (demo_env True) (code_of demo_manager) demo_begun = (True, c, w)"
    using demo_start by blast
  let ?s = "early demo_manager True False (Starting (code_of demo_manager)) Not_Stopped (Some Map.empty)"
  have 1: "call_steps (demo_env True) (init_state demo_manager) ?s"
    unfolding early_init [OF demo_fresh] by (rule early_start) simp
  have "call_steps (demo_env True) ?s (?s\<lparr>cam := c, objects := w, start_pc := Looping\<rparr>)"
    using run_start_steps [of ?s "code_of demo_manager" "demo_env True" True c w] r by (simp add: early_def demo_begun_def)
  from call_steps_trans [OF this 1] show ?thesis
    by (intro exI [of _ "?s\<lparr>cam := c, objects := w, start_pc := Looping\<rparr>"]) (simp add: early_def)
qed

lemma demo_fail: "run_start (demo_env False) (code_of demo_manager) demo_begun = (False, demo_begun)"
  by (simp add: start_code_def demo_begun_def demo_env_def use_object_def through_ok_def built_on_def)

subsection \<open>From the microphone to the other end\<close>

text \<open>C10: every recorder callback sends one datagram with the two frames the recorder has filled in, or with
  silence while the microphone is muted, whatever it recorded; the timestamps are 320, 640, \dots.  Every
  datagram that arrives at a peer with the same keys, in any order within the window, with losses and
  repetitions, is given to NetEq with its sequence number, its timestamp and the encoded frames, and
  nothing else is.  The payload block that \<open>addAudio\<close> allocates for each of them is never freed.\<close>

theorem call_media_path:
  assumes "mic_ready m" "media_ready s 0" "frames_of ops n" "0 < n" "2 * n \<le> 1024"
    and "\<forall>xs \<in> set xss. length xs = 320" "length xss < 2 ^ 23"
    and "paired (media_sender s) (rs_receiver st)" "synced (sequenceCounter (rs_receiver st)) 0"
    and "neteq (rs_jitter st) = Some nq" "set ks \<subseteq> {..<length xss}" "in_window 0 ks"
  shows "\<exists>ws m' s' ds st'. record_all ops sendto_ok m s xss = Some (ws, m', s') \<and>
    length ws = length xss \<and>
    ds = encode_buffers ops (media_codec s) (map (\<lambda>xs. if muteEnabled m then replicate 320 0 else xs) xss) \<and>
    length ds = length xss \<and> (\<forall>d \<in> set ds. length d = 2 * n) \<and>
    receive_turns nops st (map (\<lambda>k. Some (ws ! k)) ks) = Some st' \<and>
    neteq (rs_jitter st') = Some (neteq_given nops (tickCount (rs_clock st))
      (map (\<lambda>k. (header_of k (of_nat (320 * (k + 1))), ds ! k)) ks) nq) \<and>
    payload_blocks (rs_jitter st') = rev (map ((!) ds) ks) @ payload_blocks (rs_jitter st)"
  using media_path [OF assms, of sendto_ok nops] unfolding heard_def .

theorem call_media_path_witness:
  "\<exists>ws m' s' ds st'. record_all demo_ops (\<lambda>_. True) demo_mic demo_media demo_recorded = Some (ws, m', s') \<and>
    length ds = 2 \<and> (\<forall>d \<in> set ds. length d = 40) \<and>
    receive_turns demo_neteq demo_side [Some (ws ! 1), Some (ws ! 0)] = Some st' \<and>
    neteq (rs_jitter st') = Some [(header_of 1 640, ds ! 1), (header_of 0 320, ds ! 0)]"
proof -
  have st: "paired (media_sender demo_media) (rs_receiver demo_side)"
    "synced (sequenceCounter (rs_receiver demo_side)) 0" "neteq (rs_jitter demo_side) = Some []"
    by (simp_all add: demo_media_def demo_side_def)
  have len: "\<forall>xs \<in> set demo_recorded. length xs = 320" "length demo_recorded < 2 ^ 23" "length demo_recorded = 2"
    by (simp_all add: demo_recorded_def)
  have ks: "set [1, 0] \<subseteq> {..<length demo_recorded}" "in_window 0 [1, 0]" by (simp_all add: len(3))
  from call_media_path [OF demo_media_ready demo_frames_of _ _ len(1,2) st ks, of "\<lambda>_. True" demo_neteq]
  obtain ws m' s' ds st' where
    r: "record_all demo_ops (\<lambda>_. True) demo_mic demo_media demo_recorded = Some (ws, m', s')"
      "length ds = length demo_recorded" "\<forall>d \<in> set ds. length d = 2 * 20"
      "receive_turns demo_neteq demo_side (map (\<lambda>k. Some (ws ! k)) [1, 0]) = Some st'"
      "neteq (rs_jitter st') = Some (neteq_given demo_neteq (tickCount (rs_clock demo_side))
        (map (\<lambda>k. (header_of k (of_nat (320 * (k + 1))), ds ! k)) [1, 0]) [])" by auto
  then show ?thesis
    by (intro exI [of _ ws] exI [of _ m'] exI [of _ s'] exI [of _ ds] exI [of _ st'])
      (simp add: len(3) neteq_given_def demo_neteq_def)
qed

subsection \<open>Starting and stopping\<close>

text \<open>C15: as long as \<open>stop\<close> is not called before \<open>start\<close> has reached its receive loop or has failed, then however
  the calls that \<open>start\<close>, \<open>stop\<close> and \<open>dispose\<close> make to OpenSL ES interleave with each other, with the audio
  callbacks and with muting, no call is made through a null pointer, and the engine, the recorder, the mixer and the
  player are each created once, from objects that exist, used only while they exist and destroyed before what they
  are built on.  Once \<open>stop\<close> has returned, the loop has ended and only the engine is left; after \<open>dispose\<close>
  nothing is left.\<close>

theorem call_stop_releases:
  assumes "fresh_manager c" "call_steps env (init_state c) s" "stop_pc s = Not_Stopped"
  shows "objects s \<noteq> None \<and>
    (start_pc s = Looping \<or> (\<exists>r. start_pc s = Returned r) \<longrightarrow>
      (\<forall>t. call_steps env s t \<longrightarrow> objects t \<noteq> None \<and>
        (Stopped \<le> stop_pc t \<longrightarrow> start_pc t = Returned 0) \<and>
        (stop_pc t = Stopped \<longrightarrow> (\<exists>w. objects t = Some w \<and> dom w \<subseteq> {Engine_Object})) \<and>
        (stop_pc t = Disposed \<longrightarrow> objects t = Some Map.empty)))"
proof (intro conjI impI allI)
  have calm: "calm s" by (rule calm_before [OF assms(2) init_state_calm [OF assms(1)] assms(3)])
  then show "objects s \<noteq> None" by (auto simp: calm_def)
  fix t assume start: "start_pc s = Looping \<or> (\<exists>r. start_pc s = Returned r)" and t: "call_steps env s t"
  have "over (start_pc s)" using start by auto
  then have t: "calm t" using calm_after [OF t calm] by blast
  then show "objects t \<noteq> None" by (auto simp: calm_def)
  show "Stopped \<le> stop_pc t \<Longrightarrow> start_pc t = Returned 0" by (rule calm_released(1) [OF t])
  show "stop_pc t = Stopped \<Longrightarrow> \<exists>w. objects t = Some w \<and> dom w \<subseteq> {Engine_Object}" by (rule calm_released(2) [OF t])
  show "stop_pc t = Disposed \<Longrightarrow> objects t = Some Map.empty" by (rule calm_released(3) [OF t])
qed

theorem call_stop_releases_witness:
  "\<exists>s. call_steps (demo_env True) (init_state demo_manager) s \<and> start_pc s = Looping \<and> objects s \<noteq> None \<and>
    (\<forall>t. call_steps (demo_env True) s t \<longrightarrow> objects t \<noteq> None \<and>
      (stop_pc t = Disposed \<longrightarrow> start_pc t = Returned 0 \<and> objects t = Some Map.empty))"
proof -
  obtain s where s: "call_steps (demo_env True) (init_state demo_manager) s" "start_pc s = Looping"
    "stop_pc s = Not_Stopped" using demo_looping by blast
  from call_stop_releases [OF demo_fresh s(1,3)] s(1,2) show ?thesis
    by (intro exI [of _ s]) (auto simp: stop_pc_order)
qed

text \<open>C16: a \<open>stop\<close> called during the receive loop always comes to its end: until the manager is disposed
  of, one of the two threads can take a step, every step of theirs leaves less to do, no callback
  and no muting leaves more, and \<open>stop\<close> never goes back.\<close>

theorem call_stop_progress:
  assumes "fresh_manager c" "call_steps env (init_state c) s" "start_pc s = Looping" "stop_pc s = Not_Stopped"
    and "call_steps env s t" "stop_pc t \<noteq> Not_Stopped"
  shows "(stop_pc t \<noteq> Disposed \<longrightarrow> (\<exists>who u. who \<in> {Start_Thread, Stop_Thread} \<and> call_step env who t u)) \<and>
    (\<forall>who u. call_step env who t u \<longrightarrow>
      (if who \<in> {Start_Thread, Stop_Thread} then work u < work t else work u = work t \<and> stop_pc u = stop_pc t)) \<and>
    (\<forall>u. call_steps env t u \<longrightarrow> stop_pc t \<le> stop_pc u)"
proof -
  have "calm s" by (rule calm_before [OF assms(2) init_state_calm [OF assms(1)] assms(4)])
  then have t: "orderly t" by (rule orderly_steps [OF assms(5) orderly_loop [OF _ assms(3,4)]])
  show ?thesis
    using orderly_progress [OF t assms(6)] orderly_enabled [OF t assms(6)] stop_forward by blast
qed

theorem call_stop_progress_witness:
  "\<exists>t who u. stop_pc t = In_Stop 0 \<and> call_step (demo_env True) who t u \<and> work u < work t"
proof -
  obtain s where s: "call_steps (demo_env True) (init_state demo_manager) s" "start_pc s = Looping"
    "stop_pc s = Not_Stopped" using demo_looping by blast
  let ?t = "s\<lparr>cam := (cam s)\<lparr>running := False\<rparr>, stop_pc := In_Stop 0\<rparr>"
  have "call_steps (demo_env True) s ?t" by (rule call_steps_one [OF call_step.stop [OF s(3)]])
  from call_stop_progress [OF demo_fresh s this] obtain who u where
    "who \<in> {Start_Thread, Stop_Thread}" "call_step (demo_env True) who ?t u" "work u < work ?t"
    by (simp del: insert_iff) (metis (full_types))
  then show ?thesis by (intro exI [of _ ?t] exI [of _ who] exI [of _ u]) simp
qed

text \<open>C17: outside the loop \<open>stop\<close> goes wrong.  When \<open>start\<close> has failed, \<open>stop\<close> never returns.  When it
  succeeds, a \<open>stop\<close> that overlaps it can wait for ever while the call goes on; it can return while the
  recorder is still recording; it can destroy an object that \<open>start\<close> goes on to use; and the manager can be
  disposed of while \<open>start\<close> begins to work on it.\<close>

theorem call_stop_hazards:
  assumes "fresh_manager c"
    and "run_start env (start_code (androidSdkVersion (cm_mic c)))
      (c\<lparr>running := True, finished := False\<rparr>, Some Map.empty) = (ok, c', w)"
  shows "if ok then
      (\<exists>s. call_steps env (init_state c) s \<and> (\<forall>t. call_steps env s t \<longrightarrow>
        stop_pc t = Waiting \<and> start_pc t = Looping \<and> is_on (objects t) Recorder)) \<and>
      (\<exists>s. call_steps env (init_state c) s \<and> stop_pc s = Stopped \<and> is_on (objects s) Recorder) \<and>
      (\<exists>s. call_steps env (init_state c) s \<and> stop_pc s = In_Stop 3 \<and> objects s = None) \<and>
      (\<exists>s. call_steps env (init_state c) s \<and> stop_pc s = Disposed \<and>
        start_pc s = Starting (start_code (androidSdkVersion (cm_mic c))) \<and> objects s = None)
    else \<exists>s. call_steps env (init_state c) s \<and> start_pc s = Returned (-1) \<and>
      (\<forall>t. call_steps env s t \<longrightarrow> stop_pc t < Stopped)"
proof (cases ok)
  case True
  then have run: "run_start env (code_of c) (c\<lparr>running := True, finished := False\<rparr>, Some Map.empty) = (True, c', w)"
    using assms(2) by simp
  obtain s where "call_steps env (init_state c) s" "lost_stop s" using lost_stop_reached [OF assms(1) run] by blast
  then have "\<exists>s. call_steps env (init_state c) s \<and> (\<forall>t. call_steps env s t \<longrightarrow>
      stop_pc t = Waiting \<and> start_pc t = Looping \<and> is_on (objects t) Recorder)"
    using lost_stop_steps unfolding lost_stop_def by blast
  then show ?thesis
    using early_return_reached [OF assms(1) run] misuse_reached [OF assms(1) run] late_start_reached [OF assms(1)] True
    by simp
next
  case False
  let ?s = "early c True False (Starting (code_of c)) Not_Stopped (Some Map.empty)"
  let ?t = "?s\<lparr>cam := c', objects := w, start_pc := Returned (-1)\<rparr>"
  have 1: "call_steps env (init_state c) ?s" unfolding early_init [OF assms(1)] by (rule early_start) simp
  have "call_steps env ?s ?t"
    using run_start_steps [of ?s "code_of c" env False c' w] assms(2) False by (simp add: early_def)
  from call_steps_trans [OF this 1] have 2: "call_steps env (init_state c) ?t" .
  have "hung ?t"
    using run_start_flags [OF assms(2)] by (simp add: hung_def early_def stop_pc_order)
  then have "\<forall>t. call_steps env ?t t \<longrightarrow> stop_pc t < Stopped" using hung_steps unfolding hung_def by blast
  then show ?thesis using 2 False by (intro if_not_P [THEN iffD2] exI [of _ ?t]) simp_all
qed

theorem call_stop_hazards_witness:
  "(\<exists>s. call_steps (demo_env True) (init_state demo_manager) s \<and> stop_pc s = In_Stop 3 \<and> objects s = None) \<and>
    (\<exists>s. call_steps (demo_env True) (init_state demo_manager) s \<and> stop_pc s = Stopped \<and>
      is_on (objects s) Recorder) \<and>
    (\<exists>s. call_steps (demo_env False) (init_state demo_manager) s \<and> start_pc s = Returned (-1) \<and>
      (\<forall>t. call_steps (demo_env False) s t \<longrightarrow> stop_pc t < Stopped))"
proof -
  obtain c w where "run_start (demo_env True) (code_of demo_manager) demo_begun = (True, c, w)"
    using demo_start by blast
  from call_stop_hazards [OF demo_fresh this [unfolded demo_begun_def]]
    call_stop_hazards [OF demo_fresh demo_fail [unfolded demo_begun_def]]
  show ?thesis by simp
qed

text \<open>C27: the thread of a call's statistics that finds the flag off never touches NetEq again, as long as no
  other call is made; but a second call turns the flag on for it as well, and if the first call's
  thread was asleep meanwhile, it wakes up and uses the NetEq that was deleted.\<close>

theorem stats_thread_outlives_call:
  "(\<forall>p q. process_step p q \<longrightarrow> quiet p \<longrightarrow> made q = made p \<longrightarrow> quiet q) \<and>
    (\<exists>p q. process_run start_process p \<and> quiet p \<and> live p = {} \<and> process_run p q \<and> bad_access q)"
  using quiet_step second_call_revives by blast

theorem stats_thread_outlives_call_witness:
  "process_step (start_process\<lparr>threads := [0 \<mapsto> Testing]\<rparr>) (start_process\<lparr>threads := [0 \<mapsto> Ended]\<rparr>) \<and>
    quiet (start_process\<lparr>threads := [0 \<mapsto> Ended]\<rparr>)"
proof -
  have 1: "process_step (start_process\<lparr>threads := [0 \<mapsto> Testing]\<rparr>) (start_process\<lparr>threads := [0 \<mapsto> Ended]\<rparr>)"
    using test_off [of "start_process\<lparr>threads := [0 \<mapsto> Testing]\<rparr>" 0] by (simp add: start_process_def)
  have "quiet (start_process\<lparr>threads := [0 \<mapsto> Testing]\<rparr>)" by (simp add: quiet_def start_process_def)
  with 1 show ?thesis
    using conjunct1 [OF stats_thread_outlives_call] by (metis (no_types, lifting) process.select_convs(4) process.surjective process.update_convs(3))
qed

subsection \<open>Queues\<close>

text \<open>C26: the ring buffer, after any sequence of writes and of reads (copied out or through the pointer),
  has given back the first elements of what it took, in order, still holds the rest, and never more than
  its size.\<close>

theorem ring_buffer_fifo:
  assumes "WebRtc_CreateBuffer n memory = Some b" "WebRtc_InitBuffer zero (Some b) = (0, Some b0)"
    and "ring.run want data b0 ops = (ins, outs, b1)"
  shows "ins = outs @ contents b1 \<and> length (contents b1) \<le> n \<and> available_read b1 = length (contents b1)"
proof -
  have b0: "ring_inv b0" "contents b0 = []" "element_count b0 = n"
    using init_ring [OF assms(1), of zero] assms(2) by auto
  then show ?thesis using ring.run_fifo [OF b0(1) assms(3)] length_contents [of b1] by simp
qed

theorem ring_buffer_fifo_witness:
  "\<exists>b ins outs b1. WebRtc_InitBuffer (0 :: u16) (WebRtc_CreateBuffer 4 (Some b)) = (0, Some (the (snd
      (WebRtc_InitBuffer 0 (WebRtc_CreateBuffer 4 (Some b)))))) \<and>
    ring.run True [] (the (snd (WebRtc_InitBuffer 0 (WebRtc_CreateBuffer 4 (Some b)))))
      [Inl [1, 2, 3], Inr 2, Inl [4, 5, 6], Inr 1] = (ins, outs, b1) \<and>
    ins = outs @ contents b1 \<and> length (contents b1) \<le> 4"
proof -
  let ?m = "\<lparr>read_pos = 9, write_pos = 9, element_count = 9, rw_wrap = DIFF_WRAP, ring_data = [] :: u16 list\<rparr>"
  let ?b = "\<lparr>read_pos = 9, write_pos = 9, element_count = 4, rw_wrap = DIFF_WRAP, ring_data = [] :: u16 list\<rparr>"
  let ?ops = "[Inl [1, 2, 3], Inr 2, Inl [4, 5, 6], Inr 1] :: (u16 list + nat) list"
  have c: "WebRtc_CreateBuffer 4 (Some ?m) = Some ?b" by (simp add: WebRtc_CreateBuffer_def)
  obtain b0 where i: "WebRtc_InitBuffer 0 (Some ?b) = (0, Some b0)" by (simp add: WebRtc_InitBuffer_def)
  obtain ins outs b1 where r: "ring.run True [] b0 ?ops = (ins, outs, b1)" by (metis prod_cases3)
  from ring_buffer_fifo [OF c i r] c i r show ?thesis by (intro exI [of _ ?m]) auto
qed

text \<open>C28: whatever the order in which frames are added, \<open>getAudio\<close> returns them by ascending sequence
  number, each once, and then \<open>NULL\<close>.\<close>

theorem jitter_buffer_sorts:
  "\<exists>jb xs. add_frames new_JitterBuffer fs = Some jb \<and>
    take_frames (length fs + k) jb = map Some xs @ replicate k None \<and>
    mset xs = mset (map (\<lambda>(sq, d). \<lparr>audio_data = d, audio_sequence = sq\<rparr>) fs) \<and>
    sorted (map (\<lambda>e. sint (audio_sequence e)) xs)"
proof -
  have "pq_inv (pendingAudio new_JitterBuffer)" by (simp add: pq_inv_def new_JitterBuffer_def)
  from add_frames_elems [OF this, of fs] obtain jb where jb: "add_frames new_JitterBuffer fs = Some jb"
    "pq_inv (pendingAudio jb)" "mset (pendingAudio jb) = mset (map (\<lambda>(sq, d). \<lparr>audio_data = d, audio_sequence = sq\<rparr>) fs)"
    by (auto simp: new_JitterBuffer_def)
  have len: "length (pendingAudio jb) = length fs" using arg_cong [OF jb(3), of size] by simp
  obtain xs q where d: "pq.drain (length fs) (pendingAudio jb) = (xs, q)" by fastforce
  have "size (mset (pendingAudio jb)) = length fs" using len by simp
  note dr = pq.drain_ok [OF jb(2) this d]
  have "sorted (map (\<lambda>e. sint (audio_sequence e)) xs)"
    using dr by (simp add: CompareSequence_def sorted_map not_less)
  then show ?thesis using jb(1,3) dr take_frames_drain [OF jb(2) len, of k] d by auto
qed

end
