(* ===== verification/Aecm_Frames.thy ===== *)
theory Aecm_Frames
  imports Ring_Buffer "HOL-Library.Monad_Syntax"
begin

text \<open>
  The framing of \<open>src/jni/webrtc/modules/audio_processing/aecm/aecm_core.c\<close>: the echo canceller gets
  frames of 80 samples, delays the far end by \<open>knownDelay\<close>, cuts both signals into blocks of 64, has
  \<open>ProcessBlock\<close> work on each and puts the blocks together again to frames of 80.

  The record has the fields this part of the struct \<open>AecmCore_t\<close> uses; everything that \<open>ProcessBlock\<close>
  keeps is \<open>adapt\<close>, and \<open>ProcessBlock\<close> itself is an argument here.  \<open>None\<close> is an access outside a
  buffer, or a loop that does not end.
\<close>

definition FRAME_LEN :: nat where "FRAME_LEN = 80"
definition PART_LEN :: nat where "PART_LEN = 64"
definition FAR_BUF_LEN :: nat where "FAR_BUF_LEN = 256"

lemma aecm_lengths [simp]: "FRAME_LEN = 80" "PART_LEN = 64" "FAR_BUF_LEN = 256"
  by (simp_all add: FRAME_LEN_def PART_LEN_def FAR_BUF_LEN_def)

record 's AecmCore =
  farBufWritePos :: nat
  farBufReadPos :: int
  core_knownDelay :: int
  lastKnownDelay :: int
  farFrameBuf :: "u16 RingBuffer"
  nearNoisyFrameBuf :: "u16 RingBuffer"
  nearCleanFrameBuf :: "u16 RingBuffer"
  outFrameBuf :: "u16 RingBuffer"
  farBuf :: "u16 list"
  adapt :: 's

type_synonym 's block = "'s \<Rightarrow> u16 list \<Rightarrow> u16 list \<Rightarrow> u16 list option \<Rightarrow> int \<times> u16 list \<times> 's"

definition cleared :: "u16 RingBuffer \<Rightarrow> u16 RingBuffer" where
  "cleared b = (case WebRtc_InitBuffer 0 (Some b) of (_, Some b) \<Rightarrow> b | _ \<Rightarrow> b)"

text \<open>What \<open>WebRtcAecm_InitCore\<close> does to these fields; it does not clear \<open>farBuf\<close>.\<close>

definition init_frames :: "'s AecmCore \<Rightarrow> 's AecmCore" where
  "init_frames c =
     c\<lparr>farBufWritePos := 0, farBufReadPos := 0, core_knownDelay := 0, lastKnownDelay := 0,
       farFrameBuf := cleared (farFrameBuf c), nearNoisyFrameBuf := cleared (nearNoisyFrameBuf c),
       nearCleanFrameBuf := cleared (nearCleanFrameBuf c), outFrameBuf := cleared (outFrameBuf c)\<rparr>"

subsection \<open>The far-end delay line\<close>

partial_function (option) buffer_far_loop ::
  "u16 list \<Rightarrow> nat \<Rightarrow> nat \<Rightarrow> nat \<Rightarrow> nat \<Rightarrow> u16 list \<Rightarrow> (nat \<times> nat \<times> nat \<times> u16 list) option" where
  "buffer_far_loop farend farLen W writePos writeLen buf =
     (if W + writeLen > FAR_BUF_LEN then do {
        part \<leftarrow> read_bytes farend writePos (FAR_BUF_LEN - W);
        buf \<leftarrow> write_bytes buf W part;
        buffer_far_loop farend farLen 0 (FAR_BUF_LEN - W) (farLen - (FAR_BUF_LEN - W)) buf
      } else Some (W, writePos, writeLen, buf))"

definition WebRtcAecm_BufferFarFrame :: "'s AecmCore \<Rightarrow> u16 list \<Rightarrow> nat \<Rightarrow> 's AecmCore option" where
  "WebRtcAecm_BufferFarFrame c farend farLen = do {
     (W, writePos, writeLen, buf) \<leftarrow> buffer_far_loop farend farLen (farBufWritePos c) 0 farLen (farBuf c);
     part \<leftarrow> read_bytes farend writePos writeLen;
     buf \<leftarrow> write_bytes buf W part;
     Some (c\<lparr>farBuf := buf, farBufWritePos := W + writeLen\<rparr>)
   }"

function wrap_up :: "int \<Rightarrow> int" where
  "wrap_up r = (if r < 0 then wrap_up (r + int FAR_BUF_LEN) else r)"
  by auto
termination by (relation "measure (\<lambda>r. nat (- r))") auto

function wrap_down :: "int \<Rightarrow> int" where
  "wrap_down r = (if r > int FAR_BUF_LEN - 1 then wrap_down (r - int FAR_BUF_LEN) else r)"
  by auto
termination by (relation "measure nat") auto

declare wrap_up.simps [simp del] wrap_down.simps [simp del]

partial_function (option) fetch_far_loop ::
  "u16 list \<Rightarrow> nat \<Rightarrow> nat \<Rightarrow> nat \<Rightarrow> nat \<Rightarrow> u16 list \<Rightarrow> (nat \<times> nat \<times> nat \<times> u16 list) option" where
  "fetch_far_loop buf farLen R readPos readLen farend =
     (if R + readLen > FAR_BUF_LEN then do {
        part \<leftarrow> read_bytes buf R (FAR_BUF_LEN - R);
        farend \<leftarrow> write_bytes farend readPos part;
        fetch_far_loop buf farLen 0 (FAR_BUF_LEN - R) (farLen - (FAR_BUF_LEN - R)) farend
      } else Some (R, readPos, readLen, farend))"

definition WebRtcAecm_FetchFarFrame ::
  "'s AecmCore \<Rightarrow> u16 list \<Rightarrow> nat \<Rightarrow> int \<Rightarrow> (u16 list \<times> 's AecmCore) option" where
  "WebRtcAecm_FetchFarFrame c farend farLen knownDelay = do {
     let delayChange = knownDelay - lastKnownDelay c;
     let R = wrap_down (wrap_up (farBufReadPos c - delayChange));
     (R, readPos, readLen, farend) \<leftarrow> fetch_far_loop (farBuf c) farLen (nat R) 0 farLen farend;
     part \<leftarrow> read_bytes (farBuf c) R readLen;
     farend \<leftarrow> write_bytes farend readPos part;
     Some (farend, c\<lparr>lastKnownDelay := knownDelay, farBufReadPos := int (R + readLen)\<rparr>)
   }"

subsection \<open>Frames to blocks and back\<close>

text \<open>\<open>ring_get True\<close> is \<open>WebRtc_ReadBuffer\<close> with the elements where the pointer it leaves points.\<close>

partial_function (option) block_loop :: "'s block \<Rightarrow> bool \<Rightarrow> 's AecmCore \<Rightarrow> (int \<times> 's AecmCore) option" where
  "block_loop block has_clean c =
     (if available_read (farFrameBuf c) \<ge> PART_LEN then
        (case ring_get True [] (farFrameBuf c) PART_LEN of (far_block, fb) \<Rightarrow>
         case ring_get True [] (nearNoisyFrameBuf c) PART_LEN of (noisy_block, nb) \<Rightarrow>
         case (if has_clean
               then (case ring_get True [] (nearCleanFrameBuf c) PART_LEN of (b, cb) \<Rightarrow> (Some b, cb))
               else (None, nearCleanFrameBuf c)) of (clean_block, cb) \<Rightarrow>
         case block (adapt c) far_block noisy_block clean_block of (ret, outBlock, s) \<Rightarrow>
           if ret = -1 then
             Some (-1, c\<lparr>farFrameBuf := fb, nearNoisyFrameBuf := nb, nearCleanFrameBuf := cb, adapt := s\<rparr>)
           else block_loop block has_clean
             (c\<lparr>farFrameBuf := fb, nearNoisyFrameBuf := nb, nearCleanFrameBuf := cb,
                outFrameBuf := snd (WriteBuffer (outFrameBuf c) outBlock), adapt := s\<rparr>))
      else Some (0, c))"

text \<open>The local array \<open>farFrame\<close> is written by \<open>FetchFarFrame\<close> before it is read; \<open>out\<close> is the caller's
  memory for the frame.\<close>

definition WebRtcAecm_ProcessFrame ::
  "'s block \<Rightarrow> 's AecmCore \<Rightarrow> u16 list \<Rightarrow> u16 list \<Rightarrow> u16 list option \<Rightarrow> u16 list \<Rightarrow>
    (int \<times> u16 list \<times> 's AecmCore) option" where
  "WebRtcAecm_ProcessFrame block c farend nearendNoisy nearendClean out = do {
     c \<leftarrow> WebRtcAecm_BufferFarFrame c farend FRAME_LEN;
     (farFrame, c) \<leftarrow> WebRtcAecm_FetchFarFrame c (replicate FRAME_LEN 0) FRAME_LEN (core_knownDelay c);
     let c = c\<lparr>farFrameBuf := snd (WriteBuffer (farFrameBuf c) farFrame),
               nearNoisyFrameBuf := snd (WriteBuffer (nearNoisyFrameBuf c) nearendNoisy)\<rparr>;
     let c = (case nearendClean of None \<Rightarrow> c
              | Some clean \<Rightarrow> c\<lparr>nearCleanFrameBuf := snd (WriteBuffer (nearCleanFrameBuf c) clean)\<rparr>);
     (ret, c) \<leftarrow> block_loop block (nearendClean \<noteq> None) c;
     (if ret = -1 then Some (-1, out, c)
      else
        let size = available_read (outFrameBuf c);
            b = (if size < FRAME_LEN then snd (MoveReadPtr (outFrameBuf c) (int size - int FRAME_LEN))
                 else outFrameBuf c)
        in case ReadBuffer b True out FRAME_LEN of (_, out, out_ptr, b) \<Rightarrow>
             Some (0, (case out_ptr of To_Data \<Rightarrow> out
                       | To_Buffer p \<Rightarrow> write_at out 0 (take FRAME_LEN (drop p (ring_data b)))),
                   c\<lparr>outFrameBuf := b\<rparr>))
   }"

subsection \<open>The far end passes unchanged\<close>

text \<open>The delay line reads at the position it writes to: no code gives \<open>knownDelay\<close> of the core another
  value than 0.\<close>

definition in_step :: "'s AecmCore \<Rightarrow> bool" where
  "in_step c \<longleftrightarrow> length (farBuf c) = FAR_BUF_LEN \<and> farBufWritePos c \<le> FAR_BUF_LEN \<and>
     farBufReadPos c = int (farBufWritePos c) \<and> core_knownDelay c = 0 \<and> lastKnownDelay c = 0"

lemma wrap_within: "0 \<le> r \<Longrightarrow> r < 256 \<Longrightarrow> wrap_down (wrap_up r) = r" "wrap_down (wrap_up 256) = 0"
  by (simp_all add: wrap_up.simps wrap_down.simps)

lemma read_bytes_inside [simp]: "off + n \<le> length buf \<Longrightarrow> read_bytes buf off n = Some (take n (drop off buf))"
  by (simp add: read_bytes_def)

lemma write_bytes_inside [simp]:
  "off + length src \<le> length buf \<Longrightarrow> write_bytes buf off src = Some (write_at buf off src)"
  by (simp add: write_bytes_def)

lemma delay_line_passes:
  assumes "in_step c" "length farend = FRAME_LEN" "length out = FRAME_LEN"
  obtains c' where "WebRtcAecm_BufferFarFrame c farend FRAME_LEN = Some c'"
    and "\<exists>R b W. WebRtcAecm_FetchFarFrame c' out FRAME_LEN (core_knownDelay c') =
      Some (farend, c\<lparr>farBuf := b, farBufWritePos := W, farBufReadPos := R\<rparr>) \<and>
      in_step (c\<lparr>farBuf := b, farBufWritePos := W, farBufReadPos := R\<rparr>)"
proof (cases "farBufWritePos c + 80 > 256")
  case True
  let ?W = "farBufWritePos c" and ?b = "farBuf c"
  define n where "n = 256 - ?W"
  have c: "length ?b = 256" "?W \<le> 256" "farBufReadPos c = int ?W" "core_knownDelay c = 0" "lastKnownDelay c = 0"
    and len: "length farend = 80" "length out = 80"
    using assms by (simp_all add: in_step_def)
  have n: "n < 80" "n + ?W = 256" using True c(2) by (simp_all add: n_def)
  let ?b1 = "write_at ?b ?W (take n farend)"
  have b1: "length ?b1 = 256" using c(1) n len by simp
  let ?b2 = "write_at ?b1 0 (drop n farend)"
  have b2: "length ?b2 = 256" using b1 len by simp
  have loop: "buffer_far_loop farend 80 ?W 0 80 ?b = Some (0, n, 80 - n, ?b1)"
    using n len c(1)
    by (simp add: buffer_far_loop.simps [of _ _ ?W] buffer_far_loop.simps [of _ _ 0] n_def [symmetric])
  have buf: "WebRtcAecm_BufferFarFrame c farend FRAME_LEN = Some (c\<lparr>farBuf := ?b2, farBufWritePos := 80 - n\<rparr>)"
    using n len b1 by (simp add: WebRtcAecm_BufferFarFrame_def loop)
  have tail: "take n (drop ?W ?b2) = take n farend" "take (80 - n) ?b2 = drop n farend"
    using n len c(1) by (simp_all add: write_at_def)
  show ?thesis
  proof (rule that [OF buf])
    let ?R = "wrap_down (wrap_up (int ?W))"
    have fetch: "\<exists>j. fetch_far_loop ?b2 80 (nat ?R) 0 80 out = Some (0, j, 80 - j, write_at out 0 (take j farend)) \<and> j = n"
    proof (cases "n = 0")
      case True
      then have "?R = 0" using n by (simp add: wrap_within)
      then show ?thesis using True len by (subst fetch_far_loop.simps) (simp add: write_at_def)
    next
      case False
      then have "?R = int ?W" using n by (simp add: wrap_within)
      moreover have "take n (drop ?W ?b2) = take n farend" by (rule tail)
      ultimately show ?thesis
        using n len b2 False
        by (simp add: fetch_far_loop.simps [of _ _ ?W] fetch_far_loop.simps [of _ _ 0] n_def [symmetric])
    qed
    have whole: "write_at (write_at out 0 (take n farend)) n (drop n farend) = farend"
      using n len by (simp add: write_at_def)
    show "\<exists>R b W. WebRtcAecm_FetchFarFrame (c\<lparr>farBuf := ?b2, farBufWritePos := 80 - n\<rparr>) out FRAME_LEN
        (core_knownDelay (c\<lparr>farBuf := ?b2, farBufWritePos := 80 - n\<rparr>)) =
        Some (farend, c\<lparr>farBuf := b, farBufWritePos := W, farBufReadPos := R\<rparr>) \<and>
        in_step (c\<lparr>farBuf := b, farBufWritePos := W, farBufReadPos := R\<rparr>)"
      using fetch n len b2 c
      by (intro exI [of _ "int (80 - n)"] exI [of _ ?b2] exI [of _ "80 - n"])
        (auto simp: WebRtcAecm_FetchFarFrame_def in_step_def tail whole)
  qed
next
  case False
  let ?W = "farBufWritePos c" and ?b = "farBuf c"
  have c: "length ?b = 256" "?W \<le> 176" "farBufReadPos c = int ?W" "core_knownDelay c = 0" "lastKnownDelay c = 0"
    and len: "length farend = 80" "length out = 80"
    using assms False by (simp_all add: in_step_def)
  let ?b1 = "write_at ?b ?W farend"
  have buf: "WebRtcAecm_BufferFarFrame c farend FRAME_LEN = Some (c\<lparr>farBuf := ?b1, farBufWritePos := ?W + 80\<rparr>)"
    using c len by (simp add: WebRtcAecm_BufferFarFrame_def buffer_far_loop.simps)
  show ?thesis
  proof (rule that [OF buf])
    have "take 80 (drop ?W ?b1) = farend" using c len by (simp add: write_at_def)
    then show "\<exists>R b W. WebRtcAecm_FetchFarFrame (c\<lparr>farBuf := ?b1, farBufWritePos := ?W + 80\<rparr>) out FRAME_LEN
        (core_knownDelay (c\<lparr>farBuf := ?b1, farBufWritePos := ?W + 80\<rparr>)) =
        Some (farend, c\<lparr>farBuf := b, farBufWritePos := W, farBufReadPos := R\<rparr>) \<and>
        in_step (c\<lparr>farBuf := b, farBufWritePos := W, farBufReadPos := R\<rparr>)"
      using c len
      by (intro exI [of _ "int ?W + 80"] exI [of _ ?b1] exI [of _ "?W + 80"])
        (auto simp: WebRtcAecm_FetchFarFrame_def fetch_far_loop.simps in_step_def wrap_within)
  qed
qed

subsection \<open>The rings between frames and blocks\<close>

definition ring_holds :: "nat \<Rightarrow> 'a RingBuffer \<Rightarrow> 'a list \<Rightarrow> bool" where
  "ring_holds n b xs \<longleftrightarrow> ring_inv b \<and> element_count b = n \<and> contents b = xs"

lemma ring_holds_available: "ring_holds n b xs \<Longrightarrow> available_read b = length xs"
  by (auto simp: ring_holds_def length_contents)

lemma ring_holds_put:
  assumes "ring_holds n b xs" "length xs + length ys \<le> n"
  shows "ring_holds n (snd (WriteBuffer b ys)) (xs @ ys)"
proof (cases "WriteBuffer b ys")
  case (Pair k b')
  have "ring_inv b" using assms(1) by (simp add: ring_holds_def)
  note ok = WriteBuffer_contents [OF this Pair]
  then show ?thesis using assms Pair by (simp add: ring_holds_def)
qed

lemma ring_holds_get:
  assumes "ring_holds n b xs" "k \<le> length xs"
  obtains b' where "ring_get want memory b k = (take k xs, b')" "ring_holds n b' (drop k xs)"
proof (cases "ring_get want memory b k")
  case (Pair ys b')
  have "ring_inv b" using assms(1) by (simp add: ring_holds_def)
  note ok = ring.get_ok [OF this Pair]
  then show ?thesis using that [of b'] assms Pair by (simp add: ring_holds_def)
qed

text \<open>The ring of the output, by the history \<open>h\<close> of what was written to it: stuffing shows older parts
  of the history again.\<close>

abbreviation out_ring :: "u16 RingBuffer \<Rightarrow> u16 list \<Rightarrow> nat \<Rightarrow> bool" where
  "out_ring \<equiv> history_ring 144"

lemma out_ring_stuff: "out_ring b h a \<Longrightarrow> a < 80 \<Longrightarrow> out_ring (snd (MoveReadPtr b (int a - 80))) h 80"
  using history_move [of 144 b h a "int a - 80"] by simp

lemma out_ring_read:
  assumes "out_ring b h a" "80 \<le> a" "length out = 80" "ReadBuffer b True out 80 = (k, out', ptr, b')"
  shows "out_ring b' h (a - 80)"
    and "(case ptr of To_Data \<Rightarrow> out' | To_Buffer p \<Rightarrow> write_at out' 0 (take 80 (drop p (ring_data b')))) =
      take 80 (drop (length h - a) h)"
proof -
  have inv: "ring_inv b" using assms(1) by (simp add: history_ring_def)
  have "80 \<le> length out" using assms(3) by simp
  note ok = ReadBuffer_contents [OF inv this assms(4)]
  have cont: "contents b = drop (length h - a) h" and al: "a \<le> 144" using history_contents [OF assms(1)] by auto
  then have k: "k = 80" using ok(3) assms(1,2) by (simp add: history_ring_def)
  show "out_ring b' h (a - 80)"
    using assms(1) ok(1,2,4) k ReadBuffer_mem [OF assms(4)] length_contents [OF inv] length_contents [OF ok(1)]
    by (simp add: history_ring_def)
  show "(case ptr of To_Data \<Rightarrow> out' | To_Buffer p \<Rightarrow> write_at out' 0 (take 80 (drop p (ring_data b')))) =
      take 80 (drop (length h - a) h)"
  proof (cases ptr)
    case To_Data
    then show ?thesis using ok(5) k cont assms(3) by simp
  next
    case (To_Buffer p)
    then have "out' = out" "take 80 (drop p (ring_data b')) = take 80 (drop (length h - a) h)"
      using ok(6) k cont by auto
    moreover have "length (take 80 (drop (length h - a) h)) = 80"
      using assms(1,2) al by (simp add: history_ring_def)
    ultimately show ?thesis using To_Buffer assms(3) by simp
  qed
qed

subsection \<open>Frames in, frames out\<close>

text \<open>What the canceller is to compute: \<open>ProcessBlock\<close> over the whole blocks of the two signals, \<open>None\<close>
  when it fails on one.\<close>

function block_run :: "'s block \<Rightarrow> 's \<Rightarrow> u16 list \<Rightarrow> u16 list \<Rightarrow> (u16 list list \<times> 's) option" where
  "block_run block s far near =
     (if length far < PART_LEN then Some ([], s)
      else case block s (take PART_LEN far) (take PART_LEN near) None of (ret, out, s) \<Rightarrow>
        if ret = -1 then None
        else do { (outs, s) \<leftarrow> block_run block s (drop PART_LEN far) (drop PART_LEN near); Some (out # outs, s) })"
  by pat_completeness auto
termination by (relation "measure (\<lambda>(_, _, far, _). length far)") auto

declare block_run.simps [simp del]

definition block_ok :: "'s block \<Rightarrow> bool" where
  "block_ok block \<longleftrightarrow> (\<forall>s far near clean. length (fst (snd (block s far near clean))) = PART_LEN)"

definition framing :: "'s AecmCore \<Rightarrow> u16 list \<Rightarrow> u16 list \<Rightarrow> u16 list \<Rightarrow> nat \<Rightarrow> bool" where
  "framing c X Y h a \<longleftrightarrow> in_step c \<and> length X = length Y \<and>
     ring_holds 144 (farFrameBuf c) X \<and> ring_holds 144 (nearNoisyFrameBuf c) Y \<and> out_ring (outFrameBuf c) h a"

lemma block_run_Cons:
  assumes "block_run block s far near = Some (outs, s')" "64 \<le> length far"
  obtains ret out s1 outs1 where "block s (take 64 far) (take 64 near) None = (ret, out, s1)" "ret \<noteq> -1"
    "block_run block s1 (drop 64 far) (drop 64 near) = Some (outs1, s')" "outs = out # outs1"
  using assms by (subst (asm) block_run.simps) (auto split: prod.splits if_splits Option.bind_splits)

lemma block_run_length:
  "block_run block s far near = Some (outs, s') \<Longrightarrow> length outs = length far div 64"
proof (induction block s far near arbitrary: outs rule: block_run.induct)
  case (1 block s far near)
  show ?case
  proof (cases "length far < 64")
    case True
    then show ?thesis using 1(2) by (simp add: block_run.simps)
  next
    case False
    then have "64 \<le> length far" by simp
    from block_run_Cons [OF 1(2) this] obtain ret out s1 outs1
      where b: "block s (take 64 far) (take 64 near) None = (ret, out, s1)" "ret \<noteq> -1"
        "block_run block s1 (drop 64 far) (drop 64 near) = Some (outs1, s')" "outs = out # outs1" .
    have "length outs1 = length (drop 64 far) div 64"
      using 1(1) [of ret "(out, s1)" out s1 outs1] b False by simp
    then show ?thesis using b(4) False by (simp add: le_div_geq)
  qed
qed

lemma block_run_widths:
  "block_run block s far near = Some (outs, s') \<Longrightarrow> block_ok block \<Longrightarrow> list_all (\<lambda>out. length out = 64) outs"
proof (induction block s far near arbitrary: outs rule: block_run.induct)
  case (1 block s far near)
  show ?case
  proof (cases "length far < 64")
    case True
    then show ?thesis using 1(2) by (simp add: block_run.simps)
  next
    case False
    then have "64 \<le> length far" by simp
    from block_run_Cons [OF 1(2) this] obtain ret out s1 outs1
      where b: "block s (take 64 far) (take 64 near) None = (ret, out, s1)" "ret \<noteq> -1"
        "block_run block s1 (drop 64 far) (drop 64 near) = Some (outs1, s')" "outs = out # outs1" .
    have "list_all (\<lambda>out. length out = 64) outs1"
      using 1(1) [of ret "(out, s1)" out s1 outs1] 1(3) b False by simp
    moreover have "length out = 64"
      using 1(3) b(1) unfolding block_ok_def by (metis fst_conv snd_conv aecm_lengths(2))
    ultimately show ?thesis using b(4) by simp
  qed
qed

lemma block_run_append:
  "length far = length near \<Longrightarrow> block_run block s (far @ F) (near @ N) =
     do { (outs, s) \<leftarrow> block_run block s far near;
          (outs', s) \<leftarrow> block_run block s (drop (64 * length outs) far @ F) (drop (64 * length outs) near @ N);
          Some (outs @ outs', s) }"
proof (induction block s far near rule: block_run.induct)
  case (1 block s far near)
  show ?case
  proof (cases "length far < 64")
    case True
    then show ?thesis by (auto simp: block_run.simps [of _ _ far near] split: Option.bind_splits)
  next
    case False
    obtain ret out s1 where b: "block s (take 64 far) (take 64 near) None = (ret, out, s1)" by (metis prod_cases3)
    show ?thesis
    proof (cases "ret = -1")
      case True
      then show ?thesis
        using False b 1(2) by (subst (1 2) block_run.simps) simp
    next
      case ret: False
      have "block_run block s1 (drop 64 far @ F) (drop 64 near @ N) =
        do { (outs, s) \<leftarrow> block_run block s1 (drop 64 far) (drop 64 near);
             (outs', s) \<leftarrow> block_run block s (drop (64 * length outs) (drop 64 far) @ F)
               (drop (64 * length outs) (drop 64 near) @ N);
             Some (outs @ outs', s) }"
        using 1(1) [of ret "(out, s1)" out s1] 1(2) b ret False by simp
      then have "block_run block s (far @ F) (near @ N) =
        do { (outs, s) \<leftarrow> block_run block s1 (drop 64 far) (drop 64 near);
             (outs', s) \<leftarrow> block_run block s (drop (64 * length outs) (drop 64 far) @ F)
               (drop (64 * length outs) (drop 64 near) @ N);
             Some (out # outs @ outs', s) }"
        using False b ret 1(2) by (subst block_run.simps) (auto split: Option.bind_splits)
      then show ?thesis
        using False b ret by (subst (2) block_run.simps) (auto simp: add.commute split: Option.bind_splits)
    qed
  qed
qed

lemma block_loop_run:
  "block_run block s X Y = Some (Bs, s') \<Longrightarrow> adapt c = s \<Longrightarrow> framing c X Y h a \<Longrightarrow> block_ok block \<Longrightarrow>
    a + 64 * length Bs \<le> 144 \<Longrightarrow>
    \<exists>c'. block_loop block False c = Some (0, c') \<and> adapt c' = s' \<and>
      framing c' (drop (64 * length Bs) X) (drop (64 * length Bs) Y) (h @ concat Bs) (a + 64 * length Bs)"
proof (induction block s X Y arbitrary: Bs c h a rule: block_run.induct)
  case (1 block s X Y)
  have fr: "ring_holds 144 (farFrameBuf c) X" "ring_holds 144 (nearNoisyFrameBuf c) Y" "length X = length Y"
    "out_ring (outFrameBuf c) h a" "in_step c"
    using 1(4) by (simp_all add: framing_def)
  show ?case
  proof (cases "length X < 64")
    case True
    then have "block_loop block False c = Some (0, c)"
      using ring_holds_available [OF fr(1)] by (simp add: block_loop.simps)
    moreover have "Bs = []" "s' = s" using 1(2) True by (simp_all add: block_run.simps)
    ultimately show ?thesis using 1(3,4) by simp
  next
    case False
    then have le: "64 \<le> length X" "64 \<le> length Y" using fr(3) by simp_all
    from block_run_Cons [OF 1(2) le(1)] obtain ret B s1 Bs1
      where b: "block s (take 64 X) (take 64 Y) None = (ret, B, s1)" "ret \<noteq> -1"
        "block_run block s1 (drop 64 X) (drop 64 Y) = Some (Bs1, s')" "Bs = B # Bs1" .
    obtain fb where f: "ring_get True [] (farFrameBuf c) 64 = (take 64 X, fb)" "ring_holds 144 fb (drop 64 X)"
      using ring_holds_get [OF fr(1) le(1)] by blast
    obtain nb where n: "ring_get True [] (nearNoisyFrameBuf c) 64 = (take 64 Y, nb)" "ring_holds 144 nb (drop 64 Y)"
      using ring_holds_get [OF fr(2) le(2)] by blast
    have B: "length B = 64" using 1(5) b(1) unfolding block_ok_def by (metis fst_conv snd_conv aecm_lengths(2))
    define c1 where "c1 = c\<lparr>farFrameBuf := fb, nearNoisyFrameBuf := nb, nearCleanFrameBuf := nearCleanFrameBuf c,
      outFrameBuf := snd (WriteBuffer (outFrameBuf c) B), adapt := s1\<rparr>"
    have step: "block_loop block False c = block_loop block False c1"
      using ring_holds_available [OF fr(1)] le(1) f(1) n(1) b(1,2) 1(3)
      by (subst block_loop.simps) (simp add: c1_def)
    have "framing c1 (drop 64 X) (drop 64 Y) (h @ B) (a + 64)"
      using fr f(2) n(2) history_put [OF fr(4), of B] B 1(6) b(4)
      by (simp add: framing_def c1_def in_step_def)
    moreover have "adapt c1 = s1" by (simp add: c1_def)
    moreover have "a + 64 + 64 * length Bs1 = a + 64 * length Bs" using b(4) by simp
    ultimately show ?thesis
      using 1(1) [of ret "(B, s1)" B s1 Bs1 c1 "h @ B" "a + 64"] 1(5,6) b False step
      by (simp add: ac_simps)
  qed
qed

text \<open>One frame.\<close>

lemma ProcessFrame_run:
  assumes fr: "framing c X Y h a" and len: "length far = 80" "length near = 80" "length out = 80" "length X < 64"
    and run: "block_run block (adapt c) (X @ far) (Y @ near) = Some (Bs, s')" and ok: "block_ok block"
    and fits: "a + 64 * length Bs \<le> 144"
  obtains c' where
    "WebRtcAecm_ProcessFrame block c far near None out =
       Some (0, take 80 (drop (length (h @ concat Bs) - max 80 (a + 64 * length Bs)) (h @ concat Bs)), c')"
    "adapt c' = s'"
    "framing c' (drop (64 * length Bs) (X @ far)) (drop (64 * length Bs) (Y @ near)) (h @ concat Bs)
       (a + 64 * length Bs - 80)"
proof -
  have f: "ring_holds 144 (farFrameBuf c) X" "ring_holds 144 (nearNoisyFrameBuf c) Y" "length X = length Y"
    "out_ring (outFrameBuf c) h a" "in_step c"
    using fr by (simp_all add: framing_def)
  obtain c1 b W R where pass: "WebRtcAecm_BufferFarFrame c far 80 = Some c1"
    "WebRtcAecm_FetchFarFrame c1 (replicate 80 0) 80 (core_knownDelay c1) =
      Some (far, c\<lparr>farBuf := b, farBufWritePos := W, farBufReadPos := R\<rparr>)"
    and st: "in_step (c\<lparr>farBuf := b, farBufWritePos := W, farBufReadPos := R\<rparr>)"
    using delay_line_passes [OF f(5), of far "replicate 80 0"] len(1)
    by (metis aecm_lengths(1) length_replicate)
  define c2 where "c2 = c\<lparr>farBuf := b, farBufWritePos := W, farBufReadPos := R,
    farFrameBuf := snd (WriteBuffer (farFrameBuf c) far),
    nearNoisyFrameBuf := snd (WriteBuffer (nearNoisyFrameBuf c) near)\<rparr>"
  have "framing c2 (X @ far) (Y @ near) h a"
    using f st ring_holds_put [OF f(1), of far] ring_holds_put [OF f(2), of near] len
    by (simp add: framing_def c2_def in_step_def)
  moreover have "block_run block (adapt c2) (X @ far) (Y @ near) = Some (Bs, s')" using run by (simp add: c2_def)
  ultimately obtain c3 where c3: "block_loop block False c2 = Some (0, c3)" "adapt c3 = s'"
    "framing c3 (drop (64 * length Bs) (X @ far)) (drop (64 * length Bs) (Y @ near)) (h @ concat Bs) (a + 64 * length Bs)"
    using block_loop_run [OF _ refl _ ok fits] by blast
  define h1 where "h1 = h @ concat Bs"
  let ?h = "h1" and ?a = "a + 64 * length Bs"
  note c3 = c3 [folded h1_def]
  have o3: "out_ring (outFrameBuf c3) ?h ?a" using c3(3) by (simp add: framing_def)
  then have av: "available_read (outFrameBuf c3) = ?a" by (simp add: history_ring_def)
  define b4 where "b4 = (if ?a < 80 then snd (MoveReadPtr (outFrameBuf c3) (int ?a - 80)) else outFrameBuf c3)"
  have o4: "out_ring b4 ?h (max 80 ?a)"
    using o3 out_ring_stuff [OF o3] by (simp add: b4_def max_def)
  obtain k out' ptr b5 where r: "ReadBuffer b4 True out 80 = (k, out', ptr, b5)" by (metis prod_cases4)
  have o4': "80 \<le> max 80 ?a" by simp
  note rd = out_ring_read [OF o4 o4' len(3) r]
  have "WebRtcAecm_ProcessFrame block c far near None out =
    Some (0, take 80 (drop (length ?h - max 80 ?a) ?h), c3\<lparr>outFrameBuf := b5\<rparr>)"
    using rd(2) r c3(1) av
    by (simp add: WebRtcAecm_ProcessFrame_def pass c2_def [symmetric] b4_def Let_def
        cong: if_cong where_data.case_cong)
  moreover have "framing (c3\<lparr>outFrameBuf := b5\<rparr>) (drop (64 * length Bs) (X @ far)) (drop (64 * length Bs) (Y @ near))
      ?h (?a - 80)"
    using c3(3) rd(1) by (simp add: framing_def in_step_def max_def split: if_splits)
  ultimately show ?thesis using that [folded h1_def] c3(2) by simp
qed

text \<open>Frame after frame, without a clean near end; \<open>None\<close> when a call fails.\<close>

fun process_frames ::
  "'s block \<Rightarrow> 's AecmCore \<Rightarrow> (u16 list \<times> u16 list) list \<Rightarrow> (u16 list list \<times> 's AecmCore) option" where
  "process_frames block c [] = Some ([], c)"
| "process_frames block c ((far, near) # frames) = do {
     (ret, out, c) \<leftarrow> WebRtcAecm_ProcessFrame block c far near None (replicate FRAME_LEN 0);
     (if ret = -1 then None
      else do { (outs, c) \<leftarrow> process_frames block c frames; Some (out # outs, c) })
   }"

text \<open>The blocks as they come out: for the first three frames the sixteen samples before the block, 0 at
  first, are put in front of it.\<close>

fun stuffed :: "nat \<Rightarrow> u16 list \<Rightarrow> u16 list list \<Rightarrow> u16 list" where
  "stuffed i h [] = []"
| "stuffed i h (out # outs) = (if i < 3 then drop (length h - 16) h else []) @ out @ stuffed (Suc i) (h @ out) outs"

lemma stuffed_late: "3 \<le> i \<Longrightarrow> stuffed i h outs = concat outs"
  by (induction outs arbitrary: i h) auto

definition pending :: "nat \<Rightarrow> nat" where
  "pending k = (if k < 3 then 0 else 48 - 16 * (k mod 4))"

lemma drop_last_more:
  assumes "80 \<le> n" "n \<le> length h"
  shows "drop (length h - (n - 80)) h = drop 80 (drop (length h - n) h)"
proof -
  have "length h - (n - 80) = 80 + (length h - n)" using assms by simp
  then show ?thesis by (simp only: drop_drop)
qed

lemma frame_turn:
  fixes k :: nat and Bs :: "u16 list list"
  assumes "length Bs = (16 * (k mod 4) + 80) div 64" "list_all (\<lambda>out. length out = 64) Bs" "length h \<ge> 144"
  defines "a \<equiv> pending k" and "b \<equiv> pending (Suc k)" and "h' \<equiv> h @ concat Bs"
  shows "a + 64 * length Bs \<le> 144" "max 80 (a + 64 * length Bs) - 80 = b" "a + 64 * length Bs - 80 = b"
    "take 80 (drop (length h' - max 80 (a + 64 * length Bs)) h') @
       drop (length h' - b) h' @ stuffed (Suc k) h' outs =
     drop (length h - a) h @ stuffed k h (Bs @ outs)"
proof -
  consider (early) "k < 3" "a = 0" "b = 0" "length Bs = 1"
    | (one) "k \<ge> 3" "length Bs = 1" "a \<le> 48" "16 \<le> a" "b = a - 16"
    | (two) "k \<ge> 3" "length Bs = 2" "a = 0" "b = 48"
  proof (cases "k < 3")
    case True
    then have "k = 0 \<or> k = 1 \<or> k = 2" by arith
    then show ?thesis using that(1) assms(1) True by (auto simp: a_def b_def pending_def)
  next
    case False
    have "k mod 4 < 4" by simp
    then have "k mod 4 = 0 \<or> k mod 4 = 1 \<or> k mod 4 = 2 \<or> k mod 4 = 3" by arith
    then show ?thesis
      using that(2,3) assms(1) False by (auto simp: a_def b_def pending_def mod_Suc)
  qed
  note cases = this
  have conc: "length (concat Bs) = 64 * length Bs" using assms(2) by (induction Bs) auto
  show "a + 64 * length Bs \<le> 144" "max 80 (a + 64 * length Bs) - 80 = b" "a + 64 * length Bs - 80 = b"
    using cases by (cases; simp)+
  show "take 80 (drop (length h' - max 80 (a + 64 * length Bs)) h') @
       drop (length h' - b) h' @ stuffed (Suc k) h' outs =
     drop (length h - a) h @ stuffed k h (Bs @ outs)"
    using cases
  proof cases
    case early
    then obtain B where B: "Bs = [B]" by (auto simp: length_Suc_conv)
    then have "length B = 64" using assms(2) by simp
    then show ?thesis using early B assms(3) by (simp add: h'_def)
  next
    case late: one
    let ?n = "a + 64 * length Bs"
    have n: "80 \<le> ?n" "?n - 80 = b" "?n \<le> 144" using late by simp_all
    have tail: "drop (length h' - ?n) h' = drop (length h - a) h @ concat Bs"
      using conc assms(3) n by (simp add: h'_def)
    have "drop (length h' - b) h' = drop 80 (drop (length h' - ?n) h')"
      using drop_last_more [of ?n h'] n assms(3) by (simp add: h'_def)
    then have "take 80 (drop (length h' - ?n) h') @ drop (length h' - b) h' = drop (length h - a) h @ concat Bs"
      by (simp only: tail append_take_drop_id)
    then show ?thesis using late(1) n(1) by (simp add: stuffed_late max_absorb2)
  next
    case late: two
    let ?n = "a + 64 * length Bs"
    have n: "80 \<le> ?n" "?n - 80 = b" "?n \<le> 144" using late by simp_all
    have tail: "drop (length h' - ?n) h' = drop (length h - a) h @ concat Bs"
      using conc assms(3) n by (simp add: h'_def)
    have "drop (length h' - b) h' = drop 80 (drop (length h' - ?n) h')"
      using drop_last_more [of ?n h'] n assms(3) by (simp add: h'_def)
    then have "take 80 (drop (length h' - ?n) h') @ drop (length h' - b) h' = drop (length h - a) h @ concat Bs"
      by (simp only: tail append_take_drop_id)
    then show ?thesis using late(1) n(1) by (simp add: stuffed_late max_absorb2)
  qed
qed

lemma take_frame: "length out = 80 \<Longrightarrow> out @ take (80 * n) r = take (80 * Suc n) (out @ r)"
  by simp

lemma process_frames_from:
  assumes "\<forall>(far, near) \<in> set frames. length far = 80 \<and> length near = 80" "block_ok block"
    "framing c X Y h (pending k)" "length X = 16 * (k mod 4)"
    "block_run block (adapt c) (X @ concat (map fst frames)) (Y @ concat (map snd frames)) = Some (Bs, s')"
  shows "\<exists>outs c'. process_frames block c frames = Some (outs, c') \<and> adapt c' = s' \<and>
    list_all (\<lambda>out. length out = 80) outs \<and> length outs = length frames \<and>
    concat outs = take (80 * length frames) (drop (length h - pending k) h @ stuffed k h Bs)"
  using assms
proof (induction frames arbitrary: c X Y h k Bs)
  case Nil
  have "k mod 4 < 4" by simp
  then have "length X < 64" using Nil(4) by simp
  then show ?case using Nil by (simp add: block_run.simps)
next
  case (Cons frame frames)
  obtain far near where fr: "frame = (far, near)" by fastforce
  have len: "length far = 80" "length near = 80" using Cons.prems(1) fr by auto
  have XY: "length X = length Y" and h: "144 \<le> length h"
    using Cons.prems(3) by (simp_all add: framing_def history_ring_def)
  have k4: "k mod 4 < 4" by simp
  from Cons.prems(5) fr XY len obtain Bs1 s1 Bs2 where
    run1: "block_run block (adapt c) (X @ far) (Y @ near) = Some (Bs1, s1)" and
    run2: "block_run block s1 (drop (64 * length Bs1) (X @ far) @ concat (map fst frames))
      (drop (64 * length Bs1) (Y @ near) @ concat (map snd frames)) = Some (Bs2, s')" and
    Bs: "Bs = Bs1 @ Bs2"
    using block_run_append [of "X @ far" "Y @ near" block "adapt c" "concat (map fst frames)" "concat (map snd frames)"]
    by (auto split: Option.bind_splits)
  have n1: "length Bs1 = (16 * (k mod 4) + 80) div 64"
    using block_run_length [OF run1] Cons.prems(4) len by simp
  note turn = frame_turn [OF n1 block_run_widths [OF run1 Cons.prems(2)] h]
  have X: "length X < 64" using Cons.prems(4) k4 by simp
  have "length (replicate 80 (0 :: u16)) = 80" by simp
  then obtain c1 where c1:
    "WebRtcAecm_ProcessFrame block c far near None (replicate 80 0) =
      Some (0, take 80 (drop (length (h @ concat Bs1) - max 80 (pending k + 64 * length Bs1)) (h @ concat Bs1)), c1)"
    "adapt c1 = s1"
    "framing c1 (drop (64 * length Bs1) (X @ far)) (drop (64 * length Bs1) (Y @ near)) (h @ concat Bs1)
       (pending k + 64 * length Bs1 - 80)"
    using ProcessFrame_run [OF Cons.prems(3) len _ X run1 Cons.prems(2) turn(1)] by metis
  have left: "length (drop (64 * length Bs1) (X @ far)) = 16 * (Suc k mod 4)"
  proof -
    have "(16 * (k mod 4) + 80) mod 64 = 16 * ((k mod 4 + 5) mod 4)"
      using mult_mod_right [of 16 "k mod 4 + 5" 4] by simp
    also have "(k mod 4 + 5) mod 4 = Suc k mod 4" by presburger
    finally have "(16 * (k mod 4) + 80) mod 64 = 16 * (Suc k mod 4)" .
    then have "16 * (k mod 4) + 80 - 64 * length Bs1 = 16 * (Suc k mod 4)"
      by (simp only: n1 minus_mult_div_eq_mod)
    then show ?thesis by (simp only: length_drop length_append Cons.prems(4) len)
  qed
  have fr': "\<forall>(far, near) \<in> set frames. length far = 80 \<and> length near = 80" using Cons.prems(1) by simp
  obtain outs c' where c': "process_frames block c1 frames = Some (outs, c')" "adapt c' = s'"
    "list_all (\<lambda>out. length out = 80) outs" "length outs = length frames"
    "concat outs = take (80 * length frames) (drop (length (h @ concat Bs1) - pending (Suc k)) (h @ concat Bs1)
      @ stuffed (Suc k) (h @ concat Bs1) Bs2)"
    using Cons.IH [OF fr' Cons.prems(2) c1(3) [unfolded turn(3)] left] run2 c1(2) by blast
  obtain out where out: "out = take 80 (drop (length (h @ concat Bs1) - max 80 (pending k + 64 * length Bs1)) (h @ concat Bs1))"
    by blast
  have lo: "length out = 80"
  proof -
    have "max 80 (pending k + 64 * length Bs1) \<le> length (h @ concat Bs1)" using turn(1) h by simp
    then show ?thesis by (simp add: out max_def split: if_splits)
  qed
  have "concat (out # outs) = take (80 * Suc (length frames)) (drop (length h - pending k) h @ stuffed k h Bs)"
    by (simp only: concat.simps c'(5) take_frame [OF lo] turn(4) [folded out] Bs)
  moreover have "process_frames block c (frame # frames) = Some (out # outs, c')"
    using c1(1) [folded out] c'(1) fr by simp
  ultimately show ?case
    using c'(2-4) lo by (intro exI [of _ "out # outs"] exI [of _ c']) (simp only: list.size list.pred_inject length_Cons, simp)
qed

text \<open>A canceller whose parts have been created, whatever its memory held.\<close>

definition framed :: "'s AecmCore \<Rightarrow> bool" where
  "framed c \<longleftrightarrow> length (farBuf c) = FAR_BUF_LEN \<and>
     (\<forall>b \<in> {farFrameBuf c, nearNoisyFrameBuf c, nearCleanFrameBuf c, outFrameBuf c}.
        element_count b = FRAME_LEN + PART_LEN)"

lemma cleared_ring:
  assumes "0 < element_count b"
  shows "ring_holds (element_count b) (cleared b) []" "ring_mem (cleared b) = replicate (element_count b) 0"
    "available_read (cleared b) = 0"
  using assms
  by (simp_all add: cleared_def WebRtc_InitBuffer_def ring_holds_def ring_inv_def contents_def ring_mem_def available_read_def)

lemma init_framing: "framed c \<Longrightarrow> framing (init_frames c) [] [] (replicate 144 0) 0"
  using cleared_ring [of "farFrameBuf c"] cleared_ring [of "nearNoisyFrameBuf c"] cleared_ring [of "outFrameBuf c"]
  by (simp add: framed_def framing_def init_frames_def in_step_def history_ring_def ring_holds_def)

end
