(* ===== verification/Aecm_Fixed.thy ===== *)
theory Aecm_Fixed
  imports Prelude "HOL-Library.Signed_Division"
begin

text \<open>
  The fixed-point arithmetic the echo canceller uses: macros of
  \<open>src/jni/webrtc/common_audio/signal_processing/include/signal_processing_library.h\<close>, the inline functions
  of \<open>spl_inl.h\<close> (the portable ones), \<open>division_operations.c\<close>, \<open>spl_sqrt_floor.c\<close> and
  \<open>randomization_functions.c\<close>.

  Values are integers; \<open>int16\<close>, \<open>int32\<close>, \<open>uint16\<close> and \<open>uint32\<close> are the conversions to the C types, written
  where the code stores or casts, and where a 32-bit operation can leave its range: signed overflow,
  undefined in C, is the wrap-around of the machine, a right shift of a negative number the arithmetic
  one.
\<close>

definition int16 :: "int \<Rightarrow> int" where "int16 x = signed_take_bit 15 x"
definition int32 :: "int \<Rightarrow> int" where "int32 x = signed_take_bit 31 x"
definition uint16 :: "int \<Rightarrow> int" where "uint16 x = take_bit 16 x"
definition uint32 :: "int \<Rightarrow> int" where "uint32 x = take_bit 32 x"

definition WORD16_MAX :: int where "WORD16_MAX = 32767"
definition WORD16_MIN :: int where "WORD16_MIN = -32768"
definition WORD32_MAX :: int where "WORD32_MAX = 0x7fffffff"

lemma int16_range: "-32768 \<le> int16 x" "int16 x \<le> 32767"
  using signed_take_bit_int_greater_eq_minus_exp [of 15 x] signed_take_bit_int_less_exp [of 15 x]
  by (simp_all add: int16_def)

lemma int32_range: "-2147483648 \<le> int32 x" "int32 x \<le> 2147483647"
  using signed_take_bit_int_greater_eq_minus_exp [of 31 x] signed_take_bit_int_less_exp [of 31 x]
  by (simp_all add: int32_def)

lemma uint_range: "0 \<le> uint16 x" "uint16 x < 65536" "0 \<le> uint32 x" "uint32 x < 4294967296"
  using take_bit_int_less_exp [of 16 x] take_bit_int_less_exp [of 32 x]
  by (simp_all add: uint16_def uint32_def)

lemma int16_id: "-32768 \<le> x \<Longrightarrow> x \<le> 32767 \<Longrightarrow> int16 x = x"
  by (simp add: int16_def signed_take_bit_int_eq_self)

lemma int32_id: "-2147483648 \<le> x \<Longrightarrow> x \<le> 2147483647 \<Longrightarrow> int32 x = x"
  by (simp add: int32_def signed_take_bit_int_eq_self)

lemma uint16_id: "0 \<le> x \<Longrightarrow> x < 65536 \<Longrightarrow> uint16 x = x"
  by (simp add: uint16_def take_bit_int_eq_self)

lemma uint32_id: "0 \<le> x \<Longrightarrow> x < 4294967296 \<Longrightarrow> uint32 x = x"
  by (simp add: uint32_def take_bit_int_eq_self)

subsection \<open>Macros\<close>

definition ABS_W16 :: "int \<Rightarrow> int" where "ABS_W16 a = (if int16 a \<ge> 0 then int16 a else - int16 a)"
definition ABS_W32 :: "int \<Rightarrow> int" where "ABS_W32 a = (if int32 a \<ge> 0 then int32 a else int32 (- int32 a))"
definition UMUL_16_16 :: "int \<Rightarrow> int \<Rightarrow> int" where "UMUL_16_16 a b = uint32 (uint16 a * uint16 b)"
definition UMUL_32_16 :: "int \<Rightarrow> int \<Rightarrow> int" where "UMUL_32_16 a b = uint32 (uint32 a * uint16 b)"
definition MUL_16_U16 :: "int \<Rightarrow> int \<Rightarrow> int" where "MUL_16_U16 a b = int32 (int16 a * uint16 b)"
definition MUL_16_16 :: "int \<Rightarrow> int \<Rightarrow> int" where "MUL_16_16 a b = int32 (int16 a * int16 b)"

definition MUL_16_16_RSFT :: "int \<Rightarrow> int \<Rightarrow> nat \<Rightarrow> int" where
  "MUL_16_16_RSFT a b c = drop_bit c (MUL_16_16 a b)"

definition MUL_16_16_RSFT_WITH_ROUND :: "int \<Rightarrow> int \<Rightarrow> nat \<Rightarrow> int" where
  "MUL_16_16_RSFT_WITH_ROUND a b c = drop_bit c (int32 (MUL_16_16 a b + push_bit (c - 1) 1))"

definition SAT :: "int \<Rightarrow> int \<Rightarrow> int \<Rightarrow> int" where
  "SAT a b c = (if b > a then a else if b < c then c else b)"

text \<open>\<open>SHIFT_W32\<close> keeps the type of its argument, \<open>conv\<close>.\<close>

definition SHIFT_W32 :: "(int \<Rightarrow> int) \<Rightarrow> int \<Rightarrow> int \<Rightarrow> int" where
  "SHIFT_W32 conv x c = (if c \<ge> 0 then conv (push_bit (nat c) x) else drop_bit (nat (- c)) x)"

subsection \<open>Inline functions\<close>

definition SatW32ToW16 :: "int \<Rightarrow> int" where
  "SatW32ToW16 value32 = (if value32 > 32767 then 32767 else if value32 < -32768 then -32768 else int16 value32)"

definition AddSatW32 :: "int \<Rightarrow> int \<Rightarrow> int" where
  "AddSatW32 a b =
     (let l_sum = int32 (a + b)
      in if a < 0 then (if b < 0 \<and> l_sum \<ge> 0 then -2147483648 else l_sum)
         else (if b > 0 \<and> l_sum < 0 then 0x7FFFFFFF else l_sum))"

definition AddSatW16 :: "int \<Rightarrow> int \<Rightarrow> int" where
  "AddSatW16 a b = SatW32ToW16 (a + b)"

definition NormU32 :: "int \<Rightarrow> int" where
  "NormU32 a =
     (if a = 0 then 0
      else
        let zeros = (if 0xFFFF0000 AND a = 0 then 16 else 0);
            zeros = (if 0xFF000000 AND uint32 (push_bit zeros a) = 0 then zeros + 8 else zeros);
            zeros = (if 0xF0000000 AND uint32 (push_bit zeros a) = 0 then zeros + 4 else zeros);
            zeros = (if 0xC0000000 AND uint32 (push_bit zeros a) = 0 then zeros + 2 else zeros);
            zeros = (if 0x80000000 AND uint32 (push_bit zeros a) = 0 then zeros + 1 else zeros)
        in int zeros)"

definition NormW32 :: "int \<Rightarrow> int" where
  "NormW32 a =
     (if a = 0 then 0
      else
        let a = (if a < 0 then NOT a else a);
            zeros = (if 0xFFFF8000 AND a = 0 then 16 else 0);
            zeros = (if 0xFF800000 AND uint32 (push_bit zeros a) = 0 then zeros + 8 else zeros);
            zeros = (if 0xF8000000 AND uint32 (push_bit zeros a) = 0 then zeros + 4 else zeros);
            zeros = (if 0xE0000000 AND uint32 (push_bit zeros a) = 0 then zeros + 2 else zeros);
            zeros = (if 0xC0000000 AND uint32 (push_bit zeros a) = 0 then zeros + 1 else zeros)
        in int zeros)"

text \<open>Here the shifted value is an \<open>int\<close> of 32 bits, the masks have 16.\<close>

definition NormW16 :: "int \<Rightarrow> int" where
  "NormW16 a =
     (if a = 0 then 0
      else
        let a = (if a < 0 then NOT a else a);
            zeros = (if 0xFF80 AND a = 0 then 8 else 0);
            zeros = (if 0xF800 AND push_bit zeros a = 0 then zeros + 4 else zeros);
            zeros = (if 0xE000 AND push_bit zeros a = 0 then zeros + 2 else zeros);
            zeros = (if 0xC000 AND push_bit zeros a = 0 then zeros + 1 else zeros)
        in int zeros)"

subsection \<open>Division, square root and random numbers\<close>

definition DivU32U16 :: "int \<Rightarrow> int \<Rightarrow> int" where
  "DivU32U16 num den = (if den \<noteq> 0 then uint32 (num div den) else 0xFFFFFFFF)"

definition DivW32W16 :: "int \<Rightarrow> int \<Rightarrow> int" where
  "DivW32W16 num den = (if den \<noteq> 0 then int32 (num sdiv den) else 0x7FFFFFFF)"

definition sqrt_iter :: "nat \<Rightarrow> int \<times> int \<Rightarrow> int \<times> int" where
  "sqrt_iter n = (\<lambda>(value, root).
     let try1 = root + push_bit n 1
     in if value \<ge> int32 (push_bit n try1)
        then (int32 (value - int32 (push_bit n try1)), root OR push_bit n 2) else (value, root))"

definition SqrtFloor :: "int \<Rightarrow> int" where
  "SqrtFloor value =
     (let root = snd (fold sqrt_iter [15, 14, 13, 12, 11, 10, 9, 8, 7, 6, 5, 4, 3, 2, 1, 0] (value, 0))
      in drop_bit 1 root)"

definition kMaxSeedUsed :: int where "kMaxSeedUsed = 0x80000000"

definition IncreaseSeed :: "int \<Rightarrow> int" where
  "IncreaseSeed seed = uint32 (seed * 69069 + 1) AND (kMaxSeedUsed - 1)"

fun RandUArray :: "nat \<Rightarrow> int \<Rightarrow> int list \<times> int" where
  "RandUArray 0 seed = ([], seed)"
| "RandUArray (Suc n) seed =
     (let seed = IncreaseSeed seed
      in case RandUArray n seed of (vector, seed') \<Rightarrow> (int16 (drop_bit 16 seed) # vector, seed'))"

definition MaxAbsValueW16 :: "int list \<Rightarrow> int" where
  "MaxAbsValueW16 vector =
     (if vector = [] then -1
      else let maximum = fold (\<lambda>v maximum. if \<bar>v\<bar> > maximum then \<bar>v\<bar> else maximum) vector 0
           in int16 (if maximum > WORD16_MAX then WORD16_MAX else maximum))"

subsection \<open>What they compute\<close>

lemma AddSatW32_clamp:
  assumes "-2147483648 \<le> a" "a \<le> 2147483647" "-2147483648 \<le> b" "b \<le> 2147483647"
  shows "AddSatW32 a b = max (-2147483648) (min 2147483647 (a + b))"
proof -
  consider "a + b < -2147483648" | "a + b > 2147483647" | "-2147483648 \<le> a + b" "a + b \<le> 2147483647" by linarith
  then show ?thesis
  proof cases
    case 1
    have "int32 (a + b) = a + b + 4294967296"
    proof -
      have "int32 (a + b) = int32 (a + b + 4294967296)"
        unfolding int32_def by (rule signed_take_bit_eq_iff_take_bit_eq [THEN iffD2])
          (simp add: take_bit_eq_mod)
      then show ?thesis using 1 assms by (simp add: int32_id)
    qed
    then show ?thesis using 1 assms by (simp add: AddSatW32_def)
  next
    case 2
    have "int32 (a + b) = a + b - 4294967296"
    proof -
      have "int32 (a + b) = int32 (a + b - 4294967296)"
        unfolding int32_def by (rule signed_take_bit_eq_iff_take_bit_eq [THEN iffD2])
          (simp add: take_bit_eq_mod)
      then show ?thesis using 2 assms by (simp add: int32_id)
    qed
    then show ?thesis using 2 assms by (simp add: AddSatW32_def)
  next
    case 3
    then show ?thesis using assms by (simp add: AddSatW32_def int32_id Let_def)
  qed
qed

lemma AddSatW16_clamp: "AddSatW16 a b = max (-32768) (min 32767 (a + b))"
  by (auto simp: AddSatW16_def SatW32ToW16_def int16_id)

lemma high_mask:
  fixes a :: int
  assumes "0 \<le> a" "a < 2 ^ (k + m)"
  shows "push_bit k (mask m) AND a = 0 \<longleftrightarrow> a < 2 ^ k"
proof -
  have "push_bit k (mask m) AND a = push_bit k (drop_bit k a)"
  proof (rule bit_eqI)
    fix n
    have "bit a n \<Longrightarrow> n < k + m"
      using assms bit_take_bit_iff [of "k + m" a n] by (metis take_bit_int_eq_self)
    then show "bit (push_bit k (mask m) AND a) n \<longleftrightarrow> bit (push_bit k (drop_bit k a)) n"
      by (auto simp: bit_simps)
  qed
  then have "push_bit k (mask m) AND a = 0 \<longleftrightarrow> drop_bit k a = 0" by simp
  also have "\<dots> \<longleftrightarrow> a < 2 ^ k"
    using assms(1) by (auto simp: drop_bit_eq_div zdiv_eq_0_iff)
  finally show ?thesis .
qed

text \<open>One test of a normalisation: the shift is raised by \<open>d\<close> when the value lies below \<open>2 ^ (w - d)\<close>.\<close>

lemma norm_turn:
  fixes a :: int
  assumes "a * 2 ^ z < 2 ^ w" "2 ^ (w - d) \<le> a * 2 ^ z * 2 ^ d" "d \<le> w" "d \<le> m"
    and z'_def: "z' = (if push_bit (w - d) (mask m) AND a * 2 ^ z = 0 then z + d else z)"
  shows "a * 2 ^ z' < 2 ^ w" "2 ^ (w - d) \<le> a * 2 ^ z'"
proof -
  have "(0 :: int) < 2 ^ (w - d)" by simp
  then have "0 < a * 2 ^ z * 2 ^ d" using assms(2) by linarith
  then have pos: "0 < a * 2 ^ z" by (simp add: zero_less_mult_iff)
  have "(2 :: int) ^ w \<le> 2 ^ (w - d + m)" using assms(3,4) by (intro power_increasing) auto
  then have "a * 2 ^ z < 2 ^ (w - d + m)" using assms(1) by linarith
  then have t: "push_bit (w - d) (mask m) AND (a * 2 ^ z) = 0 \<longleftrightarrow> a * 2 ^ z < 2 ^ (w - d)"
    using high_mask [of "a * 2 ^ z" "w - d" m] pos by linarith
  have up: "(2 :: int) ^ (w - d) * 2 ^ d = 2 ^ w"
    using assms(3) by (simp flip: power_add)
  have "a * 2 ^ (z + d) < 2 ^ w" if "a * 2 ^ z < 2 ^ (w - d)"
    using mult_strict_right_mono [OF that, of "2 ^ d"] up by (simp add: power_add mult.assoc)
  then show "a * 2 ^ z' < 2 ^ w" using assms(1) t by (simp add: z'_def)
  show "2 ^ (w - d) \<le> a * 2 ^ z'"
    using t assms(2) by (auto simp: z'_def power_add mult.assoc)
qed

lemma push_bit_uint32: "0 \<le> a \<Longrightarrow> a * 2 ^ z < 2 ^ 32 \<Longrightarrow> uint32 (push_bit z a) = a * 2 ^ z"
  by (simp add: push_bit_eq_mult uint32_id)

lemma masks32:
  "(0xFFFF0000 :: int) = push_bit (32 - 16) (mask 16)" "(0xFF000000 :: int) = push_bit (32 - 8) (mask 8)"
  "(0xF0000000 :: int) = push_bit (32 - 4) (mask 4)" "(0xC0000000 :: int) = push_bit (32 - 2) (mask 2)"
  "(0x80000000 :: int) = push_bit (32 - 1) (mask 1)"
  by (simp_all add: mask_eq_exp_minus_1)

lemma masks31:
  "(0xFFFF8000 :: int) = push_bit (31 - 16) (mask 17)" "(0xFF800000 :: int) = push_bit (31 - 8) (mask 9)"
  "(0xF8000000 :: int) = push_bit (31 - 4) (mask 5)" "(0xE0000000 :: int) = push_bit (31 - 2) (mask 3)"
  "(0xC0000000 :: int) = push_bit (31 - 1) (mask 2)"
  by (simp_all add: mask_eq_exp_minus_1)

lemma masks15:
  "(0xFF80 :: int) = push_bit (15 - 8) (mask 9)" "(0xF800 :: int) = push_bit (15 - 4) (mask 5)"
  "(0xE000 :: int) = push_bit (15 - 2) (mask 3)" "(0xC000 :: int) = push_bit (15 - 1) (mask 2)"
  by (simp_all add: mask_eq_exp_minus_1)

lemma NormU32_norm:
  assumes "0 < a" "a < 2 ^ 32"
  shows "2 ^ 31 \<le> a * 2 ^ nat (NormU32 a)" "a * 2 ^ nat (NormU32 a) < 2 ^ 32" "0 \<le> NormU32 a"
proof -
  define z1 where "z1 = (if 0xFFFF0000 AND a = 0 then 16 else 0 :: nat)"
  define z2 where "z2 = (if 0xFF000000 AND a * 2 ^ z1 = 0 then z1 + 8 else z1)"
  define z3 where "z3 = (if 0xF0000000 AND a * 2 ^ z2 = 0 then z2 + 4 else z2)"
  define z4 where "z4 = (if 0xC0000000 AND a * 2 ^ z3 = 0 then z3 + 2 else z3)"
  define z5 where "z5 = (if 0x80000000 AND a * 2 ^ z4 = 0 then z4 + 1 else z4)"
  have z1': "z1 = (if push_bit (32 - 16) (mask 16) AND a * 2 ^ 0 = 0 then 0 + 16 else 0)"
    unfolding z1_def masks32(1) by simp
  have r1: "a * 2 ^ z1 < 2 ^ 32" "2 ^ 16 \<le> a * 2 ^ z1" using norm_turn [OF _ _ _ _ z1'] assms by simp_all
  have r2: "a * 2 ^ z2 < 2 ^ 32" "2 ^ 24 \<le> a * 2 ^ z2" using norm_turn [OF _ _ _ _ z2_def [unfolded masks32]] r1 by simp_all
  have r3: "a * 2 ^ z3 < 2 ^ 32" "2 ^ 28 \<le> a * 2 ^ z3" using norm_turn [OF _ _ _ _ z3_def [unfolded masks32]] r2 by simp_all
  have r4: "a * 2 ^ z4 < 2 ^ 32" "2 ^ 30 \<le> a * 2 ^ z4" using norm_turn [OF _ _ _ _ z4_def [unfolded masks32]] r3 by simp_all
  have r5: "a * 2 ^ z5 < 2 ^ 32" "2 ^ 31 \<le> a * 2 ^ z5" using norm_turn [OF _ _ _ _ z5_def [unfolded masks32]] r4 by simp_all
  have "0 \<le> a" using assms(1) by simp
  note pb = push_bit_uint32 [OF this]
  have "NormU32 a = int z5"
    unfolding NormU32_def Let_def z1_def [symmetric] pb [OF r1(1)] z2_def [symmetric] pb [OF r2(1)]
      z3_def [symmetric] pb [OF r3(1)] z4_def [symmetric] pb [OF r4(1)] z5_def [symmetric]
    using assms(1) by simp
  then show "2 ^ 31 \<le> a * 2 ^ nat (NormU32 a)" "a * 2 ^ nat (NormU32 a) < 2 ^ 32" "0 \<le> NormU32 a"
    using r5 by simp_all
qed

lemma NormW32_norm:
  assumes "a \<noteq> 0" "-(2 ^ 31) \<le> a" "a < 2 ^ 31"
  shows "0 \<le> NormW32 a" "-(2 ^ 31) \<le> a * 2 ^ nat (NormW32 a)" "a * 2 ^ nat (NormW32 a) < 2 ^ 31"
    "a * 2 ^ nat (NormW32 a) < -(2 ^ 30) \<or> 2 ^ 30 \<le> a * 2 ^ nat (NormW32 a)"
proof -
  define b where "b = (if a < 0 then NOT a else a)"
  have b: "0 \<le> b" "b < 2 ^ 31" using assms by (auto simp: b_def not_int_def)
  define z1 where "z1 = (if 0xFFFF8000 AND b = 0 then 16 else 0 :: nat)"
  define z2 where "z2 = (if 0xFF800000 AND b * 2 ^ z1 = 0 then z1 + 8 else z1)"
  define z3 where "z3 = (if 0xF8000000 AND b * 2 ^ z2 = 0 then z2 + 4 else z2)"
  define z4 where "z4 = (if 0xE0000000 AND b * 2 ^ z3 = 0 then z3 + 2 else z3)"
  define z5 where "z5 = (if 0xC0000000 AND b * 2 ^ z4 = 0 then z4 + 1 else z4)"
  have r: "b * 2 ^ z1 < 2 ^ 31 \<and> b * 2 ^ z2 < 2 ^ 31 \<and> b * 2 ^ z3 < 2 ^ 31 \<and> b * 2 ^ z4 < 2 ^ 31 \<and>
      (if b = 0 then z5 = 31 else b * 2 ^ z5 < 2 ^ 31 \<and> 2 ^ 30 \<le> b * 2 ^ z5)"
  proof (cases "b = 0")
    case True
    then show ?thesis by (simp add: z1_def z2_def z3_def z4_def z5_def)
  next
    case False
    have z1': "z1 = (if push_bit (31 - 16) (mask 17) AND b * 2 ^ 0 = 0 then 0 + 16 else 0)"
      unfolding z1_def masks31(1) by simp
    have r1: "b * 2 ^ z1 < 2 ^ 31" "2 ^ 15 \<le> b * 2 ^ z1"
      using norm_turn [OF _ _ _ _ z1'] b False by simp_all
    have r2: "b * 2 ^ z2 < 2 ^ 31" "2 ^ 23 \<le> b * 2 ^ z2"
      using norm_turn [OF _ _ _ _ z2_def [unfolded masks31]] r1 by simp_all
    have r3: "b * 2 ^ z3 < 2 ^ 31" "2 ^ 27 \<le> b * 2 ^ z3"
      using norm_turn [OF _ _ _ _ z3_def [unfolded masks31]] r2 by simp_all
    have r4: "b * 2 ^ z4 < 2 ^ 31" "2 ^ 29 \<le> b * 2 ^ z4"
      using norm_turn [OF _ _ _ _ z4_def [unfolded masks31]] r3 by simp_all
    have r5: "b * 2 ^ z5 < 2 ^ 31" "2 ^ 30 \<le> b * 2 ^ z5"
      using norm_turn [OF _ _ _ _ z5_def [unfolded masks31]] r4 by simp_all
    show ?thesis using r1 r2 r3 r4 r5 False by simp
  qed
  have pb: "uint32 (push_bit z b) = b * 2 ^ z" if "b * 2 ^ z < 2 ^ 31" for z
    using push_bit_uint32 [OF b(1), of z] that by simp
  have N: "NormW32 a = int z5"
    unfolding NormW32_def Let_def b_def [symmetric] z1_def [symmetric] pb [OF r [THEN conjunct1]]
      z2_def [symmetric] pb [OF r [THEN conjunct2, THEN conjunct1]]
      z3_def [symmetric] pb [OF r [THEN conjunct2, THEN conjunct2, THEN conjunct1]]
      z4_def [symmetric] pb [OF r [THEN conjunct2, THEN conjunct2, THEN conjunct2, THEN conjunct1]]
      z5_def [symmetric]
    using assms(1) by simp
  then show "0 \<le> NormW32 a" by simp
  have r': "if b = 0 then z5 = 31 else b * 2 ^ z5 < 2 ^ 31 \<and> 2 ^ 30 \<le> b * 2 ^ z5" using r by blast
  have "-(2 ^ 31) \<le> a * 2 ^ z5 \<and> a * 2 ^ z5 < 2 ^ 31 \<and> (a * 2 ^ z5 < -(2 ^ 30) \<or> 2 ^ 30 \<le> a * 2 ^ z5)"
  proof (cases "a < 0")
    case True
    then have a: "a = - b - 1" by (simp add: b_def not_int_def)
    show ?thesis
    proof (cases "b = 0")
      case True
      then show ?thesis using r' a by simp
    next
      case False
      have "(b + 1) * 2 ^ z5 \<le> 2 ^ 31"
      proof -
        have "z5 \<le> 31"
        proof (rule ccontr)
          assume "\<not> z5 \<le> 31"
          then have "(2 :: int) ^ 31 \<le> 2 ^ z5" by (intro power_increasing) auto
          then have "(2 :: int) ^ 31 \<le> b * 2 ^ z5" using False b(1) mult_mono [of 1 b "2 ^ 31" "2 ^ z5"] by simp
          then show False using r' False by simp
        qed
        then have p: "(2 :: int) ^ 31 = 2 ^ (31 - z5) * 2 ^ z5" by (simp flip: power_add)
        have "b * 2 ^ z5 < 2 ^ (31 - z5) * 2 ^ z5" using r' False p by simp
        then have "b < 2 ^ (31 - z5)" by simp
        then have "(b + 1) * 2 ^ z5 \<le> 2 ^ (31 - z5) * 2 ^ z5" by (intro mult_right_mono) auto
        then show ?thesis by (simp only: p)
      qed
      then have "(b + 1) * 2 ^ z5 \<le> 2 ^ 31 \<and> 2 ^ 30 < (b + 1) * 2 ^ z5"
      proof -
        have "1 * 2 ^ z5 > (0 :: int)" "2 ^ 30 \<le> b * 2 ^ z5" using r' False by simp_all
        then have "2 ^ 30 < (b + 1) * 2 ^ z5" unfolding distrib_right by linarith
        then show ?thesis using \<open>(b + 1) * 2 ^ z5 \<le> 2 ^ 31\<close> by simp
      qed
      moreover have "a * 2 ^ z5 = - ((b + 1) * 2 ^ z5)" unfolding a by (simp add: left_diff_distrib distrib_right)
      moreover define x where "x = (b + 1) * 2 ^ z5"
      ultimately show ?thesis by simp
    qed
  next
    case False
    then have "b = a" "b \<noteq> 0" using assms(1) by (simp_all add: b_def)
    then show ?thesis using r' b(1) by (simp add: order_trans [of "- 2147483648" 0])
  qed
  then show "-(2 ^ 31) \<le> a * 2 ^ nat (NormW32 a)" "a * 2 ^ nat (NormW32 a) < 2 ^ 31"
    "a * 2 ^ nat (NormW32 a) < -(2 ^ 30) \<or> 2 ^ 30 \<le> a * 2 ^ nat (NormW32 a)"
    by (simp_all add: N)
qed

text \<open>The square root: after the turn for bit \<open>n\<close>, half of \<open>root\<close> is the root down to that bit and
  \<open>value\<close> what is left of the argument.\<close>

definition sqrt_inv :: "int \<Rightarrow> nat \<Rightarrow> int \<times> int \<Rightarrow> bool" where
  "sqrt_inv v n s \<longleftrightarrow> (\<exists>r. snd s = 2 * (2 ^ n * r) \<and> fst s = v - (2 ^ n * r)\<^sup>2 \<and> 0 \<le> r \<and>
     2 ^ n * r + 2 ^ n \<le> 2 ^ 16 \<and> (2 ^ n * r)\<^sup>2 \<le> v \<and> v < (2 ^ n * r + 2 ^ n)\<^sup>2)"

lemma sqrt_turn:
  assumes "sqrt_inv v (Suc n) s" "n \<le> 15" "v < 2 ^ 31"
  shows "sqrt_inv v n (sqrt_iter n s)"
proof -
  obtain r where r: "snd s = 2 * (2 ^ Suc n * r)" "fst s = v - (2 ^ Suc n * r)\<^sup>2" "0 \<le> r"
    "2 ^ Suc n * r + 2 ^ Suc n \<le> 2 ^ 16" "(2 ^ Suc n * r)\<^sup>2 \<le> v" "v < (2 ^ Suc n * r + 2 ^ Suc n)\<^sup>2"
    using assms(1) unfolding sqrt_inv_def by blast
  define p :: int where "p = 2 ^ n"
  define q where "q = p * (2 * r)"
  have p: "0 < p" "p \<le> 2 ^ 15"
    using assms(2) by (simp_all add: p_def power_increasing [of n 15 "2 :: int", simplified])
  have q: "0 \<le> q" "q + 2 * p \<le> 65536" "q\<^sup>2 \<le> v" "v < (q + 2 * p)\<^sup>2"
    using r(3-6) p by (simp_all add: q_def p_def mult.assoc mult.left_commute)
  have s: "s = (v - q\<^sup>2, 2 * q)" using r(1,2) by (cases s) (simp add: q_def p_def ac_simps)
  define t where "t = (2 * q + p) * p"
  have t: "0 < t" "t = (q + p)\<^sup>2 - q\<^sup>2"
    using p q by (simp add: t_def) (simp add: t_def power2_eq_square algebra_simps)
  have "t < 2 ^ 31"
  proof -
    have "2 * q + p \<le> 131072 - 3 * p" using q by linarith
    then have "t \<le> (131072 - 3 * p) * p" unfolding t_def using p by (intro mult_right_mono) auto
    also have "\<dots> < 2 ^ 31"
    proof -
      have "(0 :: int) \<le> (p - 32768) * (3 * p - 32768) + 0 \<or> p < 32768" using p by auto
      moreover have "n = 15 \<or> n \<le> 14" using assms(2) by auto
      moreover have "p \<le> 2 ^ 14" if "n \<le> 14" using that by (simp add: p_def power_increasing [of n 14 "2 :: int", simplified])
      moreover have "p = 2 ^ 15" if "n = 15" using that by (simp add: p_def)
      ultimately consider "p = 32768" | "p \<le> 16384" by fastforce
      then show ?thesis
      proof cases
        case 2
        have "(131072 - 3 * p) * p \<le> 131072 * p - 3 * p * p" by (simp add: algebra_simps)
        also have "\<dots> < 131072 * 16384"
        proof -
          have "131072 * p \<le> 131072 * 16384" using 2 by simp
          moreover have "0 < 3 * p * p" using p by simp
          ultimately show ?thesis by linarith
        qed
        finally show ?thesis by simp
      qed simp
    qed
    finally show ?thesis .
  qed
  have sh: "int32 (push_bit n (2 * q + 2 ^ n)) = t"
    using t(1) \<open>t < 2 ^ 31\<close> by (simp add: push_bit_eq_mult t_def p_def [symmetric] int32_id)
  show ?thesis
  proof (cases "v - q\<^sup>2 \<ge> t")
    case True
    have "2 * q OR push_bit n 2 = 2 * (q + p)"
    proof -
      have "2 * q OR push_bit n 2 = 2 * q + push_bit n 2"
      proof (rule disjunctive_add [symmetric])
        fix i
        have q2: "2 * q = push_bit (n + 2) r" by (simp add: q_def p_def push_bit_eq_mult power_add)
        have p2: "(push_bit n 2 :: int) = push_bit (n + 1) 1" by (simp add: push_bit_eq_mult)
        show "\<not> bit (2 * q) i \<or> \<not> bit (push_bit n 2 :: int) i"
          unfolding q2 p2 bit_push_bit_iff bit_1_iff by auto
      qed
      then show ?thesis by (simp add: push_bit_eq_mult p_def)
    qed
    then have "sqrt_iter n s = (v - (q + p)\<^sup>2, 2 * (q + p))"
    proof -
      have "v - q\<^sup>2 - t = v - (q + p)\<^sup>2" using t(2) by simp
      moreover have "0 \<le> v - (q + p)\<^sup>2" using True t(2) by simp
      moreover have "v - (q + p)\<^sup>2 < 2 ^ 31" using assms(3) zero_le_power2 [of "q + p"] by linarith
      ultimately show ?thesis
        using True sh \<open>2 * q OR push_bit n 2 = 2 * (q + p)\<close> by (simp add: s sqrt_iter_def Let_def int32_id)
    qed
    moreover have "q + p = 2 ^ n * (2 * r + 1)" by (simp add: q_def p_def algebra_simps)
    ultimately show ?thesis
      using q p True t(2) r(3) unfolding sqrt_inv_def
      by (intro exI [of _ "2 * r + 1"]) (simp add: p_def [symmetric] algebra_simps)
  next
    case False
    then have "sqrt_iter n s = (v - q\<^sup>2, 2 * q)" by (simp add: s sqrt_iter_def Let_def sh)
    moreover have "v < (q + p)\<^sup>2" using False t(2) by simp
    ultimately show ?thesis
      using q p r(3) unfolding sqrt_inv_def
      by (intro exI [of _ "2 * r"]) (simp add: p_def [symmetric] q_def [symmetric])
  qed
qed

lemma SqrtFloor_floor:
  assumes "0 \<le> v" "v < 2 ^ 31"
  shows "0 \<le> SqrtFloor v" "(SqrtFloor v)\<^sup>2 \<le> v" "v < (SqrtFloor v + 1)\<^sup>2"
proof -
  have run: "sqrt_inv v 0 (fold sqrt_iter (rev [0..<n]) s)" if "sqrt_inv v n s" "n \<le> 16" for n s
    using that
  proof (induction n arbitrary: s)
    case (Suc n)
    then show ?case using sqrt_turn [of v n s] assms(2) by simp
  qed simp
  have "sqrt_inv v 16 (v, 0)" unfolding sqrt_inv_def using assms by (intro exI [of _ 0]) simp
  then have "sqrt_inv v 0 (fold sqrt_iter (rev [0..<16]) (v, 0))" by (rule run) simp
  moreover have "rev [0..<16] = [15, 14, 13, 12, 11, 10, 9, 8, 7, 6, 5, 4, 3, 2, 1, 0]"
    by (simp add: upt_rec)
  ultimately have "sqrt_inv v 0 (fold sqrt_iter [15, 14, 13, 12, 11, 10, 9, 8, 7, 6, 5, 4, 3, 2, 1, 0] (v, 0))"
    by (simp only:)
  then obtain r where "snd (fold sqrt_iter [15, 14, 13, 12, 11, 10, 9, 8, 7, 6, 5, 4, 3, 2, 1, 0] (v, 0)) = 2 * r"
    "0 \<le> r" "r\<^sup>2 \<le> v" "v < (r + 1)\<^sup>2"
    unfolding sqrt_inv_def by auto
  then show "0 \<le> SqrtFloor v" "(SqrtFloor v)\<^sup>2 \<le> v" "v < (SqrtFloor v + 1)\<^sup>2"
    by (simp_all add: SqrtFloor_def Let_def drop_bit_eq_div)
qed

end
