(* ===== verification/Aecm_Adapt.thy ===== *)
theory Aecm_Adapt
  imports Aecm_Fixed "HOL-Library.Monad_Syntax"
begin

text \<open>
  The adaptive part of \<open>src/jni/webrtc/modules/audio_processing/aecm/aecm_core.c\<close>: what \<open>ProcessBlock\<close>
  keeps from block to block, its initialisation, the log energies and the voice activity decision, the
  step size, the estimation of the echo channel and the suppression gain.

  The fields are those of \<open>AecmCore_t\<close> outside the framing, arrays as lists of their length; the delay
  estimator is a value of type \<open>'d\<close>.
\<close>

definition PART_LEN1 :: nat where "PART_LEN1 = 65"
definition MAX_DELAY :: nat where "MAX_DELAY = 100"
definition MAX_BUF_LEN :: nat where "MAX_BUF_LEN = 64"

lemma adapt_lengths [simp]: "PART_LEN1 = 65" "MAX_DELAY = 100" "MAX_BUF_LEN = 64"
  by (simp_all add: PART_LEN1_def MAX_DELAY_def MAX_BUF_LEN_def)

record 'd Adapt =
  mult :: int
  seed :: int
  delay_estimator :: 'd
  far_history :: "int list"
  far_history_pos :: int
  far_q_domains :: "int list"
  nlpFlag :: int
  fixedDelay :: int
  totCount :: int
  dfaCleanQDomain :: int
  dfaCleanQDomainOld :: int
  dfaNoisyQDomain :: int
  dfaNoisyQDomainOld :: int
  nearLogEnergy :: "int list"
  farLogEnergy :: int
  echoAdaptLogEnergy :: "int list"
  echoStoredLogEnergy :: "int list"
  channelStored :: "int list"
  channelAdapt16 :: "int list"
  channelAdapt32 :: "int list"
  xBuf :: "int list"
  dBufClean :: "int list"
  dBufNoisy :: "int list"
  outBuf :: "int list"
  echoFilt :: "int list"
  nearFilt :: "int list"
  noiseEst :: "int list"
  noiseEstTooLowCtr :: "int list"
  noiseEstTooHighCtr :: "int list"
  noiseEstCtr :: int
  cngMode :: int
  mseAdaptOld :: int
  mseStoredOld :: int
  mseThreshold :: int
  farEnergyMin :: int
  farEnergyMax :: int
  farEnergyMaxMin :: int
  farEnergyVAD :: int
  farEnergyMSE :: int
  currentVADValue :: int
  vadUpdateCount :: int
  firstVAD :: int
  startupState :: int
  mseChannelCount :: int
  supGain :: int
  supGainOld :: int
  supGainErrParamA :: int
  supGainErrParamD :: int
  supGainErrParamDiffAB :: int
  supGainErrParamDiffBD :: int

definition SUPGAIN_DEFAULT :: int where "SUPGAIN_DEFAULT = 256"
definition SUPGAIN_ERROR_PARAM_A :: int where "SUPGAIN_ERROR_PARAM_A = 3072"
definition SUPGAIN_ERROR_PARAM_B :: int where "SUPGAIN_ERROR_PARAM_B = 1536"
definition SUPGAIN_ERROR_PARAM_D :: int where "SUPGAIN_ERROR_PARAM_D = SUPGAIN_DEFAULT"

definition kChannelStored8kHz :: "int list" where
  "kChannelStored8kHz = [
     2040, 1815, 1590, 1498, 1405, 1395, 1385, 1418, 1451, 1506, 1562, 1644,
     1726, 1804, 1882, 1918, 1953, 1982, 2010, 2025, 2040, 2034, 2027, 2021,
     2014, 1997, 1980, 1925, 1869, 1800, 1732, 1683, 1635, 1604, 1572, 1545,
     1517, 1481, 1444, 1405, 1367, 1331, 1294, 1270, 1245, 1239, 1233, 1247,
     1260, 1282, 1303, 1338, 1373, 1407, 1441, 1470, 1499, 1524, 1549, 1565,
     1582, 1601, 1621, 1649, 1676]"

definition kChannelStored16kHz :: "int list" where
  "kChannelStored16kHz = [
     2040, 1590, 1405, 1385, 1451, 1562, 1726, 1882, 1953, 2010, 2040, 2027,
     2014, 1980, 1869, 1732, 1635, 1572, 1517, 1444, 1367, 1294, 1245, 1233,
     1260, 1303, 1373, 1441, 1499, 1549, 1582, 1621, 1676, 1741, 1802, 1861,
     1921, 1983, 2040, 2102, 2170, 2265, 2375, 2515, 2651, 2781, 2922, 3075,
     3253, 3471, 3738, 3976, 4151, 4258, 4308, 4288, 4270, 4253, 4237, 4179,
     4086, 3947, 3757, 3484, 3153]"

subsection \<open>Initialisation\<close>

definition WebRtcAecm_InitEchoPathCore :: "'d Adapt \<Rightarrow> int list \<Rightarrow> 'd Adapt" where
  "WebRtcAecm_InitEchoPathCore c echo_path =
     c\<lparr>channelStored := take PART_LEN1 echo_path, channelAdapt16 := take PART_LEN1 echo_path,
       channelAdapt32 := map (\<lambda>x. int32 (push_bit 16 x)) (take PART_LEN1 echo_path),
       mseAdaptOld := 1000, mseStoredOld := 1000, mseThreshold := WORD32_MAX, mseChannelCount := 0\<rparr>"

text \<open>The initial noise level: \<open>shape n i tmp32 tmp16\<close> are the values for the indices from \<open>i\<close> on.\<close>

fun noise_shape :: "nat \<Rightarrow> nat \<Rightarrow> int \<Rightarrow> int \<Rightarrow> int list" where
  "noise_shape 0 i tmp32 tmp16 = []"
| "noise_shape (Suc n) i tmp32 tmp16 =
     int32 (push_bit 8 tmp32) #
     (if i < PART_LEN1 div 2 - 1
      then (let tmp16 = int16 (tmp16 - 1) in noise_shape n (Suc i) (int32 (tmp32 - (push_bit 1 tmp16 + 1))) tmp16)
      else noise_shape n (Suc i) tmp32 tmp16)"

text \<open>What \<open>WebRtcAecm_InitCore\<close> does to these fields; \<open>init_delay\<close> are the two initialisations of the
  delay estimator, which can fail.  The fields before the failure have been set then.\<close>

definition init_adapt :: "('d \<Rightarrow> 'd option) \<Rightarrow> int \<Rightarrow> 'd Adapt \<Rightarrow> int \<times> 'd Adapt" where
  "init_adapt init_delay samplingFreq c =
     (if samplingFreq \<noteq> 8000 \<and> samplingFreq \<noteq> 16000 then (-1, c)
      else
        let c = c\<lparr>mult := samplingFreq div 8000,
                  xBuf := replicate 128 0, dBufClean := replicate 128 0, dBufNoisy := replicate 128 0,
                  outBuf := replicate 64 0, seed := 666, totCount := 0\<rparr>
        in case init_delay (delay_estimator c) of None \<Rightarrow> (-1, c) | Some d \<Rightarrow>
        let c = c\<lparr>delay_estimator := d,
                  far_history := replicate (PART_LEN1 * MAX_DELAY) 0, far_q_domains := replicate MAX_DELAY 0,
                  far_history_pos := int MAX_DELAY, nlpFlag := 1, fixedDelay := -1,
                  dfaCleanQDomain := 0, dfaCleanQDomainOld := 0, dfaNoisyQDomain := 0, dfaNoisyQDomainOld := 0,
                  nearLogEnergy := replicate MAX_BUF_LEN 0, farLogEnergy := 0,
                  echoAdaptLogEnergy := replicate MAX_BUF_LEN 0, echoStoredLogEnergy := replicate MAX_BUF_LEN 0\<rparr>;
            c = WebRtcAecm_InitEchoPathCore c
                  (if samplingFreq = 8000 then kChannelStored8kHz else kChannelStored16kHz)
        in (0, c\<lparr>echoFilt := replicate PART_LEN1 0, nearFilt := replicate PART_LEN1 0, noiseEstCtr := 0,
                 cngMode := 1,
                 noiseEstTooLowCtr := replicate PART_LEN1 0, noiseEstTooHighCtr := replicate PART_LEN1 0,
                 noiseEst := noise_shape PART_LEN1 0 (int (PART_LEN1 * PART_LEN1)) (int PART_LEN1),
                 farEnergyMin := WORD16_MAX, farEnergyMax := WORD16_MIN, farEnergyMaxMin := 0,
                 farEnergyVAD := 1025, farEnergyMSE := 0, currentVADValue := 0, vadUpdateCount := 0,
                 firstVAD := 1, startupState := 0,
                 supGain := SUPGAIN_DEFAULT, supGainOld := SUPGAIN_DEFAULT,
                 supGainErrParamA := SUPGAIN_ERROR_PARAM_A, supGainErrParamD := SUPGAIN_ERROR_PARAM_D,
                 supGainErrParamDiffAB := SUPGAIN_ERROR_PARAM_A - SUPGAIN_ERROR_PARAM_B,
                 supGainErrParamDiffBD := SUPGAIN_ERROR_PARAM_B - SUPGAIN_ERROR_PARAM_D\<rparr>))"

definition WebRtcAecm_Control :: "'d Adapt \<Rightarrow> int \<Rightarrow> int \<Rightarrow> int \<times> 'd Adapt" where
  "WebRtcAecm_Control c delay nlp = (0, c\<lparr>nlpFlag := int16 nlp, fixedDelay := int16 delay\<rparr>)"

subsection \<open>The far-end history\<close>

definition WebRtcAecm_UpdateFarHistory :: "'d Adapt \<Rightarrow> int list \<Rightarrow> int \<Rightarrow> 'd Adapt" where
  "WebRtcAecm_UpdateFarHistory c far_spectrum far_q =
     (let pos = far_history_pos c + 1;
          pos = (if pos \<ge> int MAX_DELAY then 0 else pos)
      in c\<lparr>far_history_pos := pos, far_q_domains := (far_q_domains c)[nat pos := far_q],
           far_history := write_at (far_history c) (nat pos * PART_LEN1) (take PART_LEN1 far_spectrum)\<rparr>)"

text \<open>The spectrum and its Q-domain; \<open>None\<close> is a position outside the history.\<close>

definition WebRtcAecm_AlignedFarend :: "'d Adapt \<Rightarrow> int \<Rightarrow> (int list \<times> int) option" where
  "WebRtcAecm_AlignedFarend c delay =
     (let buffer_position = far_history_pos c - delay;
          buffer_position = (if buffer_position < 0 then buffer_position + int MAX_DELAY else buffer_position)
      in if 0 \<le> buffer_position \<and> buffer_position < int MAX_DELAY
         then Some (take PART_LEN1 (drop (nat buffer_position * PART_LEN1) (far_history c)),
                    far_q_domains c ! nat buffer_position)
         else None)"

subsection \<open>Energies and voice activity\<close>

definition CalcLinearEnergies ::
  "'d Adapt \<Rightarrow> int list \<Rightarrow> int \<Rightarrow> int \<Rightarrow> int \<Rightarrow> int list \<times> int \<times> int \<times> int" where
  "CalcLinearEnergies c far_spectrum far_energy echo_energy_adapt echo_energy_stored =
     (let echo_est = map2 MUL_16_U16 (channelStored c) far_spectrum
      in (echo_est,
          fold (\<lambda>x e. uint32 (e + x)) far_spectrum far_energy,
          fold (\<lambda>x e. uint32 (e + x)) (map2 UMUL_16_16 (channelAdapt16 c) far_spectrum) echo_energy_adapt,
          fold (\<lambda>x e. uint32 (e + uint32 x)) echo_est echo_energy_stored))"

definition StoreAdaptiveChannel :: "'d Adapt \<Rightarrow> int list \<Rightarrow> 'd Adapt \<times> int list" where
  "StoreAdaptiveChannel c far_spectrum =
     (let c = c\<lparr>channelStored := channelAdapt16 c\<rparr>
      in (c, map2 MUL_16_U16 (channelStored c) far_spectrum))"

definition ResetAdaptiveChannel :: "'d Adapt \<Rightarrow> 'd Adapt" where
  "ResetAdaptiveChannel c =
     c\<lparr>channelAdapt16 := channelStored c, channelAdapt32 := map (\<lambda>x. int32 (push_bit 16 x)) (channelStored c)\<rparr>"

definition WebRtcAecm_AsymFilt :: "int \<Rightarrow> int \<Rightarrow> nat \<Rightarrow> nat \<Rightarrow> int" where
  "WebRtcAecm_AsymFilt filtOld inVal stepSizePos stepSizeNeg =
     (if filtOld = WORD16_MAX \<or> filtOld = WORD16_MIN then inVal
      else if filtOld > inVal then int16 (filtOld - drop_bit stepSizeNeg (filtOld - inVal))
      else int16 (filtOld + drop_bit stepSizePos (inVal - filtOld)))"

text \<open>The logarithm of an energy in Q8, as it is written out four times in \<open>CalcEnergies\<close>.\<close>

definition log_energy :: "int \<Rightarrow> int \<Rightarrow> int" where
  "log_energy energy q =
     (let kLogLowValue = push_bit 7 7
      in if energy = 0 then kLogLowValue
         else
           let zeros = NormU32 energy;
               frac = int16 (drop_bit 23 (uint32 (push_bit (nat zeros) energy) AND 0x7FFFFFFF));
               tmp16 = int16 (kLogLowValue + (31 - zeros) * 256 + frac)
           in int16 (tmp16 - q * 256))"

text \<open>The tracking of the far-end levels, the decision whether the far end speaks, and the correction of a
  channel that starts too high: the three statements that end \<open>CalcEnergies\<close>.\<close>

definition track_levels :: "'d Adapt \<Rightarrow> 'd Adapt" where
  "track_levels c =
     (if farLogEnergy c > 1025 then
        let (increase_max_shifts, decrease_min_shifts, increase_min_shifts) =
              (if startupState c = 0 then (2, 2, 8) else (4, 3, 11));
            decrease_max_shifts = 11;
            c = c\<lparr>farEnergyMin := WebRtcAecm_AsymFilt (farEnergyMin c) (farLogEnergy c)
                    increase_min_shifts decrease_min_shifts\<rparr>;
            c = c\<lparr>farEnergyMax := WebRtcAecm_AsymFilt (farEnergyMax c) (farLogEnergy c)
                    increase_max_shifts decrease_max_shifts\<rparr>;
            c = c\<lparr>farEnergyMaxMin := int16 (farEnergyMax c - farEnergyMin c)\<rparr>;
            tmp16 = int16 (2560 - farEnergyMin c);
            tmp16 = (if tmp16 > 0 then int16 (MUL_16_16_RSFT tmp16 230 9) else 0);
            tmp16 = int16 (tmp16 + 230);
            c = (if startupState c = 0 \<or> vadUpdateCount c > 1024
                 then c\<lparr>farEnergyVAD := int16 (farEnergyMin c + tmp16)\<rparr>
                 else if farEnergyVAD c > farLogEnergy c
                 then c\<lparr>farEnergyVAD := int16 (farEnergyVAD c + drop_bit 6 (farLogEnergy c + tmp16 - farEnergyVAD c)),
                        vadUpdateCount := 0\<rparr>
                 else c\<lparr>vadUpdateCount := int16 (vadUpdateCount c + 1)\<rparr>)
        in c\<lparr>farEnergyMSE := int16 (farEnergyVAD c + 256)\<rparr>
      else c)"

definition decide_voice :: "'d Adapt \<Rightarrow> 'd Adapt" where
  "decide_voice c =
     (if farLogEnergy c > farEnergyVAD c
      then (if startupState c = 0 \<or> farEnergyMaxMin c > 929 then c\<lparr>currentVADValue := 1\<rparr> else c)
      else c\<lparr>currentVADValue := 0\<rparr>)"

definition scale_first :: "'d Adapt \<Rightarrow> 'd Adapt" where
  "scale_first c =
     (if currentVADValue c \<noteq> 0 \<and> firstVAD c \<noteq> 0 then
        (if hd (echoAdaptLogEnergy c) > hd (nearLogEnergy c)
         then c\<lparr>channelAdapt16 := map (drop_bit 3) (channelAdapt16 c),
                echoAdaptLogEnergy := int16 (hd (echoAdaptLogEnergy c) - 768) # tl (echoAdaptLogEnergy c),
                firstVAD := 1\<rparr>
         else c\<lparr>firstVAD := 0\<rparr>)
      else c)"

definition push_log :: "int \<Rightarrow> int list \<Rightarrow> int list" where
  "push_log x xs = x # take (MAX_BUF_LEN - 1) xs"

definition WebRtcAecm_CalcEnergies :: "'d Adapt \<Rightarrow> int list \<Rightarrow> int \<Rightarrow> int \<Rightarrow> 'd Adapt \<times> int list" where
  "WebRtcAecm_CalcEnergies c far_spectrum far_q nearEner =
     (let c = c\<lparr>nearLogEnergy := push_log (log_energy nearEner (dfaNoisyQDomain c)) (nearLogEnergy c)\<rparr>
      in case CalcLinearEnergies c far_spectrum 0 0 0 of (echoEst, tmpFar, tmpAdapt, tmpStored) \<Rightarrow>
      let c = c\<lparr>farLogEnergy := log_energy tmpFar far_q,
                echoAdaptLogEnergy := push_log (log_energy tmpAdapt (12 + far_q)) (echoAdaptLogEnergy c),
                echoStoredLogEnergy := push_log (log_energy tmpStored (12 + far_q)) (echoStoredLogEnergy c)\<rparr>
      in (scale_first (decide_voice (track_levels c)), echoEst))"

subsection \<open>Step size and channel\<close>

definition MU_MIN :: int where "MU_MIN = 10"
definition MU_MAX :: int where "MU_MAX = 1"
definition MU_DIFF :: int where "MU_DIFF = 9"

definition WebRtcAecm_CalcStepSize :: "'d Adapt \<Rightarrow> int" where
  "WebRtcAecm_CalcStepSize c =
     (if currentVADValue c = 0 then 0
      else if startupState c > 0 then
        let mu = (if farEnergyMin c \<ge> farEnergyMax c then MU_MIN
                  else
                    let tmp16 = int16 (farLogEnergy c - farEnergyMin c);
                        tmp32 = MUL_16_16 tmp16 MU_DIFF;
                        tmp32 = DivW32W16 tmp32 (farEnergyMaxMin c)
                    in int16 (MU_MIN - 1 - int16 tmp32))
        in if mu < MU_MAX then MU_MAX else mu
      else MU_MAX)"

text \<open>One turn of the NLMS loop of \<open>UpdateChannel\<close>: the term added to the channel at bin \<open>i\<close>, if there is
  an update, and the two forms of the channel after it.\<close>

definition channel_change :: "int \<Rightarrow> int \<Rightarrow> int \<Rightarrow> nat \<Rightarrow> int \<Rightarrow> int \<Rightarrow> int \<Rightarrow> int option" where
  "channel_change noisyQ far_q mu i far dfa ch32 =
     (let zerosCh = NormU32 (uint32 ch32);
          zerosFar = NormU32 far;
          (tmpU32no1, shiftChFar) =
            (if zerosCh + zerosFar > 31 then (UMUL_32_16 ch32 far, 0)
             else (UMUL_32_16 (drop_bit (nat (32 - zerosCh - zerosFar)) ch32) far, 32 - zerosCh - zerosFar));
          zerosNum = NormU32 tmpU32no1;
          zerosDfa = (if dfa \<noteq> 0 then NormU32 dfa else 32);
          tmp16no1 = int16 (zerosDfa - 2 + noisyQ - 28 - far_q + shiftChFar);
          (xfaQ, dfaQ) =
            (if zerosNum > tmp16no1 + 1 then (tmp16no1, zerosDfa - 2)
             else (zerosNum - 2, int16 (28 + far_q - noisyQ - shiftChFar + (zerosNum - 2))));
          tmpU32no1 = SHIFT_W32 uint32 tmpU32no1 xfaQ;
          tmpU32no2 = SHIFT_W32 uint32 dfa dfaQ;
          tmp32no1 = int32 (int32 tmpU32no2 - int32 tmpU32no1);
          zerosNum = NormW32 tmp32no1
      in if tmp32no1 \<noteq> 0 \<and> far > int32 (push_bit (nat far_q) 16) then
           let shiftNum = (if zerosNum + zerosFar > 31 then 0 else 32 - (zerosNum + zerosFar));
               tmp32no2 =
                 (if tmp32no1 > 0 then int32 (UMUL_32_16 (drop_bit (nat shiftNum) tmp32no1) far)
                  else int32 (- int32 (UMUL_32_16 (drop_bit (nat shiftNum) (int32 (- tmp32no1))) far)));
               tmp32no2 = DivW32W16 tmp32no2 (int (i + 1));
               shift2ResChan = int16 (shiftNum + shiftChFar - xfaQ - mu - (30 - zerosFar) * 2)
           in Some (if NormW32 tmp32no2 < shift2ResChan then WORD32_MAX
                    else SHIFT_W32 int32 tmp32no2 shift2ResChan)
         else None)"

definition update_bin ::
  "int \<Rightarrow> int \<Rightarrow> int \<Rightarrow> nat \<Rightarrow> int \<Rightarrow> int \<Rightarrow> int \<times> int \<Rightarrow> int \<times> int" where
  "update_bin noisyQ far_q mu i far dfa = (\<lambda>(ch32, ch16).
     (case channel_change noisyQ far_q mu i far dfa ch32 of
        None \<Rightarrow> (ch32, ch16)
      | Some tmp32no2 \<Rightarrow>
          let ch32 = AddSatW32 ch32 tmp32no2;
              ch32 = (if ch32 < 0 then 0 else ch32)
          in (ch32, int16 (drop_bit 16 ch32))))"

definition update_bins :: "'d Adapt \<Rightarrow> int list \<Rightarrow> int \<Rightarrow> int list \<Rightarrow> int \<Rightarrow> 'd Adapt" where
  "update_bins c far_spectrum far_q dfa mu =
     (let bins = map (\<lambda>i. update_bin (dfaNoisyQDomain c) far_q mu i (far_spectrum ! i) (dfa ! i)
                            (channelAdapt32 c ! i, channelAdapt16 c ! i)) [0..<PART_LEN1]
      in c\<lparr>channelAdapt32 := map fst bins, channelAdapt16 := map snd bins\<rparr>)"

definition MIN_MSE_COUNT :: nat where "MIN_MSE_COUNT = 20"
definition MIN_MSE_DIFF :: int where "MIN_MSE_DIFF = 29"

definition log_error :: "int list \<Rightarrow> int list \<Rightarrow> int" where
  "log_error echo near = fold (\<lambda>(e, n) mse. int32 (mse + ABS_W32 (e - n))) (take MIN_MSE_COUNT (zip echo near)) 0"

definition WebRtcAecm_UpdateChannel ::
  "'d Adapt \<Rightarrow> int list \<Rightarrow> int \<Rightarrow> int list \<Rightarrow> int \<Rightarrow> int list \<Rightarrow> 'd Adapt \<times> int list" where
  "WebRtcAecm_UpdateChannel c far_spectrum far_q dfa mu echoEst =
     (let c = (if mu \<noteq> 0 then update_bins c far_spectrum far_q dfa mu else c)
      in if startupState c = 0 \<and> odd (currentVADValue c) then StoreAdaptiveChannel c far_spectrum
         else
           let c = (if farLogEnergy c < farEnergyMSE c then c\<lparr>mseChannelCount := 0\<rparr>
                    else c\<lparr>mseChannelCount := int16 (mseChannelCount c + 1)\<rparr>)
           in if mseChannelCount c \<ge> int MIN_MSE_COUNT + 10 then
                let mseStored = log_error (echoStoredLogEnergy c) (nearLogEnergy c);
                    mseAdapt = log_error (echoAdaptLogEnergy c) (nearLogEnergy c);
                    (c, echoEst) =
                      (if int32 (push_bit 5 mseStored) < int32 (MIN_MSE_DIFF * mseAdapt) \<and>
                          int32 (push_bit 5 (mseStoredOld c)) < int32 (MIN_MSE_DIFF * mseAdaptOld c)
                       then (ResetAdaptiveChannel c, echoEst)
                       else if int32 (MIN_MSE_DIFF * mseStored) > int32 (push_bit 5 mseAdapt) \<and>
                               mseAdapt < mseThreshold c \<and> mseAdaptOld c < mseThreshold c
                       then
                         let (c, echoEst) = StoreAdaptiveChannel c far_spectrum
                         in (if mseThreshold c = WORD32_MAX
                             then (c\<lparr>mseThreshold := int32 (mseAdapt + mseAdaptOld c)\<rparr>, echoEst)
                             else (c\<lparr>mseThreshold := int32 (mseThreshold c +
                                     MUL_16_16_RSFT (mseAdapt - MUL_16_16_RSFT (mseThreshold c) 5 3) 205 8)\<rparr>, echoEst))
                       else (c, echoEst))
                in (c\<lparr>mseChannelCount := 0, mseStoredOld := mseStored, mseAdaptOld := mseAdapt\<rparr>, echoEst)
              else (c, echoEst))"

subsection \<open>Suppression gain\<close>

definition ENERGY_DEV_TOL :: int where "ENERGY_DEV_TOL = 400"
definition SUPGAIN_EPC_DT :: int where "SUPGAIN_EPC_DT = 200"

definition WebRtcAecm_CalcSuppressionGain :: "'d Adapt \<Rightarrow> int \<times> 'd Adapt" where
  "WebRtcAecm_CalcSuppressionGain c =
     (let gain =
            (if currentVADValue c = 0 then 0
             else
               let tmp16no1 = int16 (hd (nearLogEnergy c) - hd (echoStoredLogEnergy c));
                   dE = int16 (ABS_W16 tmp16no1)
               in if dE < ENERGY_DEV_TOL then
                    (if dE < SUPGAIN_EPC_DT then
                       let tmp32no1 = int32 (MUL_16_16 (supGainErrParamDiffAB c) dE + drop_bit 1 SUPGAIN_EPC_DT);
                           tmp16no1 = int16 (DivW32W16 tmp32no1 SUPGAIN_EPC_DT)
                       in int16 (supGainErrParamA c - tmp16no1)
                     else
                       let tmp32no1 = int32 (MUL_16_16 (supGainErrParamDiffBD c) (ENERGY_DEV_TOL - dE)
                                             + drop_bit 1 (ENERGY_DEV_TOL - SUPGAIN_EPC_DT));
                           tmp16no1 = int16 (DivW32W16 tmp32no1 (ENERGY_DEV_TOL - SUPGAIN_EPC_DT))
                       in int16 (supGainErrParamD c + tmp16no1))
                  else supGainErrParamD c);
          tmp16no1 = (if gain > supGainOld c then gain else supGainOld c);
          c = c\<lparr>supGainOld := gain\<rparr>;
          c = c\<lparr>supGain := int16 (supGain c + int16 (drop_bit 4 (tmp16no1 - supGain c)))\<rparr>
      in (supGain c, c))"

end
