(* ===== verification/Aecm_Block.thy ===== *)
theory Aecm_Block
  imports Aecm_Adapt
begin

text \<open>
  \<open>src/jni/webrtc/modules/audio_processing/aecm/aecm_core_c.c\<close>: one block of 64 samples is transformed,
  aligned with the far end, attenuated bin by bin with a Wiener filter, filled with comfort noise and
  transformed back.  The portable variant without \<open>AECM_WITH_ABS_APPROX\<close> and with \<open>AECM_DYNAMIC_Q\<close>, as
  \<open>aecm_defines.h\<close> has it.

  The Fourier transform and the delay estimator are called through the record \<open>dsp\<close>; \<open>Aecm_Dsp\<close> fills it with
  those of \<open>real_fft.c\<close> and \<open>delay_estimator.c\<close>.  A complex array is the list of its pairs.
\<close>

record 'd dsp =
  forward_fft :: "int list \<Rightarrow> (int \<times> int) list"
  inverse_fft :: "(int \<times> int) list \<Rightarrow> int list \<times> int"
  add_far_spectrum :: "'d \<Rightarrow> int list \<Rightarrow> int \<Rightarrow> int \<times> 'd"
  estimate_delay :: "'d \<Rightarrow> int list \<Rightarrow> int \<Rightarrow> int \<times> 'd"

definition ONE_Q14 :: int where "ONE_Q14 = 16384"

definition kSqrtHanning :: "int list" where
  "kSqrtHanning = [
     0, 399, 798, 1196, 1594, 1990, 2386, 2780, 3172, 3562, 3951, 4337,
     4720, 5101, 5478, 5853, 6224, 6591, 6954, 7313, 7668, 8019, 8364, 8705,
     9040, 9370, 9695, 10013, 10326, 10633, 10933, 11227, 11514, 11795, 12068, 12335,
     12594, 12845, 13089, 13325, 13553, 13773, 13985, 14189, 14384, 14571, 14749, 14918,
     15079, 15231, 15373, 15506, 15631, 15746, 15851, 15947, 16034, 16111, 16179, 16237,
     16286, 16325, 16354, 16373, 16384]"

definition kCosTable :: "int list" where
  "kCosTable = [
     8192, 8190, 8187, 8180, 8172, 8160, 8147, 8130, 8112, 8091, 8067, 8041,
     8012, 7982, 7948, 7912, 7874, 7834, 7791, 7745, 7697, 7647, 7595, 7540,
     7483, 7424, 7362, 7299, 7233, 7164, 7094, 7021, 6947, 6870, 6791, 6710,
     6627, 6542, 6455, 6366, 6275, 6182, 6087, 5991, 5892, 5792, 5690, 5586,
     5481, 5374, 5265, 5155, 5043, 4930, 4815, 4698, 4580, 4461, 4341, 4219,
     4096, 3971, 3845, 3719, 3591, 3462, 3331, 3200, 3068, 2935, 2801, 2667,
     2531, 2395, 2258, 2120, 1981, 1842, 1703, 1563, 1422, 1281, 1140, 998,
     856, 713, 571, 428, 285, 142, 0, -142, -285, -428, -571, -713,
     -856, -998, -1140, -1281, -1422, -1563, -1703, -1842, -1981, -2120, -2258, -2395,
     -2531, -2667, -2801, -2935, -3068, -3200, -3331, -3462, -3591, -3719, -3845, -3971,
     -4095, -4219, -4341, -4461, -4580, -4698, -4815, -4930, -5043, -5155, -5265, -5374,
     -5481, -5586, -5690, -5792, -5892, -5991, -6087, -6182, -6275, -6366, -6455, -6542,
     -6627, -6710, -6791, -6870, -6947, -7021, -7094, -7164, -7233, -7299, -7362, -7424,
     -7483, -7540, -7595, -7647, -7697, -7745, -7791, -7834, -7874, -7912, -7948, -7982,
     -8012, -8041, -8067, -8091, -8112, -8130, -8147, -8160, -8172, -8180, -8187, -8190,
     -8191, -8190, -8187, -8180, -8172, -8160, -8147, -8130, -8112, -8091, -8067, -8041,
     -8012, -7982, -7948, -7912, -7874, -7834, -7791, -7745, -7697, -7647, -7595, -7540,
     -7483, -7424, -7362, -7299, -7233, -7164, -7094, -7021, -6947, -6870, -6791, -6710,
     -6627, -6542, -6455, -6366, -6275, -6182, -6087, -5991, -5892, -5792, -5690, -5586,
     -5481, -5374, -5265, -5155, -5043, -4930, -4815, -4698, -4580, -4461, -4341, -4219,
     -4096, -3971, -3845, -3719, -3591, -3462, -3331, -3200, -3068, -2935, -2801, -2667,
     -2531, -2395, -2258, -2120, -1981, -1842, -1703, -1563, -1422, -1281, -1140, -998,
     -856, -713, -571, -428, -285, -142, 0, 142, 285, 428, 571, 713,
     856, 998, 1140, 1281, 1422, 1563, 1703, 1842, 1981, 2120, 2258, 2395,
     2531, 2667, 2801, 2935, 3068, 3200, 3331, 3462, 3591, 3719, 3845, 3971,
     4095, 4219, 4341, 4461, 4580, 4698, 4815, 4930, 5043, 5155, 5265, 5374,
     5481, 5586, 5690, 5792, 5892, 5991, 6087, 6182, 6275, 6366, 6455, 6542,
     6627, 6710, 6791, 6870, 6947, 7021, 7094, 7164, 7233, 7299, 7362, 7424,
     7483, 7540, 7595, 7647, 7697, 7745, 7791, 7834, 7874, 7912, 7948, 7982,
     8012, 8041, 8067, 8091, 8112, 8130, 8147, 8160, 8172, 8180, 8187, 8190]"

definition kSinTable :: "int list" where
  "kSinTable = [
     0, 142, 285, 428, 571, 713, 856, 998, 1140, 1281, 1422, 1563,
     1703, 1842, 1981, 2120, 2258, 2395, 2531, 2667, 2801, 2935, 3068, 3200,
     3331, 3462, 3591, 3719, 3845, 3971, 4095, 4219, 4341, 4461, 4580, 4698,
     4815, 4930, 5043, 5155, 5265, 5374, 5481, 5586, 5690, 5792, 5892, 5991,
     6087, 6182, 6275, 6366, 6455, 6542, 6627, 6710, 6791, 6870, 6947, 7021,
     7094, 7164, 7233, 7299, 7362, 7424, 7483, 7540, 7595, 7647, 7697, 7745,
     7791, 7834, 7874, 7912, 7948, 7982, 8012, 8041, 8067, 8091, 8112, 8130,
     8147, 8160, 8172, 8180, 8187, 8190, 8191, 8190, 8187, 8180, 8172, 8160,
     8147, 8130, 8112, 8091, 8067, 8041, 8012, 7982, 7948, 7912, 7874, 7834,
     7791, 7745, 7697, 7647, 7595, 7540, 7483, 7424, 7362, 7299, 7233, 7164,
     7094, 7021, 6947, 6870, 6791, 6710, 6627, 6542, 6455, 6366, 6275, 6182,
     6087, 5991, 5892, 5792, 5690, 5586, 5481, 5374, 5265, 5155, 5043, 4930,
     4815, 4698, 4580, 4461, 4341, 4219, 4096, 3971, 3845, 3719, 3591, 3462,
     3331, 3200, 3068, 2935, 2801, 2667, 2531, 2395, 2258, 2120, 1981, 1842,
     1703, 1563, 1422, 1281, 1140, 998, 856, 713, 571, 428, 285, 142,
     0, -142, -285, -428, -571, -713, -856, -998, -1140, -1281, -1422, -1563,
     -1703, -1842, -1981, -2120, -2258, -2395, -2531, -2667, -2801, -2935, -3068, -3200,
     -3331, -3462, -3591, -3719, -3845, -3971, -4095, -4219, -4341, -4461, -4580, -4698,
     -4815, -4930, -5043, -5155, -5265, -5374, -5481, -5586, -5690, -5792, -5892, -5991,
     -6087, -6182, -6275, -6366, -6455, -6542, -6627, -6710, -6791, -6870, -6947, -7021,
     -7094, -7164, -7233, -7299, -7362, -7424, -7483, -7540, -7595, -7647, -7697, -7745,
     -7791, -7834, -7874, -7912, -7948, -7982, -8012, -8041, -8067, -8091, -8112, -8130,
     -8147, -8160, -8172, -8180, -8187, -8190, -8191, -8190, -8187, -8180, -8172, -8160,
     -8147, -8130, -8112, -8091, -8067, -8041, -8012, -7982, -7948, -7912, -7874, -7834,
     -7791, -7745, -7697, -7647, -7595, -7540, -7483, -7424, -7362, -7299, -7233, -7164,
     -7094, -7021, -6947, -6870, -6791, -6710, -6627, -6542, -6455, -6366, -6275, -6182,
     -6087, -5991, -5892, -5792, -5690, -5586, -5481, -5374, -5265, -5155, -5043, -4930,
     -4815, -4698, -4580, -4461, -4341, -4219, -4096, -3971, -3845, -3719, -3591, -3462,
     -3331, -3200, -3068, -2935, -2801, -2667, -2531, -2395, -2258, -2120, -1981, -1842,
     -1703, -1563, -1422, -1281, -1140, -998, -856, -713, -571, -428, -285, -142]"

subsection \<open>To the frequency domain and back\<close>

definition WindowAndFFT :: "'d dsp \<Rightarrow> int list \<Rightarrow> int \<Rightarrow> (int \<times> int) list" where
  "WindowAndFFT ops time_signal scaling =
     (let window = (\<lambda>x w. int16 (MUL_16_16_RSFT (int32 (push_bit (nat scaling) x)) w 14));
          fft = map (\<lambda>i. window (time_signal ! i) (kSqrtHanning ! i)) [0..<64] @
                map (\<lambda>i. window (time_signal ! (i + 64)) (kSqrtHanning ! (64 - i))) [0..<64];
          freq = forward_fft ops fft
      in map (\<lambda>(re, im). (re, int16 (- im))) (take 64 freq) @ drop 64 freq)"

definition magnitude :: "int \<times> int \<Rightarrow> int" where
  "magnitude = (\<lambda>(re, im).
     (if re = 0 then uint16 (ABS_W16 im)
      else if im = 0 then uint16 (ABS_W16 re)
      else
        let tmp16no1 = int16 (ABS_W16 re); tmp16no2 = int16 (ABS_W16 im);
            tmp32no1 = MUL_16_16 tmp16no1 tmp16no1; tmp32no2 = MUL_16_16 tmp16no2 tmp16no2
        in uint16 (SqrtFloor (AddSatW32 tmp32no1 tmp32no2))))"

text \<open>The frequency bins, their magnitudes, the sum of these and the Q-domain.\<close>

definition TimeToFrequencyDomain ::
  "'d dsp \<Rightarrow> int list \<Rightarrow> (int \<times> int) list \<times> int list \<times> int \<times> int" where
  "TimeToFrequencyDomain ops time_signal =
     (let scaling = NormW16 (MaxAbsValueW16 time_signal);
          freq = WindowAndFFT ops time_signal scaling;
          freq = freq[0 := (fst (freq ! 0), 0)];
          freq = freq[64 := (fst (freq ! 64), 0)];
          abs = map (\<lambda>i. if i = 0 \<or> i = 64 then uint16 (ABS_W16 (fst (freq ! i))) else magnitude (freq ! i))
                  [0..<PART_LEN1];
          sum = fold (\<lambda>x s. uint32 (s + x)) (map ((!) abs) [1..<64]) (uint32 (abs ! 0 + abs ! 64))
      in (freq, abs, sum, scaling))"

definition shift_half :: "int list \<Rightarrow> int list" where
  "shift_half xs = drop 64 xs @ drop 64 xs"

definition InverseFFTAndWindow ::
  "'d dsp \<Rightarrow> 'd Adapt \<Rightarrow> (int \<times> int) list \<Rightarrow> bool \<Rightarrow> int list \<times> 'd Adapt" where
  "InverseFFTAndWindow ops c efw has_clean =
     (let fft = map (\<lambda>(re, im). (re, int16 (- im))) (take PART_LEN1 efw)
      in case inverse_fft ops fft of (ifft_out, outCFFT) \<Rightarrow>
      let shift = outCFFT - dfaCleanQDomain c;
          output = map (\<lambda>i.
            let x = int16 (MUL_16_16_RSFT_WITH_ROUND (ifft_out ! i) (kSqrtHanning ! i) 14)
            in int16 (SAT WORD16_MAX (int32 (SHIFT_W32 int32 x shift + outBuf c ! i)) WORD16_MIN)) [0..<64];
          outBuf' = map (\<lambda>i.
            let x = MUL_16_16_RSFT (ifft_out ! (64 + i)) (kSqrtHanning ! (64 - i)) 14
            in int16 (SAT WORD16_MAX (SHIFT_W32 int32 x shift) WORD16_MIN)) [0..<64];
          c = c\<lparr>outBuf := outBuf', xBuf := shift_half (xBuf c), dBufNoisy := shift_half (dBufNoisy c)\<rparr>
      in (output, if has_clean then c\<lparr>dBufClean := shift_half (dBufClean c)\<rparr> else c))"

subsection \<open>The Wiener filter\<close>

text \<open>The turn of the loop for one bin: the filtered echo, the filtered near end and the coefficient.\<close>

definition echo_gained :: "int \<Rightarrow> int \<Rightarrow> int \<Rightarrow> int \<times> int" where
  "echo_gained echo gain qdiff =
     (let zeros32 = NormW32 echo + 1; zeros16 = NormW16 gain + 1
      in if zeros32 + zeros16 > 16
         then (UMUL_32_16 echo gain, int16 (14 - 12 - 8 + qdiff))
         else
           let tmp16no1 = 17 - zeros32 - zeros16; resolutionDiff = int16 (14 + tmp16no1 - 12 - 8 + qdiff)
           in if zeros32 > tmp16no1 then (UMUL_32_16 echo (drop_bit (nat tmp16no1) gain), resolutionDiff)
              else (UMUL_32_16 (drop_bit (nat tmp16no1) echo) gain, resolutionDiff))"

text \<open>\<open>tmp16no2 & (-qDomainDiff > zeros16)\<close> is the lowest bit of \<open>tmp16no2\<close> when the comparison holds.\<close>

definition near_filter :: "int \<Rightarrow> int \<Rightarrow> int \<Rightarrow> int" where
  "near_filter near dfa diff =
     (let zeros16 = NormW16 near;
          (tmp16no1, qDomainDiff, tmp16no2) =
            (if zeros16 < diff \<and> near \<noteq> 0
             then (int16 (push_bit (nat zeros16) near), int16 (zeros16 - diff), int16 (drop_bit (nat (diff - zeros16)) dfa))
             else (int16 (if diff < 0 then drop_bit (nat (- diff)) near else push_bit (nat diff) near), 0, int16 dfa));
          tmp32no1 = tmp16no2 - tmp16no1;
          tmp16no2 = int16 (drop_bit 4 tmp32no1);
          tmp16no2 = int16 (tmp16no2 + tmp16no1);
          zeros16 = NormW16 tmp16no2
      in if odd tmp16no2 \<and> - qDomainDiff > zeros16 then WORD16_MAX
         else int16 (if qDomainDiff < 0 then push_bit (nat (- qDomainDiff)) tmp16no2
                     else drop_bit (nat qDomainDiff) tmp16no2))"

definition wiener_gain :: "int \<Rightarrow> int \<Rightarrow> int \<Rightarrow> int" where
  "wiener_gain gained resolutionDiff near =
     (if gained = 0 then ONE_Q14
      else if near = 0 then 0
      else
        let gained = uint32 (gained + uint32 (drop_bit 1 near));
            tmpU32 = DivU32U16 gained (uint16 near);
            tmp32no1 = int32 (SHIFT_W32 uint32 tmpU32 resolutionDiff)
        in if tmp32no1 > ONE_Q14 then 0
           else if tmp32no1 < 0 then ONE_Q14
           else let h = int16 (ONE_Q14 - int16 tmp32no1) in if h < 0 then 0 else h)"

definition wiener_bin ::
  "'d Adapt \<Rightarrow> int \<Rightarrow> int \<Rightarrow> int list \<Rightarrow> int list \<Rightarrow> nat \<Rightarrow> int \<times> int \<times> int" where
  "wiener_bin c gain zerosXBuf dfa echoEst i =
     (let echo = int32 (echoFilt c ! i + drop_bit 8 (int32 (int32 (echoEst ! i - echoFilt c ! i) * 50)))
      in case echo_gained echo gain (dfaCleanQDomain c - zerosXBuf) of (gained, resolutionDiff) \<Rightarrow>
      let near = near_filter (nearFilt c ! i) (dfa ! i) (int16 (dfaCleanQDomain c - dfaCleanQDomainOld c))
      in (echo, near, wiener_gain gained resolutionDiff near))"

text \<open>In wideband the upper bands get no more than the average of the lower ones.\<close>

definition limit_upper_band :: "int list \<Rightarrow> int list" where
  "limit_upper_band hnl =
     (let hnl = map (\<lambda>h. int16 (MUL_16_16_RSFT h h 14)) hnl;
          avg = fold (\<lambda>h s. int32 (s + h)) (take 21 (drop 4 hnl)) 0 sdiv 21
      in map (\<lambda>i. if i \<ge> 24 \<and> hnl ! i > int16 avg then int16 avg else hnl ! i) [0..<length hnl])"

definition nlp_gain :: "int \<Rightarrow> int \<Rightarrow> int" where
  "nlp_gain numPosCoef h =
     (let h = (if h > ONE_Q14 then ONE_Q14 else if h < 3277 then 0 else h);
          nlpGain = (if numPosCoef < 3 then 0 else ONE_Q14)
      in if h = ONE_Q14 \<and> nlpGain = ONE_Q14 then ONE_Q14 else int16 (MUL_16_16_RSFT h nlpGain 14))"

definition apply_gain :: "int \<times> int \<Rightarrow> int \<Rightarrow> int \<times> int" where
  "apply_gain z h = (int16 (MUL_16_16_RSFT_WITH_ROUND (fst z) h 14), int16 (MUL_16_16_RSFT_WITH_ROUND (snd z) h 14))"

text \<open>The coefficients after all limits, from those of the loop.\<close>

definition final_gains :: "'d Adapt \<Rightarrow> int list \<Rightarrow> int list" where
  "final_gains c hnl =
     (let numPosCoef = int (length (filter (\<lambda>h. h \<noteq> 0) hnl));
          hnl = (if mult c = 2 then limit_upper_band hnl else hnl)
      in if nlpFlag c \<noteq> 0 then map (nlp_gain numPosCoef) hnl else hnl)"

subsection \<open>Comfort noise\<close>

text \<open>The noise estimate of one bin with its two counters.\<close>

definition track_noise :: "nat \<Rightarrow> int \<Rightarrow> int \<times> int \<times> int \<Rightarrow> int \<times> int \<times> int" where
  "track_noise minTrackShift outLShift32 = (\<lambda>(noise, low, high).
     (if outLShift32 < noise then
        (if noise < push_bit minTrackShift 1 then
           let high = int32 (high + 1)
           in if high \<ge> 5 then (int32 (noise - 1), 0, 0) else (noise, 0, high)
         else (int32 (noise - drop_bit minTrackShift (int32 (noise - outLShift32))), 0, high))
      else if drop_bit 19 noise > 0 then (int32 (drop_bit 11 noise * 2049), low, 0)
      else if drop_bit 11 noise > 0 then (drop_bit 11 (int32 (noise * 2049)), low, 0)
      else
        let low = int32 (low + 1)
        in if low \<ge> 5 then (int32 (noise + (drop_bit 9 noise + 1)), 0, 0) else (noise, low, 0)))"

definition ComfortNoise ::
  "'d Adapt \<Rightarrow> int list \<Rightarrow> (int \<times> int) list \<Rightarrow> int list \<Rightarrow> (int \<times> int) list \<times> 'd Adapt" where
  "ComfortNoise c dfa out lambda =
     (let shiftFromNearToNoise = nat (15 - dfaCleanQDomain c);
          (c, minTrackShift) =
            (if noiseEstCtr c < 100 then (c\<lparr>noiseEstCtr := int16 (noiseEstCtr c + 1)\<rparr>, 6) else (c, 9));
          est = map (\<lambda>i. track_noise minTrackShift (int32 (push_bit shiftFromNearToNoise (dfa ! i)))
                       (noiseEst c ! i, noiseEstTooLowCtr c ! i, noiseEstTooHighCtr c ! i)) [0..<PART_LEN1];
          limited = map (\<lambda>(noise, _).
            let tmp32 = drop_bit shiftFromNearToNoise noise
            in if tmp32 > 32767 then (int32 (push_bit shiftFromNearToNoise 32767), 32767) else (noise, int16 tmp32)) est;
          noise16 = map (\<lambda>i. int16 (MUL_16_16_RSFT (int16 (ONE_Q14 - lambda ! i)) (snd (limited ! i)) 14)) [0..<PART_LEN1];
          c = c\<lparr>noiseEst := map fst limited, noiseEstTooLowCtr := map (fst \<circ> snd) est,
                noiseEstTooHighCtr := map (snd \<circ> snd) est\<rparr>
      in case RandUArray 64 (seed c) of (randW16, s) \<Rightarrow>
      let index = (\<lambda>i. nat (MUL_16_16_RSFT 359 (randW16 ! (i - 1)) 15));
          uReal = (\<lambda>i. if i = 0 then 0 else int16 (MUL_16_16_RSFT (noise16 ! i) (kCosTable ! index i) 13));
          uImag = (\<lambda>i. if i = 0 \<or> i = 64 then 0 else int16 (MUL_16_16_RSFT (- (noise16 ! i)) (kSinTable ! index i) 13))
      in (map (\<lambda>i. (AddSatW16 (fst (out ! i)) (uReal i), AddSatW16 (snd (out ! i)) (uImag i))) [0..<PART_LEN1],
          c\<lparr>seed := s\<rparr>))"

subsection \<open>ProcessBlock\<close>

text \<open>The result is that of the function; with it -1 the block in \<open>output\<close> is as the caller left it.\<close>

definition wiener_filter ::
  "'d dsp \<Rightarrow> 'd Adapt \<Rightarrow> int \<Rightarrow> int \<Rightarrow> (int \<times> int) list \<Rightarrow> int list \<Rightarrow> int list \<Rightarrow> bool \<Rightarrow> int list \<times> 'd Adapt" where
  "wiener_filter ops c gain zerosXBuf dfw dfa echoEst has_clean =
     (let bins = map (wiener_bin c gain zerosXBuf dfa echoEst) [0..<PART_LEN1];
          c = c\<lparr>echoFilt := map fst bins, nearFilt := map (fst \<circ> snd) bins\<rparr>;
          hnl = final_gains c (map (snd \<circ> snd) bins);
          efw = map2 apply_gain dfw hnl;
          (efw, c) = (if cngMode c = 1 then ComfortNoise c dfa efw hnl else (efw, c))
      in InverseFFTAndWindow ops c efw has_clean)"

definition WebRtcAecm_ProcessBlock ::
  "'d dsp \<Rightarrow> 'd Adapt \<Rightarrow> int list \<Rightarrow> int list \<Rightarrow> int list option \<Rightarrow> int list \<Rightarrow> int \<times> int list \<times> 'd Adapt" where
  "WebRtcAecm_ProcessBlock ops c farend nearendNoisy nearendClean output =
     (let c = (if startupState c < 2
               then c\<lparr>startupState := (if totCount c \<ge> 512 then 1 else 0) + (if totCount c \<ge> 1024 then 1 else 0)\<rparr>
               else c);
          c = c\<lparr>xBuf := write_at (xBuf c) 64 farend, dBufNoisy := write_at (dBufNoisy c) 64 nearendNoisy\<rparr>;
          c = (case nearendClean of None \<Rightarrow> c | Some clean \<Rightarrow> c\<lparr>dBufClean := write_at (dBufClean c) 64 clean\<rparr>)
      in case TimeToFrequencyDomain ops (xBuf c) of (_, xfa, _, far_q) \<Rightarrow>
      case TimeToFrequencyDomain ops (dBufNoisy c) of (dfwNoisy, dfaNoisy, dfaNoisySum, zerosDBufNoisy) \<Rightarrow>
      let c = c\<lparr>dfaNoisyQDomainOld := dfaNoisyQDomain c, dfaNoisyQDomain := zerosDBufNoisy\<rparr>;
          (dfw, dfa, c) =
            (case nearendClean of
               None \<Rightarrow> (dfwNoisy, dfaNoisy,
                        c\<lparr>dfaCleanQDomainOld := dfaNoisyQDomainOld c, dfaCleanQDomain := dfaNoisyQDomain c\<rparr>)
             | Some _ \<Rightarrow>
                 (case TimeToFrequencyDomain ops (dBufClean c) of (dfwClean, dfaClean, _, zerosDBufClean) \<Rightarrow>
                    (dfwClean, dfaClean,
                     c\<lparr>dfaCleanQDomainOld := dfaCleanQDomain c, dfaCleanQDomain := zerosDBufClean\<rparr>)));
          c = WebRtcAecm_UpdateFarHistory c xfa far_q
      in case add_far_spectrum ops (delay_estimator c) xfa far_q of (ret, d) \<Rightarrow>
      let c = c\<lparr>delay_estimator := d\<rparr>
      in if ret = -1 then (-1, output, c)
      else case estimate_delay ops (delay_estimator c) dfaNoisy zerosDBufNoisy of (delay, d) \<Rightarrow>
      let c = c\<lparr>delay_estimator := d\<rparr>
      in if delay = -1 then (-1, output, c)
      else
        let delay = (if delay = -2 then 0 else delay);
            delay = (if fixedDelay c \<ge> 0 then fixedDelay c else delay)
        in case WebRtcAecm_AlignedFarend c delay of
          None \<Rightarrow> (-1, output, c)
        | Some (far_spectrum, far_q) \<Rightarrow>
            (case WebRtcAecm_CalcEnergies c far_spectrum far_q dfaNoisySum of (c, echoEst) \<Rightarrow>
             let mu = WebRtcAecm_CalcStepSize c;
                 c = c\<lparr>totCount := uint32 (totCount c + 1)\<rparr>
             in case WebRtcAecm_UpdateChannel c far_spectrum far_q dfaNoisy mu echoEst of (c, echoEst) \<Rightarrow>
             case WebRtcAecm_CalcSuppressionGain c of (gain, c) \<Rightarrow>
             case wiener_filter ops c gain far_q dfw dfa echoEst (nearendClean \<noteq> None) of (out, c) \<Rightarrow>
               (0, out, c)))"

end
