(* ===== verification/Aecm_Invariant.thy ===== *)
theory Aecm_Invariant
  imports Aecm_Block
begin

text \<open>
  What \<open>ProcessBlock\<close> keeps of the state it works on: the lengths of the arrays, the Q-domains, the ranges
  of the logarithmic energies, a channel within the range of its types, and suppression gains between 0 and
  the configured maximum.
\<close>

subsection \<open>Small ranges\<close>

lemma NormW16_range: "0 \<le> NormW16 a \<and> NormW16 a \<le> 15"
  by (simp add: NormW16_def Let_def)

lemma NormU32_range: "0 \<le> NormU32 a \<and> NormU32 a \<le> 31"
  by (simp add: NormU32_def Let_def)

lemma fold_range:
  "(\<And>x e. x \<in> set xs \<Longrightarrow> P (f x e)) \<Longrightarrow> P e \<Longrightarrow> P (fold f xs e)"
  by (induction xs arbitrary: e) auto

definition log_range :: "int \<Rightarrow> bool" where
  "log_range x \<longleftrightarrow> -6784 \<le> x \<and> x \<le> 9087"

lemma and_7fffffff: "(x :: int) AND 0x7FFFFFFF = take_bit 31 x"
proof -
  have "(0x7FFFFFFF :: int) = mask 31" by (simp add: mask_eq_exp_minus_1)
  then show ?thesis by (simp only: take_bit_eq_mask)
qed

lemma log_energy_range:
  assumes "0 \<le> q" "q \<le> 27"
  shows "-6016 \<le> log_energy energy q \<and> log_energy energy q \<le> 9087"
proof (cases "energy = 0")
  case True
  then show ?thesis by (simp add: log_energy_def push_bit_eq_mult)
next
  case False
  define z where "z = NormU32 energy"
  define fr where "fr = drop_bit 23 (uint32 (push_bit (nat z) energy) AND 0x7FFFFFFF)"
  have z: "0 \<le> z" "z \<le> 31" using NormU32_range by (simp_all add: z_def)
  have fr: "0 \<le> fr" "fr \<le> 255"
  proof -
    have "take_bit 31 (uint32 (push_bit (nat z) energy)) < 2 ^ 31" by (rule take_bit_int_less_exp)
    moreover have "0 \<le> take_bit 31 (uint32 (push_bit (nat z) energy))" by simp
    ultimately show "0 \<le> fr" "fr \<le> 255"
      unfolding fr_def and_7fffffff drop_bit_eq_div by (simp_all add: div_int_pos_iff)
  qed
  have "log_energy energy q = int16 (int16 (896 + (31 - z) * 256 + int16 fr) - q * 256)"
    using False by (simp add: log_energy_def Let_def push_bit_eq_mult z_def fr_def)
  also have "\<dots> = 896 + (31 - z) * 256 + fr - q * 256"
    using z fr assms by (simp add: int16_id)
  finally show ?thesis using z fr assms by simp
qed

subsection \<open>The invariant\<close>

definition adapt_lens :: "'d Adapt \<Rightarrow> bool" where
  "adapt_lens c \<longleftrightarrow> length (far_history c) = 6500 \<and> length (far_q_domains c) = 100 \<and>
     length (nearLogEnergy c) = 64 \<and> length (echoAdaptLogEnergy c) = 64 \<and> length (echoStoredLogEnergy c) = 64 \<and>
     length (channelStored c) = 65 \<and> length (channelAdapt16 c) = 65 \<and> length (channelAdapt32 c) = 65 \<and>
     length (xBuf c) = 128 \<and> length (dBufClean c) = 128 \<and> length (dBufNoisy c) = 128 \<and> length (outBuf c) = 64 \<and>
     length (echoFilt c) = 65 \<and> length (nearFilt c) = 65 \<and> length (noiseEst c) = 65 \<and>
     length (noiseEstTooLowCtr c) = 65 \<and> length (noiseEstTooHighCtr c) = 65"

definition adapt_levels :: "'d Adapt \<Rightarrow> bool" where
  "adapt_levels c \<longleftrightarrow>
     (\<forall>q \<in> {dfaNoisyQDomain c, dfaNoisyQDomainOld c, dfaCleanQDomain c, dfaCleanQDomainOld c} \<union> set (far_q_domains c).
        0 \<le> q \<and> q \<le> 15) \<and>
     0 \<le> far_history_pos c \<and> far_history_pos c \<le> 100 \<and> fixedDelay c \<le> 100 \<and>
     list_all log_range (nearLogEnergy c) \<and> list_all log_range (echoAdaptLogEnergy c) \<and>
     list_all log_range (echoStoredLogEnergy c) \<and> log_range (farLogEnergy c)"

definition channel_ok :: "'d Adapt \<Rightarrow> bool" where
  "channel_ok c \<longleftrightarrow> list_all (\<lambda>x. -32768 \<le> x \<and> x \<le> 32767) (channelStored c) \<and>
     list_all (\<lambda>x. -32768 \<le> x \<and> x \<le> 32767) (channelAdapt16 c) \<and>
     list_all (\<lambda>x. -2147483648 \<le> x \<and> x < 2147483648) (channelAdapt32 c)"

text \<open>The parameters of \<open>set_config\<close>, whichever the mode: \<open>D \<le> B \<le> A\<close> with the differences given.\<close>

definition gains_ok :: "'d Adapt \<Rightarrow> bool" where
  "gains_ok c \<longleftrightarrow> 0 \<le> supGainErrParamD c \<and> 0 \<le> supGainErrParamDiffBD c \<and> 0 \<le> supGainErrParamDiffAB c \<and>
     supGainErrParamA c = supGainErrParamD c + supGainErrParamDiffBD c + supGainErrParamDiffAB c \<and>
     supGainErrParamA c \<le> 6144 \<and>
     0 \<le> supGain c \<and> supGain c \<le> supGainErrParamA c \<and> 0 \<le> supGainOld c \<and> supGainOld c \<le> supGainErrParamA c"

definition adapt_inv :: "'d Adapt \<Rightarrow> bool" where
  "adapt_inv c \<longleftrightarrow> adapt_lens c \<and> adapt_levels c \<and> channel_ok c \<and> gains_ok c"

lemmas adapt_inv_defs = adapt_inv_def adapt_lens_def adapt_levels_def channel_ok_def gains_ok_def

subsection \<open>Initialisation\<close>

lemma noise_shape_length: "length (noise_shape n i a b) = n"
  by (induction n i a b rule: noise_shape.induct) (simp_all add: Let_def)

lemma stored_channels:
  "list_all (\<lambda>x. -32768 \<le> x \<and> x \<le> 32767) kChannelStored8kHz" "length kChannelStored8kHz = 65"
  "list_all (\<lambda>x. -32768 \<le> x \<and> x \<le> 32767) kChannelStored16kHz" "length kChannelStored16kHz = 65"
  by (simp_all add: kChannelStored8kHz_def kChannelStored16kHz_def)

lemma channel32: "-2147483648 \<le> int32 x \<and> int32 x < 2147483648"
  using int32_range [of x] by simp

lemma init_adapt_inv:
  assumes "init_adapt init_delay freq c = (0, c')"
  shows "adapt_inv c'" "mult c' = freq div 8000"
proof -
  have f: "freq = 8000 \<or> freq = 16000" and "\<exists>d. init_delay (delay_estimator c) = Some d"
    using assms by (auto simp: init_adapt_def Let_def split: if_splits option.splits)
  then obtain d where d: "init_delay (delay_estimator c) = Some d" by blast
  let ?ch = "if freq = 8000 then kChannelStored8kHz else kChannelStored16kHz"
  have ch: "list_all (\<lambda>x. -32768 \<le> x \<and> x \<le> 32767) ?ch" "length ?ch = 65" using stored_channels by auto
  have ch32: "list_all (\<lambda>x. -2147483648 \<le> x \<and> x < 2147483648) (map (\<lambda>x. int32 (push_bit 16 x)) ?ch)"
    using channel32 by (auto simp: list_all_iff)
  have c': "c' = snd (init_adapt init_delay freq c)" using assms by simp
  show "mult c' = freq div 8000"
    using f d unfolding c' by (auto simp: init_adapt_def Let_def WebRtcAecm_InitEchoPathCore_def)
  show "adapt_inv c'"
    using f d ch ch32 channel32 unfolding c'
    by (auto simp: init_adapt_def Let_def WebRtcAecm_InitEchoPathCore_def adapt_inv_defs noise_shape_length
        log_range_def list_all_iff SUPGAIN_DEFAULT_def SUPGAIN_ERROR_PARAM_A_def SUPGAIN_ERROR_PARAM_B_def
        SUPGAIN_ERROR_PARAM_D_def)
qed

subsection \<open>The steps of a block\<close>

lemma UpdateFarHistory_inv:
  assumes "adapt_inv c" "0 \<le> q" "q \<le> 15" "length xfa = 65"
  shows "adapt_inv (WebRtcAecm_UpdateFarHistory c xfa q)"
    "0 \<le> far_history_pos (WebRtcAecm_UpdateFarHistory c xfa q)" "far_history_pos (WebRtcAecm_UpdateFarHistory c xfa q) < 100"
proof -
  define pos where "pos = (if far_history_pos c + 1 \<ge> 100 then 0 else far_history_pos c + 1)"
  have pos: "0 \<le> pos" "pos < 100" using assms(1) by (auto simp: pos_def adapt_inv_defs)
  have "nat pos * 65 + 65 \<le> 6500" using pos by simp
  moreover have "\<forall>x \<in> set ((far_q_domains c)[nat pos := q]). 0 \<le> x \<and> x \<le> 15"
    using assms(1-3) set_update_subset_insert [of "far_q_domains c" "nat pos" q]
    by (auto simp: adapt_inv_def adapt_levels_def)
  moreover have "WebRtcAecm_UpdateFarHistory c xfa q = c\<lparr>far_history_pos := pos,
      far_q_domains := (far_q_domains c)[nat pos := q],
      far_history := write_at (far_history c) (nat pos * 65) (take 65 xfa)\<rparr>"
    by (simp add: WebRtcAecm_UpdateFarHistory_def Let_def pos_def)
  ultimately show "adapt_inv (WebRtcAecm_UpdateFarHistory c xfa q)"
    "0 \<le> far_history_pos (WebRtcAecm_UpdateFarHistory c xfa q)" "far_history_pos (WebRtcAecm_UpdateFarHistory c xfa q) < 100"
    using assms pos by (simp_all add: adapt_inv_defs ball_Un)
qed

text \<open>A delay of at most a whole turn of the history is inside it.\<close>

lemma AlignedFarend_inside:
  "0 \<le> far_history_pos c \<Longrightarrow> far_history_pos c < 100 \<Longrightarrow> 0 \<le> delay \<Longrightarrow> delay \<le> 100 \<Longrightarrow>
    WebRtcAecm_AlignedFarend c delay \<noteq> None"
  by (simp add: WebRtcAecm_AlignedFarend_def Let_def)

lemma AlignedFarend_range:
  assumes "adapt_inv c" "WebRtcAecm_AlignedFarend c delay = Some (xs, q)"
  shows "length xs = 65" "0 \<le> q" "q \<le> 15"
proof -
  define p where "p = (if far_history_pos c - delay < 0 then far_history_pos c - delay + 100 else far_history_pos c - delay)"
  have p: "0 \<le> p" "p < 100" "xs = take 65 (drop (nat p * 65) (far_history c))" "q = far_q_domains c ! nat p"
    using assms(2) by (auto simp: WebRtcAecm_AlignedFarend_def Let_def p_def split: if_splits)
  have len: "length (far_history c) = 6500" "length (far_q_domains c) = 100"
    using assms(1) by (simp_all add: adapt_inv_defs)
  have "nat p * 65 + 65 \<le> 6500" using p by simp
  then show "length xs = 65" using p(3) len by simp
  have "q \<in> set (far_q_domains c)" using p len by simp
  then show "0 \<le> q" "q \<le> 15" using assms(1) by (auto simp: adapt_inv_defs)
qed

text \<open>The statements that only move levels.\<close>

lemma track_levels_inv: "adapt_inv (track_levels c) \<longleftrightarrow> adapt_inv c"
  unfolding track_levels_def Let_def by (simp add: adapt_inv_defs)

lemma decide_voice_inv: "adapt_inv (decide_voice c) \<longleftrightarrow> adapt_inv c"
  unfolding decide_voice_def by (simp add: adapt_inv_defs)

lemma scale_first_inv:
  assumes "adapt_inv c" "-6016 \<le> hd (echoAdaptLogEnergy c)"
  shows "adapt_inv (scale_first c)"
proof -
  obtain x xs where x: "echoAdaptLogEnergy c = x # xs" "length xs = 63"
    using assms(1) by (cases "echoAdaptLogEnergy c") (auto simp: adapt_inv_defs)
  have "log_range x" "-6016 \<le> x" using assms x by (simp_all add: adapt_inv_defs)
  then have "log_range (int16 (x - 768))" by (simp add: log_range_def int16_id)
  moreover have "list_all (\<lambda>x. -32768 \<le> x \<and> x \<le> 32767) (map (drop_bit 3) (channelAdapt16 c))"
    using assms(1) by (auto simp: adapt_inv_def channel_ok_def list_all_iff drop_bit_eq_div)
  ultimately show ?thesis
    using assms(1) x unfolding scale_first_def by (simp add: adapt_inv_defs)
qed

lemma push_log_range:
  "log_range x \<Longrightarrow> list_all log_range xs \<Longrightarrow> length xs = 64 \<Longrightarrow>
    list_all log_range (push_log x xs) \<and> length (push_log x xs) = 64"
  by (auto simp: push_log_def list_all_iff dest: in_set_takeD)

lemma scale_first_levels: "echoAdaptLogEnergy (decide_voice (track_levels c)) = echoAdaptLogEnergy c"
  by (simp add: decide_voice_def track_levels_def Let_def)

lemma CalcEnergies_inv:
  assumes "adapt_inv c" "0 \<le> q" "q \<le> 15" "length far = 65" "WebRtcAecm_CalcEnergies c far q e = (c', est)"
  shows "adapt_inv c'" "length est = 65"
proof -
  have near: "log_range (log_energy e (dfaNoisyQDomain c))"
    using assms(1) log_energy_range [of "dfaNoisyQDomain c" e] by (auto simp: adapt_inv_defs log_range_def)
  have logs: "-6016 \<le> log_energy x (12 + q)" "log_range (log_energy x (12 + q))" "log_range (log_energy x q)" for x
    using log_energy_range [of "12 + q" x] log_energy_range [of q x] assms(2,3) by (auto simp: log_range_def)
  have len: "length (channelStored c) = 65" "length (nearLogEnergy c) = 64" "length (echoAdaptLogEnergy c) = 64"
    "length (echoStoredLogEnergy c) = 64" and ranges: "list_all log_range (nearLogEnergy c)"
    "list_all log_range (echoAdaptLogEnergy c)" "list_all log_range (echoStoredLogEnergy c)"
    using assms(1) by (simp_all add: adapt_inv_defs)
  obtain est0 f a s where lin: "CalcLinearEnergies (c\<lparr>nearLogEnergy := push_log (log_energy e (dfaNoisyQDomain c)) (nearLogEnergy c)\<rparr>)
      far 0 0 0 = (est0, f, a, s)" by (metis prod_cases4)
  define c1 where "c1 = c\<lparr>nearLogEnergy := push_log (log_energy e (dfaNoisyQDomain c)) (nearLogEnergy c),
    farLogEnergy := log_energy f q, echoAdaptLogEnergy := push_log (log_energy a (12 + q)) (echoAdaptLogEnergy c),
    echoStoredLogEnergy := push_log (log_energy s (12 + q)) (echoStoredLogEnergy c)\<rparr>"
  have c': "c' = scale_first (decide_voice (track_levels c1))" "est = est0"
    using assms(5) lin by (simp_all add: WebRtcAecm_CalcEnergies_def Let_def c1_def)
  have "adapt_inv c1"
    using assms(1) push_log_range [OF near ranges(1) len(2)] push_log_range [OF logs(2) [of a] ranges(2) len(3)]
      push_log_range [OF logs(2) [of s] ranges(3) len(4)] logs(3)
    by (simp add: c1_def adapt_inv_defs)
  moreover have "-6016 \<le> hd (echoAdaptLogEnergy c1)" using logs(1) by (simp add: c1_def push_log_def)
  ultimately show "adapt_inv c'"
    unfolding c' by (intro scale_first_inv) (simp_all add: track_levels_inv decide_voice_inv scale_first_levels)
  show "length est = 65"
    using lin len(1) assms(4) c'(2) by (auto simp: CalcLinearEnergies_def Let_def)
qed

text \<open>The channel stays within its types.\<close>

lemma AddSatW32_range:
  "-2147483648 \<le> AddSatW32 a b \<and> AddSatW32 a b \<le> 2147483647"
  using int32_range [of "a + b"] by (auto simp: AddSatW32_def Let_def)

lemma update_bin_range:
  assumes "-2147483648 \<le> ch32" "ch32 < 2147483648" "-32768 \<le> ch16" "ch16 \<le> 32767"
    "update_bin noisyQ q mu i far dfa (ch32, ch16) = (a, b)"
  shows "-2147483648 \<le> a \<and> a < 2147483648 \<and> -32768 \<le> b \<and> b \<le> 32767"
proof (cases "channel_change noisyQ q mu i far dfa ch32")
  case None
  then show ?thesis using assms by (simp add: update_bin_def)
next
  case (Some x)
  then have "a = (if AddSatW32 ch32 x < 0 then 0 else AddSatW32 ch32 x)" "b = int16 (drop_bit 16 a)"
    using assms(5) by (auto simp: update_bin_def Let_def)
  then show ?thesis using AddSatW32_range [of ch32 x] int16_range by auto
qed

lemma update_bins_inv: "adapt_inv c \<Longrightarrow> adapt_inv (update_bins c far q dfa mu)"
proof -
  assume inv: "adapt_inv c"
  then have ok: "\<forall>i < 65. -2147483648 \<le> channelAdapt32 c ! i \<and> channelAdapt32 c ! i < 2147483648 \<and>
      -32768 \<le> channelAdapt16 c ! i \<and> channelAdapt16 c ! i \<le> 32767"
    by (auto simp: adapt_inv_def channel_ok_def adapt_lens_def list_all_length)
  define bins where "bins = map (\<lambda>i. update_bin (dfaNoisyQDomain c) q mu i (far ! i) (dfa ! i)
    (channelAdapt32 c ! i, channelAdapt16 c ! i)) [0..<65]"
  have bin: "-2147483648 \<le> fst b \<and> fst b < 2147483648 \<and> -32768 \<le> snd b \<and> snd b \<le> 32767" if b: "b \<in> set bins" for b
  proof -
    obtain i where "i < 65" "b = update_bin (dfaNoisyQDomain c) q mu i (far ! i) (dfa ! i)
        (channelAdapt32 c ! i, channelAdapt16 c ! i)"
      using b unfolding bins_def by (metis (no_types, lifting) atLeastLessThan_iff imageE list.set_map set_upt)
    then show ?thesis using ok update_bin_range by (metis prod.collapse)
  qed
  have "list_all (\<lambda>x. -2147483648 \<le> x \<and> x < 2147483648) (map fst bins)" "list_all (\<lambda>x. -32768 \<le> x \<and> x \<le> 32767) (map snd bins)"
    using bin by (auto simp: list_all_iff)
  moreover have "length bins = 65" by (simp add: bins_def)
  ultimately show ?thesis
    using inv unfolding update_bins_def Let_def by (simp add: bins_def [symmetric] adapt_inv_defs)
qed

lemma Store_Reset_inv:
  assumes "adapt_inv c"
  shows "adapt_inv (fst (StoreAdaptiveChannel c far))" "adapt_inv (ResetAdaptiveChannel c)"
    "length far = 65 \<Longrightarrow> length (snd (StoreAdaptiveChannel c far)) = 65"
proof -
  have "list_all (\<lambda>x. -2147483648 \<le> x \<and> x < 2147483648) (map (\<lambda>x. int32 (push_bit 16 x)) (channelStored c))"
    using assms channel32 by (auto simp: adapt_inv_def channel_ok_def list_all_iff)
  then show "adapt_inv (ResetAdaptiveChannel c)"
    using assms by (simp add: ResetAdaptiveChannel_def adapt_inv_defs)
  show "adapt_inv (fst (StoreAdaptiveChannel c far))"
    using assms by (simp add: StoreAdaptiveChannel_def adapt_inv_defs)
  show "length far = 65 \<Longrightarrow> length (snd (StoreAdaptiveChannel c far)) = 65"
    using assms by (simp add: StoreAdaptiveChannel_def adapt_inv_defs)
qed

lemma mse_fields:
  "adapt_inv (c\<lparr>mseChannelCount := n\<rparr>) \<longleftrightarrow> adapt_inv c" "adapt_inv (c\<lparr>mseThreshold := t\<rparr>) \<longleftrightarrow> adapt_inv c"
  "adapt_inv (c\<lparr>mseStoredOld := s\<rparr>) \<longleftrightarrow> adapt_inv c" "adapt_inv (c\<lparr>mseAdaptOld := a\<rparr>) \<longleftrightarrow> adapt_inv c"
  "adapt_inv (c\<lparr>totCount := k\<rparr>) \<longleftrightarrow> adapt_inv c" "adapt_inv (c\<lparr>delay_estimator := d\<rparr>) \<longleftrightarrow> adapt_inv c"
  "adapt_inv (c\<lparr>startupState := j\<rparr>) \<longleftrightarrow> adapt_inv c" "adapt_inv (c\<lparr>seed := r\<rparr>) \<longleftrightarrow> adapt_inv c"
  "adapt_inv (c\<lparr>noiseEstCtr := m\<rparr>) \<longleftrightarrow> adapt_inv c"
  by (simp_all add: adapt_inv_defs)

lemma UpdateChannel_inv:
  assumes "adapt_inv c" "length far = 65" "length est = 65" "WebRtcAecm_UpdateChannel c far q dfa mu est = (c', est')"
  shows "adapt_inv c'" "length est' = 65"
proof -
  define c1 where "c1 = (if mu \<noteq> 0 then update_bins c far q dfa mu else c)"
  have c1: "adapt_inv c1" using assms(1) by (simp add: c1_def update_bins_inv)
  define c2 where "c2 = (if farLogEnergy c1 < farEnergyMSE c1 then c1\<lparr>mseChannelCount := 0\<rparr>
    else c1\<lparr>mseChannelCount := int16 (mseChannelCount c1 + 1)\<rparr>)"
  have c2: "adapt_inv c2" using c1 by (simp add: c2_def mse_fields)
  have "adapt_inv c' \<and> length est' = 65"
    using assms(4) c1 c2 Store_Reset_inv(1,3) [OF c1, of far] Store_Reset_inv(1,3) [OF c2, of far]
      Store_Reset_inv(2) [OF c2] assms(2,3)
    unfolding WebRtcAecm_UpdateChannel_def c1_def [symmetric] Let_def c2_def [symmetric] split_beta
    by (auto simp: mse_fields simp del: adapt_lengths split: if_splits)
  then show "adapt_inv c'" "length est' = 65" by simp_all
qed

text \<open>The suppression gain.\<close>

lemma scaled_div:
  fixes d :: int
  assumes "0 \<le> d" "0 \<le> x" "x \<le> 200" "d \<le> 6144"
  shows "0 \<le> (d * x + 100) sdiv 200" "(d * x + 100) sdiv 200 \<le> d"
proof -
  have "0 \<le> d * x" using assms by simp
  have "d * x \<le> d * 200" using assms by (intro mult_left_mono) auto
  have "(d * x + 100) sdiv 200 = (d * x + 100) div 200"
    using \<open>0 \<le> d * x\<close> by (simp add: signed_divide_int_def)
  moreover have "(d * x + 100) div 200 \<le> (d * 200 + 100) div 200"
    using \<open>d * x \<le> d * 200\<close> by (intro zdiv_mono1) auto
  moreover have "(d * 200 + 100) div 200 = d" by simp
  ultimately show "0 \<le> (d * x + 100) sdiv 200" "(d * x + 100) sdiv 200 \<le> d"
    using \<open>0 \<le> d * x\<close> by (simp_all add: div_int_pos_iff)
qed

lemma mul_16_16: "-32768 \<le> a \<Longrightarrow> a \<le> 32767 \<Longrightarrow> -32768 \<le> b \<Longrightarrow> b \<le> 32767 \<Longrightarrow> MUL_16_16 a b = a * b"
proof -
  assume ab: "-32768 \<le> a" "a \<le> 32767" "-32768 \<le> b" "b \<le> 32767"
  have "\<bar>a * b\<bar> \<le> 32768 * 32768"
    unfolding abs_mult using ab by (intro mult_mono) auto
  then show ?thesis using ab by (simp add: MUL_16_16_def int16_id int32_id)
qed

lemma between_quarter:
  fixes s t :: int
  assumes "0 \<le> s" "s \<le> m" "0 \<le> t" "t \<le> m"
  shows "0 \<le> s + drop_bit 4 (t - s) \<and> s + drop_bit 4 (t - s) \<le> m"
proof -
  have "drop_bit 4 (t - s) = (t - s) div 16" by (simp add: drop_bit_eq_div)
  moreover have "min 0 (t - s) \<le> (t - s) div 16" "(t - s) div 16 \<le> max 0 (t - s)" by linarith+
  ultimately show ?thesis using assms by linarith
qed

lemma CalcSuppressionGain_inv:
  assumes "adapt_inv c" "WebRtcAecm_CalcSuppressionGain c = (gain, c')"
  shows "adapt_inv c'" "gain = supGain c'" "0 \<le> gain" "gain \<le> supGainErrParamA c" "supGainErrParamA c' = supGainErrParamA c"
proof -
  have g: "gains_ok c" using assms(1) by (simp add: adapt_inv_def)
  define near where "near = hd (nearLogEnergy c)"
  define stored where "stored = hd (echoStoredLogEnergy c)"
  have "log_range near" "log_range stored"
    using assms(1) by (cases "nearLogEnergy c"; cases "echoStoredLogEnergy c"; simp add: near_def stored_def adapt_inv_defs)+
  then have diff: "int16 (near - stored) = near - stored" "\<bar>near - stored\<bar> \<le> 15871"
    by (auto simp: log_range_def int16_id)
  define dE where "dE = \<bar>near - stored\<bar>"
  have dE: "int16 (ABS_W16 (int16 (near - stored))) = dE" "0 \<le> dE" "dE \<le> 15871"
    using diff by (auto simp: ABS_W16_def dE_def int16_id)
  let ?AB = "supGainErrParamDiffAB c" and ?BD = "supGainErrParamDiffBD c" and ?A = "supGainErrParamA c" and ?D = "supGainErrParamD c"
  have par: "0 \<le> ?AB" "0 \<le> ?BD" "0 \<le> ?D" "?A = ?D + ?BD + ?AB" "?A \<le> 6144" using g by (simp_all add: gains_ok_def)
  define target where "target = (if currentVADValue c = 0 then 0
    else if dE < 400 then
      (if dE < 200 then int16 (?A - int16 (DivW32W16 (int32 (MUL_16_16 ?AB dE + 100)) 200))
       else int16 (?D + int16 (DivW32W16 (int32 (MUL_16_16 ?BD (400 - dE) + 100)) 200)))
    else ?D)"
  have t: "0 \<le> target \<and> target \<le> ?A"
  proof -
    have one: "int16 (DivW32W16 (int32 (MUL_16_16 d x + 100)) 200) = (d * x + 100) sdiv 200"
      "0 \<le> (d * x + 100) sdiv 200" "(d * x + 100) sdiv 200 \<le> d"
      if "0 \<le> d" "d \<le> 6144" "0 \<le> x" "x \<le> 200" for d x
    proof -
      show b: "0 \<le> (d * x + 100) sdiv 200" "(d * x + 100) sdiv 200 \<le> d" using scaled_div that by auto
      have "0 \<le> d * x" "d * x \<le> 6144 * 200" using that by (simp, intro mult_mono) auto
      then have "int32 (MUL_16_16 d x + 100) = d * x + 100" using that by (simp add: mul_16_16 int32_id)
      then show "int16 (DivW32W16 (int32 (MUL_16_16 d x + 100)) 200) = (d * x + 100) sdiv 200"
        using b that by (simp add: DivW32W16_def int32_id int16_id)
    qed
    have "?AB \<le> 6144" "?BD \<le> 6144" using par by linarith+
    then show ?thesis
      using one [of ?AB dE] one [of ?BD "400 - dE"] dE par
      by (auto simp: target_def int16_id)
  qed
  have halves: "drop_bit 1 (200 :: int) = 100" "(400 :: int) - 200 = 200" "ENERGY_DEV_TOL = 400" "SUPGAIN_EPC_DT = 200"
    by (simp_all add: ENERGY_DEV_TOL_def SUPGAIN_EPC_DT_def drop_bit_eq_div)
  define s where "s = int16 (supGain c + int16 (drop_bit 4 ((if target > supGainOld c then target else supGainOld c) - supGain c)))"
  have eq: "gain = s" "c' = c\<lparr>supGainOld := target, supGain := s\<rparr>"
    using assms(2) unfolding WebRtcAecm_CalcSuppressionGain_def Let_def near_def [symmetric] stored_def [symmetric]
      dE(1) halves target_def [symmetric]
    by (auto simp: s_def)
  have "0 \<le> s \<and> s \<le> ?A"
  proof -
    let ?t = "if target > supGainOld c then target else supGainOld c"
    have sg: "0 \<le> supGain c" "supGain c \<le> ?A" "0 \<le> ?t" "?t \<le> ?A" using t g by (auto simp: gains_ok_def)
    have q: "-6144 \<le> drop_bit 4 (?t - supGain c)" "drop_bit 4 (?t - supGain c) \<le> 6144"
      using between_quarter [OF sg] sg par by linarith+
    have "int16 (drop_bit 4 (?t - supGain c)) = drop_bit 4 (?t - supGain c)" using q by (intro int16_id) linarith+
    then show ?thesis using between_quarter [OF sg] par by (simp add: s_def int16_id)
  qed
  then show "adapt_inv c'" "gain = supGain c'" "0 \<le> gain" "gain \<le> ?A" "supGainErrParamA c' = ?A"
    using assms(1) t by (simp_all add: eq adapt_inv_defs)
qed

subsection \<open>The Wiener filter does not amplify\<close>

lemma wiener_gain_range: "0 \<le> wiener_gain g d n \<and> wiener_gain g d n \<le> 16384"
proof -
  have "0 \<le> x \<Longrightarrow> x \<le> 16384 \<Longrightarrow> int16 (16384 - int16 x) = 16384 - x" for x by (simp add: int16_id)
  then show ?thesis by (auto simp: wiener_gain_def Let_def ONE_Q14_def)
qed

lemma square_range: "0 \<le> h \<Longrightarrow> h \<le> 16384 \<Longrightarrow> 0 \<le> int16 (MUL_16_16_RSFT h h 14) \<and> int16 (MUL_16_16_RSFT h h 14) \<le> 16384"
proof -
  assume h: "0 \<le> h" "h \<le> 16384"
  have "h * h \<le> 16384 * 16384" using h by (intro mult_mono) auto
  then have "0 \<le> h * h div 16384" "h * h div 16384 \<le> 16384" using h by (simp_all add: div_int_pos_iff)
  then show ?thesis using h by (simp add: MUL_16_16_RSFT_def mul_16_16 drop_bit_eq_div int16_id)
qed

lemma sum_range:
  assumes "\<forall>h \<in> set hs. 0 \<le> h \<and> h \<le> m" "0 \<le> s" "s + int (length hs) * m < 2 ^ 31" "0 \<le> m"
  shows "0 \<le> fold (\<lambda>h s. int32 (s + h)) hs s \<and> fold (\<lambda>h s. int32 (s + h)) hs s \<le> s + int (length hs) * m"
  using assms
proof (induction hs arbitrary: s)
  case (Cons h hs)
  have "0 \<le> int (length hs) * m" using Cons.prems(4) by simp
  moreover have "h \<le> m" "0 \<le> h" using Cons.prems(1) by simp_all
  moreover have "s + (m + int (length hs) * m) < 2 ^ 31" using Cons.prems(3) by (simp add: distrib_right)
  ultimately have "s + h < 2 ^ 31" by linarith
  then have "int32 (s + h) = s + h" using Cons.prems by (simp add: int32_id)
  moreover have "s + h + int (length hs) * m \<le> s + int (length (h # hs)) * m"
    using Cons.prems(1) by (simp add: distrib_right)
  ultimately show ?case using Cons.IH [of "s + h"] Cons.prems by simp
qed simp

lemma limit_upper_band_range:
  assumes "\<forall>h \<in> set hnl. 0 \<le> h \<and> h \<le> 16384"
  shows "\<forall>h \<in> set (limit_upper_band hnl). 0 \<le> h \<and> h \<le> 16384" "length (limit_upper_band hnl) = length hnl"
proof -
  define sq where "sq = map (\<lambda>h. int16 (MUL_16_16_RSFT h h 14)) hnl"
  have sq: "\<forall>h \<in> set sq. 0 \<le> h \<and> h \<le> 16384" using assms square_range by (auto simp: sq_def)
  define part where "part = take 21 (drop 4 sq)"
  define total where "total = fold (\<lambda>h s. int32 (s + h)) part 0"
  have "set part \<subseteq> set sq" by (auto simp: part_def dest: in_set_takeD in_set_dropD)
  then have p: "\<forall>h \<in> set part. 0 \<le> h \<and> h \<le> 16384" using sq by blast
  have "length part \<le> 21" by (simp add: part_def)
  then have "0 \<le> total" "total \<le> 21 * 16384" using sum_range [of part 16384 0, OF p] by (simp_all add: total_def)
  then have avg: "0 \<le> total sdiv 21" "total sdiv 21 \<le> 16384"
    by (cases "total = 0"; simp add: signed_divide_int_def div_int_pos_iff)+
  have hn: "map (\<lambda>h. int16 (MUL_16_16_RSFT h h 14)) hnl = sq" by (simp add: sq_def)
  have eq: "limit_upper_band hnl = map (\<lambda>i. if i \<ge> 24 \<and> sq ! i > int16 (total sdiv 21) then int16 (total sdiv 21) else sq ! i) [0..<length sq]"
    unfolding limit_upper_band_def Let_def hn part_def [symmetric] total_def [symmetric] ..
  show "length (limit_upper_band hnl) = length hnl" by (simp add: eq sq_def)
  show "\<forall>h \<in> set (limit_upper_band hnl). 0 \<le> h \<and> h \<le> 16384"
    using sq avg unfolding eq by (auto simp: int16_id)
qed

lemma nlp_gain_range: "0 \<le> h \<Longrightarrow> h \<le> 16384 \<Longrightarrow> 0 \<le> nlp_gain k h \<and> nlp_gain k h \<le> 16384"
proof -
  assume h: "0 \<le> h" "h \<le> 16384"
  define h' where "h' = (if h > ONE_Q14 then ONE_Q14 else if h < 3277 then 0 else h)"
  have h': "0 \<le> h'" "h' \<le> 16384" using h by (auto simp: h'_def ONE_Q14_def)
  have "int16 (MUL_16_16_RSFT h' g 14) \<in> {0, h'}" if "g = 0 \<or> g = 16384" for g
    using that h' by (auto simp: MUL_16_16_RSFT_def mul_16_16 drop_bit_eq_div int16_id)
  from this [of "if k < 3 then 0 else ONE_Q14"] show ?thesis
    using h' unfolding nlp_gain_def Let_def h'_def [symmetric] by (auto simp: ONE_Q14_def)
qed

lemma final_gains_range:
  assumes "\<forall>h \<in> set hnl. 0 \<le> h \<and> h \<le> 16384"
  shows "\<forall>h \<in> set (final_gains c hnl). 0 \<le> h \<and> h \<le> 16384" "length (final_gains c hnl) = length hnl"
proof -
  define hs where "hs = (if mult c = 2 then limit_upper_band hnl else hnl)"
  have hs: "\<forall>h \<in> set hs. 0 \<le> h \<and> h \<le> 16384" "length hs = length hnl"
    using assms limit_upper_band_range [OF assms] by (auto simp: hs_def)
  then show "\<forall>h \<in> set (final_gains c hnl). 0 \<le> h \<and> h \<le> 16384" "length (final_gains c hnl) = length hnl"
    unfolding final_gains_def Let_def hs_def [symmetric] using nlp_gain_range by auto
qed

text \<open>Between 0 and the value itself.\<close>

definition no_more :: "int \<Rightarrow> int \<Rightarrow> bool" where
  "no_more y x \<longleftrightarrow> min 0 x \<le> y \<and> y \<le> max 0 x"

lemma rounded_product:
  assumes "-32768 \<le> x" "x \<le> 32767" "0 \<le> h" "h \<le> 16384"
  shows "no_more (int16 (MUL_16_16_RSFT_WITH_ROUND x h 14)) x"
proof -
  define y where "y = (x * h + 8192) div 16384"
  have "\<bar>x * h\<bar> \<le> 32768 * 16384" unfolding abs_mult using assms by (intro mult_mono) auto
  then have xh: "-536870912 \<le> x * h" "x * h \<le> 536870912" by auto
  have "MUL_16_16_RSFT_WITH_ROUND x h 14 = y"
    using assms xh by (simp add: MUL_16_16_RSFT_WITH_ROUND_def mul_16_16 int32_id push_bit_eq_mult drop_bit_eq_div y_def)
  moreover have "no_more y x"
  proof (cases "0 \<le> x")
    case True
    have "0 \<le> x * h" "x * h \<le> x * 16384" using True assms by (simp_all add: mult_left_mono)
    then show ?thesis using True unfolding no_more_def y_def by linarith
  next
    case False
    have "x * h \<le> 0" "x * 16384 \<le> x * h" using False assms by (simp_all add: mult_nonpos_nonneg mult_left_mono_neg)
    then show ?thesis using False unfolding no_more_def y_def by linarith
  qed
  moreover have "int16 y = y" using \<open>no_more y x\<close> assms by (intro int16_id) (auto simp: no_more_def)
  ultimately show ?thesis by simp
qed

subsection \<open>The whole block\<close>

text \<open>What is asked of the transforms: the bins of 128 samples as 16-bit pairs, and 128 samples back.\<close>

definition dsp_ok :: "'d dsp \<Rightarrow> bool" where
  "dsp_ok ops \<longleftrightarrow>
     (\<forall>xs. length (forward_fft ops xs) = PART_LEN1 \<and>
        (\<forall>(re, im) \<in> set (forward_fft ops xs). -32768 \<le> re \<and> re \<le> 32767 \<and> -32768 \<le> im \<and> im \<le> 32767)) \<and>
     (\<forall>zs. length (fst (inverse_fft ops zs)) = 128)"

text \<open>And of the delay estimator for a block to be processed, while its state satisfies \<open>I\<close>: it takes the spectrum,
  its estimate is a delay within the history, or -2 while it has none, and \<open>I\<close> is kept.\<close>

definition dsp_runs :: "('d \<Rightarrow> bool) \<Rightarrow> 'd dsp \<Rightarrow> bool" where
  "dsp_runs I ops \<longleftrightarrow>
     (\<forall>d xs q. I d \<and> length xs = PART_LEN1 \<and> q \<le> 15 \<longrightarrow>
        fst (add_far_spectrum ops d xs q) \<noteq> -1 \<and> I (snd (add_far_spectrum ops d xs q)) \<and>
        (let delay = fst (estimate_delay ops d xs q) in delay = -2 \<or> 0 \<le> delay \<and> delay < int MAX_DELAY) \<and>
        I (snd (estimate_delay ops d xs q)))"

definition runs :: "('d \<Rightarrow> bool) \<Rightarrow> 'd dsp \<Rightarrow> 'd Adapt \<Rightarrow> bool" where
  "runs I ops c \<longleftrightarrow> dsp_runs I ops \<and> I (delay_estimator c)"

lemma TimeToFrequencyDomain_ok:
  assumes "dsp_ok ops" "TimeToFrequencyDomain ops xs = (freq, mags, msum, q)"
  shows "length freq = 65" "length mags = 65" "0 \<le> q \<and> q \<le> 15"
    "\<forall>(re, im) \<in> set freq. -32768 \<le> re \<and> re \<le> 32767 \<and> -32768 \<le> im \<and> im \<le> 32767"
proof -
  let ?P = "\<lambda>(re, im). -32768 \<le> re \<and> re \<le> (32767 :: int) \<and> -32768 \<le> im \<and> im \<le> (32767 :: int)"
  define fft where "fft = forward_fft ops (map (\<lambda>i. int16 (MUL_16_16_RSFT (int32 (push_bit (nat q) (xs ! i))) (kSqrtHanning ! i) 14)) [0..<64] @
    map (\<lambda>i. int16 (MUL_16_16_RSFT (int32 (push_bit (nat q) (xs ! (i + 64)))) (kSqrtHanning ! (64 - i)) 14)) [0..<64])"
  define w where "w = map (\<lambda>(re, im). (re, int16 (- im))) (take 64 fft) @ drop 64 fft"
  have q: "q = NormW16 (MaxAbsValueW16 xs)" and len: "length mags = 65"
    using assms(2) by (auto simp: TimeToFrequencyDomain_def Let_def)
  have f: "length fft = 65" "\<forall>z \<in> set fft. ?P z" using assms(1) by (simp_all add: dsp_ok_def fft_def)
  have "freq = (w[0 := (fst (w ! 0), 0)])[64 := (fst (w[0 := (fst (w ! 0), 0)] ! 64), 0)]"
    using assms(2) unfolding TimeToFrequencyDomain_def WindowAndFFT_def Let_def q [symmetric] fft_def [symmetric]
      w_def [symmetric] by simp
  moreover have lw: "length w = 65" using f(1) by (simp add: w_def)
  moreover have w: "\<forall>z \<in> set w. ?P z"
    using f(2) int16_range by (auto simp: w_def dest!: in_set_takeD in_set_dropD)
  moreover have "?P (w ! 0)" "?P (w ! 64)" using w lw by simp_all
  then have "?P (fst (w ! 0), 0)" "?P (fst (w ! 64), 0)" by (auto split: prod.splits)
  ultimately show "length freq = 65" "\<forall>z \<in> set freq. ?P z"
    by (auto dest!: set_update_subset_insert [THEN subsetD])
  show "length mags = 65" by (rule len)
  show "0 \<le> q \<and> q \<le> 15" unfolding q by (rule NormW16_range)
qed

lemma noise_fields:
  "adapt_inv c \<Longrightarrow> length x = 65 \<Longrightarrow> length y = 65 \<Longrightarrow> length z = 65 \<Longrightarrow>
    adapt_inv (c\<lparr>noiseEst := x, noiseEstTooLowCtr := y, noiseEstTooHighCtr := z\<rparr>)"
  by (simp add: adapt_inv_defs)

lemma ComfortNoise_inv:
  assumes "adapt_inv c"
  shows "adapt_inv (snd (ComfortNoise c dfa out lambda))"
proof -
  have "adapt_inv (fst (if noiseEstCtr c < 100 then (c\<lparr>noiseEstCtr := int16 (noiseEstCtr c + 1)\<rparr>, 6 :: nat) else (c, 9)))"
    using assms by (simp add: mse_fields)
  then show ?thesis
    unfolding ComfortNoise_def Let_def split_beta snd_conv mse_fields by (rule noise_fields) simp_all
qed

lemma shift_fields:
  "adapt_inv c \<Longrightarrow> length x = 64 \<Longrightarrow>
    adapt_inv (c\<lparr>outBuf := x, xBuf := shift_half (xBuf c), dBufNoisy := shift_half (dBufNoisy c)\<rparr>)"
  "adapt_inv c \<Longrightarrow> adapt_inv (c\<lparr>dBufClean := shift_half (dBufClean c)\<rparr>)"
  by (simp_all add: adapt_inv_defs shift_half_def)

lemma InverseFFT_inv:
  assumes "adapt_inv c" "InverseFFTAndWindow ops c efw clean = (out, c')"
  shows "adapt_inv c'" "length out = 64" "\<forall>x \<in> set out. -32768 \<le> x \<and> x \<le> 32767"
proof -
  obtain ifft q where i: "inverse_fft ops (map (\<lambda>(re, im). (re, int16 (- im))) (take 65 efw)) = (ifft, q)" by fastforce
  define f where "f i = int16 (SAT WORD16_MAX (int32 (SHIFT_W32 int32
    (int16 (MUL_16_16_RSFT_WITH_ROUND (ifft ! i) (kSqrtHanning ! i) 14)) (q - dfaCleanQDomain c) + outBuf c ! i)) WORD16_MIN)" for i
  define g where "g = map (\<lambda>i. int16 (SAT WORD16_MAX (SHIFT_W32 int32
    (MUL_16_16_RSFT (ifft ! (64 + i)) (kSqrtHanning ! (64 - i)) 14) (q - dfaCleanQDomain c)) WORD16_MIN)) [0..<64]"
  define c1 where "c1 = c\<lparr>outBuf := g, xBuf := shift_half (xBuf c), dBufNoisy := shift_half (dBufNoisy c)\<rparr>"
  have eq: "out = map f [0..<64]" "c' = (if clean then c1\<lparr>dBufClean := shift_half (dBufClean c1)\<rparr> else c1)"
    using assms(2) unfolding InverseFFTAndWindow_def Let_def adapt_lengths i prod.case f_def [symmetric] g_def [symmetric]
      c1_def [symmetric] by simp_all
  have "adapt_inv c1" unfolding c1_def by (rule shift_fields(1) [OF assms(1)]) (simp add: g_def)
  then show "adapt_inv c'" by (simp add: eq shift_fields(2))
  show "length out = 64" "\<forall>x \<in> set out. -32768 \<le> x \<and> x \<le> 32767"
    by (auto simp: eq f_def int16_range)
qed

lemma wiener_filter_inv:
  assumes "adapt_inv c" "wiener_filter ops c gain q dfw dfa est clean = (out, c')"
  shows "adapt_inv c'" "length out = 64" "\<forall>x \<in> set out. -32768 \<le> x \<and> x \<le> 32767"
proof -
  define bins where "bins = map (wiener_bin c gain q dfa est) [0..<65]"
  define c1 where "c1 = c\<lparr>echoFilt := map fst bins, nearFilt := map (fst \<circ> snd) bins\<rparr>"
  have "length bins = 65" by (simp add: bins_def)
  then have c1: "adapt_inv c1" using assms(1) by (simp add: c1_def adapt_inv_defs)
  define efw where "efw = map2 apply_gain dfw (final_gains c1 (map (snd \<circ> snd) bins))"
  obtain efw2 c2 where n: "(if cngMode c1 = 1 then ComfortNoise c1 dfa efw (final_gains c1 (map (snd \<circ> snd) bins)) else (efw, c1)) = (efw2, c2)"
    by fastforce
  have "adapt_inv c2" using c1 n ComfortNoise_inv [OF c1] by (metis prod.inject snd_conv)
  moreover have "InverseFFTAndWindow ops c2 efw2 clean = (out, c')"
    using assms(2) unfolding wiener_filter_def adapt_lengths bins_def [symmetric] Let_def c1_def [symmetric]
      efw_def [symmetric] n by simp
  ultimately show "adapt_inv c'" "length out = 64" "\<forall>x \<in> set out. -32768 \<le> x \<and> x \<le> 32767"
    using InverseFFT_inv by blast+
qed

text \<open>The buffers, the Q-domains and the far-end history before the delay is estimated.\<close>

lemma window_fields:
  assumes "adapt_inv c" "length far \<le> 64" "length near \<le> 64"
  shows "adapt_inv (c\<lparr>xBuf := write_at (xBuf c) 64 far, dBufNoisy := write_at (dBufNoisy c) 64 near\<rparr>)"
  using assms by (simp add: adapt_inv_defs)

lemma clean_field: "adapt_inv c \<Longrightarrow> length clean \<le> 64 \<Longrightarrow> adapt_inv (c\<lparr>dBufClean := write_at (dBufClean c) 64 clean\<rparr>)"
  by (simp add: adapt_inv_defs)

lemma noisy_fields:
  "adapt_inv c \<Longrightarrow> 0 \<le> q \<and> q \<le> 15 \<Longrightarrow> adapt_inv (c\<lparr>dfaNoisyQDomainOld := dfaNoisyQDomain c, dfaNoisyQDomain := q\<rparr>)"
  by (simp add: adapt_inv_defs)

lemma clean_fields:
  "adapt_inv c \<Longrightarrow> 0 \<le> q \<and> q \<le> 15 \<Longrightarrow> adapt_inv (c\<lparr>dfaCleanQDomainOld := dfaCleanQDomain c, dfaCleanQDomain := q\<rparr>)"
  "adapt_inv c \<Longrightarrow> adapt_inv (c\<lparr>dfaCleanQDomainOld := dfaNoisyQDomainOld c, dfaCleanQDomain := dfaNoisyQDomain c\<rparr>)"
  by (simp_all add: adapt_inv_defs)

text \<open>The sampling rate and the delay estimator stay what they are.\<close>

abbreviation kept :: "'d Adapt \<Rightarrow> int \<times> 'd" where
  "kept c \<equiv> (mult c, delay_estimator c)"

lemma keeps_parts:
  "kept (track_levels c) = kept c" "kept (decide_voice c) = kept c" "kept (scale_first c) = kept c"
  "kept (fst (StoreAdaptiveChannel c far)) = kept c" "kept (ResetAdaptiveChannel c) = kept c"
  by (simp_all add: track_levels_def decide_voice_def scale_first_def StoreAdaptiveChannel_def
      ResetAdaptiveChannel_def Let_def)

lemmas keeps_each_part = keeps_parts [unfolded prod.inject]

lemma keeps:
  "kept (WebRtcAecm_UpdateFarHistory c xfa q) = kept c"
  "kept (fst (WebRtcAecm_CalcEnergies c far q e)) = kept c"
  "kept (fst (WebRtcAecm_UpdateChannel c far q dfa mu est)) = kept c"
  "kept (snd (WebRtcAecm_CalcSuppressionGain c)) = kept c"
  "kept (snd (ComfortNoise c dfa out lambda)) = kept c"
  "kept (snd (InverseFFTAndWindow ops c efw clean)) = kept c"
proof -
  show "kept (WebRtcAecm_UpdateFarHistory c xfa q) = kept c"
    by (simp add: WebRtcAecm_UpdateFarHistory_def Let_def)
  show "kept (fst (WebRtcAecm_CalcEnergies c far q e)) = kept c"
    unfolding WebRtcAecm_CalcEnergies_def Let_def split_beta fst_conv by (simp add: keeps_each_part)
  show "kept (fst (WebRtcAecm_UpdateChannel c far q dfa mu est)) = kept c"
  proof -
    define c1 where "c1 = (if mu \<noteq> 0 then update_bins c far q dfa mu else c)"
    have c1: "kept c1 = kept c" by (simp add: c1_def update_bins_def Let_def)
    define c2 where "c2 = (if farLogEnergy c1 < farEnergyMSE c1 then c1\<lparr>mseChannelCount := 0\<rparr>
      else c1\<lparr>mseChannelCount := int16 (mseChannelCount c1 + 1)\<rparr>)"
    have c2: "kept c2 = kept c" using c1 by (simp add: c2_def)
    show ?thesis
      using c1 c2 unfolding WebRtcAecm_UpdateChannel_def c1_def [symmetric] Let_def c2_def [symmetric] split_beta
      by (simp add: keeps_each_part)
  qed
  show "kept (snd (WebRtcAecm_CalcSuppressionGain c)) = kept c"
    unfolding WebRtcAecm_CalcSuppressionGain_def Let_def snd_conv by simp
  show "kept (snd (ComfortNoise c dfa out lambda)) = kept c"
    unfolding ComfortNoise_def Let_def split_beta snd_conv by simp
  show "kept (snd (InverseFFTAndWindow ops c efw clean)) = kept c"
    unfolding InverseFFTAndWindow_def Let_def split_beta snd_conv by simp
qed

lemma wiener_filter_keeps: "kept (snd (wiener_filter ops c gain q dfw dfa est clean)) = kept c"
  unfolding wiener_filter_def Let_def split_beta by (simp add: keeps(5,6) [unfolded prod.inject])

lemma ProcessBlock_inv:
  assumes inv: "adapt_inv c" and ops: "dsp_ok ops" and len: "length far \<le> 64" "length near \<le> 64"
      "\<And>xs. clean = Some xs \<Longrightarrow> length xs \<le> 64"
    and run: "WebRtcAecm_ProcessBlock ops c far near clean output = (ret, out, c')"
  shows "adapt_inv c'" "ret = 0 \<Longrightarrow> length out = 64 \<and> (\<forall>x \<in> set out. -32768 \<le> x \<and> x \<le> 32767)"
    "ret \<noteq> 0 \<Longrightarrow> ret = -1 \<and> out = output" "mult c' = mult c" "runs I ops c \<Longrightarrow> ret = 0 \<and> runs I ops c'"
proof -
  define c1 where "c1 = (if startupState c < 2
    then c\<lparr>startupState := (if totCount c \<ge> 512 then 1 else 0) + (if totCount c \<ge> 1024 then 1 else 0)\<rparr> else c)"
  have c1: "adapt_inv c1" using inv by (simp add: c1_def mse_fields)
  define c2 where "c2 = c1\<lparr>xBuf := write_at (xBuf c1) 64 far, dBufNoisy := write_at (dBufNoisy c1) 64 near\<rparr>"
  have c2: "adapt_inv c2" using window_fields [OF c1 len(1,2)] by (simp add: c2_def)
  define c3 where "c3 = (case clean of None \<Rightarrow> c2 | Some xs \<Rightarrow> c2\<lparr>dBufClean := write_at (dBufClean c2) 64 xs\<rparr>)"
  have c3: "adapt_inv c3" using c2 clean_field [OF c2] len(3) by (simp add: c3_def split: option.split)
  obtain f1 xfa s1 far_q where t1: "TimeToFrequencyDomain ops (xBuf c3) = (f1, xfa, s1, far_q)" by (metis prod_cases4)
  obtain f2 dfa s2 q2 where t2: "TimeToFrequencyDomain ops (dBufNoisy c3) = (f2, dfa, s2, q2)" by (metis prod_cases4)
  note ok1 = TimeToFrequencyDomain_ok [OF ops t1] and ok2 = TimeToFrequencyDomain_ok [OF ops t2]
  define c4 where "c4 = c3\<lparr>dfaNoisyQDomainOld := dfaNoisyQDomain c3, dfaNoisyQDomain := q2\<rparr>"
  have c4: "adapt_inv c4" using noisy_fields [OF c3 ok2(3)] by (simp add: c4_def)
  obtain dfw dfaC c5 where cl: "(case clean of
      None \<Rightarrow> (f2, dfa, c4\<lparr>dfaCleanQDomainOld := dfaNoisyQDomainOld c4, dfaCleanQDomain := dfaNoisyQDomain c4\<rparr>)
    | Some _ \<Rightarrow> (case TimeToFrequencyDomain ops (dBufClean c4) of (dfwClean, dfaClean, _, z) \<Rightarrow>
        (dfwClean, dfaClean, c4\<lparr>dfaCleanQDomainOld := dfaCleanQDomain c4, dfaCleanQDomain := z\<rparr>))) = (dfw, dfaC, c5)"
    by (metis prod_cases3)
  have c5: "adapt_inv c5"
  proof (cases clean)
    case None
    then show ?thesis using cl clean_fields(2) [OF c4] by auto
  next
    case (Some xs)
    obtain f3 d3 s3 z where t3: "TimeToFrequencyDomain ops (dBufClean c4) = (f3, d3, s3, z)" by (metis prod_cases4)
    then show ?thesis using Some cl clean_fields(1) [OF c4 TimeToFrequencyDomain_ok(3) [OF ops t3]] by auto
  qed
  define c6 where "c6 = WebRtcAecm_UpdateFarHistory c5 xfa far_q"
  have c6: "adapt_inv c6" "0 \<le> far_history_pos c6" "far_history_pos c6 < 100"
    using UpdateFarHistory_inv [OF c5] ok1 by (simp_all add: c6_def)
  obtain r1 d1 where a1: "add_far_spectrum ops (delay_estimator c6) xfa far_q = (r1, d1)" by fastforce
  define c7 where "c7 = c6\<lparr>delay_estimator := d1\<rparr>"
  have "kept c5 = kept c"
    using cl by (auto simp: c4_def c3_def c2_def c1_def split: option.splits prod.splits)
  then have m6: "mult c6 = mult c" "delay_estimator c6 = delay_estimator c" using keeps(1) [of c5 xfa far_q] by (simp_all add: c6_def)
  have c7: "adapt_inv c7" using c6(1) by (simp add: c7_def mse_fields)
  obtain delay d2 where a2: "estimate_delay ops (delay_estimator c7) dfa q2 = (delay, d2)" by fastforce
  define c8 where "c8 = c7\<lparr>delay_estimator := d2\<rparr>"
  have c8: "adapt_inv c8" using c7 by (simp add: c8_def mse_fields)
  define del where "del = (if fixedDelay c8 \<ge> 0 then fixedDelay c8 else if delay = -2 then 0 else delay)"
  have eq: "(ret, out, c') = (if r1 = -1 then (-1, output, c7) else if delay = -1 then (-1, output, c8)
    else (case WebRtcAecm_AlignedFarend c8 del of
      None \<Rightarrow> (-1, output, c8)
    | Some (far_spectrum, far_q) \<Rightarrow>
        (case WebRtcAecm_CalcEnergies c8 far_spectrum far_q s2 of (c, echoEst) \<Rightarrow>
         case WebRtcAecm_UpdateChannel (c\<lparr>totCount := uint32 (totCount c + 1)\<rparr>) far_spectrum far_q dfa
           (WebRtcAecm_CalcStepSize c) echoEst of (c, echoEst) \<Rightarrow>
         case WebRtcAecm_CalcSuppressionGain c of (gain, c) \<Rightarrow>
         case wiener_filter ops c gain far_q dfw dfaC echoEst (clean \<noteq> None) of (out, c) \<Rightarrow> (0, out, c))))"
    unfolding run [symmetric] WebRtcAecm_ProcessBlock_def Let_def c1_def [symmetric] c2_def [symmetric]
      c3_def [symmetric] t1 t2 prod.case c4_def [symmetric] cl c6_def [symmetric] a1 c7_def [symmetric] a2
      c8_def [symmetric] del_def [symmetric] ..
  have m: "mult c7 = mult c" "mult c8 = mult c" using m6 by (simp_all add: c7_def c8_def)
  have runs: "r1 \<noteq> -1 \<and> delay \<noteq> -1 \<and> WebRtcAecm_AlignedFarend c8 del \<noteq> None \<and> runs I ops c8" if "runs I ops c"
  proof -
    have go: "dsp_runs I ops" "I (delay_estimator c6)" using that m6 by (simp_all add: runs_def)
    have d: "r1 \<noteq> -1" "I d1" using go a1 ok1(2,3) unfolding dsp_runs_def adapt_lengths by (metis fst_conv, metis snd_conv)
    then have d: "r1 \<noteq> -1" "delay = -2 \<or> 0 \<le> delay \<and> delay < 100" "I d2"
      using go(1) a2 ok2(2,3) unfolding dsp_runs_def adapt_lengths Let_def c7_def by (simp, force, force)
    have "runs I ops c8" using go(1) d(3) by (simp add: runs_def c8_def)
    have "fixedDelay c8 \<le> 100" using c8 by (simp add: adapt_inv_defs)
    then have "0 \<le> del" "del \<le> 100" using d(2) by (auto simp: del_def)
    then have "WebRtcAecm_AlignedFarend c8 del \<noteq> None"
      using c6(2,3) by (intro AlignedFarend_inside) (simp_all add: c8_def c7_def)
    then show ?thesis using d \<open>runs I ops c8\<close> by auto
  qed
  have "mult c' = mult c \<and> adapt_inv c' \<and> (runs I ops c \<longrightarrow> ret = 0 \<and> runs I ops c') \<and> (ret = 0 \<longrightarrow> length out = 64 \<and> (\<forall>x \<in> set out. -32768 \<le> x \<and> x \<le> 32767)) \<and>
      (ret \<noteq> 0 \<longrightarrow> ret = -1 \<and> out = output)"
  proof (cases "r1 = -1 \<or> delay = -1 \<or> WebRtcAecm_AlignedFarend c8 del = None")
    case True
    then have "\<not> runs I ops c" using runs by blast
    then show ?thesis using True eq c7 c8 m by (auto split: if_splits)
  next
    case False
    then obtain spec q where al: "WebRtcAecm_AlignedFarend c8 del = Some (spec, q)" by auto
    note okA = AlignedFarend_range [OF c8 al]
    obtain c9 est where e: "WebRtcAecm_CalcEnergies c8 spec q s2 = (c9, est)" by fastforce
    note c9 = CalcEnergies_inv [OF c8 okA(2,3,1) e]
    let ?c10 = "c9\<lparr>totCount := uint32 (totCount c9 + 1)\<rparr>"
    have c10: "adapt_inv ?c10" using c9(1) by (simp add: mse_fields)
    obtain c11 est' where u: "WebRtcAecm_UpdateChannel ?c10 spec q dfa (WebRtcAecm_CalcStepSize c9) est = (c11, est')"
      by fastforce
    note c11 = UpdateChannel_inv [OF c10 okA(1) c9(2) u]
    obtain gain c12 where g: "WebRtcAecm_CalcSuppressionGain c11 = (gain, c12)" by fastforce
    note c12 = CalcSuppressionGain_inv(1) [OF c11(1) g]
    obtain o13 c13 where w: "wiener_filter ops c12 gain q dfw dfaC est' (clean \<noteq> None) = (o13, c13)" by fastforce
    have "(ret, out, c') = (0, o13, c13)" using eq False al e u g w by simp
    moreover have "kept c13 = kept c8"
      using keeps(2) [of c8 spec q s2] keeps(3) [of ?c10 spec q dfa "WebRtcAecm_CalcStepSize c9" est]
        keeps(4) [of c11] wiener_filter_keeps [of ops c12 gain q dfw dfaC est' "clean \<noteq> None"] e u g w by simp
    ultimately show ?thesis using wiener_filter_inv [OF c12 w] runs m(2) by (simp add: runs_def)
  qed
  then show "adapt_inv c'" "ret = 0 \<Longrightarrow> length out = 64 \<and> (\<forall>x \<in> set out. -32768 \<le> x \<and> x \<le> 32767)"
    "ret \<noteq> 0 \<Longrightarrow> ret = -1 \<and> out = output" "mult c' = mult c" "runs I ops c \<Longrightarrow> ret = 0 \<and> runs I ops c'" by blast+
qed

end
