(* ===== verification/Aecm_Control.thy ===== *)
theory Aecm_Control
  imports Aecm_Frames Aecm_Invariant
begin

text \<open>
  \<open>src/jni/webrtc/modules/audio_processing/aecm/echo_control_mobile.c\<close>: the interface of the echo
  canceller.  It buffers the far end, waits until the sound card's delay is stable, and afterwards feeds
  the core frame by frame, dropping or repeating far-end samples to follow the delay.

  An instance pointer or an array that may be null is an option.  \<open>short\<close> and \<open>int\<close> fields are integers
  with \<open>int16\<close> and \<open>int32\<close> where the code narrows.  The floating-point comparison
  \<open>abs(d) < MAX(0.2 * ms, 8)\<close> of integers between -32768 and 32767 is \<open>5 * \<bar>d\<bar> < max ms 40\<close>: rounding makes
  \<open>0.2 * ms\<close> exact for the multiples of 5, and keeps it between its neighbours otherwise.
\<close>

definition BUF_SIZE_FRAMES :: int where "BUF_SIZE_FRAMES = 50"
definition kBufSizeSamp :: nat where "kBufSizeSamp = 50 * FRAME_LEN"
definition kSampMsNb :: int where "kSampMsNb = 8"
definition kInitCheck :: int where "kInitCheck = 42"

definition AECM_UNSPECIFIED_ERROR :: int where "AECM_UNSPECIFIED_ERROR = 12000"
definition AECM_UNINITIALIZED_ERROR :: int where "AECM_UNINITIALIZED_ERROR = 12002"
definition AECM_NULL_POINTER_ERROR :: int where "AECM_NULL_POINTER_ERROR = 12003"
definition AECM_BAD_PARAMETER_ERROR :: int where "AECM_BAD_PARAMETER_ERROR = 12004"
definition AECM_BAD_PARAMETER_WARNING :: int where "AECM_BAD_PARAMETER_WARNING = 12100"

record 'd aecmob =
  sampFreq :: int
  bufSizeStart :: int
  knownDelay :: int
  farendOld :: "u16 list list"
  initFlag :: int
  counter :: int
  msSum :: int
  firstVal :: int
  checkBufSizeCtr :: int
  msInSndCardBuf :: int
  filtDelay :: int
  timeForDelayChange :: int
  ECstartup :: bool
  checkBuffSize :: bool
  delayChange :: int
  lastDelayDiff :: int
  echoMode :: int
  farendBuf :: "u16 RingBuffer"
  lastError :: int
  aecmCore :: "'d Adapt AecmCore"

type_synonym config = "int \<times> int"  \<comment> \<open>\<open>cngMode\<close> and \<open>echoMode\<close>\<close>

definition core_mult :: "'d aecmob \<Rightarrow> int" where
  "core_mult a = mult (adapt (aecmCore a))"

definition with_adapt :: "('d Adapt \<Rightarrow> 'd Adapt) \<Rightarrow> 'd aecmob \<Rightarrow> 'd aecmob" where
  "with_adapt f a = a\<lparr>aecmCore := (aecmCore a)\<lparr>adapt := f (adapt (aecmCore a))\<rparr>\<rparr>"

definition far_samples :: "'d aecmob \<Rightarrow> int" where
  "far_samples a = int (available_read (farendBuf a))"

definition move_far :: "int \<Rightarrow> 'd aecmob \<Rightarrow> 'd aecmob" where
  "move_far n a = a\<lparr>farendBuf := snd (MoveReadPtr (farendBuf a) n)\<rparr>"

subsection \<open>Initialisation and configuration\<close>

definition WebRtcAecm_InitCore ::
  "('d \<Rightarrow> 'd option) \<Rightarrow> 'd Adapt AecmCore \<Rightarrow> int \<Rightarrow> int \<times> 'd Adapt AecmCore" where
  "WebRtcAecm_InitCore init_delay c samplingFreq =
     (if samplingFreq \<noteq> 8000 \<and> samplingFreq \<noteq> 16000 then (-1, c)
      else case init_adapt init_delay samplingFreq (adapt c) of
        (ret, a) \<Rightarrow> (ret, (init_frames c)\<lparr>adapt := a\<rparr>))"

text \<open>The scaling of the suppression parameters by the mode.\<close>

definition mode_scale :: "int \<Rightarrow> int \<Rightarrow> int" where
  "mode_scale mode x =
     (if mode = 0 then drop_bit 3 x else if mode = 1 then drop_bit 2 x else if mode = 2 then drop_bit 1 x
      else if mode = 3 then x else push_bit 1 x)"

definition WebRtcAecm_set_config :: "'d aecmob option \<Rightarrow> config \<Rightarrow> int \<times> 'd aecmob option" where
  "WebRtcAecm_set_config inst config =
     (case inst of None \<Rightarrow> (-1, None) | Some a \<Rightarrow>
      if initFlag a \<noteq> kInitCheck then (-1, Some (a\<lparr>lastError := AECM_UNINITIALIZED_ERROR\<rparr>))
      else if fst config \<noteq> 0 \<and> fst config \<noteq> 1 then (-1, Some (a\<lparr>lastError := AECM_BAD_PARAMETER_ERROR\<rparr>))
      else
        let a = with_adapt (\<lambda>c. c\<lparr>cngMode := fst config\<rparr>) a
        in if snd config < 0 \<or> snd config > 4 then (-1, Some (a\<lparr>lastError := AECM_BAD_PARAMETER_ERROR\<rparr>))
        else
          let scale = mode_scale (snd config);
              a = a\<lparr>echoMode := snd config\<rparr>
          in (0, Some (with_adapt (\<lambda>c. c\<lparr>supGain := scale SUPGAIN_DEFAULT, supGainOld := scale SUPGAIN_DEFAULT,
                supGainErrParamA := scale SUPGAIN_ERROR_PARAM_A, supGainErrParamD := scale SUPGAIN_ERROR_PARAM_D,
                supGainErrParamDiffAB := scale SUPGAIN_ERROR_PARAM_A - scale SUPGAIN_ERROR_PARAM_B,
                supGainErrParamDiffBD := scale SUPGAIN_ERROR_PARAM_B - scale SUPGAIN_ERROR_PARAM_D\<rparr>) a)))"

definition WebRtcAecm_get_config :: "'d aecmob option \<Rightarrow> bool \<Rightarrow> int \<times> config option \<times> 'd aecmob option" where
  "WebRtcAecm_get_config inst has_config =
     (case inst of None \<Rightarrow> (-1, None, None) | Some a \<Rightarrow>
      if \<not> has_config then (-1, None, Some (a\<lparr>lastError := AECM_NULL_POINTER_ERROR\<rparr>))
      else if initFlag a \<noteq> kInitCheck then (-1, None, Some (a\<lparr>lastError := AECM_UNINITIALIZED_ERROR\<rparr>))
      else (0, Some (cngMode (adapt (aecmCore a)), echoMode a), Some a))"

text \<open>\<open>memset (&farendOld[0][0], 0, 160)\<close> clears 160 bytes: the first of the two frames.\<close>

definition WebRtcAecm_Init ::
  "('d \<Rightarrow> 'd option) \<Rightarrow> 'd aecmob option \<Rightarrow> int \<Rightarrow> int \<times> 'd aecmob option" where
  "WebRtcAecm_Init init_delay inst freq =
     (case inst of None \<Rightarrow> (-1, None) | Some a \<Rightarrow>
      if freq \<noteq> 8000 \<and> freq \<noteq> 16000 then (-1, Some (a\<lparr>lastError := AECM_BAD_PARAMETER_ERROR\<rparr>))
      else
        let a = a\<lparr>sampFreq := freq\<rparr>
        in case WebRtcAecm_InitCore init_delay (aecmCore a) (sampFreq a) of (ret, core) \<Rightarrow>
        let a = a\<lparr>aecmCore := core\<rparr>
        in if ret = -1 then (-1, Some (a\<lparr>lastError := AECM_UNSPECIFIED_ERROR\<rparr>))
        else
          let a = a\<lparr>farendBuf := cleared (farendBuf a), initFlag := kInitCheck, delayChange := 1,
                    msSum := 0, counter := 0, checkBuffSize := True, firstVal := 0,
                    ECstartup := True, bufSizeStart := 0, checkBufSizeCtr := 0, filtDelay := 0,
                    timeForDelayChange := 0, knownDelay := 0, lastDelayDiff := 0,
                    farendOld := (farendOld a)[0 := replicate FRAME_LEN 0]\<rparr>
          in case WebRtcAecm_set_config (Some a) (1, 3) of
               (ret, Some a) \<Rightarrow> if ret = -1 then (-1, Some (a\<lparr>lastError := AECM_UNSPECIFIED_ERROR\<rparr>)) else (0, Some a)
             | (_, None) \<Rightarrow> (-1, None))"

definition WebRtcAecm_get_error_code :: "'d aecmob option \<Rightarrow> int" where
  "WebRtcAecm_get_error_code inst = (case inst of None \<Rightarrow> -1 | Some a \<Rightarrow> lastError a)"

definition WebRtcAecm_echo_path_size_bytes :: nat where
  "WebRtcAecm_echo_path_size_bytes = PART_LEN1 * 2"

definition echo_path_guard :: "'d aecmob \<Rightarrow> int list option \<Rightarrow> nat \<Rightarrow> int option" where
  "echo_path_guard a echo_path size_bytes =
     (if echo_path = None then Some AECM_NULL_POINTER_ERROR
      else if size_bytes \<noteq> WebRtcAecm_echo_path_size_bytes then Some AECM_BAD_PARAMETER_ERROR
      else if initFlag a \<noteq> kInitCheck then Some AECM_UNINITIALIZED_ERROR
      else None)"

definition WebRtcAecm_InitEchoPath :: "'d aecmob option \<Rightarrow> int list option \<Rightarrow> nat \<Rightarrow> int \<times> 'd aecmob option" where
  "WebRtcAecm_InitEchoPath inst echo_path size_bytes =
     (case inst of None \<Rightarrow> (-1, None) | Some a \<Rightarrow>
      case (echo_path_guard a echo_path size_bytes, echo_path) of
        (None, Some path) \<Rightarrow> (0, Some (with_adapt (\<lambda>c. WebRtcAecm_InitEchoPathCore c path) a))
      | (Some e, _) \<Rightarrow> (-1, Some (a\<lparr>lastError := e\<rparr>))
      | (None, None) \<Rightarrow> (-1, Some a))"

definition WebRtcAecm_GetEchoPath ::
  "'d aecmob option \<Rightarrow> int list option \<Rightarrow> nat \<Rightarrow> int \<times> int list option \<times> 'd aecmob option" where
  "WebRtcAecm_GetEchoPath inst echo_path size_bytes =
     (case inst of None \<Rightarrow> (-1, echo_path, None) | Some a \<Rightarrow>
      case (echo_path_guard a echo_path size_bytes, echo_path) of
        (None, Some path) \<Rightarrow> (0, Some (write_at path 0 (take PART_LEN1 (channelStored (adapt (aecmCore a))))), Some a)
      | (Some e, _) \<Rightarrow> (-1, echo_path, Some (a\<lparr>lastError := e\<rparr>))
      | (None, None) \<Rightarrow> (-1, echo_path, Some a))"

subsection \<open>The far end\<close>

definition WebRtcAecm_DelayComp :: "'d aecmob \<Rightarrow> 'd aecmob" where
  "WebRtcAecm_DelayComp a =
     (let nSampFar = far_samples a;
          nSampSndCard = msInSndCardBuf a * kSampMsNb * core_mult a;
          delayNew = nSampSndCard - nSampFar
      in if delayNew > int FAR_BUF_LEN - int FRAME_LEN * core_mult a then
           let nSampAdd = (if drop_bit 1 nSampSndCard - nSampFar > int FRAME_LEN
                           then drop_bit 1 nSampSndCard - nSampFar else int FRAME_LEN);
               nSampAdd = (if nSampAdd < 10 * int FRAME_LEN then nSampAdd else 10 * int FRAME_LEN)
           in (move_far (- nSampAdd) a)\<lparr>delayChange := 1\<rparr>
         else a)"

definition WebRtcAecm_BufferFarend ::
  "'d aecmob option \<Rightarrow> u16 list option \<Rightarrow> int \<Rightarrow> int \<times> 'd aecmob option" where
  "WebRtcAecm_BufferFarend inst farend nrOfSamples =
     (case inst of None \<Rightarrow> (-1, None) | Some a \<Rightarrow>
      case farend of None \<Rightarrow> (-1, Some (a\<lparr>lastError := AECM_NULL_POINTER_ERROR\<rparr>)) | Some far \<Rightarrow>
      if initFlag a \<noteq> kInitCheck then (-1, Some (a\<lparr>lastError := AECM_UNINITIALIZED_ERROR\<rparr>))
      else if nrOfSamples \<noteq> 80 \<and> nrOfSamples \<noteq> 160 then (-1, Some (a\<lparr>lastError := AECM_BAD_PARAMETER_ERROR\<rparr>))
      else
        let a = (if \<not> ECstartup a then WebRtcAecm_DelayComp a else a)
        in (0, Some (a\<lparr>farendBuf := snd (WriteBuffer (farendBuf a) (take (nat nrOfSamples) far))\<rparr>)))"

definition WebRtcAecm_EstBufDelay :: "'d aecmob \<Rightarrow> int \<Rightarrow> 'd aecmob" where
  "WebRtcAecm_EstBufDelay a ms =
     (let nSampFar = int16 (far_samples a);
          nSampSndCard = int16 (ms * kSampMsNb * core_mult a);
          delayNew = int16 (nSampSndCard - nSampFar);
          (a, delayNew) = (if delayNew < int FRAME_LEN then (move_far (int FRAME_LEN) a, int16 (delayNew + int FRAME_LEN))
                           else (a, delayNew));
          f = (8 * filtDelay a + 2 * delayNew) sdiv 10;
          a = a\<lparr>filtDelay := int16 (if 0 > f then 0 else f)\<rparr>;
          diff = int16 (filtDelay a - knownDelay a);
          a = (if diff > 224 then
                 (if lastDelayDiff a < 96 then a\<lparr>timeForDelayChange := 0\<rparr>
                  else a\<lparr>timeForDelayChange := int32 (timeForDelayChange a + 1)\<rparr>)
               else if diff < 96 \<and> knownDelay a > 0 then
                 (if lastDelayDiff a > 224 then a\<lparr>timeForDelayChange := 0\<rparr>
                  else a\<lparr>timeForDelayChange := int32 (timeForDelayChange a + 1)\<rparr>)
               else a\<lparr>timeForDelayChange := 0\<rparr>);
          a = a\<lparr>lastDelayDiff := diff\<rparr>
      in if timeForDelayChange a > 25
         then a\<lparr>knownDelay := (if filtDelay a - 160 > 0 then filtDelay a - 160 else 0)\<rparr> else a)"

subsection \<open>Process\<close>

text \<open>The mechanism of the start-up: the delay of the sound card has to be stable before the size of the
  far-end buffer at the start is chosen, and the buffer has to fill.\<close>

definition check_sound_card :: "'d aecmob \<Rightarrow> int \<Rightarrow> 'd aecmob" where
  "check_sound_card a nBlocks10ms =
     (let a = a\<lparr>checkBufSizeCtr := int16 (checkBufSizeCtr a + 1)\<rparr>;
          a = (if counter a = 0 then a\<lparr>firstVal := msInSndCardBuf a, msSum := 0\<rparr> else a);
          a = (if 5 * \<bar>firstVal a - msInSndCardBuf a\<bar> < max (msInSndCardBuf a) (5 * kSampMsNb)
               then a\<lparr>msSum := int16 (msSum a + msInSndCardBuf a), counter := int16 (counter a + 1)\<rparr>
               else a\<lparr>counter := 0\<rparr>);
          a = (if counter a * nBlocks10ms \<ge> 6 then
                 let size = (3 * msSum a * core_mult a) sdiv (counter a * 40)
                 in a\<lparr>bufSizeStart := int16 (if size < BUF_SIZE_FRAMES then size else BUF_SIZE_FRAMES), checkBuffSize := False\<rparr>
               else a)
      in if checkBufSizeCtr a * nBlocks10ms > 50 then
           let size = (3 * msInSndCardBuf a * core_mult a) sdiv 40
           in a\<lparr>bufSizeStart := int16 (if size < BUF_SIZE_FRAMES then size else BUF_SIZE_FRAMES), checkBuffSize := False\<rparr>
         else a)"

definition startup_step :: "'d aecmob \<Rightarrow> int \<Rightarrow> 'd aecmob" where
  "startup_step a nBlocks10ms =
     (let filled = int16 (far_samples a) sdiv int FRAME_LEN;
          a = (if checkBuffSize a then check_sound_card a nBlocks10ms else a)
      in if \<not> checkBuffSize a then
           (if filled = bufSizeStart a then a\<lparr>ECstartup := False\<rparr>
            else if filled > bufSizeStart a
            then (move_far (far_samples a - bufSizeStart a * int FRAME_LEN) a)\<lparr>ECstartup := False\<rparr>
            else a)
         else a)"

text \<open>The turn of the loop for frame \<open>i\<close>: 80 samples of the far end, the old ones when there are none, are
  handed to the core with the frame of the near end.\<close>

definition fetch_farend :: "'d aecmob \<Rightarrow> nat \<Rightarrow> u16 list \<times> 'd aecmob" where
  "fetch_farend a i =
     (if int16 (far_samples a) sdiv int FRAME_LEN > 0 then
        (case ring_get True [] (farendBuf a) FRAME_LEN of (far, b) \<Rightarrow>
           (far, a\<lparr>farendBuf := b, farendOld := (farendOld a)[i := far]\<rparr>))
      else (farendOld a ! i, a))"

definition process_frame ::
  "'d Adapt block \<Rightarrow> 'd aecmob \<Rightarrow> nat \<Rightarrow> u16 list \<Rightarrow> u16 list option \<Rightarrow> u16 list \<Rightarrow>
    (int \<times> u16 list \<times> 'd aecmob) option" where
  "process_frame block a i noisy clean out =
     (case fetch_farend a i of (far, a) \<Rightarrow>
      let a = (if (i = 0 \<and> sampFreq a = 8000) \<or> (i = 1 \<and> sampFreq a = 16000)
               then WebRtcAecm_EstBufDelay a (msInSndCardBuf a) else a)
      in do {
        part \<leftarrow> read_bytes noisy (FRAME_LEN * i) FRAME_LEN;
        clean_part \<leftarrow> (case clean of None \<Rightarrow> Some None | Some c \<Rightarrow> map_option Some (read_bytes c (FRAME_LEN * i) FRAME_LEN));
        old \<leftarrow> read_bytes out (FRAME_LEN * i) FRAME_LEN;
        (ret, new, core) \<leftarrow> WebRtcAecm_ProcessFrame block (aecmCore a) far part clean_part old;
        Some (ret, write_at out (FRAME_LEN * i) new, a\<lparr>aecmCore := core\<rparr>)
      })"

fun process_loop ::
  "'d Adapt block \<Rightarrow> 'd aecmob \<Rightarrow> nat list \<Rightarrow> u16 list \<Rightarrow> u16 list option \<Rightarrow> u16 list \<Rightarrow> int \<Rightarrow>
    (int \<times> u16 list \<times> 'd aecmob) option" where
  "process_loop block a [] noisy clean out retVal = Some (retVal, out, a)"
| "process_loop block a (i # is) noisy clean out retVal = do {
     (ret, out, a) \<leftarrow> process_frame block a i noisy clean out;
     (if ret = -1 then Some (-1, out, a) else process_loop block a is noisy clean out retVal)
   }"

text \<open>\<open>out\<close> may be the array of the near end: each frame of it is read before that of \<open>out\<close> is written, so
  the result is the same.  \<open>None\<close> is an access outside an array.\<close>

definition WebRtcAecm_Process ::
  "'d Adapt block \<Rightarrow> 'd aecmob option \<Rightarrow> u16 list option \<Rightarrow> u16 list option \<Rightarrow> u16 list option \<Rightarrow> int \<Rightarrow> int \<Rightarrow>
    (int \<times> u16 list option \<times> 'd aecmob option) option" where
  "WebRtcAecm_Process block inst nearendNoisy nearendClean out nrOfSamples ms =
     (case inst of None \<Rightarrow> Some (-1, out, None) | Some a \<Rightarrow>
      case nearendNoisy of None \<Rightarrow> Some (-1, out, Some (a\<lparr>lastError := AECM_NULL_POINTER_ERROR\<rparr>)) | Some noisy \<Rightarrow>
      case out of None \<Rightarrow> Some (-1, out, Some (a\<lparr>lastError := AECM_NULL_POINTER_ERROR\<rparr>)) | Some out \<Rightarrow>
      if initFlag a \<noteq> kInitCheck then Some (-1, Some out, Some (a\<lparr>lastError := AECM_UNINITIALIZED_ERROR\<rparr>))
      else if nrOfSamples \<noteq> 80 \<and> nrOfSamples \<noteq> 160 then Some (-1, Some out, Some (a\<lparr>lastError := AECM_BAD_PARAMETER_ERROR\<rparr>))
      else
        let (ms, a, retVal) =
              (if ms < 0 then (0, a\<lparr>lastError := AECM_BAD_PARAMETER_WARNING\<rparr>, -1)
               else if ms > 500 then (500, a\<lparr>lastError := AECM_BAD_PARAMETER_WARNING\<rparr>, -1)
               else (ms, a, 0));
            ms = ms + 10;
            a = a\<lparr>msInSndCardBuf := ms\<rparr>;
            nFrames = nrOfSamples div int FRAME_LEN;
            nBlocks10ms = nFrames sdiv core_mult a
        in if ECstartup a then do {
             src \<leftarrow> read_bytes (case nearendClean of None \<Rightarrow> noisy | Some clean \<Rightarrow> clean) 0 (nat nrOfSamples);
             out \<leftarrow> write_bytes out 0 src;
             Some (retVal, Some out, Some (startup_step a nBlocks10ms))
           }
           else map_option (\<lambda>(ret, out, a). (ret, Some out, Some a))
                  (process_loop block a [0..<nat nFrames] noisy nearendClean out retVal))"

text \<open>\<open>ProcessBlock\<close> on the 16-bit samples of the rings; the block on the stack is not cleared, its
  contents when \<open>ProcessBlock\<close> fails are not used.\<close>

definition process_block :: "'d dsp \<Rightarrow> 'd Adapt block" where
  "process_block ops c far noisy clean =
     (case WebRtcAecm_ProcessBlock ops c (map sint far) (map sint noisy) (map_option (map sint) clean) (replicate PART_LEN 0) of
        (ret, out, c) \<Rightarrow> (ret, map word_of_int out, c))"

end
