(* ===== verification/Aecm_State.thy ===== *)
theory Aecm_State
  imports Aecm_Control
begin

text \<open>
  The well-formedness of an instance of the echo canceller, and that every call keeps it and returns.
\<close>

definition ring_ok :: "nat \<Rightarrow> 'a RingBuffer \<Rightarrow> bool" where
  "ring_ok n b \<longleftrightarrow> ring_inv b \<and> element_count b = n"

lemma ring_ok_ops:
  assumes "ring_ok n b"
  shows "ring_ok n (snd (WriteBuffer b xs))" "ring_ok n (snd (MoveReadPtr b i))" "ring_ok n (snd (ring_get want memory b k))"
proof -
  have inv: "ring_inv b" "element_count b = n" using assms by (simp_all add: ring_ok_def)
  show "ring_ok n (snd (WriteBuffer b xs))"
    using WriteBuffer_contents(1,2) [OF inv(1)] inv(2) by (metis prod.collapse ring_ok_def)
  show "ring_ok n (snd (MoveReadPtr b i))"
    using MoveReadPtr_available(1,2) [OF inv(1)] inv(2) by (metis prod.collapse ring_ok_def)
  show "ring_ok n (snd (ring_get want memory b k))"
    using ring.get_ok [OF inv(1)] inv(2) by (metis prod.collapse ring_ok_def)
qed

lemma ring_get_props:
  assumes "ring_ok n b" "ring_get want memory b k = (xs, b')"
  shows "length xs \<le> k" "available_read b' = available_read b - k" "ring_ok n b'" "k \<le> available_read b \<Longrightarrow> length xs = k"
proof -
  have inv: "ring_inv b" using assms(1) by (simp add: ring_ok_def)
  note ok = ring.get_ok [OF inv assms(2)]
  show "length xs \<le> k" using ok by simp
  show "ring_ok n b'" using ok assms(1) by (simp add: ring_ok_def)
  show "available_read b' = available_read b - k" "k \<le> available_read b \<Longrightarrow> length xs = k"
    using ok length_contents [OF inv] length_contents [of b'] by auto
qed

lemma cleared_ok: "0 < element_count b \<Longrightarrow> element_count b = n \<Longrightarrow> ring_ok n (cleared b)"
  using cleared_ring(1) [of b] by (simp add: ring_ok_def ring_holds_def)

definition core_inv :: "int \<Rightarrow> 'd Adapt AecmCore \<Rightarrow> bool" where
  "core_inv m c \<longleftrightarrow> mult (adapt c) = m \<and> in_step c \<and> ring_ok 144 (farFrameBuf c) \<and> ring_ok 144 (nearNoisyFrameBuf c) \<and>
     ring_ok 144 (nearCleanFrameBuf c) \<and> ring_ok 144 (outFrameBuf c) \<and> adapt_inv (adapt c)"

text \<open>What an initialised instance satisfies.\<close>

definition aecm_inv :: "'d aecmob \<Rightarrow> bool" where
  "aecm_inv a \<longleftrightarrow> initFlag a = kInitCheck \<and> (sampFreq a = 8000 \<or> sampFreq a = 16000) \<and>
     core_inv (sampFreq a div 8000) (aecmCore a) \<and> ring_ok kBufSizeSamp (farendBuf a) \<and>
     length (farendOld a) = 2 \<and> (\<forall>f \<in> set (farendOld a). length f = FRAME_LEN) \<and>
     0 \<le> filtDelay a \<and> filtDelay a \<le> 32767 \<and> 0 \<le> knownDelay a \<and> bufSizeStart a \<le> 50"

text \<open>What \<open>Create\<close> has set up: the rings with their sizes; everything else is as \<open>malloc\<close> left it.\<close>

definition canceller_created :: "'d aecmob \<Rightarrow> bool" where
  "canceller_created a \<longleftrightarrow> framed (aecmCore a) \<and> element_count (farendBuf a) = kBufSizeSamp \<and>
     length (farendOld a) = 2 \<and> (\<forall>f \<in> set (farendOld a). length f = FRAME_LEN)"

lemma aecm_inv_created: "aecm_inv a \<Longrightarrow> canceller_created a"
  by (auto simp: aecm_inv_def canceller_created_def core_inv_def framed_def in_step_def ring_ok_def)

subsection \<open>The core\<close>

lemma process_block_ok:
  assumes "dsp_ok ops" "adapt_inv c" "length far \<le> 64" "length noisy \<le> 64" "\<And>xs. clean = Some xs \<Longrightarrow> length xs \<le> 64"
    "process_block ops c far noisy clean = (ret, out, c')"
  shows "adapt_inv c'" "length out = 64" "ret = 0 \<or> ret = -1 \<and> \<not> runs I ops c" "mult c' = mult c"
    "runs I ops c \<Longrightarrow> runs I ops c'"
proof -
  obtain o' where p: "WebRtcAecm_ProcessBlock ops c (map sint far) (map sint noisy) (map_option (map sint) clean) (replicate 64 0) =
      (ret, o', c')" "out = map word_of_int o'"
    using assms(6) by (auto simp: process_block_def split: prod.splits)
  have "\<And>xs. map_option (map sint) clean = Some xs \<Longrightarrow> length xs \<le> 64" using assms(5) by auto
  note ok = ProcessBlock_inv [OF assms(2,1) _ _ this p(1)]
  show "adapt_inv c'" "length out = 64" using ok(1-3) assms(3,4) p(2) by fastforce+
  show "ret = 0 \<or> ret = -1 \<and> \<not> runs I ops c" "runs I ops c \<Longrightarrow> runs I ops c'" using ok(3,5) assms(3,4) by auto
  show "mult c' = mult c" using ok(4) assms(3,4) by simp
qed

lemma block_loop_total:
  fixes ops :: "'d dsp"
  assumes ops: "dsp_ok ops"
  shows "core_inv m c \<Longrightarrow> \<exists>ret c'. block_loop (process_block ops) has_clean c = Some (ret, c') \<and> core_inv m c' \<and>
    (ret = 0 \<or> ret = -1 \<and> \<not> runs I ops (adapt c)) \<and> (runs I ops (adapt c) \<longrightarrow> runs I ops (adapt c'))"
proof (induction "available_read (farFrameBuf c)" arbitrary: c rule: less_induct)
  case less
  have c: "in_step c" "ring_ok 144 (farFrameBuf c)" "ring_ok 144 (nearNoisyFrameBuf c)" "ring_ok 144 (nearCleanFrameBuf c)"
    "ring_ok 144 (outFrameBuf c)" "adapt_inv (adapt c)" "mult (adapt c) = m"
    using less.prems by (simp_all add: core_inv_def)
  show ?case
  proof (cases "available_read (farFrameBuf c) \<ge> 64")
    case False
    then show ?thesis using less.prems by (simp add: block_loop.simps)
  next
    case True
    obtain far fb where f: "ring_get True [] (farFrameBuf c) 64 = (far, fb)" by fastforce
    obtain noisy nb where n: "ring_get True [] (nearNoisyFrameBuf c) 64 = (noisy, nb)" by fastforce
    obtain clean cb where k: "(if has_clean then (case ring_get True [] (nearCleanFrameBuf c) 64 of (b, cb) \<Rightarrow> (Some b, cb))
        else (None, nearCleanFrameBuf c)) = (clean, cb)" by fastforce
    have k': "ring_ok 144 cb" "\<And>xs. clean = Some xs \<Longrightarrow> length xs \<le> 64"
      using k ring_get_props [OF c(4)] c(4) by (auto split: if_splits prod.splits)
    obtain ret out s where b: "process_block ops (adapt c) far noisy clean = (ret, out, s)" by (metis prod_cases3)
    note f' = ring_get_props [OF c(2) f] and n' = ring_get_props [OF c(3) n]
    note b' = process_block_ok [OF ops c(6) f'(1) n'(1) k'(2) b]
    define c1 where "c1 = c\<lparr>farFrameBuf := fb, nearNoisyFrameBuf := nb, nearCleanFrameBuf := cb,
      outFrameBuf := snd (WriteBuffer (outFrameBuf c) out), adapt := s\<rparr>"
    have eq: "block_loop (process_block ops) has_clean c = (if ret = -1
        then Some (-1, c\<lparr>farFrameBuf := fb, nearNoisyFrameBuf := nb, nearCleanFrameBuf := cb, adapt := s\<rparr>)
        else block_loop (process_block ops) has_clean c1)"
      unfolding block_loop.simps [of _ _ c] aecm_lengths f n prod.case k b c1_def [symmetric] using True by simp
    show ?thesis
    proof (cases "ret = -1")
      case True
      then show ?thesis using eq c f'(3) n'(3) k'(1) b'(1,4) b'(3,5) [of I] by (simp add: core_inv_def in_step_def)
    next
      case False
      have "core_inv m c1"
        using c f'(3) n'(3) k'(1) b'(1,4) ring_ok_ops(1) [OF c(5)] by (simp add: c1_def core_inv_def in_step_def)
      moreover have "available_read (farFrameBuf c1) < available_read (farFrameBuf c)"
        using f'(2) True by (simp add: c1_def)
      moreover have "adapt c1 = s" by (simp add: c1_def)
      ultimately show ?thesis using less.hyps [of c1] eq False b'(5) [of I] by auto
    qed
  qed
qed

text \<open>The frame read from the output ring does not depend on the memory it is read into.\<close>

lemma read_frame:
  assumes "ring_ok 144 b" "80 \<le> available_read b" "length out = 80" "ReadBuffer b True out 80 = (k, out', ptr, b')"
  shows "b' = snd (MoveReadPtr b 80)" "ring_ok 144 b'"
    "(case ptr of To_Data \<Rightarrow> out' | To_Buffer p \<Rightarrow> write_at out' 0 (take 80 (drop p (ring_data b')))) = take 80 (contents b)"
proof -
  have inv: "ring_inv b" using assms(1) by (simp add: ring_ok_def)
  have len: "80 \<le> length out" using assms(3) by simp
  note rd = ReadBuffer_contents [OF inv len assms(4)] and cont = length_contents [OF inv]
  show "b' = snd (MoveReadPtr b 80)"
    using assms(2,4) by (auto simp: ReadBuffer_def GetBufferReadRegions_def Let_def split: if_splits)
  show "ring_ok 144 b'" using rd(1,2) assms(1) by (simp add: ring_ok_def)
  show "(case ptr of To_Data \<Rightarrow> out' | To_Buffer p \<Rightarrow> write_at out' 0 (take 80 (drop p (ring_data b')))) = take 80 (contents b)"
    using rd(3,5,6) cont assms(2,3) by (cases ptr) auto
qed

lemma stuff_frame:
  assumes "ring_ok 144 b"
  defines "b' \<equiv> (if available_read b < 80 then snd (MoveReadPtr b (int (available_read b) - 80)) else b)"
  shows "ring_ok 144 b'" "80 \<le> available_read b'"
proof -
  show "ring_ok 144 b'" using assms(1) by (simp add: b'_def ring_ok_ops)
  have inv: "ring_inv b" "element_count b = 144" using assms(1) by (simp_all add: ring_ok_def)
  obtain k b1 where m: "MoveReadPtr b (int (available_read b) - 80) = (k, b1)" by fastforce
  note ok = MoveReadPtr_available(3,4) [OF inv(1) m]
  have "available_write b = 144 - available_read b" using inv(2) by (simp add: available_write_def)
  then show "80 \<le> available_read b'" using m ok by (auto simp: b'_def)
qed

lemma ProcessFrame_total:
  fixes ops :: "'d dsp"
  assumes ops: "dsp_ok ops" and c: "core_inv m c" and len: "length far = 80" "length noisy = 80"
  obtains ret new c' where "\<And>out. length out = 80 \<Longrightarrow>
      WebRtcAecm_ProcessFrame (process_block ops) c far noisy clean out = Some (ret, if ret = -1 then out else new, c')"
    "core_inv m c'" "length new = 80" "ret = 0 \<or> ret = -1 \<and> \<not> runs I ops (adapt c)"
    "runs I ops (adapt c) \<longrightarrow> runs I ops (adapt c')"
proof -
  have st: "in_step c" using c by (simp add: core_inv_def)
  obtain c1 b W R where pass: "WebRtcAecm_BufferFarFrame c far 80 = Some c1"
    "WebRtcAecm_FetchFarFrame c1 (replicate 80 0) 80 (core_knownDelay c1) =
      Some (far, c\<lparr>farBuf := b, farBufWritePos := W, farBufReadPos := R\<rparr>)"
    and st': "in_step (c\<lparr>farBuf := b, farBufWritePos := W, farBufReadPos := R\<rparr>)"
    using delay_line_passes [OF st, of far "replicate 80 0"] len(1) by (metis aecm_lengths(1) length_replicate)
  define c2 where "c2 = c\<lparr>farBuf := b, farBufWritePos := W, farBufReadPos := R,
    farFrameBuf := snd (WriteBuffer (farFrameBuf c) far),
    nearNoisyFrameBuf := snd (WriteBuffer (nearNoisyFrameBuf c) noisy)\<rparr>"
  define c3 where "c3 = (case clean of None \<Rightarrow> c2
    | Some xs \<Rightarrow> c2\<lparr>nearCleanFrameBuf := snd (WriteBuffer (nearCleanFrameBuf c2) xs)\<rparr>)"
  have "core_inv m c2" using c st' by (simp add: c2_def core_inv_def in_step_def ring_ok_ops)
  then have "core_inv m c3" by (simp add: c3_def core_inv_def in_step_def ring_ok_ops split: option.split)
  then obtain ret c4 where l: "block_loop (process_block ops) (clean \<noteq> None) c3 = Some (ret, c4)" "core_inv m c4"
    "ret = 0 \<or> ret = -1 \<and> \<not> runs I ops (adapt c3)" "runs I ops (adapt c3) \<longrightarrow> runs I ops (adapt c4)"
    using block_loop_total [OF ops, of m c3 "clean \<noteq> None" I] by blast
  have same: "adapt c3 = adapt c" by (simp add: c3_def c2_def split: option.split)
  define b4 where "b4 = (if available_read (outFrameBuf c4) < 80
    then snd (MoveReadPtr (outFrameBuf c4) (int (available_read (outFrameBuf c4)) - 80)) else outFrameBuf c4)"
  have b4: "ring_ok 144 b4" "80 \<le> available_read b4"
    using l(2) stuff_frame [of "outFrameBuf c4"] by (simp_all add: b4_def core_inv_def)
  define new where "new = take 80 (contents b4)"
  define c5 where "c5 = c4\<lparr>outFrameBuf := snd (MoveReadPtr b4 80)\<rparr>"
  have run: "WebRtcAecm_ProcessFrame (process_block ops) c far noisy clean out =
    (if ret = -1 then Some (-1, out, c4) else Some (0, new, c5))" if out: "length out = 80" for out
  proof -
    obtain k out' ptr b5 where r: "ReadBuffer b4 True out 80 = (k, out', ptr, b5)" by (metis prod_cases4)
    note rd = read_frame [OF b4 out r]
    show ?thesis
      using l(1) [unfolded c3_def c2_def] r rd(3)
      by (cases clean; simp add: WebRtcAecm_ProcessFrame_def pass b4_def [symmetric] Let_def new_def c5_def rd(1)
          cong: if_cong where_data.case_cong)
  qed
  have "core_inv m c5"
    using l(2) ring_ok_ops(2) [OF b4(1)] by (simp add: c5_def core_inv_def in_step_def)
  moreover have "length new = 80"
    using b4 length_contents [of b4] by (simp add: new_def ring_ok_def)
  ultimately show ?thesis
    using that [of ret new "if ret = -1 then c4 else c5"] run l(2-4) same by (auto simp: c5_def)
qed

subsection \<open>The far end and the delay\<close>

lemma kBufSizeSamp [simp]: "kBufSizeSamp = 4000"
  by (simp add: kBufSizeSamp_def)

lemma far_samples_range: "ring_ok kBufSizeSamp (farendBuf a) \<Longrightarrow> 0 \<le> far_samples a \<and> far_samples a \<le> 4000"
  using available_read_le [of "farendBuf a"] by (simp add: far_samples_def ring_ok_def)

lemma move_far_inv: "aecm_inv a \<Longrightarrow> aecm_inv (move_far n a)"
  by (simp add: aecm_inv_def move_far_def core_mult_def ring_ok_ops)

lemma delay_fields:
  "aecm_inv (a\<lparr>delayChange := d\<rparr>) \<longleftrightarrow> aecm_inv a" "aecm_inv (a\<lparr>timeForDelayChange := t\<rparr>) \<longleftrightarrow> aecm_inv a"
  "aecm_inv (a\<lparr>lastDelayDiff := l\<rparr>) \<longleftrightarrow> aecm_inv a" "aecm_inv (a\<lparr>lastError := e\<rparr>) \<longleftrightarrow> aecm_inv a"
  "aecm_inv (a\<lparr>checkBufSizeCtr := c\<rparr>) \<longleftrightarrow> aecm_inv a" "aecm_inv (a\<lparr>counter := n\<rparr>) \<longleftrightarrow> aecm_inv a"
  "aecm_inv (a\<lparr>msSum := m\<rparr>) \<longleftrightarrow> aecm_inv a" "aecm_inv (a\<lparr>firstVal := v\<rparr>) \<longleftrightarrow> aecm_inv a"
  "aecm_inv (a\<lparr>checkBuffSize := b\<rparr>) \<longleftrightarrow> aecm_inv a" "aecm_inv (a\<lparr>ECstartup := s\<rparr>) \<longleftrightarrow> aecm_inv a"
  "aecm_inv (a\<lparr>msInSndCardBuf := i\<rparr>) \<longleftrightarrow> aecm_inv a"
  by (simp_all add: aecm_inv_def core_mult_def)

lemma DelayComp_inv: "aecm_inv a \<Longrightarrow> aecm_inv (WebRtcAecm_DelayComp a)"
  by (simp add: WebRtcAecm_DelayComp_def Let_def delay_fields move_far_inv)

lemma filt_delay_range:
  assumes "0 \<le> f" "f \<le> 32767" "n \<le> 32767"
  defines "x \<equiv> (8 * f + 2 * n) sdiv 10"
  shows "0 \<le> int16 (if 0 > x then 0 else x) \<and> int16 (if 0 > x then 0 else x) \<le> 32767"
proof (cases "8 * f + 2 * n \<ge> 0")
  case True
  then have "x = (8 * f + 2 * n) div 10"
    by (cases "8 * f + 2 * n = 0") (simp_all add: x_def signed_divide_int_def)
  then have "0 \<le> x" "x \<le> 32767" using True assms by linarith+
  then show ?thesis by (simp add: int16_id)
next
  case False
  then have "x \<le> 0" by (simp add: x_def signed_divide_int_def)
  then show ?thesis by (simp add: int16_id)
qed

lemma EstBufDelay_inv:
  assumes "aecm_inv a"
  shows "aecm_inv (WebRtcAecm_EstBufDelay a ms)"
proof -
  define d where "d = int16 (int16 (ms * kSampMsNb * core_mult a) - int16 (far_samples a))"
  define a1 where "a1 = (if d < 80 then move_far 80 a else a)"
  define dn where "dn = (if d < 80 then int16 (d + 80) else d)"
  have a1: "aecm_inv a1" "filtDelay a1 = filtDelay a" using assms by (simp_all add: a1_def move_far_inv) (simp add: move_far_def)
  define f where "f = int16 (if 0 > (8 * filtDelay a1 + 2 * dn) sdiv 10 then 0 else (8 * filtDelay a1 + 2 * dn) sdiv 10)"
  have "0 \<le> f \<and> f \<le> 32767"
    unfolding f_def using a1 int16_range(2) by (intro filt_delay_range) (auto simp: aecm_inv_def dn_def d_def)
  then have a2: "aecm_inv (a1\<lparr>filtDelay := f\<rparr>)" using a1(1) by (simp add: aecm_inv_def core_mult_def)
  have known: "aecm_inv (b\<lparr>knownDelay := k\<rparr>)" if "aecm_inv b" "0 \<le> k" for b :: "'a aecmob" and k
    using that by (simp add: aecm_inv_def core_mult_def)
  have pair: "(if d < 80 then (move_far 80 a, int16 (d + 80)) else (a, d)) = (a1, dn)"
    by (simp add: a1_def dn_def)
  show ?thesis
    unfolding WebRtcAecm_EstBufDelay_def Let_def aecm_lengths of_nat_numeral d_def [symmetric] pair prod.case f_def [symmetric]
    by (simp add: known a2 delay_fields)
qed

text \<open>The estimate touches only the position in the far end and its own fields.\<close>

lemma EstBufDelay_keeps:
  "farendBuf (WebRtcAecm_EstBufDelay a ms) =
     (if int16 (int16 (ms * kSampMsNb * core_mult a) - int16 (far_samples a)) < 80
      then snd (MoveReadPtr (farendBuf a) 80) else farendBuf a)"
  "initFlag (WebRtcAecm_EstBufDelay a ms) = initFlag a" "sampFreq (WebRtcAecm_EstBufDelay a ms) = sampFreq a"
  "aecmCore (WebRtcAecm_EstBufDelay a ms) = aecmCore a" "ECstartup (WebRtcAecm_EstBufDelay a ms) = ECstartup a"
  "msInSndCardBuf (WebRtcAecm_EstBufDelay a ms) = msInSndCardBuf a" "lastError (WebRtcAecm_EstBufDelay a ms) = lastError a"
  "farendOld (WebRtcAecm_EstBufDelay a ms) = farendOld a"
proof -
  have tm: "(if p then (if q then b\<lparr>timeForDelayChange := 0\<rparr> else b\<lparr>timeForDelayChange := x\<rparr>)
      else if r then (if s then b\<lparr>timeForDelayChange := 0\<rparr> else b\<lparr>timeForDelayChange := y\<rparr>) else b\<lparr>timeForDelayChange := 0\<rparr>) =
    b\<lparr>timeForDelayChange := (if p then (if q then 0 else x) else if r then (if s then 0 else y) else 0)\<rparr>"
    for p q r s x y and b :: "'a aecmob" by simp
  have last: "(if p then b\<lparr>knownDelay := k\<rparr> else b) = b\<lparr>knownDelay := (if p then k else knownDelay b)\<rparr>"
    for p k and b :: "'a aecmob" by simp
  define d where "d = int16 (int16 (ms * kSampMsNb * core_mult a) - int16 (far_samples a))"
  define a1 where "a1 = (if d < 80 then move_far 80 a else a)"
  define dn where "dn = (if d < 80 then int16 (d + 80) else d)"
  have pair: "(if d < 80 then (move_far 80 a, int16 (d + 80)) else (a, d)) = (a1, dn)" by (simp add: a1_def dn_def)
  have a1: "farendBuf a1 = (if d < 80 then snd (MoveReadPtr (farendBuf a) 80) else farendBuf a)" "initFlag a1 = initFlag a"
    "sampFreq a1 = sampFreq a" "aecmCore a1 = aecmCore a" "ECstartup a1 = ECstartup a" "msInSndCardBuf a1 = msInSndCardBuf a"
    "lastError a1 = lastError a" "farendOld a1 = farendOld a" by (simp_all add: a1_def move_far_def)
  show "farendBuf (WebRtcAecm_EstBufDelay a ms) =
     (if int16 (int16 (ms * kSampMsNb * core_mult a) - int16 (far_samples a)) < 80
      then snd (MoveReadPtr (farendBuf a) 80) else farendBuf a)"
    "initFlag (WebRtcAecm_EstBufDelay a ms) = initFlag a" "sampFreq (WebRtcAecm_EstBufDelay a ms) = sampFreq a"
    "aecmCore (WebRtcAecm_EstBufDelay a ms) = aecmCore a" "ECstartup (WebRtcAecm_EstBufDelay a ms) = ECstartup a"
    "msInSndCardBuf (WebRtcAecm_EstBufDelay a ms) = msInSndCardBuf a" "lastError (WebRtcAecm_EstBufDelay a ms) = lastError a"
    "farendOld (WebRtcAecm_EstBufDelay a ms) = farendOld a"
    unfolding WebRtcAecm_EstBufDelay_def Let_def aecm_lengths of_nat_numeral d_def [symmetric] pair prod.case tm last
    by (simp_all add: a1 split del: if_split)
qed

text \<open>Nor do the frames touch \<open>lastError\<close>.\<close>

lemma fetch_farend_error: "lastError (snd (fetch_farend a i)) = lastError a"
  by (simp add: fetch_farend_def split_beta)

lemma process_frame_error:
  "process_frame block a i noisy clean out = Some (ret, out', a') \<Longrightarrow> lastError a' = lastError a"
proof -
  assume run: "process_frame block a i noisy clean out = Some (ret, out', a')"
  obtain far a1 where f: "fetch_farend a i = (far, a1)" by fastforce
  have "lastError a1 = lastError a" using fetch_farend_error [of a i] f by simp
  then show ?thesis
    using run by (auto simp: process_frame_def f EstBufDelay_keeps Let_def split: Option.bind_splits)
qed

lemma process_loop_error:
  "process_loop block a is noisy clean out r = Some (ret, out', a') \<Longrightarrow> lastError a' = lastError a"
  by (induction block a "is" noisy clean out r rule: process_loop.induct)
    (auto split: Option.bind_splits if_splits dest!: process_frame_error)

lemma process_loop_ret:
  "process_loop block a is noisy clean out r = Some (ret, out', a') \<Longrightarrow> ret = r \<or> ret = -1"
  by (induction block a "is" noisy clean out r rule: process_loop.induct)
    (auto split: Option.bind_splits if_splits)

lemma DelayComp_keeps:
  "lastError (WebRtcAecm_DelayComp a) = lastError a" "aecmCore (WebRtcAecm_DelayComp a) = aecmCore a"
  by (simp_all add: WebRtcAecm_DelayComp_def Let_def move_far_def)

lemma startup_step_keeps:
  "lastError (startup_step a n) = lastError a" "farendOld (startup_step a n) = farendOld a"
  "aecmCore (startup_step a n) = aecmCore a"
proof -
  have chk: "lastError (check_sound_card b n) = lastError b" "farendOld (check_sound_card b n) = farendOld b"
    "aecmCore (check_sound_card b n) = aecmCore b" for b :: "'a aecmob"
  proof -
    define b1 where "b1 = b\<lparr>checkBufSizeCtr := int16 (checkBufSizeCtr b + 1)\<rparr>"
    define b2 where "b2 = (if counter b1 = 0 then b1\<lparr>firstVal := msInSndCardBuf b1, msSum := 0\<rparr> else b1)"
    define b3 where "b3 = (if 5 * \<bar>firstVal b2 - msInSndCardBuf b2\<bar> < max (msInSndCardBuf b2) (5 * kSampMsNb)
      then b2\<lparr>msSum := int16 (msSum b2 + msInSndCardBuf b2), counter := int16 (counter b2 + 1)\<rparr> else b2\<lparr>counter := 0\<rparr>)"
    have b3: "lastError b3 = lastError b" "farendOld b3 = farendOld b" "aecmCore b3 = aecmCore b"
      by (simp_all add: b3_def b2_def b1_def)
    show "lastError (check_sound_card b n) = lastError b" "farendOld (check_sound_card b n) = farendOld b"
      "aecmCore (check_sound_card b n) = aecmCore b"
      unfolding check_sound_card_def b1_def [symmetric] Let_def b2_def [symmetric] b3_def [symmetric] by (simp_all add: b3)
  qed
  define a1 where "a1 = (if checkBuffSize a then check_sound_card a n else a)"
  have a1: "lastError a1 = lastError a" "farendOld a1 = farendOld a" "aecmCore a1 = aecmCore a"
    by (simp_all add: a1_def chk)
  show "lastError (startup_step a n) = lastError a" "farendOld (startup_step a n) = farendOld a"
    "aecmCore (startup_step a n) = aecmCore a"
    unfolding startup_step_def a1_def [symmetric] Let_def by (simp_all add: move_far_def a1)
qed

lemma fetch_farend_inv:
  assumes "aecm_inv a" "fetch_farend a i = (far, a')" "i < 2"
  shows "aecm_inv a'" "length far = 80"
proof -
  have rg: "ring_ok kBufSizeSamp (farendBuf a)" using assms(1) by (simp add: aecm_inv_def)
  note r = far_samples_range [OF rg]
  have "aecm_inv a' \<and> length far = 80"
  proof (cases "int16 (far_samples a) sdiv 80 > 0")
    case True
    then have "far_samples a sdiv 80 > 0" using r by (simp add: int16_id)
    then have "far_samples a \<ge> 80"
      using r by (cases "far_samples a = 0") (auto simp: signed_divide_int_def pos_imp_zdiv_pos_iff)
    then have av: "80 \<le> available_read (farendBuf a)" by (simp add: far_samples_def)
    obtain xs b where g: "ring_get True [] (farendBuf a) 80 = (xs, b)" by fastforce
    note ok = ring_get_props [OF rg g]
    have "set ((farendOld a)[i := xs]) \<subseteq> insert xs (set (farendOld a))" by (rule set_update_subset_insert)
    then show ?thesis
      using True assms(1,2) g ok av by (auto simp: fetch_farend_def aecm_inv_def core_mult_def)
  next
    case False
    then show ?thesis using assms by (auto simp: fetch_farend_def aecm_inv_def)
  qed
  then show "aecm_inv a'" "length far = 80" by simp_all
qed

lemma size_range:
  fixes s :: int
  assumes "\<bar>s\<bar> \<le> 196608" "c \<noteq> 0"
  shows "int16 (if s sdiv (c * 40) < 50 then s sdiv (c * 40) else 50) \<le> 50"
proof -
  have "\<bar>s sdiv (c * 40)\<bar> \<le> \<bar>s\<bar> div \<bar>c * 40\<bar>"
    by (simp add: signed_divide_int_def abs_mult abs_sgn_eq div_int_pos_iff)
  also have "\<bar>s\<bar> div \<bar>c * 40\<bar> \<le> \<bar>s\<bar> div 40"
    using assms(2) by (intro zdiv_mono2) auto
  also have "\<dots> \<le> 4915" using assms(1) by linarith
  finally show ?thesis by (auto simp: int16_id)
qed

lemma startup_step_inv:
  assumes "aecm_inv a" "0 \<le> msInSndCardBuf a" "msInSndCardBuf a \<le> 510"
  shows "aecm_inv (startup_step a n)"
proof -
  have size: "aecm_inv (b\<lparr>bufSizeStart := int16 (if s sdiv (c * 40) < 50 then s sdiv (c * 40) else 50), checkBuffSize := False\<rparr>)"
    if "aecm_inv b" "\<bar>s\<bar> \<le> 196608" "c \<noteq> 0" for b :: "'a aecmob" and s c
    using that size_range [of s c] by (simp add: aecm_inv_def core_mult_def)
  have chk: "aecm_inv (check_sound_card a n)"
  proof -
    define a1 where "a1 = a\<lparr>checkBufSizeCtr := int16 (checkBufSizeCtr a + 1)\<rparr>"
    define a2 where "a2 = (if counter a1 = 0 then a1\<lparr>firstVal := msInSndCardBuf a1, msSum := 0\<rparr> else a1)"
    define a3 where "a3 = (if 5 * \<bar>firstVal a2 - msInSndCardBuf a2\<bar> < max (msInSndCardBuf a2) (5 * kSampMsNb)
      then a2\<lparr>msSum := int16 (msSum a2 + msInSndCardBuf a2), counter := int16 (counter a2 + 1)\<rparr> else a2\<lparr>counter := 0\<rparr>)"
    have a3: "aecm_inv a3" "msInSndCardBuf a3 = msInSndCardBuf a"
      using assms(1) by (simp_all add: a3_def a2_def a1_def delay_fields)
    have sum: "\<bar>msSum a3\<bar> \<le> 32768" if "counter a3 \<noteq> 0"
      using that int16_range [of "msSum a2 + msInSndCardBuf a2"] by (auto simp: a3_def split: if_splits)
    have m: "core_mult b = 1 \<or> core_mult b = 2" if "aecm_inv b" for b :: "'a aecmob"
      using that by (auto simp: aecm_inv_def core_inv_def core_mult_def)
    define a4 where "a4 = (if counter a3 * n \<ge> 6 then
        a3\<lparr>bufSizeStart := int16 (if (3 * msSum a3 * core_mult a3) sdiv (counter a3 * 40) < 50
            then (3 * msSum a3 * core_mult a3) sdiv (counter a3 * 40) else 50), checkBuffSize := False\<rparr>
      else a3)"
    have "aecm_inv a4"
    proof (cases "counter a3 * n \<ge> 6")
      case True
      then have "counter a3 \<noteq> 0" by auto
      then show ?thesis using size [of a3 "3 * msSum a3 * core_mult a3" "counter a3"] sum m [OF a3(1)] a3(1) True
        by (auto simp: a4_def)
    qed (simp add: a4_def a3)
    moreover have "msInSndCardBuf a4 = msInSndCardBuf a" by (simp add: a4_def a3(2))
    ultimately show ?thesis
      using size [of a4 "3 * msInSndCardBuf a4 * core_mult a4" 1] m [of a4] assms(2,3)
      unfolding check_sound_card_def Let_def BUF_SIZE_FRAMES_def a1_def [symmetric] a2_def [symmetric] a3_def [symmetric]
        a4_def [symmetric]
      by (auto simp: delay_fields)
  qed
  show ?thesis
    using assms(1) chk unfolding startup_step_def Let_def by (simp add: delay_fields move_far_inv)
qed

subsection \<open>The calls\<close>

lemma process_frame_total:
  fixes ops :: "'d dsp"
  assumes ops: "dsp_ok ops" and a: "aecm_inv a" and i: "i < 2"
    and len: "80 * i + 80 \<le> length noisy" "80 * i + 80 \<le> length out" "\<And>xs. clean = Some xs \<Longrightarrow> 80 * i + 80 \<le> length xs"
  shows "\<exists>ret out' a'. process_frame (process_block ops) a i noisy clean out = Some (ret, out', a') \<and> aecm_inv a' \<and>
    length out' = length out \<and> (ret = 0 \<or> ret = -1 \<and> \<not> runs I ops (adapt (aecmCore a))) \<and>
    (runs I ops (adapt (aecmCore a)) \<longrightarrow> runs I ops (adapt (aecmCore a')))"
proof -
  obtain far a1 where f: "fetch_farend a i = (far, a1)" by fastforce
  note f' = fetch_farend_inv [OF a f i]
  define a2 where "a2 = (if (i = 0 \<and> sampFreq a1 = 8000) \<or> (i = 1 \<and> sampFreq a1 = 16000)
    then WebRtcAecm_EstBufDelay a1 (msInSndCardBuf a1) else a1)"
  have a2: "aecm_inv a2" using f'(1) by (simp add: a2_def EstBufDelay_inv)
  have same: "aecmCore a2 = aecmCore a" using f by (auto simp: a2_def EstBufDelay_keeps fetch_farend_def split: if_splits prod.splits)
  define cl where "cl = map_option (\<lambda>c. take 80 (drop (80 * i) c)) clean"
  have cl: "(case clean of None \<Rightarrow> Some None | Some c \<Rightarrow> map_option Some (read_bytes c (80 * i) 80)) = Some cl"
    using len(3) by (cases clean) (auto simp: cl_def)
  let ?m = "sampFreq a2 div 8000"
  have core: "core_inv ?m (aecmCore a2)" using a2 by (simp add: aecm_inv_def)
  have noisy: "read_bytes noisy (80 * i) 80 = Some (take 80 (drop (80 * i) noisy))"
    and old: "read_bytes out (80 * i) 80 = Some (take 80 (drop (80 * i) out))"
    using len(1,2) by simp_all
  obtain ret new c where p: "WebRtcAecm_ProcessFrame (process_block ops) (aecmCore a2) far (take 80 (drop (80 * i) noisy)) cl
      (take 80 (drop (80 * i) out)) = Some (ret, new, c)" "core_inv ?m c" "length new = 80" "ret = 0 \<or> ret = -1 \<and> \<not> runs I ops (adapt (aecmCore a2))"
    "runs I ops (adapt (aecmCore a2)) \<longrightarrow> runs I ops (adapt c)"
  proof -
    have sizes: "length (take 80 (drop (80 * i) noisy)) = 80" "length (take 80 (drop (80 * i) out)) = 80"
      using len(1,2) by simp_all
    show thesis
      by (rule ProcessFrame_total [OF ops core f'(2) sizes(1), where clean = cl and I = I]) (use that sizes(2) in fastforce)
  qed
  have "process_frame (process_block ops) a i noisy clean out = Some (ret, write_at out (80 * i) new, a2\<lparr>aecmCore := c\<rparr>)"
    unfolding process_frame_def f prod.case Let_def a2_def [symmetric] aecm_lengths noisy cl old
    by (simp add: p(1))
  moreover have "aecm_inv (a2\<lparr>aecmCore := c\<rparr>)" using a2 p(2) by (simp add: aecm_inv_def)
  ultimately show ?thesis using p(3-5) len(2) by (simp add: same)
qed

lemma process_loop_total:
  fixes ops :: "'d dsp"
  assumes ops: "dsp_ok ops"
  shows "aecm_inv a \<Longrightarrow> \<forall>i \<in> set is. i < 2 \<and> 80 * i + 80 \<le> length noisy \<and> 80 * i + 80 \<le> length out \<and>
      (\<forall>xs. clean = Some xs \<longrightarrow> 80 * i + 80 \<le> length xs) \<Longrightarrow>
    \<exists>ret out' a'. process_loop (process_block ops) a is noisy clean out retVal = Some (ret, out', a') \<and> aecm_inv a' \<and>
      length out' = length out \<and> (ret = retVal \<or> ret = -1 \<and> \<not> runs I ops (adapt (aecmCore a))) \<and>
      (runs I ops (adapt (aecmCore a)) \<longrightarrow> runs I ops (adapt (aecmCore a')))"
proof (induction "is" arbitrary: a out)
  case (Cons i "is")
  have i: "i < 2" "80 * i + 80 \<le> length noisy" "80 * i + 80 \<le> length out" "\<And>xs. clean = Some xs \<Longrightarrow> 80 * i + 80 \<le> length xs"
    using Cons.prems(2) by simp_all
  obtain ret out1 a1 where f: "process_frame (process_block ops) a i noisy clean out = Some (ret, out1, a1)" "aecm_inv a1"
    "length out1 = length out" "ret = 0 \<or> ret = -1 \<and> \<not> runs I ops (adapt (aecmCore a))"
    "runs I ops (adapt (aecmCore a)) \<longrightarrow> runs I ops (adapt (aecmCore a1))"
    using process_frame_total [OF ops Cons.prems(1) i, where I = I] by blast
  then show ?case using Cons.IH [OF f(2), of out1] Cons.prems(2) by (cases "ret = -1") auto
qed simp

text \<open>A call of \<open>Process\<close> returns, inside the arrays it was given, and keeps the instance well-formed.\<close>

definition frame_arrays :: "int \<Rightarrow> u16 list option \<Rightarrow> bool" where
  "frame_arrays n p \<longleftrightarrow> (\<forall>xs. p = Some xs \<longrightarrow> n \<le> int (length xs))"

lemma Process_total:
  fixes ops :: "'d dsp"
  assumes ops: "dsp_ok ops" and a: "aecm_inv a" and n: "n \<in> {80, 160}"
    and len: "frame_arrays n noisy" "frame_arrays n clean" "frame_arrays n out"
  shows "\<exists>ret out' a'. WebRtcAecm_Process (process_block ops) (Some a) noisy clean out n ms = Some (ret, out', Some a') \<and>
    aecm_inv a' \<and> map_option length out' = map_option length out \<and> (ret = 0 \<or> ret = -1) \<and>
    (runs I ops (adapt (aecmCore a)) \<longrightarrow> runs I ops (adapt (aecmCore a')) \<and>
      (noisy \<noteq> None \<and> out \<noteq> None \<and> 0 \<le> ms \<and> ms \<le> 500 \<longrightarrow> ret = 0))"
proof (cases "noisy = None \<or> out = None")
  case True
  then show ?thesis
    using a by (cases noisy; cases out) (simp_all add: WebRtcAecm_Process_def delay_fields)
next
  case False
  then obtain x buf where xo: "noisy = Some x" "out = Some buf" by auto
  have lx: "n \<le> int (length x)" "n \<le> int (length buf)" "\<And>y. clean = Some y \<Longrightarrow> n \<le> int (length y)"
    using len xo by (simp_all add: frame_arrays_def)
  obtain ms' a1 r where m: "(if ms < 0 then (0, a\<lparr>lastError := AECM_BAD_PARAMETER_WARNING\<rparr>, -1)
      else if ms > 500 then (500, a\<lparr>lastError := AECM_BAD_PARAMETER_WARNING\<rparr>, -1) else (ms, a, 0 :: int)) = (ms', a1, r)"
    by (metis prod_cases3)
  have a1: "aecm_inv a1" "0 \<le> ms'" "ms' \<le> 500" "r = 0 \<or> r = -1" "0 \<le> ms \<Longrightarrow> ms \<le> 500 \<Longrightarrow> r = 0"
    using m a by (auto simp: delay_fields split: if_splits)
  define a2 where "a2 = a1\<lparr>msInSndCardBuf := ms' + 10\<rparr>"
  have a2: "aecm_inv a2" "msInSndCardBuf a2 = ms' + 10" using a1(1) by (simp_all add: a2_def delay_fields)
  have same: "aecmCore a2 = aecmCore a" using m by (auto simp: a2_def split: if_splits)
  have init: "initFlag a = kInitCheck" using a by (simp add: aecm_inv_def)
  have eq: "WebRtcAecm_Process (process_block ops) (Some a) noisy clean out n ms =
    (if ECstartup a2 then do {
       src \<leftarrow> read_bytes (case clean of None \<Rightarrow> x | Some clean \<Rightarrow> clean) 0 (nat n);
       out \<leftarrow> write_bytes buf 0 src;
       Some (r, Some out, Some (startup_step a2 ((n div 80) sdiv core_mult a2)))
     }
     else map_option (\<lambda>(ret, out, a). (ret, Some out, Some a))
       (process_loop (process_block ops) a2 [0..<nat (n div 80)] x clean buf r))"
    using n init unfolding WebRtcAecm_Process_def xo option.case Let_def m prod.case a2_def [symmetric] aecm_lengths
      of_nat_numeral by auto
  show ?thesis
  proof (cases "ECstartup a2")
    case True
    define y where "y = (case clean of None \<Rightarrow> x | Some clean \<Rightarrow> clean)"
    have "nat n \<le> length y" using lx by (cases clean) (auto simp: y_def)
    moreover have "aecm_inv (startup_step a2 ((n div 80) sdiv core_mult a2))"
      using startup_step_inv [OF a2(1)] a2(2) a1(2,3) by simp
    ultimately show ?thesis
      using True lx(2) a1(4,5) unfolding eq y_def [symmetric] by (auto simp: xo startup_step_keeps same)
  next
    case False
    have "\<forall>i \<in> set [0..<nat (n div 80)]. i < 2 \<and> 80 * i + 80 \<le> length x \<and> 80 * i + 80 \<le> length buf \<and>
        (\<forall>xs. clean = Some xs \<longrightarrow> 80 * i + 80 \<le> length xs)"
      using n lx by (auto simp: less_Suc_eq numeral_2_eq_2 dest!: lx(3))
    then obtain ret buf' a' where "process_loop (process_block ops) a2 [0..<nat (n div 80)] x clean buf r = Some (ret, buf', a')"
      "aecm_inv a'" "length buf' = length buf" "ret = r \<or> ret = -1 \<and> \<not> runs I ops (adapt (aecmCore a2))"
      "runs I ops (adapt (aecmCore a2)) \<longrightarrow> runs I ops (adapt (aecmCore a'))"
      using process_loop_total [OF ops a2(1), of "[0..<nat (n div 80)]" x buf clean r I] by blast
    then show ?thesis using False a1(4,5) unfolding eq by (auto simp: xo same)
  qed
qed

lemma BufferFarend_inv:
  assumes "aecm_inv a" "WebRtcAecm_BufferFarend (Some a) far n = (ret, inst)"
  shows "\<exists>a'. inst = Some a' \<and> aecm_inv a'"
proof -
  have w: "aecm_inv (b\<lparr>farendBuf := snd (WriteBuffer (farendBuf b) xs)\<rparr>)" if "aecm_inv b" for b :: "'a aecmob" and xs
    using that by (simp add: aecm_inv_def ring_ok_ops)
  show ?thesis
    using assms unfolding WebRtcAecm_BufferFarend_def Let_def
    by (auto simp: delay_fields DelayComp_inv w split: option.splits if_splits)
qed

lemma mode_scale_gains:
  assumes "0 \<le> mode" "mode \<le> 4"
  defines "s \<equiv> mode_scale mode"
  shows "gains_ok (c\<lparr>supGain := s SUPGAIN_DEFAULT, supGainOld := s SUPGAIN_DEFAULT,
    supGainErrParamA := s SUPGAIN_ERROR_PARAM_A, supGainErrParamD := s SUPGAIN_ERROR_PARAM_D,
    supGainErrParamDiffAB := s SUPGAIN_ERROR_PARAM_A - s SUPGAIN_ERROR_PARAM_B,
    supGainErrParamDiffBD := s SUPGAIN_ERROR_PARAM_B - s SUPGAIN_ERROR_PARAM_D\<rparr>)"
proof -
  have "mode = 0 \<or> mode = 1 \<or> mode = 2 \<or> mode = 3 \<or> mode = 4" using assms by auto
  then show ?thesis
    by (auto simp: s_def gains_ok_def mode_scale_def drop_bit_eq_div push_bit_eq_mult SUPGAIN_DEFAULT_def
        SUPGAIN_ERROR_PARAM_A_def SUPGAIN_ERROR_PARAM_B_def SUPGAIN_ERROR_PARAM_D_def)
qed

lemma set_config_inv:
  assumes "aecm_inv a" "WebRtcAecm_set_config (Some a) cfg = (ret, inst)"
  shows "\<exists>a'. inst = Some a' \<and> aecm_inv a'"
proof -
  define a1 where "a1 = with_adapt (\<lambda>c. c\<lparr>cngMode := fst cfg\<rparr>) a"
  have a1: "aecm_inv a1"
    using assms(1) by (simp add: a1_def with_adapt_def aecm_inv_def core_inv_def in_step_def adapt_inv_defs)
  have "aecm_inv (with_adapt (\<lambda>c. c\<lparr>supGain := mode_scale (snd cfg) SUPGAIN_DEFAULT, supGainOld := mode_scale (snd cfg) SUPGAIN_DEFAULT,
      supGainErrParamA := mode_scale (snd cfg) SUPGAIN_ERROR_PARAM_A, supGainErrParamD := mode_scale (snd cfg) SUPGAIN_ERROR_PARAM_D,
      supGainErrParamDiffAB := mode_scale (snd cfg) SUPGAIN_ERROR_PARAM_A - mode_scale (snd cfg) SUPGAIN_ERROR_PARAM_B,
      supGainErrParamDiffBD := mode_scale (snd cfg) SUPGAIN_ERROR_PARAM_B - mode_scale (snd cfg) SUPGAIN_ERROR_PARAM_D\<rparr>)
      (a1\<lparr>echoMode := snd cfg\<rparr>))" if "0 \<le> snd cfg" "snd cfg \<le> 4"
    using a1 mode_scale_gains [OF that, of "adapt (aecmCore a1)"]
    by (simp add: with_adapt_def aecm_inv_def core_inv_def in_step_def adapt_inv_def adapt_lens_def adapt_levels_def channel_ok_def)
  then show ?thesis
    using assms a1 unfolding WebRtcAecm_set_config_def Let_def option.case a1_def [symmetric]
    by (auto simp: delay_fields split: if_splits)
qed

lemma InitEchoPath_inv:
  assumes "aecm_inv a" "\<And>xs. path = Some xs \<Longrightarrow> 65 \<le> length xs \<and> (\<forall>x \<in> set xs. -32768 \<le> x \<and> x \<le> 32767)"
    "WebRtcAecm_InitEchoPath (Some a) path n = (ret, inst)"
  shows "\<exists>a'. inst = Some a' \<and> aecm_inv a'"
proof -
  have p: "aecm_inv (with_adapt (\<lambda>c. WebRtcAecm_InitEchoPathCore c xs) a)"
    if xs: "65 \<le> length xs" "\<forall>x \<in> set xs. -32768 \<le> x \<and> x \<le> 32767" for xs
  proof -
    have "\<forall>x \<in> set (take 65 xs). -2147483648 \<le> int32 (push_bit 16 x) \<and> int32 (push_bit 16 x) < 2147483648"
      using channel32 by blast
    then show ?thesis
      using assms(1) xs
      by (auto simp: with_adapt_def aecm_inv_def core_inv_def in_step_def adapt_inv_defs WebRtcAecm_InitEchoPathCore_def
          list_all_iff dest!: in_set_takeD)
  qed
  then show ?thesis
    using assms unfolding WebRtcAecm_InitEchoPath_def by (auto simp: delay_fields split: option.splits)
qed

lemma Init_inv:
  assumes "canceller_created a" "WebRtcAecm_Init init_delay (Some a) freq = (0, inst)"
  shows "\<exists>a' c. inst = Some a' \<and> aecm_inv a' \<and> sampFreq a' = freq \<and> ECstartup a' \<and> checkBuffSize a' \<and>
    counter a' = 0 \<and> msSum a' = 0 \<and> checkBufSizeCtr a' = 0 \<and> farendBuf a' = cleared (farendBuf a) \<and>
    aecmCore a' = (init_frames (aecmCore a))\<lparr>adapt := c\<rparr> \<and>
    farendOld a' ! 0 = replicate 80 0 \<and> farendOld a' ! 1 = farendOld a ! 1"
proof -
  have f: "freq = 8000 \<or> freq = 16000"
    using assms(2) by (auto simp: WebRtcAecm_Init_def split: if_splits)
  obtain r ad where i: "init_adapt init_delay freq (adapt (aecmCore a)) = (r, ad)" by fastforce
  have ic: "WebRtcAecm_InitCore init_delay (aecmCore a) freq = (r, (init_frames (aecmCore a))\<lparr>adapt := ad\<rparr>)"
    using f i by (auto simp: WebRtcAecm_InitCore_def)
  have "r \<noteq> -1" using assms(2) f ic by (auto simp: WebRtcAecm_Init_def Let_def split: if_splits)
  then have "r = 0" using i by (auto simp: init_adapt_def Let_def split: if_splits option.splits)
  then have ad: "adapt_inv ad" "mult ad = freq div 8000" using init_adapt_inv i by blast+
  define a1 where "a1 = a\<lparr>sampFreq := freq, aecmCore := (init_frames (aecmCore a))\<lparr>adapt := ad\<rparr>,
    farendBuf := cleared (farendBuf a), initFlag := kInitCheck, delayChange := 1,
    msSum := 0, counter := 0, checkBuffSize := True, firstVal := 0, ECstartup := True, bufSizeStart := 0,
    checkBufSizeCtr := 0, filtDelay := 0, timeForDelayChange := 0, knownDelay := 0, lastDelayDiff := 0,
    farendOld := (farendOld a)[0 := replicate 80 0]\<rparr>"
  have rings: "ring_ok 144 (cleared b)" if "element_count b = 144" for b using cleared_ok [of b 144] that by simp
  have fr: "element_count (farFrameBuf (aecmCore a)) = 144" "element_count (nearNoisyFrameBuf (aecmCore a)) = 144"
    "element_count (nearCleanFrameBuf (aecmCore a)) = 144" "element_count (outFrameBuf (aecmCore a)) = 144"
    "length (farBuf (aecmCore a)) = 256" "element_count (farendBuf a) = 4000" "length (farendOld a) = 2"
    "\<forall>f \<in> set (farendOld a). length f = 80"
    using assms(1) by (auto simp: canceller_created_def framed_def)
  have old: "\<forall>f \<in> set ((farendOld a)[0 := replicate 80 0]). length f = 80"
    using fr(8) set_update_subset_insert [of "farendOld a" 0 "replicate 80 0"] by fastforce
  have a1: "aecm_inv a1"
    using f ad fr rings old cleared_ok [of "farendBuf a" 4000]
    by (auto simp: a1_def aecm_inv_def core_inv_def init_frames_def in_step_def)
  obtain r2 inst2 where s: "WebRtcAecm_set_config (Some a1) (1, 3) = (r2, inst2)" by fastforce
  obtain a2 where a2: "inst2 = Some a2" "aecm_inv a2" using set_config_inv [OF a1 s] by blast
  have "inst = Some a2"
    using assms(2) f ic s a2(1) \<open>r = 0\<close>
    unfolding WebRtcAecm_Init_def Let_def option.case aecm_lengths
    by (auto simp: a1_def split: if_splits)
  moreover have "sampFreq a2 = freq \<and> ECstartup a2 \<and> checkBuffSize a2 \<and> counter a2 = 0 \<and> msSum a2 = 0 \<and>
      checkBufSizeCtr a2 = 0 \<and> farendBuf a2 = cleared (farendBuf a) \<and> farendOld a2 = (farendOld a)[0 := replicate 80 0] \<and>
      (\<exists>c. aecmCore a2 = (init_frames (aecmCore a))\<lparr>adapt := c\<rparr>)"
    using s a2(1) by (auto simp: WebRtcAecm_set_config_def Let_def with_adapt_def a1_def kInitCheck_def split: if_splits)
  ultimately show ?thesis using a2(2) fr(7) by simp
qed

end
