(* ===== verification/Aecm_Session.thy ===== *)
theory Aecm_Session
  imports Aecm_State
begin

text \<open>
  The echo canceller as \<open>src/jni/redphone/AudioCodec.cpp\<close> uses it: 160 samples at 8 kHz in every call,
  a fixed delay of 75 ms, the far end handed over by \<open>decode\<close>, the near end by \<open>encode\<close>.  What the start-up
  does, and which samples of the far end become the reference of the core.
\<close>

definition ECHO_TAIL_MILLIS :: int where "ECHO_TAIL_MILLIS = 75"

text \<open>The calls of \<open>decode\<close> (\<open>Inl\<close>, a decoded frame) and of \<open>encode\<close> (\<open>Inr\<close>, a recorded frame) in the order
  in which they come, with what \<open>encode\<close> gets for each of its frames.  The result of \<open>Process\<close> is ignored, as
  there.\<close>

fun codec_use ::
  "'d Adapt block \<Rightarrow> 'd aecmob \<Rightarrow> (u16 list + u16 list) list \<Rightarrow> (u16 list list \<times> 'd aecmob) option" where
  "codec_use block a [] = Some ([], a)"
| "codec_use block a (Inl rawData # ops) =
     (case WebRtcAecm_BufferFarend (Some a) (Some rawData) 160 of
        (_, Some a) \<Rightarrow> codec_use block a ops
      | (_, None) \<Rightarrow> None)"
| "codec_use block a (Inr rawData # ops) =
     (case WebRtcAecm_Process block (Some a) (Some rawData) None (Some (replicate 160 0)) 160 ECHO_TAIL_MILLIS of
        Some (_, Some cleanData, Some a) \<Rightarrow>
          map_option (\<lambda>(outs, a). (cleanData # outs, a)) (codec_use block a ops)
      | _ \<Rightarrow> None)"

lemma codec_use_append:
  "codec_use block a (ops @ ops') =
     do { (outs, a) \<leftarrow> codec_use block a ops; (outs', a) \<leftarrow> codec_use block a ops'; Some (outs @ outs', a) }"
  by (induction block a ops rule: codec_use.induct)
    (auto split: prod.split option.split Option.bind_split)

subsection \<open>The far-end ring by the history of what was written to it\<close>

abbreviation far_ring :: "u16 RingBuffer \<Rightarrow> u16 list \<Rightarrow> nat \<Rightarrow> bool" where
  "far_ring \<equiv> history_ring 4000"

lemma cleared_far_ring: "element_count b = 4000 \<Longrightarrow> far_ring (cleared b) (replicate 4000 0) 0"
  using cleared_ring [of b] by (simp add: history_ring_def ring_holds_def)

subsection \<open>Start-up\<close>

text \<open>After \<open>k\<close> calls of \<open>Process\<close> with 160 samples and the delay \<open>d\<close> (that of the caller and 10 ms), when the
  samples \<open>X\<close> have been buffered.\<close>

definition waiting :: "int \<Rightarrow> 'd Adapt AecmCore \<Rightarrow> u16 list \<Rightarrow> nat \<Rightarrow> 'd aecmob \<Rightarrow> bool" where
  "waiting d core X k a \<longleftrightarrow> initFlag a = kInitCheck \<and> sampFreq a = 8000 \<and> aecmCore a = core \<and> core_mult a = 1 \<and>
     ECstartup a \<and> 160 dvd length X \<and> far_ring (farendBuf a) (replicate 4000 0 @ X) (length X) \<and> checkBuffSize a = (k < 3) \<and>
     (if k < 3 then counter a = int k \<and> msSum a = d * int k \<and> checkBufSizeCtr a = int k \<and> (0 < k \<longrightarrow> firstVal a = d)
      else bufSizeStart a = 3 * d div 40)"

text \<open>The samples left to be read when the start-up has ended.\<close>

definition start_level :: "int \<Rightarrow> nat" where
  "start_level d = 80 * nat (3 * d div 40)"

definition listening :: "int \<Rightarrow> 'd Adapt AecmCore \<Rightarrow> u16 list \<Rightarrow> 'd aecmob \<Rightarrow> bool" where
  "listening d core h a \<longleftrightarrow> initFlag a = kInitCheck \<and> sampFreq a = 8000 \<and> aecmCore a = core \<and> core_mult a = 1 \<and>
     \<not> ECstartup a \<and> msInSndCardBuf a = d \<and> far_ring (farendBuf a) h (start_level d)"

lemma start_level_85 [simp]: "start_level 85 = 480"
  by (simp add: start_level_def)

text \<open>The ring takes 4000 decoded samples; when it is full the next ones are lost.\<close>

lemma waiting_far:
  assumes "waiting d core X k a" "length far = 160" "length X \<le> 4000"
  shows "\<exists>a'. WebRtcAecm_BufferFarend (Some a) (Some far) 160 = (0, Some a') \<and> waiting d core (take 4000 (X @ far)) k a'"
proof -
  let ?Y = "take 4000 (X @ far)"
  have ring: "far_ring (farendBuf a) (replicate 4000 0 @ X) (length X)" and dv: "160 dvd length X"
    using assms(1) by (simp_all add: waiting_def)
  have len: "length ?Y = length X + min (length far) (4000 - length X)" "?Y = X @ take (4000 - length X) far"
    using assms(3) by simp_all
  have "(160 :: nat) dvd 4000" by presburger
  then have "160 dvd length ?Y" using dv assms(2) by (auto simp: min_def dvd_add)
  moreover have "far_ring (snd (WriteBuffer (farendBuf a) far)) (replicate 4000 0 @ ?Y) (length ?Y)"
    using history_put_some [OF ring, of far] by (simp only: append_assoc len(2) [symmetric] len(1) [symmetric])
  ultimately show ?thesis
    using assms(1,2) by (auto simp: WebRtcAecm_BufferFarend_def waiting_def core_mult_def Let_def)
qed

lemma check_sound_card_waiting:
  assumes "waiting d core X k a" "k < 3" "0 < d" "d \<le> 510"
  defines "a' \<equiv> check_sound_card (a\<lparr>msInSndCardBuf := d\<rparr>) 2"
  shows "counter a' = int k + 1 \<and> msSum a' = d * int k + d \<and> checkBufSizeCtr a' = int k + 1 \<and> firstVal a' = d \<and>
    checkBuffSize a' = (k < 2) \<and> (k = 2 \<longrightarrow> bufSizeStart a' = 3 * d div 40) \<and>
    initFlag a' = initFlag a \<and> sampFreq a' = sampFreq a \<and> aecmCore a' = aecmCore a \<and> core_mult a' = core_mult a \<and>
    ECstartup a' = ECstartup a \<and> farendBuf a' = farendBuf a \<and> msInSndCardBuf a' = d"
proof -
  have f: "counter a = int k" "msSum a = d * int k" "checkBufSizeCtr a = int k" "k \<noteq> 0 \<Longrightarrow> firstVal a = d"
    "mult (adapt (aecmCore a)) = 1" "checkBuffSize a"
    using assms(1,2) by (auto simp: waiting_def core_mult_def)
  have size: "(3 * (3 * d)) sdiv 120 = 3 * d div 40" using assms(3) by (simp add: signed_divide_int_def)
  have bound: "3 * d div 40 < 50" "int16 (3 * d div 40) = 3 * d div 40"
    using assms(3,4) by (simp_all add: int16_id)
  have ids: "int16 d = d" "int16 (2 * d) = 2 * d" "int16 (3 * d) = 3 * d" "int16 1 = 1" "int16 2 = 2" "int16 3 = 3"
    using assms(3,4) by (simp_all add: int16_id)
  have steady: "5 * \<bar>d - d\<bar> < max d (5 * kSampMsNb)" by (simp add: kSampMsNb_def)
  note unfold = a'_def check_sound_card_def Let_def core_mult_def BUF_SIZE_FRAMES_def
  have "k = 0 \<or> k = 1 \<or> k = 2" using assms(2) by arith
  then show ?thesis
  proof (elim disjE)
    assume "k = 0" then show ?thesis using f ids steady by (simp add: unfold)
  next
    assume "k = 1" then show ?thesis using f ids steady by (simp add: unfold)
  next
    assume "k = 2" then show ?thesis using f ids steady size bound by (simp add: unfold)
  qed
qed

lemma filled_frames: "n \<le> 4000 \<Longrightarrow> int16 (int n) sdiv 80 = int (n div 80)"
  by (cases "n = 0") (simp_all add: int16_id signed_divide_int_def zdiv_int)

lemma startup_step_waiting:
  assumes w: "waiting d core X k a" and len: "length X \<le> 4000" and d: "0 < d" "d \<le> 510"
  defines "a' \<equiv> startup_step (a\<lparr>msInSndCardBuf := d\<rparr>) 2"
  shows "if 2 \<le> k \<and> start_level d \<le> length X then listening d core (replicate 4000 0 @ X) a' else waiting d core X (Suc k) a'"
proof -
  define n where "n = length X div 80"
  have n: "length X = 80 * n" using w by (auto simp: n_def waiting_def elim!: dvdE)
  define m where "m = nat (3 * d div 40)"
  have m: "3 * d div 40 = int m" "start_level d = 80 * m" using d by (simp_all add: m_def start_level_def div_int_pos_iff)
  define b where "b = a\<lparr>msInSndCardBuf := d\<rparr>"
  define c where "c = (if checkBuffSize b then check_sound_card b 2 else b)"
  have far: "far_ring (farendBuf a) (replicate 4000 0 @ X) (80 * n)" using w n by (simp add: waiting_def)
  have fs: "far_samples b = int (length X)" using far n by (simp add: b_def far_samples_def history_ring_def)
  have c: "initFlag c = kInitCheck" "sampFreq c = 8000" "aecmCore c = core" "core_mult c = 1" "ECstartup c"
    "farendBuf c = farendBuf a" "msInSndCardBuf c = d" "checkBuffSize c = (k < 2)" "2 \<le> k \<Longrightarrow> bufSizeStart c = int m"
    "k < 2 \<Longrightarrow> counter c = int k + 1 \<and> msSum c = d * int k + d \<and> checkBufSizeCtr c = int k + 1 \<and> firstVal c = d"
    using check_sound_card_waiting [OF w _ d] w m(1)
    by (cases "k < 3"; force simp: c_def b_def waiting_def core_mult_def)+
  have fc: "far_samples c = 80 * int n" using fs c(6) n by (simp add: far_samples_def b_def)
  have eq: "a' = (if \<not> checkBuffSize c then
      (if int n = bufSizeStart c then c\<lparr>ECstartup := False\<rparr>
       else if int n > bufSizeStart c
       then (move_far (far_samples c - bufSizeStart c * 80) c)\<lparr>ECstartup := False\<rparr> else c) else c)"
    unfolding a'_def startup_step_def b_def [symmetric] Let_def fs c_def [symmetric] aecm_lengths
    by (simp add: filled_frames len n_def)
  show ?thesis
  proof (cases "2 \<le> k \<and> start_level d \<le> length X")
    case True
    then have mn: "m \<le> n" using m n by simp
    then have "far_ring (snd (MoveReadPtr (farendBuf a) (80 * int n - int m * 80))) (replicate 4000 0 @ X) (80 * m)"
      using history_move [OF far, of "80 * int n - int m * 80"] n by (simp add: nat_diff_distrib nat_mult_distrib mult.commute)
    then show ?thesis
      using True c fc far m(2) mn unfolding eq by (auto simp: listening_def move_far_def core_mult_def mult.commute)
  next
    case False
    then have "2 \<le> k \<Longrightarrow> n < m" using m n by auto
    moreover have "160 dvd length X" using w by (simp add: waiting_def)
    ultimately show ?thesis using False c far m n unfolding eq by (auto simp: waiting_def less_Suc_eq_le distrib_left)
  qed
qed

lemma waiting_near:
  assumes "waiting d core X k a" "length near = 160" "length X \<le> 4000" "10 \<le> d" "d \<le> 510"
  shows "\<exists>a'. WebRtcAecm_Process block (Some a) (Some near) None (Some (replicate 160 0)) 160 (d - 10) = Some (0, Some near, Some a') \<and>
    farendOld a' = farendOld a \<and>
    (if 2 \<le> k \<and> start_level d \<le> length X then listening d core (replicate 4000 0 @ X) a' else waiting d core X (Suc k) a')"
proof -
  have "aecmCore a = core" "mult (adapt core) = 1" using assms(1) by (auto simp: waiting_def core_mult_def)
  then have "WebRtcAecm_Process block (Some a) (Some near) None (Some (replicate 160 0)) 160 (d - 10) =
      Some (0, Some near, Some (startup_step (a\<lparr>msInSndCardBuf := d\<rparr>) 2))"
    using assms(1,2,4,5) by (simp add: WebRtcAecm_Process_def waiting_def core_mult_def Let_def signed_divide_int_def)
  then show ?thesis using startup_step_waiting [OF assms(1,3)] assms(4,5) by (auto simp: startup_step_keeps)
qed

subsection \<open>A turn after the start-up\<close>

lemma listening_far:
  assumes l: "listening 85 core h a" and far: "length far = 160"
  obtains a' where "WebRtcAecm_BufferFarend (Some a) (Some far) 160 = (0, Some a')"
    "initFlag a' = kInitCheck" "sampFreq a' = 8000" "aecmCore a' = core" "core_mult a' = 1" "\<not> ECstartup a'"
    "far_ring (farendBuf a') (h @ far) 720"
proof -
  have ring: "far_ring (farendBuf a) h 480" and m: "mult (adapt core) = 1" "aecmCore a = core"
    using l by (auto simp: listening_def core_mult_def)
  then have n: "far_samples a = 480" by (simp add: far_samples_def history_ring_def)
  have comp: "WebRtcAecm_DelayComp a = (move_far (- 80) a)\<lparr>delayChange := 1\<rparr>"
    using l by (simp add: WebRtcAecm_DelayComp_def n listening_def kSampMsNb_def Let_def drop_bit_eq_div)
  define b where "b = snd (WriteBuffer (snd (MoveReadPtr (farendBuf a) (- 80))) far)"
  have "far_ring (snd (MoveReadPtr (farendBuf a) (- 80))) h 560"
    using history_move [OF ring, of "- 80"] by simp
  from history_put [OF this, of far] have "far_ring b (h @ far) 720" using far by (simp add: b_def)
  moreover have "WebRtcAecm_BufferFarend (Some a) (Some far) 160 = (0, Some (a\<lparr>farendBuf := b, delayChange := 1\<rparr>))"
    using l far by (simp add: WebRtcAecm_BufferFarend_def listening_def comp move_far_def b_def Let_def)
  ultimately show ?thesis
    using that [of "a\<lparr>farendBuf := b, delayChange := 1\<rparr>"] l m by (simp add: listening_def core_mult_def)
qed

text \<open>The estimate of the delay skips a frame of the far end, since at 640 samples it is short of one.\<close>

lemma EstBufDelay_skips:
  assumes "far_ring (farendBuf a) h 640" "core_mult a = 1"
  shows "farendBuf (WebRtcAecm_EstBufDelay a 85) = snd (MoveReadPtr (farendBuf a) 80)"
proof -
  have "far_samples a = 640" using assms(1) by (simp add: far_samples_def history_ring_def)
  then show ?thesis by (simp add: EstBufDelay_keeps assms(2) kSampMsNb_def int16_id)
qed

lemma fetch_farend_ring:
  assumes "far_ring (farendBuf a) h n" "80 \<le> n"
  shows "\<exists>a'. fetch_farend a i = (take 80 (drop (length h - n) h), a') \<and> far_ring (farendBuf a') h (n - 80) \<and>
    initFlag a' = initFlag a \<and> sampFreq a' = sampFreq a \<and> aecmCore a' = aecmCore a \<and>
    ECstartup a' = ECstartup a \<and> msInSndCardBuf a' = msInSndCardBuf a"
proof -
  have n: "far_samples a = int n" "n \<le> 4000"
    using assms(1) history_contents [OF assms(1)] by (simp_all add: far_samples_def history_ring_def)
  then have "int16 (far_samples a) sdiv 80 = int (n div 80)" by (simp add: filled_frames)
  moreover have "0 < n div 80" using assms(2) by (simp add: div_greater_zero_iff)
  ultimately have filled: "int16 (far_samples a) sdiv 80 > 0" by simp
  obtain b where "ring_get True [] (farendBuf a) 80 = (take 80 (drop (length h - n) h), b)" "far_ring b h (n - 80)"
    using history_get [OF assms] by blast
  then show ?thesis using filled by (simp add: fetch_farend_def)
qed

text \<open>The frame \<open>i\<close> of a call: the core gets the far end given here.\<close>

lemma process_frame_core:
  assumes "fetch_farend a i = (far, a')" "length near = 160" "length out = 160" "i < 2"
    and "\<And>out. length out = 80 \<Longrightarrow> WebRtcAecm_ProcessFrame block (aecmCore a'') far (take 80 (drop (80 * i) near)) None out =
      Some (ret, if ret = -1 then out else new, core)" "ret \<noteq> -1"
    and "a'' = (if i = 0 \<and> sampFreq a' = 8000 \<or> i = 1 \<and> sampFreq a' = 16000
      then WebRtcAecm_EstBufDelay a' (msInSndCardBuf a') else a')"
  shows "process_frame block a i near None out = Some (ret, write_at out (80 * i) new, a''\<lparr>aecmCore := core\<rparr>)"
proof -
  have "80 * i + 80 \<le> 160" using assms(4) by simp
  then show ?thesis
    using assms(2,3,5,6) unfolding process_frame_def assms(1) prod.case Let_def assms(7) [symmetric] by simp
qed

text \<open>What is fetched from the far end does not depend on the core.\<close>

lemma fetch_farend_core:
  assumes "fetch_farend a i = (far, a')"
  shows "fetch_farend (a\<lparr>aecmCore := c\<rparr>) i = (far, a'\<lparr>aecmCore := c\<rparr>)" "aecmCore a' = aecmCore a" "sampFreq a' = sampFreq a"
    "msInSndCardBuf a' = msInSndCardBuf a" "initFlag a' = initFlag a" "ECstartup a' = ECstartup a"
  using assms by (auto simp: fetch_farend_def far_samples_def split: if_splits prod.splits)

text \<open>The two frames of a call: the far end is fetched twice, with the estimate of the delay in between.\<close>

lemma process_two:
  fixes ops :: "'d dsp"
  assumes ops: "dsp_ok ops" and a: "initFlag a = kInitCheck" "sampFreq a = 8000" "\<not> ECstartup a" "core_inv 1 (aecmCore a)"
    and ms: "0 \<le> ms" "ms \<le> 500"
    and f0: "fetch_farend (a\<lparr>msInSndCardBuf := ms + 10\<rparr>) 0 = (far0, a1)" "length far0 = 80"
    and f1: "fetch_farend (WebRtcAecm_EstBufDelay a1 (ms + 10)) 1 = (far1, a2)" "length far1 = 80"
    and near: "length near = 160"
    and run: "process_frames (process_block ops) (aecmCore a) [(far0, take 80 near), (far1, drop 80 near)] = Some (outs, core')"
  shows "WebRtcAecm_Process (process_block ops) (Some a) (Some near) None (Some (replicate 160 0)) 160 ms =
      Some (0, Some (concat outs), Some (a2\<lparr>aecmCore := core'\<rparr>))" "core_inv 1 core'"
proof -
  let ?b = "process_block ops" and ?a = "a\<lparr>msInSndCardBuf := ms + 10\<rparr>"
  define a3 where "a3 = WebRtcAecm_EstBufDelay a1 (ms + 10)"
  note c0 = fetch_farend_core [OF f0(1)] and c1 = fetch_farend_core [OF f1(1)]
  have sizes: "length (take 80 near) = 80" "length (drop 80 near) = 80" using near by simp_all
  obtain r0 new0 k0 where p0: "\<And>out. length out = 80 \<Longrightarrow> WebRtcAecm_ProcessFrame ?b (aecmCore a)
      far0 (take 80 near) None out = Some (r0, if r0 = -1 then out else new0, k0)"
    "core_inv 1 k0" "length new0 = 80" by (rule ProcessFrame_total [OF ops a(4) f0(2) sizes(1), where clean = None], rule that)
  obtain r1 new1 k1 where p1: "\<And>out. length out = 80 \<Longrightarrow> WebRtcAecm_ProcessFrame ?b k0
      far1 (drop 80 near) None out = Some (r1, if r1 = -1 then out else new1, k1)"
    "core_inv 1 k1" "length new1 = 80" by (rule ProcessFrame_total [OF ops p0(2) f1(2) sizes(2), where clean = None], rule that)
  have ok: "r0 \<noteq> -1" "r1 \<noteq> -1" "outs = [new0, new1]" "core' = k1"
    using run p0(1) [of "replicate 80 0"] p1(1) [of "replicate 80 0"] by (auto split: if_splits)
  let ?buf = "write_at (replicate 160 (0 :: u16)) 0 new0"
  have s0: "process_frame ?b ?a 0 near None (replicate 160 0) = Some (r0, ?buf, a3\<lparr>aecmCore := k0\<rparr>)"
    using process_frame_core [OF f0(1) near, of "replicate 160 0" ?b a3 r0 new0 k0] p0(1) ok(1) a c0
    by (simp add: a3_def EstBufDelay_keeps)
  have buf: "length ?buf = 160" using p0(3) by simp
  have "fetch_farend (a3\<lparr>aecmCore := k0\<rparr>) 1 = (far1, a2\<lparr>aecmCore := k0\<rparr>)"
    using c1(1) [of k0] by (simp add: a3_def)
  then have s1: "process_frame ?b (a3\<lparr>aecmCore := k0\<rparr>) 1 near None ?buf = Some (r1, write_at ?buf 80 new1, a2\<lparr>aecmCore := k1\<rparr>)"
    using process_frame_core [of "a3\<lparr>aecmCore := k0\<rparr>" 1 far1 "a2\<lparr>aecmCore := k0\<rparr>" near ?buf ?b "a2\<lparr>aecmCore := k0\<rparr>" r1 new1 k1]
      near buf p1(1) ok(2) c0 c1 a(2) by (simp add: EstBufDelay_keeps)
  have whole: "write_at ?buf 80 new1 = new0 @ new1"
    using p0(3) p1(3) by (simp add: write_at_def)
  have two: "[0..<2] = [0, 1 :: nat]" by (simp add: upt_rec)
  show "WebRtcAecm_Process ?b (Some a) (Some near) None (Some (replicate 160 0)) 160 ms =
      Some (0, Some (concat outs), Some (a2\<lparr>aecmCore := core'\<rparr>))"
    using a ms s0 s1 ok whole unfolding WebRtcAecm_Process_def Let_def by (simp add: two)
  show "core_inv 1 core'" using p1(2) ok(4) by simp
qed

lemma turn:
  fixes ops :: "'d dsp"
  assumes ops: "dsp_ok ops" and l: "listening 85 core h a" and core: "core_inv 1 core" and len: "length far = 160" "length near = 160"
  defines "S \<equiv> h @ far"
  assumes run: "process_frames (process_block ops) core
      [(take 80 (drop (length h - 560) S), take 80 near), (take 80 (drop (length h - 400) S), drop 80 near)] = Some (outs, core')"
  shows "\<exists>a'. codec_use (process_block ops) a [Inl far, Inr near] = Some ([concat outs], a') \<and>
    listening 85 core' S a' \<and> core_inv 1 core'"
proof -
  obtain a1 where far: "WebRtcAecm_BufferFarend (Some a) (Some far) 160 = (0, Some a1)"
    "initFlag a1 = kInitCheck" "sampFreq a1 = 8000" "aecmCore a1 = core" "core_mult a1 = 1" "\<not> ECstartup a1"
    "far_ring (farendBuf a1) S 720" using listening_far [OF l len(1)] S_def by blast
  have hl: "4000 \<le> length h" using l by (simp add: listening_def history_ring_def)
  then have S: "length S - 720 = length h - 560" "length S - 560 = length h - 400" "560 \<le> length h"
    "length S = length h + 160" using len(1) by (simp_all add: S_def)
  have a2: "far_ring (farendBuf (a1\<lparr>msInSndCardBuf := 75 + 10\<rparr>)) S 720" using far by simp
  obtain a3 where f0: "fetch_farend (a1\<lparr>msInSndCardBuf := 75 + 10\<rparr>) 0 = (take 80 (drop (length h - 560) S), a3)"
    "far_ring (farendBuf a3) S 640" "initFlag a3 = kInitCheck" "sampFreq a3 = 8000" "aecmCore a3 = core"
    "\<not> ECstartup a3" "msInSndCardBuf a3 = 85"
    using fetch_farend_ring [OF a2, of 0] far S(1) by auto
  have m3: "core_mult a3 = 1" using f0(5) core by (simp add: core_mult_def core_inv_def)
  define a4 where "a4 = WebRtcAecm_EstBufDelay a3 (75 + 10)"
  have a4: "far_ring (farendBuf a4) S 560" "initFlag a4 = kInitCheck" "sampFreq a4 = 8000" "aecmCore a4 = core"
    "\<not> ECstartup a4" "msInSndCardBuf a4 = 85"
    using EstBufDelay_skips [OF f0(2) m3] history_move [OF f0(2), of 80] f0 by (simp_all add: a4_def EstBufDelay_keeps)
  obtain a6 where f1: "fetch_farend a4 1 = (take 80 (drop (length h - 400) S), a6)"
    "far_ring (farendBuf a6) S 480" "initFlag a6 = kInitCheck" "sampFreq a6 = 8000"
    "\<not> ECstartup a6" "msInSndCardBuf a6 = 85"
    using fetch_farend_ring [OF a4(1), of 1] a4 S(2) by auto
  have inv: "core_inv 1 (aecmCore a1)" using core far(4) by simp
  have sizes: "length (take 80 (drop (length h - 560) S)) = 80" "length (take 80 (drop (length h - 400) S)) = 80"
    using S(3,4) by simp_all
  have "WebRtcAecm_Process (process_block ops) (Some a1) (Some near) None (Some (replicate 160 0)) 160 75 =
      Some (0, Some (concat outs), Some (a6\<lparr>aecmCore := core'\<rparr>))" "core_inv 1 core'"
    by (rule process_two [OF ops far(2,3,6) inv _ _ f0(1) sizes(1) f1(1) [unfolded a4_def] sizes(2) len(2)]; use far(4) run in simp)+
  then show ?thesis
    using far(1) f1 by (auto simp: ECHO_TAIL_MILLIS_def listening_def core_mult_def core_inv_def)
qed

subsection \<open>Turn after turn\<close>

text \<open>A frame decoded, a frame recorded, in turns; and the reference the core gets for them out of the decoded
  samples \<open>S\<close>: in each turn the 80 samples at \<open>p\<close> and those 160 further, with which the next turn begins again.\<close>

definition in_turns :: "(u16 list \<times> u16 list) list \<Rightarrow> (u16 list + u16 list) list" where
  "in_turns turns = concat (map (\<lambda>(far, near). [Inl far, Inr near]) turns)"

definition near_frames :: "(u16 list \<times> u16 list) list \<Rightarrow> u16 list list" where
  "near_frames turns = concat (map (\<lambda>(far, near). [take 80 near, drop 80 near]) turns)"

fun reference :: "nat \<Rightarrow> u16 list \<Rightarrow> nat \<Rightarrow> u16 list list" where
  "reference p S 0 = []"
| "reference p S (Suc n) = take 80 (drop p S) # take 80 (drop (p + 160) S) # reference (p + 160) S n"

lemma length_reference: "length (reference p S n) = 2 * n"
  by (induction n arbitrary: p) simp_all

lemma length_near_frames: "length (near_frames turns) = 2 * length turns"
  by (induction turns) (auto simp: near_frames_def)

lemma process_frames_append:
  "process_frames block c (xs @ ys) =
     do { (outs, c) \<leftarrow> process_frames block c xs; (outs', c) \<leftarrow> process_frames block c ys; Some (outs @ outs', c) }"
  by (induction block c xs rule: process_frames.induct) (auto split: Option.bind_split)

lemma turns:
  fixes ops :: "'d dsp"
  assumes "dsp_ok ops" "listening 85 core h a" "core_inv 1 core" "\<forall>(far, near) \<in> set turns. length far = 160 \<and> length near = 160"
    "process_frames (process_block ops) core
       (zip (reference (length h - 560) (h @ concat (map fst turns)) (length turns)) (near_frames turns)) = Some (outs, core')"
  shows "\<exists>outs' a'. codec_use (process_block ops) a (in_turns turns) = Some (outs', a') \<and> concat outs' = concat outs \<and>
    listening 85 core' (h @ concat (map fst turns)) a'"
  using assms(2-5)
proof (induction turns arbitrary: core h a outs)
  case Nil
  then show ?case by (simp add: in_turns_def)
next
  case (Cons t turns)
  obtain far near where t: "t = (far, near)" by fastforce
  have len: "length far = 160" "length near = 160" using Cons.prems(3) t by auto
  have hl: "4000 \<le> length h" using Cons.prems(1) by (simp add: listening_def history_ring_def)
  define S where "S = h @ far"
  let ?p = "length h - 560" and ?X = "concat (map fst turns)"
  have first: "take 80 (drop ?p (S @ ?X)) = take 80 (drop ?p S)"
    "take 80 (drop (?p + 160) (S @ ?X)) = take 80 (drop (length h - 400) S)"
    using hl len by (simp_all add: S_def)
  have p: "length S - 560 = ?p + 160" using hl len by (simp add: S_def)
  define rest where "rest = zip (reference (?p + 160) (S @ ?X) (length turns)) (near_frames turns)"
  have "h @ concat (map fst (t # turns)) = S @ ?X" by (simp add: t S_def)
  moreover have "near_frames (t # turns) = take 80 near # drop 80 near # near_frames turns" by (simp add: near_frames_def t)
  ultimately have "zip (reference ?p (h @ concat (map fst (t # turns))) (length (t # turns))) (near_frames (t # turns)) =
      [(take 80 (drop ?p S), take 80 near), (take 80 (drop (length h - 400) S), drop 80 near)] @ rest"
    by (simp only: length_Cons reference.simps zip_Cons_Cons first rest_def append.simps)
  then have "process_frames (process_block ops) core
      ([(take 80 (drop ?p S), take 80 near), (take 80 (drop (length h - 400) S), drop 80 near)] @ rest) = Some (outs, core')"
    using Cons.prems(4) by simp
  then obtain outs1 core1 outs2 where
    one: "process_frames (process_block ops) core
      [(take 80 (drop ?p S), take 80 near), (take 80 (drop (length h - 400) S), drop 80 near)] = Some (outs1, core1)" and
    two: "process_frames (process_block ops) core1 rest = Some (outs2, core')" "outs = outs1 @ outs2"
    unfolding process_frames_append by (auto split: Option.bind_splits)
  obtain a1 where a1: "codec_use (process_block ops) a [Inl far, Inr near] = Some ([concat outs1], a1)"
    "listening 85 core1 S a1" "core_inv 1 core1" using turn [OF assms(1) Cons.prems(1,2) len one [unfolded S_def]] by (auto simp: S_def)
  have later: "\<forall>(far, near) \<in> set turns. length far = 160 \<and> length near = 160" using Cons.prems(3) by simp
  obtain outs' a' where "codec_use (process_block ops) a1 (in_turns turns) = Some (outs', a')" "concat outs' = concat outs2"
    "listening 85 core' (S @ ?X) a'"
    using Cons.IH [OF a1(2,3) later] two(1) unfolding rest_def p by blast
  moreover have "in_turns (t # turns) = [Inl far, Inr near] @ in_turns turns" by (simp add: in_turns_def t)
  ultimately show ?case using a1(1) two(2) by (simp only: codec_use_append) (simp add: t S_def)
qed

subsection \<open>From the initialisation on\<close>

fun decoded :: "(u16 list + u16 list) list \<Rightarrow> u16 list" where
  "decoded [] = []"
| "decoded (Inl far # ops) = far @ decoded ops"
| "decoded (Inr near # ops) = decoded ops"

fun recorded :: "(u16 list + u16 list) list \<Rightarrow> u16 list list" where
  "recorded [] = []"
| "recorded (Inl far # ops) = recorded ops"
| "recorded (Inr near # ops) = near # recorded ops"

text \<open>Whether no call of \<open>encode\<close> ends the start-up: the first that would is at least the third, and finds 480
  decoded samples.\<close>

fun starting :: "nat \<Rightarrow> nat \<Rightarrow> (u16 list + u16 list) list \<Rightarrow> bool" where
  "starting k n [] = True"
| "starting k n (Inl far # ops) = starting k (n + 160) ops"
| "starting k n (Inr near # ops) = (\<not> (2 \<le> k \<and> 480 \<le> n) \<and> starting (Suc k) n ops)"

definition frames_ok :: "(u16 list + u16 list) list \<Rightarrow> bool" where
  "frames_ok ops \<longleftrightarrow> (\<forall>op \<in> set ops. length (case op of Inl far \<Rightarrow> far | Inr near \<Rightarrow> near) = 160)"

lemmas waiting_near_75 = waiting_near [where d = 85, simplified]

lemma waiting_run:
  assumes "waiting 85 core (take 4000 D) k a" "frames_ok ops" "starting k (length D) ops"
  shows "\<exists>a'. codec_use block a ops = Some (recorded ops, a') \<and>
    waiting 85 core (take 4000 (D @ decoded ops)) (k + length (recorded ops)) a'"
  using assms
proof (induction ops arbitrary: D k a)
  case (Cons op ops)
  have ok: "frames_ok ops" using Cons.prems(2) by (simp add: frames_ok_def)
  show ?case
  proof (cases op)
    case (Inl far)
    have len: "length far = 160" using Cons.prems(2) Inl by (simp add: frames_ok_def)
    have "take 4000 (take 4000 D @ far) = take 4000 (D @ far)" by (simp add: take_Cons' min_def)
    then obtain a' where a': "WebRtcAecm_BufferFarend (Some a) (Some far) 160 = (0, Some a')"
      "waiting 85 core (take 4000 (D @ far)) k a'"
      using waiting_far [OF Cons.prems(1) len] by fastforce
    show ?thesis using Cons.IH [OF a'(2) ok] Cons.prems(3) a'(1) Inl len by simp
  next
    case (Inr near)
    have len: "length near = 160" using Cons.prems(2) Inr by (simp add: frames_ok_def)
    have "length (take 4000 D) \<le> 4000" by simp
    then obtain a' where a': "WebRtcAecm_Process block (Some a) (Some near) None (Some (replicate 160 0)) 160 75 = Some (0, Some near, Some a')"
      "waiting 85 core (take 4000 D) (Suc k) a'"
      using waiting_near_75 [OF Cons.prems(1) len] Cons.prems(3) Inr by fastforce
    show ?thesis using Cons.IH [OF a'(2) ok] Cons.prems(3) a'(1) Inr by (auto simp: ECHO_TAIL_MILLIS_def)
  qed
qed simp

lemma Init_waiting:
  assumes "canceller_created a0" "WebRtcAecm_Init init_delay (Some a0) 8000 = (0, Some a)"
  shows "waiting d (aecmCore a) [] 0 a" "aecm_inv a" "core_inv 1 (aecmCore a)" "framing (aecmCore a) [] [] (replicate 144 0) 0"
    "farendOld a ! 0 = replicate 80 0" "farendOld a ! 1 = farendOld a0 ! 1"
proof -
  obtain c where a: "aecm_inv a" "sampFreq a = 8000" "ECstartup a" "checkBuffSize a" "counter a = 0" "msSum a = 0"
    "checkBufSizeCtr a = 0" "farendBuf a = cleared (farendBuf a0)" "aecmCore a = (init_frames (aecmCore a0))\<lparr>adapt := c\<rparr>"
    "farendOld a ! 0 = replicate 80 0" "farendOld a ! 1 = farendOld a0 ! 1"
    using Init_inv [OF assms] by blast
  show "aecm_inv a" "farendOld a ! 0 = replicate 80 0" "farendOld a ! 1 = farendOld a0 ! 1" by (rule a)+
  show core: "core_inv 1 (aecmCore a)" using a(1,2) by (simp add: aecm_inv_def)
  have "element_count (farendBuf a0) = 4000" "framed (aecmCore a0)" using assms(1) by (simp_all add: canceller_created_def)
  then show "waiting d (aecmCore a) [] 0 a" "framing (aecmCore a) [] [] (replicate 144 0) 0"
    using a core cleared_far_ring [of "farendBuf a0"] init_framing [of "aecmCore a0"]
    by (simp_all add: waiting_def aecm_inv_def core_inv_def core_mult_def framing_def in_step_def)
qed

text \<open>The initialisation of the delay estimator and of nothing else can fail; of the other calls none touches it.\<close>

lemma with_adapt_estimator:
  "(\<And>c. delay_estimator (f c) = delay_estimator c) \<Longrightarrow>
    delay_estimator (adapt (aecmCore (with_adapt f a))) = delay_estimator (adapt (aecmCore a))"
  by (simp add: with_adapt_def)

lemma set_config_estimator:
  "snd (WebRtcAecm_set_config (Some a) cfg) = Some a' \<Longrightarrow>
    delay_estimator (adapt (aecmCore a')) = delay_estimator (adapt (aecmCore a))"
  by (auto simp: WebRtcAecm_set_config_def Let_def with_adapt_def split: if_splits)

lemma InitEchoPath_estimator:
  "snd (WebRtcAecm_InitEchoPath (Some a) path bytes) = Some a' \<Longrightarrow>
    delay_estimator (adapt (aecmCore a')) = delay_estimator (adapt (aecmCore a))"
  by (auto simp: WebRtcAecm_InitEchoPath_def WebRtcAecm_InitEchoPathCore_def with_adapt_estimator split: option.splits)

lemma init_adapt_estimator:
  "freq = 8000 \<or> freq = 16000 \<Longrightarrow> init_delay (delay_estimator c) = Some d \<Longrightarrow>
    fst (init_adapt init_delay freq c) = 0 \<and> delay_estimator (snd (init_adapt init_delay freq c)) = d"
  by (auto simp: init_adapt_def Let_def WebRtcAecm_InitEchoPathCore_def)

lemma Init_succeeds:
  assumes "canceller_created a0" "freq = 8000 \<or> freq = 16000" "init_delay (delay_estimator (adapt (aecmCore a0))) = Some d"
  obtains a where "WebRtcAecm_Init init_delay (Some a0) freq = (0, Some a)" "aecm_inv a"
    "delay_estimator (adapt (aecmCore a)) = d"
proof -
  obtain ad where i: "init_adapt init_delay freq (adapt (aecmCore a0)) = (0, ad)" "delay_estimator ad = d"
    using init_adapt_estimator [OF assms(2), of init_delay "adapt (aecmCore a0)"] assms(3) by (metis prod.collapse)
  have ic: "WebRtcAecm_InitCore init_delay (aecmCore a0) freq = (0, (init_frames (aecmCore a0))\<lparr>adapt := ad\<rparr>)"
    using assms(2) i by (auto simp: WebRtcAecm_InitCore_def)
  define a1 where "a1 = a0\<lparr>sampFreq := freq, aecmCore := (init_frames (aecmCore a0))\<lparr>adapt := ad\<rparr>,
    farendBuf := cleared (farendBuf a0), initFlag := kInitCheck, delayChange := 1,
    msSum := 0, counter := 0, checkBuffSize := True, firstVal := 0, ECstartup := True, bufSizeStart := 0,
    checkBufSizeCtr := 0, filtDelay := 0, timeForDelayChange := 0, knownDelay := 0, lastDelayDiff := 0,
    farendOld := (farendOld a0)[0 := replicate FRAME_LEN 0]\<rparr>"
  obtain a where s: "WebRtcAecm_set_config (Some a1) (1, 3) = (0, Some a)"
    by (simp add: WebRtcAecm_set_config_def Let_def a1_def)
  have run: "WebRtcAecm_Init init_delay (Some a0) freq = (0, Some a)"
    using assms(2) ic s by (auto simp: WebRtcAecm_Init_def Let_def a1_def)
  moreover have "delay_estimator (adapt (aecmCore a)) = d"
    using set_config_estimator [of a1 "(1, 3)" a] s i(2) by (simp add: a1_def)
  moreover have "aecm_inv a" using Init_inv [OF assms(1) run] by blast
  ultimately show ?thesis using that by blast
qed

subsection \<open>The blocks of a call\<close>

lemma InverseFFT_length: "length (fst (InverseFFTAndWindow ops c efw clean)) = 64"
  by (simp add: InverseFFTAndWindow_def Let_def split_beta)

lemma wiener_filter_length: "length (fst (wiener_filter ops c gain q dfw dfa est clean)) = 64"
  by (simp add: wiener_filter_def Let_def split_beta InverseFFT_length)

text \<open>The block a result has, through the cases of \<open>ProcessBlock\<close>.\<close>

definition width_ok :: "int \<times> int list \<times> 'd Adapt \<Rightarrow> bool" where
  "width_ok r \<longleftrightarrow> length (fst (snd r)) = 64"

lemma width_ok_intros:
  "(\<And>x. width_ok (f1 x)) \<Longrightarrow> width_ok (Let a f1)"
  "(\<And>x y. width_ok (f2 x y)) \<Longrightarrow> width_ok (case p of (x, y) \<Rightarrow> f2 x y)"
  "width_ok r \<Longrightarrow> width_ok r' \<Longrightarrow> width_ok (if b then r else r')"
  "width_ok r \<Longrightarrow> (\<And>x. width_ok (f1 x)) \<Longrightarrow> width_ok (case opt of None \<Rightarrow> r | Some x \<Rightarrow> f1 x)"
  by (auto split: prod.split option.split)

lemma ProcessBlock_length:
  "length output = 64 \<Longrightarrow> length (fst (snd (WebRtcAecm_ProcessBlock ops c far near clean output))) = 64"
proof -
  assume "length output = 64"
  then have base: "width_ok (r, output, b)" for r and b :: "'a Adapt" by (simp add: width_ok_def)
  have last: "width_ok (case wiener_filter ops b gain q dfw dfa est has of (out, c) \<Rightarrow> (0, out, c))" for b gain q dfw dfa est has
    by (simp add: width_ok_def split_beta wiener_filter_length)
  have "width_ok (WebRtcAecm_ProcessBlock ops c far near clean output)"
    unfolding WebRtcAecm_ProcessBlock_def by (intro base last width_ok_intros)
  then show ?thesis by (simp add: width_ok_def)
qed

lemma process_block_width: "block_ok (process_block ops)"
proof -
  have "length (fst (snd (process_block ops c far near clean))) = 64" for c far near clean
    using ProcessBlock_length [of "replicate 64 0" ops c "map sint far" "map sint near" "map_option (map sint) clean"]
    by (simp add: process_block_def split_beta)
  then show ?thesis by (simp add: block_ok_def)
qed

lemma block_run_total:
  fixes ops :: "'d dsp"
  assumes "dsp_ok ops"
  shows "adapt_inv s \<Longrightarrow> runs I ops s \<Longrightarrow> length far = length near \<Longrightarrow>
    \<exists>Bs s'. block_run (process_block ops) s far near = Some (Bs, s') \<and> adapt_inv s' \<and> runs I ops s'"
proof (induction "process_block ops" s far near rule: block_run.induct)
  case (1 s far near)
  show ?case
  proof (cases "length far < 64")
    case True
    then show ?thesis using 1(2,3) by (simp add: block_run.simps)
  next
    case False
    obtain ret out s1 where b: "process_block ops s (take 64 far) (take 64 near) None = (ret, out, s1)" by (metis prod_cases3)
    note ok = process_block_ok [OF assms(1) 1(2) _ _ _ b]
    have r: "ret \<noteq> -1" "adapt_inv s1" "runs I ops s1" using ok(1) ok(3,5) [of I] 1(3) by auto
    then obtain Bs s' where "block_run (process_block ops) s1 (drop 64 far) (drop 64 near) = Some (Bs, s')" "adapt_inv s'"
      "runs I ops s'"
      using 1(1) [of ret "(out, s1)" out s1] 1(4) b False by auto
    then show ?thesis using b r(1) False by (subst block_run.simps) simp
  qed
qed

lemma reference_lengths: "p + 160 * n + 80 \<le> length S \<Longrightarrow> \<forall>x \<in> set (reference p S n). length x = 80"
proof (induction n arbitrary: p)
  case (Suc n)
  have "\<forall>x \<in> set (reference (p + 160) S n). length x = 80" using Suc.prems by (intro Suc.IH) simp
  moreover have "p + 240 \<le> length S" using Suc.prems by simp
  ultimately show ?case by simp
qed simp

lemma reference_shift: "reference (p + m) S n = reference p (drop m S) n"
proof (induction n arbitrary: p)
  case (Suc n)
  have "p + m + 160 = p + 160 + m" by simp
  then show ?case using Suc.IH [of "p + 160"] by (simp only: reference.simps drop_drop)
qed simp

lemma concat_near_frames: "concat (near_frames turns) = concat (map snd turns)"
proof (induction turns)
  case (Cons t turns)
  obtain far near where t: "t = (far, near)" by fastforce
  then have "near_frames (t # turns) = take 80 near # drop 80 near # near_frames turns" by (simp add: near_frames_def)
  then show ?case using Cons t by (simp del: take_append drop_append)
qed (simp add: near_frames_def)

lemma in_turns_facts:
  assumes "\<forall>(far, near) \<in> set turns. length far = 160 \<and> length near = 160"
  shows "frames_ok (in_turns turns)" "decoded (in_turns turns) = concat (map fst turns)" "recorded (in_turns turns) = map snd turns"
    "length (concat (map fst turns)) = 160 * length turns" "length (concat (map snd turns)) = 160 * length turns"
    "\<forall>x \<in> set (near_frames turns). length x = 80"
proof -
  have "frames_ok (in_turns turns) \<and> decoded (in_turns turns) = concat (map fst turns) \<and>
    recorded (in_turns turns) = map snd turns \<and> length (concat (map fst turns)) = 160 * length turns \<and>
    length (concat (map snd turns)) = 160 * length turns \<and> (\<forall>x \<in> set (near_frames turns). length x = 80)"
    using assms
  proof (induction turns)
    case (Cons t turns)
    obtain far near where t: "t = (far, near)" by fastforce
    then have "in_turns (t # turns) = Inl far # Inr near # in_turns turns"
      "near_frames (t # turns) = take 80 near # drop 80 near # near_frames turns"
      by (simp_all add: in_turns_def near_frames_def)
    moreover have len: "length far = 160" "length near = 160" using Cons.prems t by simp_all
    moreover have "length (take 80 near) = 80" "length (drop 80 near) = 80" using len by simp_all
    moreover have "\<forall>(far, near) \<in> set turns. length far = 160 \<and> length near = 160" using Cons.prems by simp
    note ih = Cons.IH [OF this]
    ultimately show ?case by (simp only: frames_ok_def t) (simp add: ih [unfolded frames_ok_def])
  qed (simp add: in_turns_def near_frames_def frames_ok_def)
  then show "frames_ok (in_turns turns)" "decoded (in_turns turns) = concat (map fst turns)" "recorded (in_turns turns) = map snd turns"
    "length (concat (map fst turns)) = 160 * length turns" "length (concat (map snd turns)) = 160 * length turns"
    "\<forall>x \<in> set (near_frames turns). length x = 80" by blast+
qed

lemma in_turns_append: "in_turns (xs @ ys) = in_turns xs @ in_turns ys"
  by (simp add: in_turns_def)

lemma concat_frames_length: "\<forall>x \<in> set xs. length x = n \<Longrightarrow> length (concat xs) = n * length xs"
  by (induction xs) auto

text \<open>In turns the start-up takes three of them.\<close>

lemma startup_in_turns:
  assumes w: "waiting 85 core [] 0 a" and three: "length start = 3"
    and len: "\<forall>(far, near) \<in> set start. length far = 160 \<and> length near = 160"
  shows "\<exists>a'. codec_use block a (in_turns start) = Some (map snd start, a') \<and>
    listening 85 core (replicate 4000 0 @ concat (map fst start)) a'"
proof -
  obtain f1 n1 f2 n2 f3 n3 where s: "start = [(f1, n1), (f2, n2), (f3, n3)]"
    using three by (auto simp: numeral_3_eq_3 length_Suc_conv)
  let ?ops = "[Inl f1, Inr n1, Inl f2, Inr n2, Inl f3]"
  have l: "length f1 = 160" "length n1 = 160" "length f2 = 160" "length n2 = 160" "length f3 = 160" "length n3 = 160"
    using len s by auto
  then obtain a1 where a1: "codec_use block a ?ops = Some ([n1, n2], a1)" "waiting 85 core (f1 @ f2 @ f3) 2 a1"
    using waiting_run [of core "[]" 0 a ?ops block] w by (auto simp: frames_ok_def numeral_2_eq_2)
  have "length (f1 @ f2 @ f3) \<le> 4000" "480 \<le> length (f1 @ f2 @ f3)" using l by simp_all
  then obtain a2 where "WebRtcAecm_Process block (Some a1) (Some n3) None (Some (replicate 160 0)) 160 75 = Some (0, Some n3, Some a2)"
    "listening 85 core (replicate 4000 0 @ f1 @ f2 @ f3) a2"
    using waiting_near_75 [OF a1(2) l(6)] by auto
  then have "codec_use block a (?ops @ [Inr n3]) = Some ([n1, n2, n3], a2)" "listening 85 core (replicate 4000 0 @ f1 @ f2 @ f3) a2"
    using a1(1) by (simp_all only: codec_use_append) (simp_all add: ECHO_TAIL_MILLIS_def)
  then show ?thesis by (simp add: s in_turns_def)
qed

end
