(* ===== verification/Delay_Estimator.thy ===== *)
theory Delay_Estimator
  imports Complex_Main Aecm_Fixed Prelude "HOL-Library.Monad_Syntax"
begin

text \<open>
  \<open>src/jni/webrtc/modules/audio_processing/utility/delay_estimator.c\<close> and \<open>delay_estimator_wrapper.c\<close>: the delay
  between two signals, found by comparing binary spectra.  The far end keeps a history of them; for every
  delay the estimator smooths the number of bits in which the near end differs from the far end that long
  ago, and takes the delay with the smallest.

  The arithmetic on \<open>float\<close> is an argument, the record \<open>floats\<close>; it is used by the robust validation only.
  The variants for spectra of \<open>float\<close> are left out.  \<open>None\<close> is an access outside an array; a pointer that is
  null after a failed allocation is the empty array.
\<close>

unbundle bit_operations_syntax

record 'f floats =
  fl_lit :: "rat \<Rightarrow> 'f"
  fl_of_int :: "int \<Rightarrow> 'f"
  fl_add :: "'f \<Rightarrow> 'f \<Rightarrow> 'f"
  fl_sub :: "'f \<Rightarrow> 'f \<Rightarrow> 'f"
  fl_mul :: "'f \<Rightarrow> 'f \<Rightarrow> 'f"
  fl_div :: "'f \<Rightarrow> 'f \<Rightarrow> 'f"
  fl_less :: "'f \<Rightarrow> 'f \<Rightarrow> bool"
  fl_le :: "'f \<Rightarrow> 'f \<Rightarrow> bool"

subsection \<open>Data\<close>

definition kShiftsAtZero :: int where "kShiftsAtZero = 13"
definition kShiftsLinearSlope :: int where "kShiftsLinearSlope = 3"
definition kProbabilityOffset :: int where "kProbabilityOffset = 1024"
definition kProbabilityLowerLimit :: int where "kProbabilityLowerLimit = 8704"
definition kProbabilityMinSpread :: int where "kProbabilityMinSpread = 2816"
definition kMinRequiredHits :: int where "kMinRequiredHits = 10"
definition kMaxHitsWhenPossiblyNonCausal :: int where "kMaxHitsWhenPossiblyNonCausal = 10"
definition kMaxHitsWhenPossiblyCausal :: int where "kMaxHitsWhenPossiblyCausal = 1000"
definition kMaxBitCountsQ9 :: int where "kMaxBitCountsQ9 = 32 * 2 ^ 9"

record BinaryDelayEstimatorFarend =
  far_bit_counts :: "int list"
  binary_far_history :: "u32 list"
  far_history_size :: nat

record 'f BinaryDelayEstimator =
  mean_bit_counts :: "int list"
  bit_counts :: "int list"
  binary_near_history :: "u32 list"
  near_history_size :: nat
  history_size :: nat
  minimum_probability :: int
  last_delay_probability :: int
  last_delay :: int
  robust_validation_enabled :: int
  allowed_offset :: int
  last_candidate_delay :: int
  compare_delay :: int
  candidate_hits :: int
  histogram :: "'f list"
  last_delay_histogram :: 'f
  lookahead :: int

subsection \<open>Counting bits\<close>

definition BitCount :: "u32 \<Rightarrow> int" where
  "BitCount u =
     (let tmp = u - (drop_bit 1 u AND 0xDB6DB6DB) - (drop_bit 2 u AND 0x49249249);
          tmp = (tmp + drop_bit 3 tmp) AND 0xC71C71C7;
          tmp = tmp + drop_bit 6 tmp;
          tmp = (tmp + drop_bit 12 tmp + drop_bit 24 tmp) AND 0x3F
      in uint tmp)"

definition BitCountComparison :: "u32 \<Rightarrow> u32 list \<Rightarrow> nat \<Rightarrow> int list \<Rightarrow> int list" where
  "BitCountComparison binary_vector binary_matrix matrix_size counts =
     write_at counts 0 (map (\<lambda>row. BitCount (binary_vector XOR row)) (take matrix_size binary_matrix))"

definition WebRtc_MeanEstimatorFix :: "int \<Rightarrow> int \<Rightarrow> int \<Rightarrow> int" where
  "WebRtc_MeanEstimatorFix new_value factor mean_value =
     (let diff = int32 (new_value - mean_value);
          diff = (if diff < 0 then - drop_bit (nat factor) (- diff) else drop_bit (nat factor) diff)
      in int32 (mean_value + diff))"

subsection \<open>Robust validation\<close>

definition kHistogramMax :: "'f floats \<Rightarrow> 'f" where "kHistogramMax fl = fl_lit fl 3000"
definition kLastHistogramMax :: "'f floats \<Rightarrow> 'f" where "kLastHistogramMax fl = fl_lit fl 250"
definition kMinHistogramThreshold :: "'f floats \<Rightarrow> 'f" where "kMinHistogramThreshold fl = fl_lit fl (3 / 2)"
definition kQ14Scaling :: "'f floats \<Rightarrow> 'f" where "kQ14Scaling fl = fl_div fl (fl_lit fl 1) (fl_of_int fl 16384)"
definition kFractionSlope :: "'f floats \<Rightarrow> 'f" where "kFractionSlope fl = fl_lit fl (1 / 20)"
definition kMinFractionWhenPossiblyCausal :: "'f floats \<Rightarrow> 'f" where
  "kMinFractionWhenPossiblyCausal fl = fl_lit fl (1 / 2)"
definition kMinFractionWhenPossiblyNonCausal :: "'f floats \<Rightarrow> 'f" where
  "kMinFractionWhenPossiblyNonCausal fl = fl_lit fl (1 / 4)"

definition of_truth :: "bool \<Rightarrow> int" where "of_truth b = (if b then 1 else 0)"

text \<open>The decrease of one bin of the histogram, which does not go below 0.\<close>

definition decrease_bin ::
  "'f floats \<Rightarrow> int \<Rightarrow> int \<Rightarrow> 'f \<Rightarrow> 'f \<Rightarrow> int \<Rightarrow> 'f \<Rightarrow> 'f" where
  "decrease_bin fl candidate_delay delay decrease_in_last_set valley_depth i h =
     (let is_in_last_set = delay - 2 \<le> i \<and> i \<le> delay + 1 \<and> i \<noteq> candidate_delay;
          is_in_candidate_set = candidate_delay - 2 \<le> i \<and> i \<le> candidate_delay + 1;
          h = fl_sub fl h
            (fl_add fl (fl_mul fl decrease_in_last_set (fl_of_int fl (of_truth is_in_last_set)))
              (fl_mul fl valley_depth (fl_of_int fl (of_truth (\<not> is_in_last_set \<and> \<not> is_in_candidate_set)))))
      in if fl_less fl h (fl_of_int fl 0) then fl_of_int fl 0 else h)"

definition UpdateRobustValidationStatistics ::
  "'f floats \<Rightarrow> 'f BinaryDelayEstimator \<Rightarrow> int \<Rightarrow> int \<Rightarrow> int \<Rightarrow> 'f BinaryDelayEstimator" where
  "UpdateRobustValidationStatistics fl self candidate_delay valley_depth_q14 valley_level_q14 =
     (let valley_depth = fl_mul fl (fl_of_int fl valley_depth_q14) (kQ14Scaling fl);
          max_hits_for_slow_change = (if candidate_delay < last_delay self
            then kMaxHitsWhenPossiblyNonCausal else kMaxHitsWhenPossiblyCausal);
          self = (if candidate_delay \<noteq> last_candidate_delay self
            then self\<lparr>candidate_hits := 0, last_candidate_delay := candidate_delay\<rparr> else self);
          self = self\<lparr>candidate_hits := int32 (candidate_hits self + 1)\<rparr>;
          h = fl_add fl (histogram self ! nat candidate_delay) valley_depth;
          h = (if fl_less fl (kHistogramMax fl) h then kHistogramMax fl else h);
          self = self\<lparr>histogram := (histogram self)[nat candidate_delay := h]\<rparr>;
          decrease_in_last_set = (if candidate_hits self < max_hits_for_slow_change
            then fl_mul fl (fl_of_int fl (mean_bit_counts self ! nat (compare_delay self) - valley_level_q14)) (kQ14Scaling fl)
            else valley_depth)
      in self\<lparr>histogram := map (\<lambda>i. if i < history_size self
            then decrease_bin fl candidate_delay (last_delay self) decrease_in_last_set valley_depth (int i) (histogram self ! i)
            else histogram self ! i) [0..<length (histogram self)]\<rparr>)"

definition HistogramBasedValidation :: "'f floats \<Rightarrow> 'f BinaryDelayEstimator \<Rightarrow> int \<Rightarrow> bool" where
  "HistogramBasedValidation fl self candidate_delay =
     (let delay_difference = candidate_delay - last_delay self;
          fraction =
            (if delay_difference > allowed_offset self then
               let fraction = fl_sub fl (fl_lit fl 1)
                     (fl_mul fl (kFractionSlope fl) (fl_of_int fl (delay_difference - allowed_offset self)))
               in if fl_less fl (kMinFractionWhenPossiblyCausal fl) fraction then fraction
                  else kMinFractionWhenPossiblyCausal fl
             else if delay_difference < 0 then
               let fraction = fl_sub fl (kMinFractionWhenPossiblyNonCausal fl)
                     (fl_mul fl (kFractionSlope fl) (fl_of_int fl delay_difference))
               in if fl_less fl (fl_lit fl 1) fraction then fl_lit fl 1 else fraction
             else fl_lit fl 1);
          histogram_threshold = fl_mul fl (histogram self ! nat (compare_delay self)) fraction;
          histogram_threshold = (if fl_less fl (kMinHistogramThreshold fl) histogram_threshold then histogram_threshold
            else kMinHistogramThreshold fl)
      in fl_le fl histogram_threshold (histogram self ! nat candidate_delay) \<and> candidate_hits self > kMinRequiredHits)"

definition RobustValidation :: "'f floats \<Rightarrow> 'f BinaryDelayEstimator \<Rightarrow> int \<Rightarrow> bool \<Rightarrow> bool \<Rightarrow> bool" where
  "RobustValidation fl self candidate_delay is_instantaneous_valid is_histogram_valid \<longleftrightarrow>
     last_delay self < 0 \<and> (is_instantaneous_valid \<or> is_histogram_valid) \<or>
     is_instantaneous_valid \<and> is_histogram_valid \<or>
     is_histogram_valid \<and> fl_less fl (last_delay_histogram self) (histogram self ! nat candidate_delay)"

subsection \<open>The far end\<close>

text \<open>\<open>realloc\<close>: new elements are as the memory was left, \<open>g\<close>.\<close>

definition resized :: "(nat \<Rightarrow> 'a) \<Rightarrow> 'a list \<Rightarrow> nat \<Rightarrow> 'a list" where
  "resized g xs n = take n xs @ map g [length xs..<n]"

definition zeroed :: "nat \<Rightarrow> nat \<Rightarrow> 'a \<Rightarrow> 'a list \<Rightarrow> 'a list" where
  "zeroed a b z xs = map (\<lambda>i. if a \<le> i \<and> i < b then z else xs ! i) [0..<length xs]"

record garbage =
  any_int :: "nat \<Rightarrow> int"
  any_word :: "nat \<Rightarrow> u32"

text \<open>The two allocations succeed or not.\<close>

definition WebRtc_AllocateFarendBufferMemory ::
  "garbage \<Rightarrow> bool \<times> bool \<Rightarrow> BinaryDelayEstimatorFarend \<Rightarrow> nat \<Rightarrow> nat \<times> BinaryDelayEstimatorFarend" where
  "WebRtc_AllocateFarendBufferMemory g oks self new_size =
     (let self = self\<lparr>binary_far_history := (if fst oks then resized (any_word g) (binary_far_history self) new_size else []),
                      far_bit_counts := (if snd oks then resized (any_int g) (far_bit_counts self) new_size else [])\<rparr>;
          new_size = (if \<not> fst oks \<or> \<not> snd oks then 0 else new_size);
          self = (if new_size > far_history_size self
            then self\<lparr>binary_far_history := zeroed (far_history_size self) new_size 0 (binary_far_history self),
                      far_bit_counts := zeroed (far_history_size self) new_size 0 (far_bit_counts self)\<rparr>
            else self)
      in (new_size, self\<lparr>far_history_size := new_size\<rparr>))"

definition WebRtc_CreateBinaryDelayEstimatorFarend ::
  "garbage \<Rightarrow> bool \<Rightarrow> bool \<times> bool \<Rightarrow> int \<Rightarrow> BinaryDelayEstimatorFarend option" where
  "WebRtc_CreateBinaryDelayEstimatorFarend g memory oks new_size =
     (if new_size \<le> 1 \<or> \<not> memory then None
      else case WebRtc_AllocateFarendBufferMemory g oks
             \<lparr>far_bit_counts = [], binary_far_history = [], far_history_size = 0\<rparr> (nat new_size) of
        (n, self) \<Rightarrow> if n = 0 then None else Some self)"

definition WebRtc_InitBinaryDelayEstimatorFarend :: "BinaryDelayEstimatorFarend \<Rightarrow> BinaryDelayEstimatorFarend" where
  "WebRtc_InitBinaryDelayEstimatorFarend self =
     self\<lparr>binary_far_history := zeroed 0 (far_history_size self) 0 (binary_far_history self),
          far_bit_counts := zeroed 0 (far_history_size self) 0 (far_bit_counts self)\<rparr>"

definition shifted :: "nat \<Rightarrow> nat \<Rightarrow> nat \<Rightarrow> nat \<Rightarrow> nat \<Rightarrow> 'a \<Rightarrow> 'a list \<Rightarrow> 'a list" where
  "shifted dest_index src_index shift_size padding_index abs_shift z xs =
     write_at (write_at xs dest_index (take shift_size (drop src_index xs))) padding_index (replicate abs_shift z)"

definition WebRtc_SoftResetBinaryDelayEstimatorFarend ::
  "BinaryDelayEstimatorFarend \<Rightarrow> int \<Rightarrow> BinaryDelayEstimatorFarend" where
  "WebRtc_SoftResetBinaryDelayEstimatorFarend self delay_shift =
     (let abs_shift = nat \<bar>delay_shift\<bar>;
          shift_size = far_history_size self - abs_shift;
          dest_index = (if delay_shift > 0 then abs_shift else 0);
          src_index = (if delay_shift < 0 then abs_shift else 0);
          padding_index = (if delay_shift < 0 then shift_size else 0)
      in if delay_shift = 0 then self
         else self\<lparr>binary_far_history := shifted dest_index src_index shift_size padding_index abs_shift 0 (binary_far_history self),
                   far_bit_counts := shifted dest_index src_index shift_size padding_index abs_shift 0 (far_bit_counts self)\<rparr>)"

text \<open>The \<open>memmove\<close> by one element and the new element in front.\<close>

definition push_front :: "nat \<Rightarrow> 'a \<Rightarrow> 'a list \<Rightarrow> 'a list" where
  "push_front n x xs = (write_at xs 1 (take (n - 1) xs))[0 := x]"

definition WebRtc_AddBinaryFarSpectrum :: "BinaryDelayEstimatorFarend \<Rightarrow> u32 \<Rightarrow> BinaryDelayEstimatorFarend" where
  "WebRtc_AddBinaryFarSpectrum handle binary_far_spectrum =
     handle\<lparr>binary_far_history := push_front (far_history_size handle) binary_far_spectrum (binary_far_history handle),
            far_bit_counts := push_front (far_history_size handle) (BitCount binary_far_spectrum) (far_bit_counts handle)\<rparr>"

subsection \<open>The estimator\<close>

text \<open>The estimator holds a pointer to its far end: operations that change both return both.\<close>

definition WebRtc_AllocateHistoryBufferMemory ::
  "garbage \<Rightarrow> (nat \<Rightarrow> 'f) \<Rightarrow> 'f floats \<Rightarrow> bool \<times> bool \<Rightarrow> bool \<times> bool \<times> bool \<Rightarrow>
    BinaryDelayEstimatorFarend \<Rightarrow> 'f BinaryDelayEstimator \<Rightarrow> nat \<Rightarrow>
    nat \<times> BinaryDelayEstimatorFarend \<times> 'f BinaryDelayEstimator" where
  "WebRtc_AllocateHistoryBufferMemory g any_float fl far_oks oks far self new_size =
     (case (if new_size \<noteq> far_history_size far then WebRtc_AllocateFarendBufferMemory g far_oks far new_size
            else (new_size, far)) of (new_size, far) \<Rightarrow>
      case oks of (mean_ok, counts_ok, histogram_ok) \<Rightarrow>
      let self = self\<lparr>mean_bit_counts := (if mean_ok then resized (any_int g) (mean_bit_counts self) (new_size + 1) else []),
                      bit_counts := (if counts_ok then resized (any_int g) (bit_counts self) new_size else []),
                      histogram := (if histogram_ok then resized any_float (histogram self) (new_size + 1) else [])\<rparr>;
          new_size = (if \<not> mean_ok \<or> \<not> counts_ok \<or> \<not> histogram_ok then 0 else new_size);
          old = history_size self;
          self = (if new_size > old
            then self\<lparr>mean_bit_counts := zeroed old new_size 0 (mean_bit_counts self),
                      bit_counts := zeroed old new_size 0 (bit_counts self),
                      histogram := zeroed old new_size (fl_lit fl 0) (histogram self)\<rparr>
            else self)
      in (new_size, far, self\<lparr>history_size := new_size\<rparr>))"

definition WebRtc_CreateBinaryDelayEstimator ::
  "garbage \<Rightarrow> (nat \<Rightarrow> 'f) \<Rightarrow> 'f floats \<Rightarrow> bool \<Rightarrow> bool \<Rightarrow> bool \<times> bool \<times> bool \<Rightarrow>
    BinaryDelayEstimatorFarend option \<Rightarrow> int \<Rightarrow> 'f BinaryDelayEstimator option" where
  "WebRtc_CreateBinaryDelayEstimator g any_float fl memory near_ok oks farend max_lookahead =
     (case farend of None \<Rightarrow> None | Some far \<Rightarrow>
      if max_lookahead < 0 \<or> \<not> memory then None
      else
        let self = \<lparr>mean_bit_counts = [], bit_counts = [],
                    binary_near_history = (if near_ok then map (any_word g) [0..<nat max_lookahead + 1] else []),
                    near_history_size = nat max_lookahead + 1, history_size = 0,
                    minimum_probability = any_int g 0, last_delay_probability = any_int g 1, last_delay = any_int g 2,
                    robust_validation_enabled = 0, allowed_offset = 0, last_candidate_delay = any_int g 3,
                    compare_delay = any_int g 4, candidate_hits = any_int g 5, histogram = [],
                    last_delay_histogram = any_float 0, lookahead = max_lookahead\<rparr>
        in if \<not> near_ok then None
           else case WebRtc_AllocateHistoryBufferMemory g any_float fl (True, True) oks far self (far_history_size far) of
             (n, _, self) \<Rightarrow> if n = 0 then None else Some self)"

definition WebRtc_InitBinaryDelayEstimator :: "'f floats \<Rightarrow> 'f BinaryDelayEstimator \<Rightarrow> 'f BinaryDelayEstimator" where
  "WebRtc_InitBinaryDelayEstimator fl self =
     self\<lparr>bit_counts := zeroed 0 (history_size self) 0 (bit_counts self),
          binary_near_history := zeroed 0 (near_history_size self) 0 (binary_near_history self),
          mean_bit_counts := zeroed 0 (history_size self + 1) (20 * 2 ^ 9) (mean_bit_counts self),
          histogram := zeroed 0 (history_size self + 1) (fl_lit fl 0) (histogram self),
          minimum_probability := kMaxBitCountsQ9, last_delay_probability := kMaxBitCountsQ9,
          last_delay := -2, last_candidate_delay := -2, compare_delay := int (history_size self),
          candidate_hits := 0, last_delay_histogram := fl_lit fl 0\<rparr>"

definition WebRtc_SoftResetBinaryDelayEstimator :: "'f BinaryDelayEstimator \<Rightarrow> int \<Rightarrow> int \<times> 'f BinaryDelayEstimator" where
  "WebRtc_SoftResetBinaryDelayEstimator self delay_shift =
     (let l = lookahead self - delay_shift;
          l = (if l < 0 then 0 else l);
          l = (if l > int (near_history_size self) - 1 then int (near_history_size self) - 1 else l)
      in (lookahead self - l, self\<lparr>lookahead := l\<rparr>))"

text \<open>One delay: the more bits the far end has, the faster the smoothing; with none the mean stays.\<close>

definition smooth_count :: "int \<Rightarrow> int \<Rightarrow> int \<Rightarrow> int" where
  "smooth_count far_count count mean =
     (if far_count > 0
      then WebRtc_MeanEstimatorFix (push_bit 9 count) (kShiftsAtZero - drop_bit 4 (kShiftsLinearSlope * far_count)) mean
      else mean)"

fun find_candidates :: "int list \<Rightarrow> int \<Rightarrow> int \<Rightarrow> int \<Rightarrow> int \<Rightarrow> int \<times> int \<times> int" where
  "find_candidates [] i best candidate worst = (best, candidate, worst)"
| "find_candidates (m # ms) i best candidate worst =
     find_candidates ms (i + 1) (if m < best then m else best) (if m < best then i else candidate)
       (if m > worst then m else worst)"

definition lower_threshold :: "int \<Rightarrow> int \<Rightarrow> int \<Rightarrow> int" where
  "lower_threshold best valley_depth probability =
     (if probability > kProbabilityLowerLimit \<and> valley_depth > kProbabilityMinSpread then
        let threshold = best + kProbabilityOffset;
            threshold = (if threshold < kProbabilityLowerLimit then kProbabilityLowerLimit else threshold)
        in if probability > threshold then threshold else probability
      else probability)"

text \<open>The candidate becomes the delay.\<close>

definition accept_candidate :: "'f floats \<Rightarrow> int \<Rightarrow> int \<Rightarrow> 'f BinaryDelayEstimator \<Rightarrow> 'f BinaryDelayEstimator" where
  "accept_candidate fl candidate_delay best self =
     (let h = histogram self ! nat candidate_delay;
          self = (if candidate_delay \<noteq> last_delay self then
            let self = self\<lparr>last_delay_histogram := (if fl_less fl (kLastHistogramMax fl) h then kLastHistogramMax fl else h)\<rparr>
            in if fl_less fl h (histogram self ! nat (compare_delay self))
               then self\<lparr>histogram := (histogram self)[nat (compare_delay self) := h]\<rparr> else self
            else self);
          self = self\<lparr>last_delay := candidate_delay\<rparr>;
          self = (if best < last_delay_probability self then self\<lparr>last_delay_probability := best\<rparr> else self)
      in self\<lparr>compare_delay := last_delay self\<rparr>)"

definition WebRtc_ProcessBinarySpectrum ::
  "'f floats \<Rightarrow> BinaryDelayEstimatorFarend \<Rightarrow> 'f BinaryDelayEstimator \<Rightarrow> u32 \<Rightarrow> (int \<times> 'f BinaryDelayEstimator) option" where
  "WebRtc_ProcessBinarySpectrum fl farend self near =
     (if far_history_size farend \<noteq> history_size self then Some (-1, self)
      else
        let (near, self) =
              (if near_history_size self > 1 then
                 let h = push_front (near_history_size self) near (binary_near_history self)
                 in (h ! nat (lookahead self), self\<lparr>binary_near_history := h\<rparr>)
               else (near, self));
            n = history_size self;
            self = self\<lparr>bit_counts := BitCountComparison near (binary_far_history farend) n (bit_counts self)\<rparr>;
            self = self\<lparr>mean_bit_counts := map (\<lambda>i. if i < n
                then smooth_count (far_bit_counts farend ! i) (bit_counts self ! i) (mean_bit_counts self ! i)
                else mean_bit_counts self ! i) [0..<length (mean_bit_counts self)]\<rparr>
        in case find_candidates (take n (mean_bit_counts self)) 0 kMaxBitCountsQ9 (-1) 0 of
             (best, candidate_delay, worst) \<Rightarrow>
        let valley_depth = worst - best;
            self = self\<lparr>minimum_probability := lower_threshold best valley_depth (minimum_probability self),
                        last_delay_probability := int32 (last_delay_probability self + 1)\<rparr>;
            valid_candidate = (valley_depth > kProbabilityOffset \<and>
              (best < minimum_probability self \<or> best < last_delay_probability self))
        in if (robust_validation_enabled self \<noteq> 0 \<or> valid_candidate) \<and>
              \<not> (0 \<le> candidate_delay \<and> candidate_delay < int (length (histogram self)) \<and>
                 0 \<le> compare_delay self \<and> compare_delay self < int (length (histogram self)))
           then None
           else
             let (valid_candidate, self) =
                   (if robust_validation_enabled self \<noteq> 0 then
                      let self = UpdateRobustValidationStatistics fl self candidate_delay valley_depth best
                      in (RobustValidation fl self candidate_delay valid_candidate
                            (HistogramBasedValidation fl self candidate_delay), self)
                    else (valid_candidate, self));
                 self = (if valid_candidate then accept_candidate fl candidate_delay best self else self)
             in Some (last_delay self, self))"

definition WebRtc_binary_last_delay :: "'f BinaryDelayEstimator \<Rightarrow> int" where
  "WebRtc_binary_last_delay self = last_delay self"

definition WebRtc_binary_last_delay_quality :: "'f floats \<Rightarrow> 'f BinaryDelayEstimator \<Rightarrow> 'f" where
  "WebRtc_binary_last_delay_quality fl self =
     (if robust_validation_enabled self \<noteq> 0
      then fl_div fl (histogram self ! nat (compare_delay self)) (kHistogramMax fl)
      else
        let quality = fl_div fl (fl_of_int fl (kMaxBitCountsQ9 - last_delay_probability self)) (fl_of_int fl kMaxBitCountsQ9)
        in if fl_less fl quality (fl_of_int fl 0) then fl_of_int fl 0 else quality)"

subsection \<open>Binary spectra\<close>

definition kBandFirst :: nat where "kBandFirst = 12"
definition kBandLast :: nat where "kBandLast = 43"

definition SetBit :: "u32 \<Rightarrow> nat \<Rightarrow> u32" where
  "SetBit w pos = w OR push_bit pos 1"

definition to_q15 :: "int \<Rightarrow> int \<Rightarrow> int" where
  "to_q15 q_domain x = int32 (push_bit (nat (15 - q_domain)) x)"

text \<open>The first loop, which sets the threshold at the start.\<close>

fun start_threshold :: "int list \<Rightarrow> int \<Rightarrow> nat list \<Rightarrow> int list \<times> int \<Rightarrow> int list \<times> int" where
  "start_threshold spectrum q [] (threshold, initialized) = (threshold, initialized)"
| "start_threshold spectrum q (i # is) (threshold, initialized) =
     start_threshold spectrum q is
       (if spectrum ! i > 0 then (threshold[i := drop_bit 1 (to_q15 q (spectrum ! i))], 1) else (threshold, initialized))"

text \<open>The second, which smooths it and sets the bits.\<close>

fun threshold_bits :: "int list \<Rightarrow> int \<Rightarrow> nat list \<Rightarrow> int list \<Rightarrow> u32 \<Rightarrow> u32 \<times> int list" where
  "threshold_bits spectrum q [] threshold out = (out, threshold)"
| "threshold_bits spectrum q (i # is) threshold out =
     (let spectrum_q15 = to_q15 q (spectrum ! i);
          t = WebRtc_MeanEstimatorFix spectrum_q15 6 (threshold ! i)
      in threshold_bits spectrum q is (threshold[i := t])
           (if spectrum_q15 > t then SetBit out (i - kBandFirst) else out))"

definition BinarySpectrumFix :: "int list \<Rightarrow> int list \<Rightarrow> int \<Rightarrow> int \<Rightarrow> (u32 \<times> int list \<times> int) option" where
  "BinarySpectrumFix spectrum threshold q_domain initialized =
     (if length spectrum \<le> kBandLast \<or> length threshold \<le> kBandLast then None
      else
        let bands = [kBandFirst..<kBandLast + 1];
            (threshold, initialized) =
              (if initialized = 0 then start_threshold spectrum q_domain bands (threshold, initialized)
               else (threshold, initialized))
        in case threshold_bits spectrum q_domain bands threshold 0 of (out, threshold) \<Rightarrow>
             Some (out, threshold, initialized))"

subsection \<open>The interface\<close>

record DelayEstimatorFarend =
  mean_far_spectrum :: "int list"
  far_spectrum_initialized :: int
  far_spectrum_size :: nat
  binary_farend :: BinaryDelayEstimatorFarend

record 'f DelayEstimator =
  mean_near_spectrum :: "int list"
  near_spectrum_initialized :: int
  near_spectrum_size :: nat
  binary_handle :: "'f BinaryDelayEstimator"

definition WebRtc_CreateDelayEstimatorFarend ::
  "garbage \<Rightarrow> bool \<Rightarrow> BinaryDelayEstimatorFarend option \<Rightarrow> bool \<Rightarrow> int \<Rightarrow> DelayEstimatorFarend option" where
  "WebRtc_CreateDelayEstimatorFarend g memory binary mean_ok spectrum_size =
     (if spectrum_size < int kBandLast \<or> \<not> memory then None
      else case binary of None \<Rightarrow> None | Some b \<Rightarrow>
        if \<not> mean_ok then None
        else Some \<lparr>mean_far_spectrum = map (any_int g) [0..<nat spectrum_size], far_spectrum_initialized = any_int g 0,
                   far_spectrum_size = nat spectrum_size, binary_farend = b\<rparr>)"

definition WebRtc_InitDelayEstimatorFarend :: "DelayEstimatorFarend option \<Rightarrow> int \<times> DelayEstimatorFarend option" where
  "WebRtc_InitDelayEstimatorFarend handle =
     (case handle of None \<Rightarrow> (-1, None) | Some self \<Rightarrow>
        (0, Some (self\<lparr>binary_farend := WebRtc_InitBinaryDelayEstimatorFarend (binary_farend self),
                       mean_far_spectrum := zeroed 0 (far_spectrum_size self) 0 (mean_far_spectrum self),
                       far_spectrum_initialized := 0\<rparr>)))"

definition WebRtc_SoftResetDelayEstimatorFarend :: "DelayEstimatorFarend \<Rightarrow> int \<Rightarrow> DelayEstimatorFarend" where
  "WebRtc_SoftResetDelayEstimatorFarend self delay_shift =
     self\<lparr>binary_farend := WebRtc_SoftResetBinaryDelayEstimatorFarend (binary_farend self) delay_shift\<rparr>"

definition WebRtc_AddFarSpectrumFix ::
  "DelayEstimatorFarend option \<Rightarrow> int list option \<Rightarrow> nat \<Rightarrow> int \<Rightarrow> (int \<times> DelayEstimatorFarend option) option" where
  "WebRtc_AddFarSpectrumFix handle far_spectrum spectrum_size far_q =
     (case (handle, far_spectrum) of
        (Some self, Some spectrum) \<Rightarrow>
          if spectrum_size \<noteq> far_spectrum_size self \<or> far_q > 15 then Some (-1, handle)
          else do {
            (binary_spectrum, mean, initialized) \<leftarrow>
              BinarySpectrumFix spectrum (mean_far_spectrum self) far_q (far_spectrum_initialized self);
            Some (0, Some (self\<lparr>mean_far_spectrum := mean, far_spectrum_initialized := initialized,
              binary_farend := WebRtc_AddBinaryFarSpectrum (binary_farend self) binary_spectrum\<rparr>))
          }
      | _ \<Rightarrow> Some (-1, handle))"

definition WebRtc_CreateDelayEstimator ::
  "garbage \<Rightarrow> bool \<Rightarrow> 'f BinaryDelayEstimator option \<Rightarrow> bool \<Rightarrow> DelayEstimatorFarend option \<Rightarrow> 'f DelayEstimator option" where
  "WebRtc_CreateDelayEstimator g memory binary mean_ok farend_handle =
     (case farend_handle of None \<Rightarrow> None | Some farend \<Rightarrow>
      if \<not> memory then None
      else case binary of None \<Rightarrow> None | Some b \<Rightarrow>
        if \<not> mean_ok then None
        else Some \<lparr>mean_near_spectrum = map (any_int g) [0..<far_spectrum_size farend], near_spectrum_initialized = any_int g 0,
                   near_spectrum_size = far_spectrum_size farend, binary_handle = b\<rparr>)"

definition WebRtc_InitDelayEstimator :: "'f floats \<Rightarrow> 'f DelayEstimator option \<Rightarrow> int \<times> 'f DelayEstimator option" where
  "WebRtc_InitDelayEstimator fl handle =
     (case handle of None \<Rightarrow> (-1, None) | Some self \<Rightarrow>
        (0, Some (self\<lparr>binary_handle := WebRtc_InitBinaryDelayEstimator fl (binary_handle self),
                       mean_near_spectrum := zeroed 0 (near_spectrum_size self) 0 (mean_near_spectrum self),
                       near_spectrum_initialized := 0\<rparr>)))"

definition WebRtc_SoftResetDelayEstimator :: "'f DelayEstimator \<Rightarrow> int \<Rightarrow> int \<times> 'f DelayEstimator" where
  "WebRtc_SoftResetDelayEstimator self delay_shift =
     (case WebRtc_SoftResetBinaryDelayEstimator (binary_handle self) delay_shift of
        (n, b) \<Rightarrow> (n, self\<lparr>binary_handle := b\<rparr>))"

definition WebRtc_set_history_size ::
  "garbage \<Rightarrow> (nat \<Rightarrow> 'f) \<Rightarrow> 'f floats \<Rightarrow> bool \<times> bool \<Rightarrow> bool \<times> bool \<times> bool \<Rightarrow>
    BinaryDelayEstimatorFarend \<Rightarrow> 'f DelayEstimator option \<Rightarrow> int \<Rightarrow>
    int \<times> BinaryDelayEstimatorFarend \<times> 'f DelayEstimator option" where
  "WebRtc_set_history_size g any_float fl far_oks oks far handle new_size =
     (case handle of None \<Rightarrow> (-1, far, None) | Some self \<Rightarrow>
      if new_size \<le> 1 then (-1, far, handle)
      else case WebRtc_AllocateHistoryBufferMemory g any_float fl far_oks oks far (binary_handle self) (nat new_size) of
        (n, far, b) \<Rightarrow> (int n, far, Some (self\<lparr>binary_handle := b\<rparr>)))"

definition WebRtc_history_size :: "BinaryDelayEstimatorFarend \<Rightarrow> 'f DelayEstimator option \<Rightarrow> int" where
  "WebRtc_history_size far handle =
     (case handle of None \<Rightarrow> -1 | Some self \<Rightarrow>
      if far_history_size far \<noteq> history_size (binary_handle self) then -1
      else int (history_size (binary_handle self)))"

definition WebRtc_set_lookahead :: "'f DelayEstimator \<Rightarrow> int \<Rightarrow> int \<times> 'f DelayEstimator" where
  "WebRtc_set_lookahead self l =
     (if l > int (near_history_size (binary_handle self)) - 1 \<or> l < 0 then (-1, self)
      else (l, self\<lparr>binary_handle := (binary_handle self)\<lparr>lookahead := l\<rparr>\<rparr>))"

definition WebRtc_lookahead :: "'f DelayEstimator \<Rightarrow> int" where
  "WebRtc_lookahead self = lookahead (binary_handle self)"

definition WebRtc_set_allowed_offset :: "'f DelayEstimator option \<Rightarrow> int \<Rightarrow> int \<times> 'f DelayEstimator option" where
  "WebRtc_set_allowed_offset handle offset =
     (case handle of None \<Rightarrow> (-1, None) | Some self \<Rightarrow>
      if offset < 0 then (-1, handle)
      else (0, Some (self\<lparr>binary_handle := (binary_handle self)\<lparr>allowed_offset := offset\<rparr>\<rparr>)))"

definition WebRtc_get_allowed_offset :: "'f DelayEstimator option \<Rightarrow> int" where
  "WebRtc_get_allowed_offset handle =
     (case handle of None \<Rightarrow> -1 | Some self \<Rightarrow> allowed_offset (binary_handle self))"

definition WebRtc_enable_robust_validation :: "'f DelayEstimator option \<Rightarrow> int \<Rightarrow> int \<times> 'f DelayEstimator option" where
  "WebRtc_enable_robust_validation handle enable =
     (case handle of None \<Rightarrow> (-1, None) | Some self \<Rightarrow>
      if enable < 0 \<or> enable > 1 then (-1, handle)
      else (0, Some (self\<lparr>binary_handle := (binary_handle self)\<lparr>robust_validation_enabled := enable\<rparr>\<rparr>)))"

definition WebRtc_is_robust_validation_enabled :: "'f DelayEstimator option \<Rightarrow> int" where
  "WebRtc_is_robust_validation_enabled handle =
     (case handle of None \<Rightarrow> -1 | Some self \<Rightarrow> robust_validation_enabled (binary_handle self))"

definition WebRtc_DelayEstimatorProcessFix ::
  "'f floats \<Rightarrow> BinaryDelayEstimatorFarend \<Rightarrow> 'f DelayEstimator option \<Rightarrow> int list option \<Rightarrow> nat \<Rightarrow> int \<Rightarrow>
    (int \<times> 'f DelayEstimator option) option" where
  "WebRtc_DelayEstimatorProcessFix fl far handle near_spectrum spectrum_size near_q =
     (case (handle, near_spectrum) of
        (Some self, Some spectrum) \<Rightarrow>
          if spectrum_size \<noteq> near_spectrum_size self \<or> near_q > 15 then Some (-1, handle)
          else do {
            (binary_spectrum, mean, initialized) \<leftarrow>
              BinarySpectrumFix spectrum (mean_near_spectrum self) near_q (near_spectrum_initialized self);
            (delay, b) \<leftarrow> WebRtc_ProcessBinarySpectrum fl far (binary_handle self) binary_spectrum;
            Some (delay, Some (self\<lparr>mean_near_spectrum := mean, near_spectrum_initialized := initialized, binary_handle := b\<rparr>))
          }
      | _ \<Rightarrow> Some (-1, handle))"

definition WebRtc_last_delay :: "'f DelayEstimator option \<Rightarrow> int" where
  "WebRtc_last_delay handle =
     (case handle of None \<Rightarrow> -1 | Some self \<Rightarrow> WebRtc_binary_last_delay (binary_handle self))"

definition WebRtc_last_delay_quality :: "'f floats \<Rightarrow> 'f DelayEstimator \<Rightarrow> 'f" where
  "WebRtc_last_delay_quality fl self = WebRtc_binary_last_delay_quality fl (binary_handle self)"

end
