(* ===== verification/Bit_Counting.thy ===== *)
theory Bit_Counting
  imports Delay_Estimator
begin

text \<open>
  \<open>BitCount\<close> counts the bits of a word: adjacent bits are added in groups of three, of six and of twelve, and no
  group overflows.
\<close>

subsection \<open>Groups of bits\<close>

text \<open>The number with the given digits, the lowest first.\<close>

fun digits :: "int \<Rightarrow> int list \<Rightarrow> int" where
  "digits B [] = 0"
| "digits B (d # ds) = d + B * digits B ds"

lemma uint_bits: "uint (u :: u32) = digits 2 (map (\<lambda>k. of_bool (bit u k)) [0..<32])"
proof -
  have "digits 2 (map f [0..<n]) = (\<Sum>k<n. f k * 2 ^ k)" for f :: "nat \<Rightarrow> int" and n
  proof -
    have "digits 2 (map (\<lambda>k. g (k + m)) [0..<n]) = (\<Sum>k<n. g (k + m) * 2 ^ k)" for g :: "nat \<Rightarrow> int" and m
    proof (induction n arbitrary: m)
      case (Suc n)
      have "map (\<lambda>k. g (k + m)) [0..<Suc n] = g m # map (\<lambda>k. g (k + Suc m)) [0..<n]"
        by (rule nth_equalityI) (auto simp: nth_Cons split: nat.split simp del: upt_Suc)
      then show ?case
        using Suc [of "Suc m"] by (simp add: sum.lessThan_Suc_shift sum_distrib_left ac_simps del: upt_Suc sum.lessThan_Suc)
    qed simp
    from this [of f 0] show ?thesis by simp
  qed
  moreover have "uint u = (\<Sum>k<32. of_bool (bit u k) * 2 ^ k)"
  proof -
    have "uint u = take_bit 32 (uint u)" using uint_lt2p [of u] by (simp add: take_bit_int_eq_self)
    also have "\<dots> = (\<Sum>k = 0..<32. push_bit k (of_bool (bit (uint u) k)))" by (rule take_bit_sum)
    also have "\<dots> = (\<Sum>k<32. of_bool (bit u k) * 2 ^ k)"
      by (intro sum.cong) (auto simp: push_bit_eq_mult bit_uint_iff)
    finally show ?thesis .
  qed
  ultimately show ?thesis by simp
qed

text \<open>A mask of ones in every third bit, applied digit by digit.\<close>

lemma and_digit:
  fixes a b r m :: int
  assumes "0 \<le> a" "a < 2 ^ k" "0 \<le> b" "b < 2 ^ k"
  shows "(a + 2 ^ k * r) AND (b + 2 ^ k * m) = (a AND b) + 2 ^ k * (r AND m)"
proof -
  have s: "take_bit k (c + 2 ^ k * x) = c" "drop_bit k (c + 2 ^ k * x) = x" if "0 \<le> c" "c < 2 ^ k" for c x :: int
    using that by (simp_all add: take_bit_eq_mod drop_bit_eq_div)
  let ?x = "a + 2 ^ k * r" and ?y = "b + 2 ^ k * m"
  have "?x AND ?y = take_bit k (?x AND ?y) + 2 ^ k * drop_bit k (?x AND ?y)"
    by (simp add: take_bit_eq_mod drop_bit_eq_div)
  then show ?thesis using s assms by (simp add: take_bit_and drop_bit_and)
qed

lemma digits_mono: "list_all2 (\<le>) xs ys \<Longrightarrow> 0 \<le> B \<Longrightarrow> digits B xs \<le> digits B ys"
  by (induction xs ys rule: list_all2_induct) (auto intro: add_mono mult_left_mono)

lemma digits_minus: "digits B (map (\<lambda>x. f x - g x) xs) = digits B (map f xs) - digits B (map g xs)"
  by (induction xs) (auto simp: right_diff_distrib)

lemma and_ones:
  fixes x :: int
  shows "x AND 1 = x mod 2" "x AND 3 = x mod 4" "x AND 7 = x mod 8" "x AND 63 = x mod 64"
proof -
  have "x AND mask n = x mod 2 ^ n" for n by (simp add: take_bit_eq_mask [symmetric] take_bit_eq_mod)
  from this [of 1] this [of 2] this [of 3] this [of 6]
  show "x AND 1 = x mod 2" "x AND 3 = x mod 4" "x AND 7 = x mod 8" "x AND 63 = x mod 64"
    by (simp_all add: mask_eq_exp_minus_1)
qed

lemma digits_shifted:
  assumes "\<forall>d \<in> set ds. 0 \<le> d \<and> d < 8"
  shows "digits 8 ds div 2 AND digits 8 (replicate (length ds) 3) = digits 8 (map (\<lambda>d. d div 2) ds) \<and>
    digits 8 ds div 4 AND digits 8 (replicate (length ds) 1) = digits 8 (map (\<lambda>d. d div 4) ds)"
  using assms
proof (induction ds)
  case (Cons d ds)
  let ?R = "digits 8 ds"
  have d: "0 \<le> d" "d < 8" using Cons.prems by simp_all
  have e: "digits 8 (d # ds) div 2 = (d div 2 + 4 * (?R mod 2)) + 2 ^ 3 * (?R div 2)"
    "digits 8 (d # ds) div 4 = (d div 4 + 2 * (?R mod 4)) + 2 ^ 3 * (?R div 4)" using d by (simp_all, presburger+)
  have b: "0 \<le> d div 2 + 4 * (?R mod 2)" "d div 2 + 4 * (?R mod 2) < 8" "(d div 2 + 4 * (?R mod 2)) AND 3 = d div 2"
    "0 \<le> d div 4 + 2 * (?R mod 4)" "d div 4 + 2 * (?R mod 4) < 8" "(d div 4 + 2 * (?R mod 4)) AND 1 = d div 4"
    using d unfolding and_ones by presburger+
  show ?case
    using Cons b and_digit [of "d div 2 + 4 * (?R mod 2)" 3 3 "?R div 2" "digits 8 (replicate (length ds) 3)"]
      and_digit [of "d div 4 + 2 * (?R mod 4)" 3 1 "?R div 4" "digits 8 (replicate (length ds) 1)"]
    unfolding e by simp
qed simp

lemma digits_and:
  assumes "length xs = length ys" "\<forall>x \<in> set xs. 0 \<le> x \<and> x < 2 ^ k" "\<forall>y \<in> set ys. 0 \<le> y \<and> y < 2 ^ k"
  shows "digits (2 ^ k) xs AND digits (2 ^ k) ys = digits (2 ^ k) (map2 (AND) xs ys)"
  using assms by (induction xs ys rule: list_induct2) (simp_all add: and_digit)

lemma digits_div: "0 \<le> d \<Longrightarrow> d < B \<Longrightarrow> digits B (d # ds) div B = digits B ds"
  by simp

lemma digits_range:
  assumes "\<forall>d \<in> set ds. 0 \<le> d \<and> d \<le> m" "0 \<le> B"
  shows "0 \<le> digits B ds" "digits B ds \<le> digits B (replicate (length ds) m)"
proof -
  show "0 \<le> digits B ds" using assms by (induction ds) simp_all
  show "digits B ds \<le> digits B (replicate (length ds) m)"
    using assms by (intro digits_mono) (simp_all add: list_all2_conv_all_nth)
qed

subsection \<open>The count\<close>

lemma folded_groups:
  fixes a0 a1 a2 a3 a4 a5 :: int
  assumes "\<forall>x \<in> {a0, a1, a2, a3, a4}. 0 \<le> x \<and> x \<le> 12" "0 \<le> a5" "a5 \<le> 3"
  defines "X \<equiv> digits 64 [a0, a1, a2, a3, a4, a5]"
  shows "X + X div 2 ^ 12 < 2 ^ 32" "X + X div 2 ^ 12 + X div 2 ^ 24 < 2 ^ 32"
    "(X + X div 2 ^ 12 + X div 2 ^ 24) mod 64 = a0 + a2 + a4"
proof -
  have dv: "(a + B * y) div B = y" if "0 \<le> a" "a < B" for a B y :: int using that by simp
  have e: "X = (a0 + 64 * a1) + 4096 * (a2 + 64 * (a3 + 64 * (a4 + 64 * a5)))"
    "X = (a0 + 64 * (a1 + 64 * (a2 + 64 * a3))) + 16777216 * (a4 + 64 * a5)" unfolding X_def by simp_all
  have r: "0 \<le> a0 + 64 * a1" "a0 + 64 * a1 < 4096" "0 \<le> a0 + 64 * (a1 + 64 * (a2 + 64 * a3))"
    "a0 + 64 * (a1 + 64 * (a2 + 64 * a3)) < 16777216" using assms(1-3) by simp_all
  have "X div 4096 = a2 + 64 * (a3 + 64 * (a4 + 64 * a5))" by (subst e(1)) (rule dv [OF r(1,2)])
  moreover have "X div 16777216 = a4 + 64 * a5" by (subst e(2)) (rule dv [OF r(3,4)])
  ultimately have d: "X div 2 ^ 12 = a2 + 64 * (a3 + 64 * (a4 + 64 * a5))" "X div 2 ^ 24 = a4 + 64 * a5" by simp_all
  have X: "X = a0 + 64 * (a1 + 64 * (a2 + 64 * (a3 + 64 * (a4 + 64 * a5))))" by (simp add: X_def)
  show "X + X div 2 ^ 12 < 2 ^ 32" "X + X div 2 ^ 12 + X div 2 ^ 24 < 2 ^ 32"
    unfolding d unfolding X using assms(1-3) by simp_all
  have md: "(a + 64 * b) mod 64 = a" if "0 \<le> a" "a < 64" for a b :: int using that by simp
  have total: "X + X div 2 ^ 12 + X div 2 ^ 24 = (a0 + a2 + a4) +
      64 * (a1 + 64 * (a2 + 64 * (a3 + 64 * (a4 + 64 * a5))) + (a3 + 64 * (a4 + 64 * a5)) + a5)"
    unfolding d unfolding X by simp
  show "(X + X div 2 ^ 12 + X div 2 ^ 24) mod 64 = a0 + a2 + a4"
    unfolding total by (rule md) (use assms(1-3) in simp_all)
qed

lemma BitCount_sum: "BitCount u = (\<Sum>k<32. of_bool (bit u k))"
proof -
  define b where "b k = (of_bool (bit u k) :: int)" for k
  have b: "0 \<le> b k" "b k \<le> 1" "b k = 0 \<or> b k = 1" for k by (simp_all add: b_def)
  have b32: "b 32 = 0" using bit_imp_le_length [of u 32] by (auto simp: b_def)
  define d where "d i = b (3 * i) + 2 * b (3 * i + 1) + 4 * b (3 * i + 2)" for i
  define p where "p i = b (3 * i) + b (3 * i + 1) + b (3 * i + 2)" for i
  have d: "0 \<le> d i \<and> d i < 8" for i using b [of "3 * i"] b [of "3 * i + 1"] b [of "3 * i + 2"] by (simp add: d_def)
  have p: "d i - d i div 2 - d i div 4 = p i" for i
    using b(3) [of "3 * i"] b(3) [of "3 * i + 1"] b(3) [of "3 * i + 2"] by (auto simp: d_def p_def)
  have pr: "0 \<le> p i" "p i \<le> 3" for i
    using b [of "3 * i"] b [of "3 * i + 1"] b [of "3 * i + 2"] by (simp_all add: p_def)
  let ?ds = "map d [0..<11]"
  have l32: "[0..<32] = [0, 1, 2, 3, 4, 5, 6, 7, 8, 9, 10, 11, 12, 13, 14, 15, 16, 17, 18, 19, 20, 21, 22, 23, 24, 25,
      26, 27, 28, 29, 30, 31 :: nat]" and l11: "[0..<11] = [0, 1, 2, 3, 4, 5, 6, 7, 8, 9, 10 :: nat]"
    by (simp_all add: upt_rec)
  have U: "uint u = digits 8 ?ds"
    unfolding uint_bits b_def [symmetric] l32 l11 by (simp add: d_def b32 numeral_2_eq_2 [symmetric])
  have masks: "(0xDB6DB6DB :: int) = digits 8 (replicate (length ?ds) 3)" "(0x49249249 :: int) = digits 8 (replicate (length ?ds) 1)"
    by (simp_all add: numeral_eq_Suc)
  have ds: "\<forall>x \<in> set ?ds. 0 \<le> x \<and> x < 8" using d by auto
  note sh = digits_shifted [OF ds]
  let ?p = "map p [0..<11]"
  have dr: "uint (drop_bit n w) = uint w div 2 ^ n" for n and w :: u32
  proof -
    have "uint (drop_bit n w) = drop_bit n (uint w)" by (rule bit_eqI) (simp add: bit_unsigned_iff bit_drop_bit_eq)
    then show ?thesis by (simp only: drop_bit_eq_div)
  qed
  have add: "uint (a + b) = uint a + uint b" if "uint a + uint b < 2 ^ 32" for a b :: u32
    using uint_add_lem [of a b] that by simp
  have lit: "uint (0xDB6DB6DB :: u32) = 0xDB6DB6DB" "uint (0x49249249 :: u32) = 0x49249249" "uint (0xC71C71C7 :: u32) = 0xC71C71C7"
    "uint (0x3F :: u32) = 0x3F" by simp_all
  define v1 where "v1 = (drop_bit 1 u AND 0xDB6DB6DB)"
  define v2 where "v2 = (drop_bit 2 u AND 0x49249249)"
  have v: "uint v1 = digits 8 (map (\<lambda>x. x div 2) ?ds)" "uint v2 = digits 8 (map (\<lambda>x. x div 4) ?ds)"
    using sh [folded masks] unfolding v1_def v2_def uint_and dr lit U by simp_all
  have diff: "digits 8 (map (\<lambda>i. d i - d i div 2 - d i div 4) [0..<11]) = uint u - uint v1 - uint v2"
    unfolding U v by (simp add: digits_minus comp_def)
  have t1: "uint (u - v1 - v2) = digits 8 ?p"
  proof -
    have "0 \<le> digits 8 ?p" using digits_mono [of "replicate 11 0" ?p 8] pr by (auto simp: list_all2_conv_all_nth numeral_eq_Suc)
    then have le: "uint v1 + uint v2 \<le> uint u" using diff by (simp add: p)
    moreover have "0 \<le> uint v2" by simp
    ultimately have "uint v1 \<le> uint u" by linarith
    then have s: "uint (u - v1) = uint u - uint v1" by (rule uint_sub_lem [THEN iffD1])
    then have "uint v2 \<le> uint (u - v1)" using le by linarith
    then have "uint (u - v1 - v2) = uint (u - v1) - uint v2" by (rule uint_sub_lem [THEN iffD1])
    then show ?thesis using diff s by (simp add: p)
  qed
  define w1 where "w1 = u - v1 - v2"
  define w2 where "w2 = (w1 + drop_bit 3 w1) AND 0xC71C71C7"
  define w3 where "w3 = w2 + drop_bit 6 w2"
  have t1: "uint w1 = digits 8 [p 0, p 1, p 2, p 3, p 4, p 5, p 6, p 7, p 8, p 9, p 10]"
    using t1 by (simp add: w1_def l11)
  have t2: "uint w2 = digits 64 [p 0 + p 1, p 2 + p 3, p 4 + p 5, p 6 + p 7, p 8 + p 9, p 10]"
  proof -
    have half: "uint w1 div 8 = digits 8 [p 1, p 2, p 3, p 4, p 5, p 6, p 7, p 8, p 9, p 10]"
      unfolding t1 using pr [of 0] by (intro digits_div) linarith+
    let ?xs = "[p 0 + p 1 + 8 * (p 1 + p 2), p 2 + p 3 + 8 * (p 3 + p 4), p 4 + p 5 + 8 * (p 5 + p 6),
      p 6 + p 7 + 8 * (p 7 + p 8), p 8 + p 9 + 8 * (p 9 + p 10), p 10]"
    have both: "uint w1 + uint w1 div 8 = digits 64 ?xs" unfolding half unfolding t1 by simp
    have "uint w1 + uint w1 div 8 < 2 ^ 32"
      unfolding half unfolding t1
      using pr digits_range [of "[p 0, p 1, p 2, p 3, p 4, p 5, p 6, p 7, p 8, p 9, p 10]" 3 8]
        digits_range [of "[p 1, p 2, p 3, p 4, p 5, p 6, p 7, p 8, p 9, p 10]" 3 8] by simp
    then have "uint (w1 + drop_bit 3 w1) = uint w1 + uint w1 div 8"
      using add [of w1 "drop_bit 3 w1"] dr [of 3 w1] by simp
    then have "uint (w1 + drop_bit 3 w1) = digits 64 ?xs" by (simp only: both)
    moreover have m: "(0xC71C71C7 :: int) = digits (2 ^ 6) [7, 7, 7, 7, 7, 3]" by simp
    moreover have "\<forall>x \<in> set ?xs. 0 \<le> x \<and> x < 2 ^ 6"
      using pr by (simp add: add_mono) (smt (verit))
    ultimately have "uint w2 = digits 64 (map2 (AND) ?xs [7, 7, 7, 7, 7, 3])"
      using digits_and [of ?xs "[7, 7, 7, 7, 7, 3]" 6] unfolding w2_def uint_and lit by simp
    moreover have "(a + b + 8 * (b + c)) AND 7 = a + b" if "0 \<le> a" "a \<le> 3" "0 \<le> b" "b \<le> 3" for a b c :: int
      using that unfolding and_ones by presburger
    moreover have "p 10 AND 3 = p 10" using pr [of 10] unfolding and_ones by simp
    ultimately show ?thesis using pr by simp
  qed
  define q where "q = [p 0 + p 1 + p 2 + p 3, p 2 + p 3 + p 4 + p 5, p 4 + p 5 + p 6 + p 7, p 6 + p 7 + p 8 + p 9, p 8 + p 9 + p 10, p 10]"
  have qr: "\<forall>x \<in> set q. 0 \<le> x \<and> x \<le> 12" using pr by (simp add: q_def) (smt (verit))
  have t3: "uint w3 = digits 64 q"
  proof -
    have "uint w2 div 64 = digits 64 [p 2 + p 3, p 4 + p 5, p 6 + p 7, p 8 + p 9, p 10]"
      unfolding t2 using pr [of 0] pr [of 1] by (intro digits_div) linarith+
    then have "uint w2 + uint w2 div 64 = uint w2 + digits 64 [p 2 + p 3, p 4 + p 5, p 6 + p 7, p 8 + p 9, p 10]" by (rule arg_cong)
    then have "uint w2 + uint w2 div 64 = digits 64 q" unfolding q_def by (rule trans) (simp add: t2)
    moreover have "digits 64 q < 2 ^ 32" using pr [of 10] qr digits_range [of "[p 0 + p 1 + p 2 + p 3, p 2 + p 3 + p 4 + p 5, p 4 + p 5 + p 6 + p 7, p 6 + p 7 + p 8 + p 9, p 8 + p 9 + p 10]" 12 64]
      by (simp add: q_def)
    ultimately have "uint (w2 + drop_bit 6 w2) = uint w2 + uint w2 div 64" "uint w2 + uint w2 div 64 = digits 64 q"
      using add [of w2 "drop_bit 6 w2"] dr [of 6 w2] by simp_all
    then show ?thesis unfolding w3_def by (simp only:)
  qed
  have t4: "uint ((w3 + drop_bit 12 w3 + drop_bit 24 w3) AND 0x3F) = q ! 0 + q ! 2 + q ! 4"
  proof -
    have r: "\<forall>x \<in> {q ! 0, q ! 1, q ! 2, q ! 3, q ! 4}. 0 \<le> x \<and> x \<le> 12" "0 \<le> q ! 5" "q ! 5 \<le> 3"
      using qr pr [of 10] by (simp_all add: q_def)
    have q6: "q = [q ! 0, q ! 1, q ! 2, q ! 3, q ! 4, q ! 5]" by (simp add: q_def)
    note f = folded_groups [OF r, folded q6 t3]
    have "uint (w3 + drop_bit 12 w3 + drop_bit 24 w3) = uint w3 + uint w3 div 2 ^ 12 + uint w3 div 2 ^ 24"
      using add [of w3 "drop_bit 12 w3"] add [of "w3 + drop_bit 12 w3" "drop_bit 24 w3"] dr [of 12 w3] dr [of 24 w3] f(1,2)
      by simp
    then show ?thesis using f(3) unfolding uint_and lit and_ones by simp
  qed
  have "BitCount u = q ! 0 + q ! 2 + q ! 4"
    unfolding t4 [symmetric] BitCount_def Let_def w3_def w2_def w1_def v1_def v2_def ..
  also have "\<dots> = sum_list (map b [0..<32])"
    unfolding l32 by (simp add: q_def p_def numeral_2_eq_2 [symmetric] b32)
  also have "\<dots> = (\<Sum>k<32. b k)" by (simp add: interv_sum_list_conv_sum_set_nat atLeast0LessThan)
  finally show ?thesis by (simp add: b_def)
qed

lemma BitCount_range: "0 \<le> BitCount u" "BitCount u \<le> 32"
proof -
  have "(\<Sum>k<32. of_bool (bit u k)) \<le> (\<Sum>k<32::nat. 1 :: int)" by (intro sum_mono) simp
  then show "0 \<le> BitCount u" "BitCount u \<le> 32" unfolding BitCount_sum by (simp_all add: sum_nonneg)
qed

end
