(* ===== verification/Delay_Invariant.thy ===== *)
theory Delay_Invariant
  imports Bit_Counting
begin

text \<open>
  What the delay estimator keeps, and what it decides: the candidate is the first delay with the smallest
  mean, and it becomes the delay when the valley is deep enough.
\<close>

lemmas delay_constants = kShiftsAtZero_def kShiftsLinearSlope_def kProbabilityOffset_def kProbabilityLowerLimit_def
  kProbabilityMinSpread_def kMaxBitCountsQ9_def

lemma length_resized [simp]: "length (resized g xs n) = n"
  by (simp add: resized_def)

lemma length_zeroed [simp]: "length (zeroed a b z xs) = length xs"
  by (simp add: zeroed_def)

lemma zeroed_all: "length xs \<le> b \<Longrightarrow> zeroed 0 b z xs = replicate (length xs) z"
  by (rule nth_equalityI) (simp_all add: zeroed_def)

lemma push_front_eq: "length xs = n \<Longrightarrow> 0 < n \<Longrightarrow> push_front n x xs = x # butlast xs"
  by (rule nth_equalityI) (auto simp: push_front_def write_at_def nth_Cons' nth_butlast nth_append)

subsection \<open>The smoothed counts\<close>

lemma MeanEstimatorFix_between:
  assumes "0 \<le> new" "new \<le> B" "0 \<le> mean" "mean \<le> B" "B < 2147483648"
  shows "WebRtc_MeanEstimatorFix new factor mean =
      (if new < mean then mean - (mean - new) div 2 ^ nat factor else mean + (new - mean) div 2 ^ nat factor)"
    "min new mean \<le> WebRtc_MeanEstimatorFix new factor mean" "WebRtc_MeanEstimatorFix new factor mean \<le> max new mean"
proof -
  have d: "int32 (new - mean) = new - mean" using assms by (intro int32_id) linarith+
  have q: "0 \<le> x div 2 ^ nat factor" "x div 2 ^ nat factor \<le> x" if "0 \<le> x" for x :: int
    using that zdiv_mono2 [of x 1 "2 ^ nat factor"] by (simp_all add: div_int_pos_iff)
  let ?m = "if new < mean then mean - (mean - new) div 2 ^ nat factor else mean + (new - mean) div 2 ^ nat factor"
  have b: "min new mean \<le> ?m" "?m \<le> max new mean"
    using q [of "mean - new"] q [of "new - mean"] by (auto simp: min_def max_def)
  then have "int32 ?m = ?m" using assms by (intro int32_id) (auto simp: min_def max_def split: if_splits)
  then show "WebRtc_MeanEstimatorFix new factor mean = ?m"
    unfolding WebRtc_MeanEstimatorFix_def Let_def d drop_bit_eq_div by (auto split: if_splits)
  then show "min new mean \<le> WebRtc_MeanEstimatorFix new factor mean" "WebRtc_MeanEstimatorFix new factor mean \<le> max new mean"
    using b by simp_all
qed

text \<open>A mean below the count of 32 bits stays below it.\<close>

lemma smooth_count_range:
  assumes "0 \<le> far" "far \<le> 32" "0 \<le> count" "count \<le> 32" "0 \<le> mean" "mean < 16384"
  shows "0 \<le> smooth_count far count mean \<and> smooth_count far count mean < 16384"
proof (cases "far > 0")
  case True
  define f where "f = 13 - (3 * far) div 16"
  have f: "7 \<le> f" "f \<le> 13" using assms(1,2) by (auto simp: f_def)
  have new: "0 \<le> count * 512" "count * 512 \<le> 16384" using assms by simp_all
  note m = MeanEstimatorFix_between [OF new assms(5), of f]
  have eq: "smooth_count far count mean = WebRtc_MeanEstimatorFix (count * 512) f mean"
    using True by (simp add: smooth_count_def f_def delay_constants push_bit_eq_mult drop_bit_eq_div)
  have "(count * 512 - mean) div 2 ^ nat f < count * 512 - mean" if "mean < count * 512"
    using that f by (intro int_div_less_self) (auto simp: one_less_power)
  then have "WebRtc_MeanEstimatorFix (count * 512) f mean < 16384"
    using m(1) m(3) assms(6) new by (cases "mean = count * 512") (auto simp: max_def split: if_splits)
  moreover have "0 \<le> WebRtc_MeanEstimatorFix (count * 512) f mean"
    using m(2) assms(5,6) new by (auto simp: min_def split: if_splits)
  ultimately show ?thesis by (simp add: eq)
qed (use assms in \<open>simp add: smooth_count_def\<close>)

subsection \<open>The candidates\<close>

lemma find_candidates_spec:
  assumes "find_candidates ms i best candidate worst = (b, c, w)"
  shows "b = Min (insert best (set ms))" "w = Max (insert worst (set ms))"
    "if \<forall>m \<in> set ms. best \<le> m then c = candidate
     else \<exists>k < length ms. c = i + int k \<and> ms ! k = b \<and> (\<forall>j < k. b < ms ! j)"
proof -
  have "b = Min (insert best (set ms)) \<and> w = Max (insert worst (set ms)) \<and>
    (if \<forall>m \<in> set ms. best \<le> m then c = candidate
     else \<exists>k < length ms. c = i + int k \<and> ms ! k = b \<and> (\<forall>j < k. b < ms ! j))"
    using assms
  proof (induction ms arbitrary: i best candidate worst)
    case (Cons m ms)
    let ?best = "if m < best then m else best" and ?worst = "if m > worst then m else worst"
    have run: "find_candidates ms (i + 1) ?best (if m < best then i else candidate) ?worst = (b, c, w)" using Cons.prems by simp
    note IH = Cons.IH [OF run]
    have mn: "Min (insert best (set (m # ms))) = Min (insert ?best (set ms))"
      by (cases "set ms = {}") (auto simp: min_def insert_commute [of best m])
    have mx: "Max (insert worst (set (m # ms))) = Max (insert ?worst (set ms))"
      by (cases "set ms = {}") (auto simp: max_def insert_commute [of worst m])
    show ?case
    proof (cases "\<forall>x \<in> set ms. ?best \<le> x")
      case True
      then have "Min (insert ?best (set ms)) = ?best" by (intro Min_eqI) auto
      then have "b = ?best" using IH by simp
      then show ?thesis using IH True mn mx by (auto intro!: exI [of _ 0])
    next
      case False
      then obtain k where k: "k < length ms" "c = i + 1 + int k" "ms ! k = b" "\<forall>j < k. b < ms ! j"
        using IH by (simp only: False if_False) blast
      obtain x where "x \<in> set ms" "x < ?best" using False by auto
      moreover have "b \<le> x" using IH calculation(1) by simp
      ultimately have "b < m" "b < best" by (auto split: if_splits)
      then have "\<not> (\<forall>x \<in> set (m # ms). best \<le> x)" using k(1,3) by (metis linorder_not_less nth_mem set_subset_Cons subsetD)
      moreover have "\<exists>k' < length (m # ms). c = i + int k' \<and> (m # ms) ! k' = b \<and> (\<forall>j < k'. b < (m # ms) ! j)"
        using k \<open>b < m\<close> by (intro exI [of _ "Suc k"]) (auto simp: nth_Cons' less_Suc_eq_0_disj)
      ultimately show ?thesis using IH mn mx by simp
    qed
  qed auto
  then show "b = Min (insert best (set ms))" "w = Max (insert worst (set ms))"
    "if \<forall>m \<in> set ms. best \<le> m then c = candidate
     else \<exists>k < length ms. c = i + int k \<and> ms ! k = b \<and> (\<forall>j < k. b < ms ! j)" by blast+
qed

subsection \<open>The invariant\<close>

definition far_inv :: "nat \<Rightarrow> BinaryDelayEstimatorFarend \<Rightarrow> bool" where
  "far_inv n far \<longleftrightarrow> far_history_size far = n \<and> length (binary_far_history far) = n \<and> length (far_bit_counts far) = n \<and>
     list_all (\<lambda>c. 0 \<le> c \<and> c \<le> 32) (far_bit_counts far)"

definition estimator_inv :: "nat \<Rightarrow> 'f BinaryDelayEstimator \<Rightarrow> bool" where
  "estimator_inv n self \<longleftrightarrow> history_size self = n \<and> length (mean_bit_counts self) = n + 1 \<and> length (bit_counts self) = n \<and>
     length (histogram self) = n + 1 \<and> length (binary_near_history self) = near_history_size self \<and>
     0 \<le> lookahead self \<and> lookahead self < int (near_history_size self) \<and>
     list_all (\<lambda>m. 0 \<le> m \<and> m < 16384) (mean_bit_counts self) \<and>
     (last_delay self = -2 \<or> 0 \<le> last_delay self \<and> last_delay self < int n) \<and>
     0 \<le> compare_delay self \<and> compare_delay self \<le> int n"

lemma AddBinaryFarSpectrum_inv:
  assumes "far_inv n far" "0 < n"
  shows "far_inv n (WebRtc_AddBinaryFarSpectrum far w)"
    "binary_far_history (WebRtc_AddBinaryFarSpectrum far w) = w # butlast (binary_far_history far)"
    "far_bit_counts (WebRtc_AddBinaryFarSpectrum far w) = BitCount w # butlast (far_bit_counts far)"
  using assms BitCount_range
  by (auto simp: far_inv_def WebRtc_AddBinaryFarSpectrum_def push_front_eq list_all_iff dest!: in_set_butlastD)

lemma InitFarend_inv:
  assumes "far_history_size far = n" "length (binary_far_history far) = n" "length (far_bit_counts far) = n"
  shows "far_inv n (WebRtc_InitBinaryDelayEstimatorFarend far)"
  using assms by (simp add: far_inv_def WebRtc_InitBinaryDelayEstimatorFarend_def zeroed_all list_all_iff)

lemma Init_estimator_inv:
  assumes "history_size self = n" "length (mean_bit_counts self) = n + 1" "length (bit_counts self) = n"
    "length (histogram self) = n + 1" "length (binary_near_history self) = near_history_size self"
    "0 \<le> lookahead self" "lookahead self < int (near_history_size self)"
  shows "estimator_inv n (WebRtc_InitBinaryDelayEstimator fl self)"
  using assms by (simp add: estimator_inv_def WebRtc_InitBinaryDelayEstimator_def zeroed_all list_all_iff)

text \<open>The robust validation changes only the histogram and the count of hits.\<close>

lemma UpdateRobust_inv: "estimator_inv n self \<Longrightarrow> estimator_inv n (UpdateRobustValidationStatistics fl self c d l)"
  by (simp add: estimator_inv_def UpdateRobustValidationStatistics_def Let_def)

lemma accept_inv:
  assumes "estimator_inv n self" "0 \<le> c" "c < int n"
  shows "estimator_inv n (accept_candidate fl c b self)" "last_delay (accept_candidate fl c b self) = c"
  using assms by (simp_all add: estimator_inv_def accept_candidate_def Let_def)

text \<open>The state after the counts and means have been updated.\<close>

definition counted :: "BinaryDelayEstimatorFarend \<Rightarrow> 'f BinaryDelayEstimator \<Rightarrow> u32 \<Rightarrow> 'f BinaryDelayEstimator" where
  "counted farend self near =
     (let (near, self) =
            (if near_history_size self > 1 then
               let h = push_front (near_history_size self) near (binary_near_history self)
               in (h ! nat (lookahead self), self\<lparr>binary_near_history := h\<rparr>)
             else (near, self));
          n = history_size self;
          self = self\<lparr>bit_counts := BitCountComparison near (binary_far_history farend) n (bit_counts self)\<rparr>
      in self\<lparr>mean_bit_counts := map (\<lambda>i. if i < n
                then smooth_count (far_bit_counts farend ! i) (bit_counts self ! i) (mean_bit_counts self ! i)
                else mean_bit_counts self ! i) [0..<length (mean_bit_counts self)]\<rparr>)"

lemma counted_inv:
  assumes far: "far_inv n far" and self: "estimator_inv n self"
  shows "estimator_inv n (counted far self near)" "last_delay (counted far self near) = last_delay self"
    "minimum_probability (counted far self near) = minimum_probability self"
    "last_delay_probability (counted far self near) = last_delay_probability self"
    "robust_validation_enabled (counted far self near) = robust_validation_enabled self"
proof -
  obtain w self1 where one: "(if near_history_size self > 1 then
       let h = push_front (near_history_size self) near (binary_near_history self)
       in (h ! nat (lookahead self), self\<lparr>binary_near_history := h\<rparr>)
     else (near, self)) = (w, self1)" by fastforce
  have self1: "estimator_inv n self1" "last_delay self1 = last_delay self" "minimum_probability self1 = minimum_probability self"
    "last_delay_probability self1 = last_delay_probability self" "robust_validation_enabled self1 = robust_validation_enabled self"
    using one self by (auto simp: estimator_inv_def push_front_eq Let_def split: if_splits)
  define counts where "counts = map (\<lambda>row. BitCount (w XOR row)) (binary_far_history far)"
  have cl: "length counts = n" "BitCountComparison w (binary_far_history far) (history_size self1) (bit_counts self1) = counts"
    using far self1(1) by (simp_all add: counts_def far_inv_def BitCountComparison_def estimator_inv_def write_at_def)
  have eq: "counted far self near = self1\<lparr>bit_counts := counts, mean_bit_counts := map (\<lambda>i. if i < n
      then smooth_count (far_bit_counts far ! i) (counts ! i) (mean_bit_counts self1 ! i)
      else mean_bit_counts self1 ! i) [0..<n + 1]\<rparr>"
    unfolding counted_def one unfolding Let_def prod.case cl(2) using self1(1) by (simp add: estimator_inv_def)
  have "0 \<le> smooth_count (far_bit_counts far ! i) (counts ! i) (mean_bit_counts self1 ! i) \<and>
      smooth_count (far_bit_counts far ! i) (counts ! i) (mean_bit_counts self1 ! i) < 16384" if "i < n" for i
    using that far self1(1) BitCount_range cl(1)
    by (intro smooth_count_range) (auto simp: far_inv_def estimator_inv_def list_all_length counts_def)
  then show "estimator_inv n (counted far self near)"
    using self1(1) cl(1) unfolding eq by (auto simp: estimator_inv_def list_all_iff list_all_length simp del: upt_Suc)
  show "last_delay (counted far self near) = last_delay self"
    "minimum_probability (counted far self near) = minimum_probability self"
    "last_delay_probability (counted far self near) = last_delay_probability self"
    "robust_validation_enabled (counted far self near) = robust_validation_enabled self"
    unfolding eq using self1 by simp_all
qed

lemma ProcessBinarySpectrum_counted:
  assumes "far_history_size far = history_size self"
  shows "WebRtc_ProcessBinarySpectrum fl far self near =
    (let s = counted far self near
     in case find_candidates (take (history_size s) (mean_bit_counts s)) 0 kMaxBitCountsQ9 (-1) 0 of (best, c, worst) \<Rightarrow>
     let s1 = s\<lparr>minimum_probability := lower_threshold best (worst - best) (minimum_probability s),
                last_delay_probability := int32 (last_delay_probability s + 1)\<rparr>;
         valid = (worst - best > kProbabilityOffset \<and> (best < minimum_probability s1 \<or> best < last_delay_probability s1))
     in if (robust_validation_enabled s1 \<noteq> 0 \<or> valid) \<and> \<not> (0 \<le> c \<and> c < int (length (histogram s1)) \<and>
          0 \<le> compare_delay s1 \<and> compare_delay s1 < int (length (histogram s1))) then None
       else case (if robust_validation_enabled s1 \<noteq> 0 then
            let self = UpdateRobustValidationStatistics fl s1 c (worst - best) best
            in (RobustValidation fl self c valid (HistogramBasedValidation fl self c), self)
          else (valid, s1)) of (valid, self) \<Rightarrow>
        let self = (if valid then accept_candidate fl c best self else self) in Some (last_delay self, self))"
  using assms unfolding WebRtc_ProcessBinarySpectrum_def counted_def
  by (cases "near_history_size self > 1") (simp_all add: Let_def cong: if_cong)

text \<open>One spectrum of the near end: no access outside the arrays, and a delay within the history or none.  Without
  the robust validation the delay becomes the first delay of the smallest mean when the valley is deep and
  low enough, and stays otherwise.\<close>

lemma ProcessBinarySpectrum_inv:
  assumes far: "far_inv n far" and self: "estimator_inv n self" and n: "0 < n"
  shows "\<exists>delay self'. WebRtc_ProcessBinarySpectrum fl far self near = Some (delay, self') \<and> estimator_inv n self' \<and>
    delay = last_delay self' \<and>
    (robust_validation_enabled self = 0 \<longrightarrow>
      (let means = take n (mean_bit_counts (counted far self near)); best = Min (set means); depth = Max (set means) - best in
       mean_bit_counts self' = mean_bit_counts (counted far self near) \<and>
       (if depth > 1024 \<and> (best < lower_threshold best depth (minimum_probability self) \<or>
           best < int32 (last_delay_probability self + 1))
        then \<exists>k < n. delay = int k \<and> means ! k = best \<and> (\<forall>j < k. best < means ! j)
        else delay = last_delay self)))"
proof -
  define s where "s = counted far self near"
  note s = counted_inv [OF far self, of near, folded s_def]
  define means where "means = take n (mean_bit_counts s)"
  have lm: "length means = n" "\<forall>m \<in> set means. 0 \<le> m \<and> m < 16384"
    using s(1) by (auto simp: means_def estimator_inv_def list_all_iff dest!: in_set_takeD)
  obtain best c worst where f: "find_candidates means 0 kMaxBitCountsQ9 (-1) 0 = (best, c, worst)" by (metis prod_cases3)
  note spec = find_candidates_spec [OF f]
  have ne: "set means \<noteq> {}" using lm n by auto
  have bw: "best = Min (set means)" "worst = Max (set means)"
  proof -
    define lo where "lo = Min (set means)"
    define hi where "hi = Max (set means)"
    have "lo < 16384" "0 \<le> hi" using lm(2) ne Min_in [of "set means"] Max_in [of "set means"] by (auto simp: lo_def hi_def)
    moreover have "best = min kMaxBitCountsQ9 lo" "worst = max 0 hi"
      by (simp_all only: spec(1,2) lo_def hi_def Min_insert [OF finite_set ne] Max_insert [OF finite_set ne])
    ultimately show "best = Min (set means)" "worst = Max (set means)"
      by (simp_all add: delay_constants lo_def [symmetric] hi_def [symmetric])
  qed
  have small: "\<not> (\<forall>m \<in> set means. kMaxBitCountsQ9 \<le> m)" 
  proof -
    have "last means \<in> set means" using ne by simp
    then show ?thesis using lm(2) by (force simp: delay_constants)
  qed
  then obtain k where k: "k < n" "c = int k" "means ! k = best" "\<forall>j < k. best < means ! j"
    using spec(3) by (simp only: small if_False lm(1)) auto
  define s1 where "s1 = s\<lparr>minimum_probability := lower_threshold best (worst - best) (minimum_probability s),
    last_delay_probability := int32 (last_delay_probability s + 1)\<rparr>"
  have s1: "estimator_inv n s1" using s(1) by (simp add: s1_def estimator_inv_def)
  define valid where "valid = (worst - best > kProbabilityOffset \<and> (best < minimum_probability s1 \<or> best < last_delay_probability s1))"
  obtain valid2 s2 where v2: "(if robust_validation_enabled s1 \<noteq> 0 then
      let self = UpdateRobustValidationStatistics fl s1 c (worst - best) best
      in (RobustValidation fl self c valid (HistogramBasedValidation fl self c), self)
    else (valid, s1)) = (valid2, s2)" by fastforce
  have s2: "estimator_inv n s2" "robust_validation_enabled s1 = 0 \<Longrightarrow> s2 = s1 \<and> valid2 = valid"
    using v2 s1 UpdateRobust_inv [OF s1] by (auto simp: Let_def split: if_splits)
  define s3 where "s3 = (if valid2 then accept_candidate fl c best s2 else s2)"
  have s3: "estimator_inv n s3" using s2(1) accept_inv(1) [OF s2(1)] k by (simp add: s3_def)
  have inside: "0 \<le> c \<and> c < int (length (histogram s1)) \<and> 0 \<le> compare_delay s1 \<and> compare_delay s1 < int (length (histogram s1))"
    using s1 k by (simp add: estimator_inv_def)
  have run: "WebRtc_ProcessBinarySpectrum fl far self near = Some (last_delay s3, s3)"
  proof -
    have w: "WebRtc_ProcessBinarySpectrum fl far self near =
      (if (robust_validation_enabled s1 \<noteq> 0 \<or> valid) \<and> \<not> (0 \<le> c \<and> c < int (length (histogram s1)) \<and>
          0 \<le> compare_delay s1 \<and> compare_delay s1 < int (length (histogram s1))) then None
       else case (if robust_validation_enabled s1 \<noteq> 0 then
            let self = UpdateRobustValidationStatistics fl s1 c (worst - best) best
            in (RobustValidation fl self c valid (HistogramBasedValidation fl self c), self)
          else (valid, s1)) of (valid, self) \<Rightarrow>
        let self = (if valid then accept_candidate fl c best self else self) in Some (last_delay self, self))"
    proof -
      have sizes: "far_history_size far = history_size self" "history_size s = n"
        using far self s(1) by (simp_all add: far_inv_def estimator_inv_def)
      show ?thesis
        unfolding ProcessBinarySpectrum_counted [OF sizes(1)] s_def [symmetric] Let_def sizes(2) means_def [symmetric] f prod.case
          s1_def [symmetric] valid_def [symmetric] ..
    qed
    show ?thesis unfolding w v2 using inside by (simp add: s3_def Let_def)
  qed
  have "mean_bit_counts s3 = mean_bit_counts s" if "robust_validation_enabled self = 0"
    using that s(5) s2(2) by (simp add: s3_def s1_def accept_candidate_def Let_def)
  moreover have "last_delay s3 = (if valid then c else last_delay self)" if "robust_validation_enabled self = 0"
    using that s(2,5) s2(2) accept_inv(2) [OF s2(1)] k by (simp add: s3_def s1_def)
  moreover have "valid \<longleftrightarrow> worst - best > 1024 \<and> (best < lower_threshold best (worst - best) (minimum_probability self) \<or>
      best < int32 (last_delay_probability self + 1))"
    by (simp add: valid_def s1_def s delay_constants)
  ultimately show ?thesis
    using run s3 k unfolding s_def [symmetric] means_def [symmetric] Let_def bw [symmetric]
    by (intro exI [of _ "last_delay s3"] exI [of _ s3]) auto
qed

end
