(* ===== verification/Aecm_Dsp.thy ===== *)
theory Aecm_Dsp
  imports Delay_Invariant Spl_Fft Aecm_Invariant
begin

text \<open>
  The Fourier transform and the delay estimator as the echo canceller sets them up and calls them: 128 samples,
  spectra of 65 bins, a history of 100, no lookahead and no robust validation.
\<close>

type_synonym 'f estimators = "DelayEstimatorFarend \<times> 'f DelayEstimator"

subsection \<open>Creation\<close>

definition PART_LEN_SHIFT :: int where "PART_LEN_SHIFT = 7"

text \<open>The part of \<open>WebRtcAecm_CreateCore\<close> that creates the two; \<open>memory\<close> tells which allocations succeed.\<close>

definition create_estimators ::
  "garbage \<Rightarrow> (nat \<Rightarrow> 'f) \<Rightarrow> 'f floats \<Rightarrow> (nat \<Rightarrow> bool) \<Rightarrow> 'f estimators option" where
  "create_estimators g any_float fl memory = do {
     let b = WebRtc_CreateBinaryDelayEstimatorFarend g (memory 0) (memory 1, memory 2) (int MAX_DELAY);
     f \<leftarrow> WebRtc_CreateDelayEstimatorFarend g (memory 3) b (memory 4) (int PART_LEN1);
     let e = WebRtc_CreateBinaryDelayEstimator g any_float fl (memory 5) (memory 6) (memory 7, memory 8, memory 9)
               (Some (binary_farend f)) 0;
     s \<leftarrow> WebRtc_CreateDelayEstimator g (memory 10) e (memory 11) (Some f);
     s \<leftarrow> snd (WebRtc_enable_robust_validation (Some s) 0);
     Some (f, s)
   }"

text \<open>The arrays as they are created.\<close>

definition estimators_sized :: "'f estimators \<Rightarrow> bool" where
  "estimators_sized = (\<lambda>(f, s).
     far_spectrum_size f = 65 \<and> length (mean_far_spectrum f) = 65 \<and>
     near_spectrum_size s = 65 \<and> length (mean_near_spectrum s) = 65 \<and>
     far_history_size (binary_farend f) = 100 \<and> length (binary_far_history (binary_farend f)) = 100 \<and>
     length (far_bit_counts (binary_farend f)) = 100 \<and>
     history_size (binary_handle s) = 100 \<and> length (mean_bit_counts (binary_handle s)) = 101 \<and>
     length (bit_counts (binary_handle s)) = 100 \<and> length (histogram (binary_handle s)) = 101 \<and>
     length (binary_near_history (binary_handle s)) = near_history_size (binary_handle s) \<and>
     0 \<le> lookahead (binary_handle s) \<and> lookahead (binary_handle s) < int (near_history_size (binary_handle s)))"

lemma create_estimators_sized:
  assumes "create_estimators g any_float fl memory = Some h"
  shows "estimators_sized h"
  using assms
  by (auto simp: create_estimators_def WebRtc_CreateBinaryDelayEstimatorFarend_def WebRtc_CreateDelayEstimatorFarend_def
      WebRtc_CreateBinaryDelayEstimator_def WebRtc_CreateDelayEstimator_def WebRtc_enable_robust_validation_def
      WebRtc_AllocateFarendBufferMemory_def WebRtc_AllocateHistoryBufferMemory_def estimators_sized_def Let_def
      split: Option.bind_splits if_splits option.splits)

subsection \<open>Initialisation and calls\<close>

definition init_estimators :: "'f floats \<Rightarrow> 'f estimators \<Rightarrow> 'f estimators option" where
  "init_estimators fl h =
     (case WebRtc_InitDelayEstimatorFarend (Some (fst h)) of (ret, f) \<Rightarrow>
      if ret \<noteq> 0 then None
      else case WebRtc_InitDelayEstimator fl (Some (snd h)) of (ret, s) \<Rightarrow>
        if ret \<noteq> 0 then None else do { f \<leftarrow> f; s \<leftarrow> s; Some (f, s) })"

definition estimators_inv :: "'f estimators \<Rightarrow> bool" where
  "estimators_inv = (\<lambda>(f, s).
     far_spectrum_size f = 65 \<and> length (mean_far_spectrum f) = 65 \<and>
     near_spectrum_size s = 65 \<and> length (mean_near_spectrum s) = 65 \<and>
     far_inv 100 (binary_farend f) \<and> estimator_inv 100 (binary_handle s))"

lemma estimators_inv_sized: "estimators_inv h \<Longrightarrow> estimators_sized h"
  by (auto simp: estimators_inv_def estimators_sized_def far_inv_def estimator_inv_def)

lemma init_estimators_inv:
  assumes "estimators_sized h"
  obtains h' where "init_estimators fl h = Some h'" "estimators_inv h'"
  using assms InitFarend_inv [of "binary_farend (fst h)" 100] Init_estimator_inv [of "binary_handle (snd h)" 100 fl] that
  by (auto simp: init_estimators_def WebRtc_InitDelayEstimatorFarend_def WebRtc_InitDelayEstimator_def
      estimators_sized_def estimators_inv_def zeroed_all split_beta)

lemma start_threshold_length: "length (fst (start_threshold xs q is (t, i))) = length t"
  by (induction xs q "is" "(t, i)" arbitrary: t i rule: start_threshold.induct) auto

lemma threshold_bits_length: "length (snd (threshold_bits xs q is t w)) = length t"
  by (induction xs q "is" t w rule: threshold_bits.induct) (auto simp: Let_def)

lemma BinarySpectrumFix_total:
  assumes "length xs = 65" "length t = 65"
  obtains w t' i' where "BinarySpectrumFix xs t q i = Some (w, t', i')" "length t' = 65"
proof -
  obtain t1 i1 where s: "(if i = 0 then start_threshold xs q [kBandFirst..<kBandLast + 1] (t, i) else (t, i)) = (t1, i1)"
    by fastforce
  have "length t1 = 65"
    using s start_threshold_length [of xs q "[kBandFirst..<kBandLast + 1]" t i] assms(2)
    by (cases "i = 0") auto
  moreover obtain w t' where b: "threshold_bits xs q [kBandFirst..<kBandLast + 1] t1 0 = (w, t')" by fastforce
  ultimately have "length t' = 65" using threshold_bits_length [of xs q "[kBandFirst..<kBandLast + 1]" t1 0] by simp
  moreover have "BinarySpectrumFix xs t q i = Some (w, t', i1)"
    using assms unfolding BinarySpectrumFix_def Let_def s prod.case b by (simp add: kBandLast_def)
  ultimately show ?thesis using that by blast
qed

definition add_far :: "'f estimators \<Rightarrow> int list \<Rightarrow> int \<Rightarrow> int \<times> 'f estimators" where
  "add_far h spectrum q =
     (case WebRtc_AddFarSpectrumFix (Some (fst h)) (Some spectrum) PART_LEN1 q of
        Some (ret, Some f) \<Rightarrow> (ret, (f, snd h))
      | _ \<Rightarrow> (-1, h))"

definition delay_of :: "'f floats \<Rightarrow> 'f estimators \<Rightarrow> int list \<Rightarrow> int \<Rightarrow> int \<times> 'f estimators" where
  "delay_of fl h spectrum q =
     (case WebRtc_DelayEstimatorProcessFix fl (binary_farend (fst h)) (Some (snd h)) (Some spectrum) PART_LEN1 q of
        Some (delay, Some s) \<Rightarrow> (delay, (fst h, s))
      | _ \<Rightarrow> (-1, h))"

lemma add_far_inv:
  assumes "estimators_inv h" "length xs = 65" "q \<le> 15"
  obtains h' where "add_far h xs q = (0, h')" "estimators_inv h'"
proof -
  obtain f s where h: "h = (f, s)" by fastforce
  have f: "length (mean_far_spectrum f) = 65" "far_spectrum_size f = 65" "far_inv 100 (binary_farend f)"
    using assms(1) by (simp_all add: h estimators_inv_def)
  obtain w t i where "BinarySpectrumFix xs (mean_far_spectrum f) q (far_spectrum_initialized f) = Some (w, t, i)" "length t = 65"
    using BinarySpectrumFix_total [OF assms(2) f(1)] by blast
  moreover have "far_inv 100 (WebRtc_AddBinaryFarSpectrum (binary_farend f) w)" using AddBinaryFarSpectrum_inv(1) [OF f(3)] by simp
  ultimately show ?thesis
    using that assms f by (simp add: h add_far_def WebRtc_AddFarSpectrumFix_def estimators_inv_def)
qed

lemma delay_of_inv:
  assumes "estimators_inv h" "length xs = 65" "q \<le> 15"
  obtains delay h' where "delay_of fl h xs q = (delay, h')" "estimators_inv h'" "delay = -2 \<or> 0 \<le> delay \<and> delay < 100"
proof -
  obtain f s where h: "h = (f, s)" by fastforce
  have s: "length (mean_near_spectrum s) = 65" "near_spectrum_size s = 65" "far_inv 100 (binary_farend f)"
    "estimator_inv 100 (binary_handle s)"
    using assms(1) by (simp_all add: h estimators_inv_def)
  obtain w t i where b: "BinarySpectrumFix xs (mean_near_spectrum s) q (near_spectrum_initialized s) = Some (w, t, i)" "length t = 65"
    using BinarySpectrumFix_total [OF assms(2) s(1)] by blast
  have "(0 :: nat) < 100" by simp
  from ProcessBinarySpectrum_inv [OF s(3,4) this, of fl w]
  obtain delay e where p: "WebRtc_ProcessBinarySpectrum fl (binary_farend f) (binary_handle s) w = Some (delay, e)"
    "estimator_inv 100 e" "delay = last_delay e" by blast
  have "delay = -2 \<or> 0 \<le> delay \<and> delay < 100" using p(2,3) by (simp add: estimator_inv_def)
  then show ?thesis
    using that assms s b p by (simp add: h delay_of_def WebRtc_DelayEstimatorProcessFix_def estimators_inv_def)
qed

subsection \<open>The transforms stay within 16 bits\<close>

definition complex16 :: "nat \<Rightarrow> (int \<times> int) list \<Rightarrow> bool" where
  "complex16 n zs \<longleftrightarrow> length zs = n \<and> list_all (\<lambda>(re, im). -32768 \<le> re \<and> re \<le> 32767 \<and> -32768 \<le> im \<and> im \<le> 32767) zs"

lemma complex16_update:
  "complex16 n zs \<Longrightarrow> -32768 \<le> re \<and> re \<le> 32767 \<and> -32768 \<le> im \<and> im \<le> 32767 \<Longrightarrow> complex16 n (zs[i := (re, im)])"
  by (auto simp: complex16_def list_all_iff dest!: set_update_subset_insert [THEN subsetD])

lemma fft_stage_16:
  assumes "\<And>w q z a b c d. butterfly w q z = ((a, b), (c, d)) \<Longrightarrow>
      {a, b, c, d} \<subseteq> {-32768..32767}"
    and "complex16 n zs"
  shows "complex16 n (fft_stage butterfly dir m l k zs)"
  unfolding fft_stage_def Let_def
proof (rule fold_invariant [where Q = "\<lambda>_. True"], simp, rule assms(2))
  fix j zs assume "complex16 n zs"
  then show "complex16 n (fold (\<lambda>i frfi.
      case butterfly (kSinTable1024 ! (push_bit k j + 256), dir * kSinTable1024 ! push_bit k j) (frfi ! i) (frfi ! (i + l)) of
        (a, b) \<Rightarrow> frfi[i + l := b, i := a]) (every j (2 * l) m) zs)"
  proof (rule fold_invariant [where Q = "\<lambda>_. True", rotated])
    fix i zs assume z: "complex16 n zs"
    obtain a b c d where eq: "butterfly (kSinTable1024 ! (push_bit k j + 256), dir * kSinTable1024 ! push_bit k j) (zs ! i) (zs ! (i + l)) =
        ((a, b), (c, d))" by (metis prod.exhaust)
    then show "complex16 n (case butterfly (kSinTable1024 ! (push_bit k j + 256), dir * kSinTable1024 ! push_bit k j) (zs ! i) (zs ! (i + l)) of
        (a, b) \<Rightarrow> zs[i + l := b, i := a])"
      using assms(1) [OF eq] by (simp add: complex16_update z)
  qed simp
qed

lemma butterfly_16:
  "butterfly_low shift w q z = ((a, b), (c, d)) \<Longrightarrow> {a, b, c, d} \<subseteq> {-32768..32767}"
  "butterfly_high shift round2 w q z = ((a, b), (c, d)) \<Longrightarrow> {a, b, c, d} \<subseteq> {-32768..32767}"
  by (auto simp: butterfly_low_def butterfly_high_def Let_def int16_range split: prod.splits)

lemma fft_loop_16: "complex16 j zs \<Longrightarrow> complex16 j (fft_loop mode n l k zs)"
proof (induction mode n l k zs rule: fft_loop.induct)
  case (1 mode n l k frfi)
  have "complex16 j (fft_stage (if mode = 0 then butterfly_low 1 else butterfly_high 1 CFFTRND2) (-1) n l k frfi)"
    using "1.prems" butterfly_16 by (intro fft_stage_16) (auto split: if_splits)
  then show ?case using 1 by (subst fft_loop.simps) simp
qed

lemma ifft_loop_length: "length (snd (ifft_loop mode n l k scale zs)) = length zs"
proof (induction mode n l k scale zs rule: ifft_loop.induct)
  case (1 mode n l k scale frfi)
  have "length (fft_stage butterfly dir n l k xs) = length xs" for butterfly dir and xs :: "(int \<times> int) list"
    unfolding fft_stage_def Let_def
    by (rule fold_invariant [where Q = "\<lambda>_. True"]; (rule fold_invariant [where Q = "\<lambda>_. True"])?) (auto split: prod.split)
  then show ?case using 1 by (subst ifft_loop.simps) (simp add: Let_def)
qed

lemma swap_pairs_16: "complex16 n zs \<Longrightarrow> list_all (\<lambda>i. i < n) is \<Longrightarrow> complex16 n (swap_pairs is zs)"
proof (induction "is" zs rule: swap_pairs.induct)
  case (1 i j index xs)
  obtain a b c d where e: "xs ! j = (a, b)" "xs ! i = (c, d)" by (metis prod.exhaust)
  then have "(a, b) \<in> set xs" "(c, d) \<in> set xs" using 1(2,3) e nth_mem [of j xs] nth_mem [of i xs] by (simp_all add: complex16_def)
  then have "-32768 \<le> a \<and> a \<le> 32767 \<and> -32768 \<le> b \<and> b \<le> 32767" "-32768 \<le> c \<and> c \<le> 32767 \<and> -32768 \<le> d \<and> d \<le> 32767"
    using 1(2) by (auto simp: complex16_def list_all_iff)
  then show ?case using 1 e by (simp add: swap_at_def complex16_update)
qed simp_all

lemma swap_pairs_length: "length (swap_pairs is xs) = length xs"
  by (induction "is" xs rule: swap_pairs.induct) (simp_all add: swap_at_def)

lemma RealForwardFFT_16: "complex16 65 (snd (WebRtcSpl_RealForwardFFT 7 xs))"
proof -
  have "complex16 128 (map (\<lambda>i. (int16 (xs ! i), 0)) [0..<128])"
    by (auto simp: complex16_def list_all_iff int16_range)
  moreover have "list_all (\<lambda>i. i < 128) index_7" by (simp add: index_7_def)
  ultimately have "complex16 128 (fft_loop 1 128 1 9 (swap_pairs index_7 (map (\<lambda>i. (int16 (xs ! i), 0)) [0..<128])))"
    by (intro fft_loop_16 swap_pairs_16)
  then show ?thesis
    by (auto simp: WebRtcSpl_RealForwardFFT_def WebRtcSpl_ComplexFFT_def WebRtcSpl_ComplexBitReverse_def Let_def
        complex16_def list_all_iff dest: in_set_takeD)
qed

lemma RealInverseFFT_length: "length (snd (WebRtcSpl_RealInverseFFT 7 zs)) = 128"
  by (simp add: WebRtcSpl_RealInverseFFT_def Let_def split_beta)

subsection \<open>What the echo canceller uses\<close>

definition aecm_dsp :: "'f floats \<Rightarrow> 'f estimators dsp" where
  "aecm_dsp fl =
     \<lparr>forward_fft = \<lambda>xs. snd (WebRtcSpl_RealForwardFFT (nat PART_LEN_SHIFT) xs),
      inverse_fft = \<lambda>zs. prod.swap (WebRtcSpl_RealInverseFFT (nat PART_LEN_SHIFT) zs),
      add_far_spectrum = add_far, estimate_delay = delay_of fl\<rparr>"

lemma aecm_dsp_ok: "dsp_ok (aecm_dsp fl)"
  using RealForwardFFT_16
  by (simp add: dsp_ok_def aecm_dsp_def PART_LEN_SHIFT_def RealInverseFFT_length complex16_def list_all_iff)

lemma aecm_dsp_runs: "dsp_runs estimators_inv (aecm_dsp fl)"
proof -
  have "fst (add_far h xs q) \<noteq> -1 \<and> estimators_inv (snd (add_far h xs q)) \<and>
      (let delay = fst (delay_of fl h xs q) in delay = -2 \<or> 0 \<le> delay \<and> delay < int MAX_DELAY) \<and>
      estimators_inv (snd (delay_of fl h xs q))"
    if i: "estimators_inv h" "length xs = 65" "q \<le> 15" for h :: "'a estimators" and xs q
    by (rule add_far_inv [OF i], rule delay_of_inv [OF i, of fl]) (simp add: MAX_DELAY_def)
  then show ?thesis by (simp add: dsp_runs_def aecm_dsp_def PART_LEN1_def)
qed

text \<open>Arithmetic for \<open>float\<close> that makes no rounding error, for the examples, and the estimators as they are created
  when no allocation fails.\<close>

definition exact_floats :: "rat floats" where
  "exact_floats = \<lparr>fl_lit = (\<lambda>x. x), fl_of_int = of_int, fl_add = (+), fl_sub = (-), fl_mul = (*), fl_div = (/),
     fl_less = (<), fl_le = (\<le>)\<rparr>"

lemma create_estimators_succeeds:
  "\<exists>h. create_estimators g any_float fl (\<lambda>_. True) = Some h"
  by (simp add: create_estimators_def WebRtc_CreateBinaryDelayEstimatorFarend_def WebRtc_CreateDelayEstimatorFarend_def
      WebRtc_CreateBinaryDelayEstimator_def WebRtc_CreateDelayEstimator_def WebRtc_enable_robust_validation_def
      WebRtc_AllocateFarendBufferMemory_def WebRtc_AllocateHistoryBufferMemory_def Let_def resized_def zeroed_def
      MAX_DELAY_def PART_LEN1_def kBandLast_def)

end
