(* ===== verification/Aecm_Memory.thy ===== *)
theory Aecm_Memory
  imports Prelude
begin

text \<open>
  Creating and freeing an instance of the echo canceller: \<open>WebRtcAecm_Create\<close> and \<open>WebRtcAecm_Free\<close> of
  \<open>src/jni/webrtc/modules/audio_processing/aecm/echo_control_mobile.c\<close>, \<open>WebRtcAecm_CreateCore\<close> and
  \<open>WebRtcAecm_FreeCore\<close> of \<open>aecm_core.c\<close>, over a memory in which every part of the instance is one block.
  \<open>malloc\<close> does not clear the memory it gives: a pointer member that has not been assigned is \<open>Unassigned\<close>.
  Freeing such a pointer, freeing a block twice and reading a member of a freed block are recorded.
\<close>

subsection \<open>Memory\<close>

text \<open>The seven parts of the core, in the order in which they are created.\<close>

datatype core_part =
  Far_Frames | Noisy_Frames | Clean_Frames | Out_Frames | Delay_Farend | Delay_Near | Real_FFT

datatype memory_block = Instance | Core | Core_Part core_part | Far_End

datatype pointer = Unassigned | Null | To memory_block

datatype pointer_field = Core_Field | Part_Field core_part | Farend_Field

datatype memory_fault = Freed_Unassigned pointer_field | Freed_Twice memory_block | Read_Freed memory_block

record aecm_memory =
  allocated :: "memory_block list"
  core_field :: pointer
  part_fields :: "core_part \<Rightarrow> pointer"
  farend_field :: pointer
  memory_faults :: "memory_fault list"

definition empty_memory :: aecm_memory where
  "empty_memory = \<lparr>allocated = [], core_field = Unassigned, part_fields = (\<lambda>_. Unassigned), farend_field = Unassigned,
     memory_faults = []\<rparr>"

fun field_value :: "pointer_field \<Rightarrow> aecm_memory \<Rightarrow> pointer" where
  "field_value Core_Field m = core_field m"
| "field_value (Part_Field x) m = part_fields m x"
| "field_value Farend_Field m = farend_field m"

definition add_fault :: "memory_fault \<Rightarrow> aecm_memory \<Rightarrow> aecm_memory" where
  "add_fault f m = m\<lparr>memory_faults := memory_faults m @ [f]\<rparr>"

definition allocate :: "memory_block \<Rightarrow> aecm_memory \<Rightarrow> aecm_memory" where
  "allocate b m = m\<lparr>allocated := b # allocated m\<rparr>"

definition read_block :: "memory_block \<Rightarrow> aecm_memory \<Rightarrow> aecm_memory" where
  "read_block b m = (if b \<in> set (allocated m) then m else add_fault (Read_Freed b) m)"

definition free_block :: "memory_block \<Rightarrow> aecm_memory \<Rightarrow> aecm_memory" where
  "free_block b m =
     (if b \<in> set (allocated m) then m\<lparr>allocated := removeAll b (allocated m)\<rparr> else add_fault (Freed_Twice b) m)"

text \<open>The \<open>Free\<close> functions of all parts ignore null.\<close>

definition free_field :: "pointer_field \<Rightarrow> aecm_memory \<Rightarrow> aecm_memory" where
  "free_field f m =
     (case field_value f m of
        Null \<Rightarrow> m
      | Unassigned \<Rightarrow> add_fault (Freed_Unassigned f) m
      | To b \<Rightarrow> free_block b m)"

subsection \<open>The core\<close>

text \<open>\<open>FreeCore\<close> reads each pointer from the core before it frees the part.\<close>

definition free_order :: "core_part list" where
  "free_order = [Far_Frames, Noisy_Frames, Clean_Frames, Out_Frames, Delay_Near, Delay_Farend, Real_FFT]"

definition WebRtcAecm_FreeCore :: "pointer \<Rightarrow> aecm_memory \<Rightarrow> int \<times> aecm_memory" where
  "WebRtcAecm_FreeCore p m =
     (case p of
        Null \<Rightarrow> (-1, m)
      | Unassigned \<Rightarrow> (0, add_fault (Freed_Unassigned Core_Field) m)
      | To b \<Rightarrow> (0, free_block b (fold (\<lambda>x m. free_field (Part_Field x) (read_block b m)) free_order m)))"

definition core_parts :: "core_part list" where
  "core_parts = [Far_Frames, Noisy_Frames, Clean_Frames, Out_Frames, Delay_Farend, Delay_Near, Real_FFT]"

text \<open>The arguments \<open>ok\<close> tell which allocations succeed.  The first part that cannot be created ends the list.\<close>

fun create_parts :: "(core_part \<Rightarrow> bool) \<Rightarrow> core_part list \<Rightarrow> aecm_memory \<Rightarrow> int \<times> aecm_memory" where
  "create_parts ok [] m = (0, m)"
| "create_parts ok (x # xs) m =
     (if ok x then create_parts ok xs (allocate (Core_Part x) (m\<lparr>part_fields := (part_fields m)(x := To (Core_Part x))\<rparr>))
      else (-1, snd (WebRtcAecm_FreeCore (To Core) (m\<lparr>part_fields := (part_fields m)(x := Null)\<rparr>))))"

definition WebRtcAecm_CreateCore :: "bool \<Rightarrow> (core_part \<Rightarrow> bool) \<Rightarrow> aecm_memory \<Rightarrow> int \<times> aecm_memory" where
  "WebRtcAecm_CreateCore core_ok ok m =
     (if \<not> core_ok then (-1, m\<lparr>core_field := Null\<rparr>)
      else create_parts ok core_parts (allocate Core (m\<lparr>core_field := To Core\<rparr>)))"

subsection \<open>The instance\<close>

definition WebRtcAecm_Free :: "pointer \<Rightarrow> aecm_memory \<Rightarrow> int \<times> aecm_memory" where
  "WebRtcAecm_Free p m =
     (case p of
        To b \<Rightarrow>
          (let m = read_block b m;
               m = snd (WebRtcAecm_FreeCore (core_field m) m);
               m = free_field Farend_Field (read_block b m)
           in (0, free_block b m))
      | _ \<Rightarrow> (-1, m))"

text \<open>\<open>caller\<close> tells whether there is a place for the pointer; the second result is what it holds.\<close>

definition WebRtcAecm_Create ::
  "bool \<Rightarrow> bool \<Rightarrow> bool \<Rightarrow> (core_part \<Rightarrow> bool) \<Rightarrow> bool \<Rightarrow> int \<times> pointer option \<times> aecm_memory" where
  "WebRtcAecm_Create caller instance_ok core_ok ok farend_ok =
     (if \<not> caller then (-1, None, empty_memory)
      else if \<not> instance_ok then (-1, Some Null, empty_memory)
      else
        case WebRtcAecm_CreateCore core_ok ok (allocate Instance empty_memory) of
          (ret, m) \<Rightarrow>
            if ret = -1 then (-1, Some (To Instance), snd (WebRtcAecm_Free (To Instance) m))
            else
              let m = (if farend_ok then allocate Far_End (m\<lparr>farend_field := To Far_End\<rparr>) else m\<lparr>farend_field := Null\<rparr>)
              in if \<not> farend_ok then (-1, Some (To Instance), snd (WebRtcAecm_Free (To Instance) m))
                 else (0, Some (To Instance), m))"

subsection \<open>Which blocks and faults are left\<close>

lemma free_field_simps:
  "part_fields m x = Null \<Longrightarrow> free_field (Part_Field x) m = m"
  "part_fields m x = Unassigned \<Longrightarrow> free_field (Part_Field x) m = add_fault (Freed_Unassigned (Part_Field x)) m"
  "part_fields m x = To b \<Longrightarrow> free_field (Part_Field x) m = free_block b m"
  "farend_field m = Null \<Longrightarrow> free_field Farend_Field m = m"
  "farend_field m = Unassigned \<Longrightarrow> free_field Farend_Field m = add_fault (Freed_Unassigned Farend_Field) m"
  by (simp_all add: free_field_def)

lemmas memory_defs = empty_memory_def allocate_def read_block_def free_block_def add_fault_def free_order_def core_parts_def
  WebRtcAecm_FreeCore_def WebRtcAecm_CreateCore_def WebRtcAecm_Free_def WebRtcAecm_Create_def Let_def

end
