(* ===== verification/Aecm_Theorems.thy ===== *)
theory Aecm_Theorems
  imports Aecm_Session Aecm_Dsp Aecm_Memory
begin

text \<open>
  The properties of the echo canceller with its Fourier transform and its delay estimator.  The examples of the
  witnesses are a canceller as \<open>malloc\<close> may leave it, with the delay estimator that \<open>Create\<close> makes.
\<close>

text \<open>After \<open>Create\<close>, and after the initialisation.\<close>

definition canceller_ready :: "'f estimators aecmob \<Rightarrow> bool" where
  "canceller_ready a \<longleftrightarrow> canceller_created a \<and> estimators_sized (delay_estimator (adapt (aecmCore a)))"

definition canceller_ok :: "'f estimators aecmob \<Rightarrow> bool" where
  "canceller_ok a \<longleftrightarrow> aecm_inv a \<and> estimators_inv (delay_estimator (adapt (aecmCore a)))"

abbreviation aecm_block :: "'f floats \<Rightarrow> 'f estimators Adapt block" where
  "aecm_block fl \<equiv> process_block (aecm_dsp fl)"

lemma runs_estimators: "runs estimators_inv (aecm_dsp fl) c \<longleftrightarrow> estimators_inv (delay_estimator c)"
  by (simp add: runs_def aecm_dsp_runs)

lemma canceller_ok_ready: "canceller_ok a \<Longrightarrow> canceller_ready a"
  by (simp add: canceller_ok_def canceller_ready_def aecm_inv_created estimators_inv_sized)

lemma Init_ok:
  assumes "canceller_ready a0" "freq = 8000 \<or> freq = 16000"
  obtains a where "WebRtcAecm_Init (init_estimators fl) (Some a0) freq = (0, Some a)" "canceller_ok a"
proof -
  obtain h where h: "init_estimators fl (delay_estimator (adapt (aecmCore a0))) = Some h" "estimators_inv h"
    using init_estimators_inv assms(1) by (metis canceller_ready_def)
  obtain a where "WebRtcAecm_Init (init_estimators fl) (Some a0) freq = (0, Some a)" "aecm_inv a"
    "delay_estimator (adapt (aecmCore a)) = h"
    using Init_succeeds [of a0 freq "init_estimators fl" h] assms h(1) by (auto simp: canceller_ready_def)
  then show ?thesis using that h(2) by (auto simp: canceller_ok_def)
qed

definition raw_ring :: "nat \<Rightarrow> u16 RingBuffer" where
  "raw_ring n = \<lparr>read_pos = 7, write_pos = 3, element_count = n, rw_wrap = SAME_WRAP, ring_data = []\<rparr>"

definition raw_estimators :: "rat estimators" where
  "raw_estimators = the (create_estimators \<lparr>any_int = \<lambda>i. 7, any_word = \<lambda>i. 9\<rparr> (\<lambda>i. 1) exact_floats (\<lambda>_. True))"

lemma raw_estimators_sized: "estimators_sized raw_estimators"
  using create_estimators_succeeds create_estimators_sized unfolding raw_estimators_def by (metis option.sel)

definition raw_adapt :: "rat estimators Adapt" where
  "raw_adapt = \<lparr>mult = 9, seed = 0, delay_estimator = raw_estimators, far_history = [], far_history_pos = 0, far_q_domains = [],
     nlpFlag = 0, fixedDelay = 0, totCount = 0, dfaCleanQDomain = 0, dfaCleanQDomainOld = 0, dfaNoisyQDomain = 0,
     dfaNoisyQDomainOld = 0, nearLogEnergy = [], farLogEnergy = 0, echoAdaptLogEnergy = [], echoStoredLogEnergy = [],
     channelStored = [], channelAdapt16 = [], channelAdapt32 = [], xBuf = [], dBufClean = [], dBufNoisy = [],
     outBuf = [], echoFilt = [], nearFilt = [], noiseEst = [], noiseEstTooLowCtr = [], noiseEstTooHighCtr = [],
     noiseEstCtr = 0, cngMode = 0, mseAdaptOld = 0, mseStoredOld = 0, mseThreshold = 0, farEnergyMin = 0,
     farEnergyMax = 0, farEnergyMaxMin = 0, farEnergyVAD = 0, farEnergyMSE = 0, currentVADValue = 0,
     vadUpdateCount = 0, firstVAD = 0, startupState = 0, mseChannelCount = 0, supGain = 0, supGainOld = 0,
     supGainErrParamA = 0, supGainErrParamD = 0, supGainErrParamDiffAB = 0, supGainErrParamDiffBD = 0\<rparr>"

definition raw_core :: "rat estimators Adapt AecmCore" where
  "raw_core = \<lparr>farBufWritePos = 5, farBufReadPos = 6, core_knownDelay = 1, lastKnownDelay = 2,
     farFrameBuf = raw_ring 144, nearNoisyFrameBuf = raw_ring 144, nearCleanFrameBuf = raw_ring 144,
     outFrameBuf = raw_ring 144, farBuf = replicate 256 0xAAAA, adapt = raw_adapt\<rparr>"

definition raw_aecm :: "rat estimators aecmob" where
  "raw_aecm = \<lparr>sampFreq = 0, bufSizeStart = 0, knownDelay = 0, farendOld = [replicate 80 0xAAAA, replicate 80 0xBBBB],
     initFlag = 0, counter = 0, msSum = 0, firstVal = 0, checkBufSizeCtr = 0, msInSndCardBuf = 0, filtDelay = 0,
     timeForDelayChange = 0, ECstartup = False, checkBuffSize = False, delayChange = 0, lastDelayDiff = 0,
     echoMode = 0, farendBuf = raw_ring 4000, lastError = 0, aecmCore = raw_core\<rparr>"

definition fresh_aecm :: "rat estimators aecmob" where
  "fresh_aecm = the (snd (WebRtcAecm_Init (init_estimators exact_floats) (Some raw_aecm) 8000))"

abbreviation "exact_block \<equiv> aecm_block exact_floats"

lemma raw_aecm_created: "canceller_created raw_aecm"
  by (simp add: canceller_created_def raw_aecm_def framed_def raw_core_def raw_ring_def)

lemma raw_aecm_ready: "canceller_ready raw_aecm"
  using raw_estimators_sized raw_aecm_created by (simp add: canceller_ready_def raw_aecm_def raw_core_def raw_adapt_def)

lemma fresh_ok: "WebRtcAecm_Init (init_estimators exact_floats) (Some raw_aecm) 8000 = (0, Some fresh_aecm)" "canceller_ok fresh_aecm"
  using Init_ok [OF raw_aecm_ready, of 8000 exact_floats] unfolding fresh_aecm_def by (metis option.sel snd_conv)+

lemma fresh_inv: "aecm_inv fresh_aecm"
  using fresh_ok(2) by (simp add: canceller_ok_def)

subsection \<open>A call\<close>

text \<open>C1: From the initialisation on, which succeeds, with frames decoded and recorded in turns, the echo canceller
  works without failure: the first three recorded frames pass unchanged, and from then on the output is that
  of \<open>ProcessBlock\<close> on blocks of the recorded samples and of the reference, with the stuffing of the first
  three frames of the core.  The reference is not the decoded signal: of every decoded frame the second half
  is used twice and the first half never.\<close>

theorem aecm_call:
  assumes "canceller_ready a0"
    and "length start = 3" "\<forall>(far, near) \<in> set (start @ turns). length far = 160 \<and> length near = 160"
  shows "\<exists>a Bs s' outs a'.
    WebRtcAecm_Init (init_estimators fl) (Some a0) 8000 = (0, Some a) \<and>
    block_run (aecm_block fl) (adapt (aecmCore a))
      (concat (reference 0 (replicate 80 0 @ concat (map fst (start @ turns))) (length turns)))
      (concat (map snd turns)) = Some (Bs, s') \<and>
    codec_use (aecm_block fl) a (in_turns (start @ turns)) = Some (map snd start @ outs, a') \<and>
    concat outs = take (160 * length turns) (stuffed 0 (replicate 144 0) Bs)"
proof -
  obtain a where a: "WebRtcAecm_Init (init_estimators fl) (Some a0) 8000 = (0, Some a)" "canceller_ok a"
    using Init_ok [OF assms(1)] by blast
  have made: "canceller_created a0" using assms(1) by (simp add: canceller_ready_def)
  note init = Init_waiting [OF made a(1)]
  have frames: "\<forall>(far, near) \<in> set start. length far = 160 \<and> length near = 160"
    "\<forall>(far, near) \<in> set turns. length far = 160 \<and> length near = 160" using assms(3) by auto
  note st = in_turns_facts [OF frames(1)] and tn = in_turns_facts [OF frames(2)]
  define D where "D = concat (map fst start)"
  define F where "F = concat (map fst turns)"
  let ?core = "aecmCore a" and ?h = "replicate 4000 0 @ D"
  have D: "length D = 480" "length F = 160 * length turns" using st(4) tn(4) assms(2) by (simp_all add: D_def F_def)
  obtain a1 where a1: "codec_use (aecm_block fl) a (in_turns start) = Some (map snd start, a1)" "listening 85 ?core ?h a1"
    using startup_in_turns [OF init(1) assms(2) frames(1)] D_def by blast
  define refs where "refs = reference 0 (replicate 80 0 @ D @ F) (length turns)"
  have "replicate 80 0 @ D @ F = drop 3920 (?h @ F)" by simp
  then have refs: "refs = reference (length ?h - 560) (?h @ F) (length turns)"
    using reference_shift [of 0 3920 "?h @ F" "length turns"] D by (simp add: refs_def)
  have rl: "\<forall>x \<in> set refs. length x = 80" "length refs = 2 * length turns"
    using reference_lengths [of 0 "length turns" "replicate 80 0 @ D @ F"] D by (simp_all add: refs_def length_reference)
  have lens: "length (concat refs) = 160 * length turns" using concat_frames_length [OF rl(1)] rl(2) by simp
  obtain Bs s' where run: "block_run (aecm_block fl) (adapt ?core) (concat refs) (concat (map snd turns)) = Some (Bs, s')"
    using block_run_total [OF aecm_dsp_ok [of fl], of "adapt ?core" estimators_inv "concat refs" "concat (map snd turns)"]
      init(3) lens tn(5) a(2)
    by (auto simp: core_inv_def runs_estimators canceller_ok_def)
  let ?frames = "zip refs (near_frames turns)"
  have z: "map fst ?frames = refs" "map snd ?frames = near_frames turns" "length ?frames = 2 * length turns"
    using rl(2) by (simp_all add: length_near_frames)
  have zl: "\<forall>(far, near) \<in> set ?frames. length far = 80 \<and> length near = 80"
    using rl(1) tn(6) by (auto dest: set_zip_leftD set_zip_rightD)
  have fr: "framing ?core [] [] (replicate 144 0) (pending 0)" using init(4) by (simp add: pending_def)
  have none: "length ([] :: u16 list) = 16 * (0 mod 4)" by simp
  have blocks: "block_run (aecm_block fl) (adapt ?core) ([] @ concat (map fst ?frames)) ([] @ concat (map snd ?frames)) = Some (Bs, s')"
    using run z concat_near_frames [of turns] by simp
  obtain outs c' where c': "process_frames (aecm_block fl) ?core ?frames = Some (outs, c')"
    "concat outs = take (80 * length ?frames) (drop (length (replicate 144 (0 :: u16)) - pending 0) (replicate 144 0) @
       stuffed 0 (replicate 144 0) Bs)"
    using process_frames_from [OF zl process_block_width fr none blocks] by blast
  have "concat outs = take (160 * length turns) (stuffed 0 (replicate 144 0) Bs)"
    using c'(2) z(3) by (simp add: pending_def)
  moreover obtain outs' a' where "codec_use (aecm_block fl) a1 (in_turns turns) = Some (outs', a')" "concat outs' = concat outs"
    using turns [OF aecm_dsp_ok [of fl] a1(2) init(3) frames(2), of outs c'] c'(1) refs by (auto simp: F_def)
  ultimately show ?thesis
    using a(1) run a1(1) by (auto simp: in_turns_append codec_use_append refs_def D_def F_def)
qed

theorem aecm_call_witness:
  "\<exists>a Bs s' outs a'.
    WebRtcAecm_Init (init_estimators exact_floats) (Some raw_aecm) 8000 = (0, Some a) \<and>
    block_run exact_block (adapt (aecmCore a))
      (concat (reference 0 (replicate 80 0 @ concat (map fst (replicate 5 (replicate 160 7, replicate 160 9)))) 2))
      (concat (map snd (replicate 2 (replicate 160 7, replicate 160 9)))) = Some (Bs, s') \<and>
    codec_use exact_block a (in_turns (replicate 5 (replicate 160 7, replicate 160 9))) =
      Some (replicate 3 (replicate 160 9) @ outs, a') \<and>
    concat outs = take (160 * 2) (stuffed 0 (replicate 144 0) Bs)"
  using aecm_call [OF raw_aecm_ready, of "replicate 3 (replicate 160 7, replicate 160 9)"
      "replicate 2 (replicate 160 7, replicate 160 9)" exact_floats]
  by (simp add: replicate_add [symmetric])

text \<open>C2: In any order of decoded and recorded frames, the start-up passes every recorded frame unchanged, keeps
  the first 4000 decoded samples, loses those that come when the buffer is full, and touches nothing of the
  core.  It ends with the first recorded frame that is at least the third and finds 480 decoded samples; of
  the samples kept, the last 480 are left to be read.\<close>

theorem aecm_startup:
  assumes "canceller_created a0" "WebRtcAecm_Init init_delay (Some a0) 8000 = (0, Some a)"
    and "frames_ok ops" "starting 0 0 ops" "length near = 160"
  shows "\<exists>a' a'' kept. kept = take 4000 (decoded ops) \<and>
    codec_use block a ops = Some (recorded ops, a') \<and> ECstartup a' \<and> aecmCore a' = aecmCore a \<and>
    contents (farendBuf a') = kept \<and>
    codec_use block a' [Inr near] = Some ([near], a'') \<and> aecmCore a'' = aecmCore a \<and>
    (if 2 \<le> length (recorded ops) \<and> 480 \<le> length (decoded ops)
     then \<not> ECstartup a'' \<and> contents (farendBuf a'') = drop (length kept - 480) kept
     else ECstartup a'' \<and> contents (farendBuf a'') = kept)"
proof -
  let ?X = "take 4000 (decoded ops)" and ?k = "length (recorded ops)"
  have start: "waiting 85 (aecmCore a) (take 4000 []) 0 a" "starting 0 (length ([] :: u16 list)) ops"
    using Init_waiting(1) [OF assms(1,2)] assms(4) by simp_all
  obtain a' where a': "codec_use block a ops = Some (recorded ops, a')" "waiting 85 (aecmCore a) ?X ?k a'"
    using waiting_run [OF start(1) assms(3) start(2), of block] by auto
  have full: "length ?X \<le> 4000" "480 \<le> length ?X \<longleftrightarrow> 480 \<le> length (decoded ops)" by simp_all
  obtain a'' where p: "WebRtcAecm_Process block (Some a') (Some near) None (Some (replicate 160 0)) 160 75 = Some (0, Some near, Some a'')"
    "if 2 \<le> ?k \<and> 480 \<le> length ?X then listening 85 (aecmCore a) (replicate 4000 0 @ ?X) a'' else waiting 85 (aecmCore a) ?X (Suc ?k) a''"
    using waiting_near_75 [OF a'(2) assms(5) full(1)] by blast
  have w: "contents (farendBuf b) = ?X \<and> ECstartup b \<and> aecmCore b = aecmCore a" if "waiting 85 (aecmCore a) ?X k b" for k b
    using that history_contents [of 4000 "farendBuf b" "replicate 4000 0 @ ?X" "length ?X"] by (simp add: waiting_def)
  have l: "contents (farendBuf b) = drop (length ?X - 480) ?X \<and> \<not> ECstartup b \<and> aecmCore b = aecmCore a"
    if "listening 85 (aecmCore a) (replicate 4000 0 @ ?X) b" "480 \<le> length ?X" for b
    using that history_contents [of 4000 "farendBuf b" "replicate 4000 0 @ ?X" 480] by (simp add: listening_def)
  have run: "codec_use block a' [Inr near] = Some ([near], a'')" using p(1) by (simp add: ECHO_TAIL_MILLIS_def)
  show ?thesis
  proof (rule exI [of _ a'], rule exI [of _ a''], rule exI [of _ ?X], intro conjI)
    show "if 2 \<le> ?k \<and> 480 \<le> length (decoded ops)
        then \<not> ECstartup a'' \<and> contents (farendBuf a'') = drop (length ?X - 480) ?X
        else ECstartup a'' \<and> contents (farendBuf a'') = ?X"
      using p(2) l [of a''] w [of "Suc ?k" a''] unfolding full(2) by (simp only: split: if_splits) blast+
    show "aecmCore a'' = aecmCore a" using p(2) l [of a''] w [of "Suc ?k" a''] by (cases "2 \<le> ?k \<and> 480 \<le> length ?X") auto
  qed (use a'(1) run w [OF a'(2)] in simp_all)
qed

theorem aecm_startup_witness:
  "\<exists>a' a''. codec_use exact_block fresh_aecm (replicate 4 (Inl (replicate 160 7)) @ replicate 2 (Inr (replicate 160 9))) =
      Some (replicate 2 (replicate 160 9), a') \<and> ECstartup a' \<and> aecmCore a' = aecmCore fresh_aecm \<and>
    contents (farendBuf a') = replicate 640 7 \<and>
    codec_use exact_block a' [Inr (replicate 160 5)] = Some ([replicate 160 5], a'') \<and> aecmCore a'' = aecmCore fresh_aecm \<and>
    \<not> ECstartup a'' \<and> contents (farendBuf a'') = replicate 480 7"
proof -
  let ?ops = "replicate 4 (Inl (replicate 160 7)) @ replicate 2 (Inr (replicate 160 9)) :: (u16 list + u16 list) list"
  have ops: "?ops = [Inl (replicate 160 7), Inl (replicate 160 7), Inl (replicate 160 7), Inl (replicate 160 7),
      Inr (replicate 160 9), Inr (replicate 160 9)]" by (simp add: numeral_eq_Suc)
  have d: "decoded ?ops = replicate 640 7" unfolding ops by (simp add: replicate_add [symmetric])
  have r: "recorded ?ops = replicate 2 (replicate 160 9)" unfolding ops by (simp add: numeral_2_eq_2)
  have f: "frames_ok ?ops" "starting 0 0 ?ops" unfolding ops by (simp_all add: frames_ok_def)
  show ?thesis
    using aecm_startup [OF raw_aecm_created fresh_ok(1) f, of "replicate 160 5" exact_block] unfolding d r by simp
qed

text \<open>C3: The core of the canceller puts frames and blocks together faithfully: from its initialisation on,
  whatever the frames and the block function, the output of its frames, one after the other, are the blocks
  of \<open>ProcessBlock\<close> over the frames' samples, one after the other, except that each of the first three
  frames begins with the last sixteen samples of the block before it, zeros at first.\<close>

theorem aecm_reblocking:
  assumes "framed c" "block_ok block" "\<forall>(far, near) \<in> set frames. length far = 80 \<and> length near = 80"
    and "block_run block (adapt c) (concat (map fst frames)) (concat (map snd frames)) = Some (Bs, s')"
  shows "\<exists>outs c'. process_frames block (init_frames c) frames = Some (outs, c') \<and> adapt c' = s' \<and>
    list_all (\<lambda>out. length out = 80) outs \<and> length outs = length frames \<and>
    concat outs = take (80 * length frames) (stuffed 0 (replicate 144 0) Bs)"
proof -
  have fr: "framing (init_frames c) [] [] (replicate 144 0) (pending 0)" using init_framing [OF assms(1)] by (simp add: pending_def)
  have none: "length ([] :: u16 list) = 16 * (0 mod 4)" by simp
  have run: "block_run block (adapt (init_frames c)) ([] @ concat (map fst frames)) ([] @ concat (map snd frames)) = Some (Bs, s')"
    using assms(4) by (simp add: init_frames_def)
  show ?thesis using process_frames_from [OF assms(3,2) fr none run] by (simp add: pending_def)
qed

text \<open>A block function that counts its calls and gives the sum of far and near end.\<close>

definition adding_block :: "nat block" where
  "adding_block s far near clean = (0, take 64 (map2 (+) far near @ replicate 64 0), Suc s)"

definition counting_core :: "nat AecmCore" where
  "counting_core = \<lparr>farBufWritePos = 5, farBufReadPos = 6, core_knownDelay = 1, lastKnownDelay = 2,
     farFrameBuf = raw_ring 144, nearNoisyFrameBuf = raw_ring 144, nearCleanFrameBuf = raw_ring 144,
     outFrameBuf = raw_ring 144, farBuf = replicate 256 0xAAAA, adapt = 0\<rparr>"

lemma adding_block_ok: "block_ok adding_block"
  by (simp add: block_ok_def adding_block_def min_def)

lemma adding_block_run:
  "block_run adding_block s (replicate (64 * k) x) (replicate (64 * k) y) = Some (replicate k (replicate 64 (x + y)), s + k)"
proof (induction k arbitrary: s)
  case 0
  then show ?case by (simp add: block_run.simps)
next
  case (Suc k)
  have "adding_block s (take 64 (replicate (64 * Suc k) x)) (take 64 (replicate (64 * Suc k) y)) None =
      (0, replicate 64 (x + y), Suc s)" by (simp add: adding_block_def)
  then show ?case using Suc [of "Suc s"] by (subst block_run.simps) simp
qed

theorem aecm_reblocking_witness:
  "\<exists>outs c'. process_frames adding_block (init_frames counting_core) (replicate 4 (replicate 80 3, replicate 80 4)) = Some (outs, c') \<and>
    adapt c' = 5 \<and> list_all (\<lambda>out. length out = 80) outs \<and> length outs = 4 \<and>
    concat outs = take 320 (stuffed 0 (replicate 144 0) (replicate 5 (replicate 64 7)))"
proof -
  have "framed counting_core" by (simp add: framed_def counting_core_def raw_ring_def)
  moreover have "concat (map fst (replicate 4 (replicate 80 3, replicate 80 4))) = (replicate (64 * 5) 3 :: u16 list)"
    "concat (map snd (replicate 4 (replicate 80 3, replicate 80 4))) = (replicate (64 * 5) 4 :: u16 list)"
    by (simp_all add: numeral_eq_Suc replicate_append_same)
  ultimately show ?thesis
    using aecm_reblocking [of counting_core adding_block "replicate 4 (replicate 80 3, replicate 80 4)"
        "replicate 5 (replicate 64 7)" 5] adding_block_run [of 0 5 3 4] adding_block_ok
    by (simp add: counting_core_def)
qed

text \<open>C4: Memory that was never initialised reaches the echo canceller.  \<open>Init\<close> clears only the first of the two
  frames of \<open>farendOld\<close>.  With no far end and a delay of 0 the start-up lasts three calls, and in the fourth the
  reference of the second frame is what \<open>malloc\<close> left in the second frame.\<close>

theorem aecm_uninitialised:
  assumes "canceller_ready a0" "length near = 160"
  shows "\<exists>a a1 a2 a3 a4 outs core.
    WebRtcAecm_Init (init_estimators fl) (Some a0) 8000 = (0, Some a) \<and>
    WebRtcAecm_Process (aecm_block fl) (Some a) (Some near) None (Some (replicate 160 0)) 160 0 = Some (0, Some near, Some a1) \<and>
    WebRtcAecm_Process (aecm_block fl) (Some a1) (Some near) None (Some (replicate 160 0)) 160 0 = Some (0, Some near, Some a2) \<and>
    WebRtcAecm_Process (aecm_block fl) (Some a2) (Some near) None (Some (replicate 160 0)) 160 0 = Some (0, Some near, Some a3) \<and>
    process_frames (aecm_block fl) (aecmCore a) [(replicate 80 0, take 80 near), (farendOld a0 ! 1, drop 80 near)] =
      Some (outs, core) \<and>
    WebRtcAecm_Process (aecm_block fl) (Some a3) (Some near) None (Some (replicate 160 0)) 160 0 =
      Some (0, Some (concat outs), Some a4)"
proof -
  obtain a where a: "WebRtcAecm_Init (init_estimators fl) (Some a0) 8000 = (0, Some a)" "canceller_ok a"
    using Init_ok [OF assms(1)] by blast
  have made: "canceller_created a0" using assms(1) by (simp add: canceller_ready_def)
  let ?core = "aecmCore a" and ?frames = "[(replicate 80 0, take 80 near), (farendOld a0 ! 1, drop 80 near)]"
  note init = Init_waiting [OF made a(1)]
  note near = waiting_near [where d = 10, simplified]
  obtain a1 where a1: "WebRtcAecm_Process (aecm_block fl) (Some a) (Some near) None (Some (replicate 160 0)) 160 0 = Some (0, Some near, Some a1)"
    "farendOld a1 = farendOld a" "waiting 10 ?core [] (Suc 0) a1" using near [OF init(1) assms(2)] by auto
  obtain a2 where a2: "WebRtcAecm_Process (aecm_block fl) (Some a1) (Some near) None (Some (replicate 160 0)) 160 0 = Some (0, Some near, Some a2)"
    "farendOld a2 = farendOld a" "waiting 10 ?core [] (Suc (Suc 0)) a2" using near [OF a1(3) assms(2)] a1(2) by auto
  obtain a3 where a3: "WebRtcAecm_Process (aecm_block fl) (Some a2) (Some near) None (Some (replicate 160 0)) 160 0 = Some (0, Some near, Some a3)"
    "farendOld a3 = farendOld a" "listening 10 ?core (replicate 4000 0) a3"
    using near [OF a2(3) assms(2)] a2(2) by (auto simp: start_level_def)
  have silent: "far_samples a3 = 0" "core_mult a3 = 1" "aecmCore a3 = ?core"
    using a3(3) by (auto simp: listening_def start_level_def far_samples_def history_ring_def)
  have wide: "length (farendOld a0 ! 1) = 80" using made by (auto simp: canceller_created_def)
  have fr: "framing ?core [] [] (replicate 144 0) (pending 0)" using init(4) by (simp add: pending_def)
  have none: "length ([] :: u16 list) = 16 * (0 mod 4)" by simp
  obtain Bs s' where run: "block_run (aecm_block fl) (adapt ?core) ([] @ concat (map fst ?frames)) ([] @ concat (map snd ?frames)) = Some (Bs, s')"
    using block_run_total [OF aecm_dsp_ok [of fl], of "adapt ?core" estimators_inv "concat (map fst ?frames)" "concat (map snd ?frames)"]
      init(3) wide assms(2) a(2)
    by (auto simp: core_inv_def runs_estimators canceller_ok_def)
  have fl: "\<forall>(far, near) \<in> set ?frames. length far = 80 \<and> length near = 80" using wide assms(2) by simp
  obtain outs core where c: "process_frames (aecm_block fl) ?core ?frames = Some (outs, core)"
    using process_frames_from [OF fl process_block_width fr none run] by blast
  let ?a = "a3\<lparr>msInSndCardBuf := 0 + 10\<rparr>"
  have f0: "fetch_farend ?a 0 = (replicate 80 0, ?a)"
    using silent init(5) a3(2) by (simp add: fetch_farend_def far_samples_def int16_id)
  have f1: "fetch_farend (WebRtcAecm_EstBufDelay ?a (0 + 10)) 1 = (farendOld a0 ! 1, WebRtcAecm_EstBufDelay ?a (0 + 10))"
    using silent init(6) a3(2)
    by (simp add: fetch_farend_def far_samples_def EstBufDelay_keeps core_mult_def kSampMsNb_def int16_id)
  have "WebRtcAecm_Process (aecm_block fl) (Some a3) (Some near) None (Some (replicate 160 0)) 160 0 =
      Some (0, Some (concat outs), Some ((WebRtcAecm_EstBufDelay ?a (0 + 10))\<lparr>aecmCore := core\<rparr>))"
    by (rule process_two [OF aecm_dsp_ok [of fl] _ _ _ _ _ _ f0 _ f1 wide assms(2)]; use a3(3) silent init(3) c in \<open>simp add: listening_def\<close>)
  then show ?thesis using a(1) a1(1) a2(1) a3(1) c by blast
qed

theorem aecm_uninitialised_witness:
  "\<exists>a a1 a2 a3 a4 outs core.
    WebRtcAecm_Init (init_estimators exact_floats) (Some raw_aecm) 8000 = (0, Some a) \<and>
    WebRtcAecm_Process exact_block (Some a) (Some (replicate 160 9)) None (Some (replicate 160 0)) 160 0 =
      Some (0, Some (replicate 160 9), Some a1) \<and>
    WebRtcAecm_Process exact_block (Some a1) (Some (replicate 160 9)) None (Some (replicate 160 0)) 160 0 =
      Some (0, Some (replicate 160 9), Some a2) \<and>
    WebRtcAecm_Process exact_block (Some a2) (Some (replicate 160 9)) None (Some (replicate 160 0)) 160 0 =
      Some (0, Some (replicate 160 9), Some a3) \<and>
    process_frames exact_block (aecmCore a)
      [(replicate 80 0, replicate 80 9), (replicate 80 0xBBBB, replicate 80 9)] = Some (outs, core) \<and>
    WebRtcAecm_Process exact_block (Some a3) (Some (replicate 160 9)) None (Some (replicate 160 0)) 160 0 =
      Some (0, Some (concat outs), Some a4)"
proof -
  have "farendOld raw_aecm ! 1 = replicate 80 0xBBBB" by (simp add: raw_aecm_def)
  then show ?thesis
    using aecm_uninitialised [OF raw_aecm_ready, of "replicate 160 9" exact_floats] by simp
qed

text \<open>Why a call with samples is refused, in the order of the checks.\<close>

definition refusal :: "'d aecmob \<Rightarrow> bool \<Rightarrow> int \<Rightarrow> int option" where
  "refusal a null n =
     (if null then Some AECM_NULL_POINTER_ERROR
      else if initFlag a \<noteq> kInitCheck then Some AECM_UNINITIALIZED_ERROR
      else if n \<noteq> 80 \<and> n \<noteq> 160 then Some AECM_BAD_PARAMETER_ERROR else None)"

lemma Process_refusals:
  assumes "WebRtcAecm_Process block (Some a) noisy clean out n ms = Some (ret, out', Some a')"
  shows "case refusal a (noisy = None \<or> out = None) n of
      Some e \<Rightarrow> ret = -1 \<and> out' = out \<and> a' = a\<lparr>lastError := e\<rparr> \<and> WebRtcAecm_get_error_code (Some a') = e
    | None \<Rightarrow> if 0 \<le> ms \<and> ms \<le> 500 then lastError a' = lastError a
              else ret = -1 \<and> WebRtcAecm_get_error_code (Some a') = AECM_BAD_PARAMETER_WARNING"
proof -
  have loop: "lastError b' = lastError b \<and> (r = -1 \<longrightarrow> r' = -1)"
    if "process_loop block b is x y z r = Some (r', z', b')" for b b' "is" x y z z' r r'
    using process_loop_error [OF that] process_loop_ret [OF that] by auto
  show ?thesis
    using assms
    by (auto simp: WebRtcAecm_Process_def refusal_def WebRtcAecm_get_error_code_def Let_def startup_step_keeps
        split: option.splits if_splits Option.bind_splits dest!: loop)
qed

lemma process_loop_retVal:
  "process_loop block a is noisy clean out r = Some (ret, out', a') \<Longrightarrow>
    \<exists>ret'. process_loop block a is noisy clean out r' = Some (ret', out', a')"
  by (induction block a "is" noisy clean out r rule: process_loop.induct)
    (auto split: Option.bind_splits if_splits)

lemma Process_clamped:
  assumes "WebRtcAecm_Process block (Some a) noisy clean out n ms = Some (ret, out', Some a')"
    and "refusal a (noisy = None \<or> out = None) n = None" "\<not> (0 \<le> ms \<and> ms \<le> 500)"
  shows "\<exists>r. WebRtcAecm_Process block (Some (a\<lparr>lastError := AECM_BAD_PARAMETER_WARNING\<rparr>)) noisy clean out n
    (if ms < 0 then 0 else 500) = Some (r, out', Some a')"
proof -
  obtain no ou where args: "noisy = Some no" "out = Some ou" "initFlag a = kInitCheck" "(n \<noteq> 80 \<and> n \<noteq> 160) = False"
    using assms(2) by (auto simp: refusal_def split: if_splits)
  let ?m = "if ms < 0 then 0 else 500 :: int"
  define b where "b = a\<lparr>lastError := AECM_BAD_PARAMETER_WARNING, msInSndCardBuf := ?m + 10\<rparr>"
  define run where "run r =
    (if ECstartup b then do {
       src \<leftarrow> read_bytes (case clean of None \<Rightarrow> no | Some clean \<Rightarrow> clean) 0 (nat n);
       out \<leftarrow> write_bytes ou 0 src;
       Some (r, Some out, Some (startup_step b (n div 80 sdiv core_mult b)))
     }
     else map_option (\<lambda>(ret, out, a). (ret, Some out, Some a))
       (process_loop block b [0..<nat (n div 80)] no clean ou r))" for r :: int
  have "WebRtcAecm_Process block (Some a) noisy clean out n ms = run (-1)"
    using assms(3) unfolding run_def b_def WebRtcAecm_Process_def Let_def args by (cases "ms < 0") (simp_all add: args(3) FRAME_LEN_def)
  then have "run (-1) = Some (ret, out', Some a')" using assms(1) by simp
  then have "\<exists>r. run 0 = Some (r, out', Some a')"
    using process_loop_retVal [of block b "[0..<nat (n div 80)]" no clean ou "-1" ret _ _ 0]
    by (auto simp: run_def split: if_splits Option.bind_splits)
  moreover have "WebRtcAecm_Process block (Some (a\<lparr>lastError := AECM_BAD_PARAMETER_WARNING\<rparr>)) noisy clean out n ?m = run 0"
    unfolding run_def b_def WebRtcAecm_Process_def Let_def args by (cases "ms < 0") (simp_all add: args(3) FRAME_LEN_def)
  ultimately show ?thesis by simp
qed

lemma Process_ok:
  assumes "canceller_ok a" "frame_arrays n noisy" "frame_arrays n clean" "frame_arrays n out"
  shows "\<exists>ret out' a'. WebRtcAecm_Process (aecm_block fl) (Some a) noisy clean out n ms = Some (ret, out', Some a') \<and>
      canceller_ok a' \<and> map_option length out' = map_option length out \<and>
      ret = (if noisy \<noteq> None \<and> out \<noteq> None \<and> n \<in> {80, 160} \<and> 0 \<le> ms \<and> ms \<le> 500 then 0 else -1)"
proof -
  have inv: "aecm_inv a" "estimators_inv (delay_estimator (adapt (aecmCore a)))"
    using assms(1) by (simp_all add: canceller_ok_def)
  show ?thesis
  proof (cases "n \<in> {80, 160}")
    case True
    obtain ret out' a' where p: "WebRtcAecm_Process (aecm_block fl) (Some a) noisy clean out n ms = Some (ret, out', Some a')"
      "aecm_inv a'" "map_option length out' = map_option length out" "ret = 0 \<or> ret = -1"
      "estimators_inv (delay_estimator (adapt (aecmCore a')))"
      "noisy \<noteq> None \<and> out \<noteq> None \<and> 0 \<le> ms \<and> ms \<le> 500 \<longrightarrow> ret = 0"
      using Process_total [OF aecm_dsp_ok [of fl] inv(1) True assms(2-4), where I = estimators_inv and ms = ms] inv(2)
      unfolding runs_estimators by blast
    have "ret = -1" if "\<not> (noisy \<noteq> None \<and> out \<noteq> None \<and> 0 \<le> ms \<and> ms \<le> 500)"
    proof (cases "refusal a (noisy = None \<or> out = None) n")
      case None
      then have "noisy \<noteq> None \<and> out \<noteq> None" by (auto simp: refusal_def split: if_splits)
      then have "\<not> (0 \<le> ms \<and> ms \<le> 500)" using that by blast
      then show ?thesis using Process_refusals [OF p(1)] None by (simp split: if_splits)
    qed (use Process_refusals [OF p(1)] in simp)
    then have "ret = (if noisy \<noteq> None \<and> out \<noteq> None \<and> n \<in> {80, 160} \<and> 0 \<le> ms \<and> ms \<le> 500 then 0 else -1)"
      using p(6) True by presburger
    moreover have "canceller_ok a'" using p(2,5) by (simp add: canceller_ok_def)
    ultimately show ?thesis using p(1,3) by blast
  next
    case False
    then show ?thesis
      using inv by (cases noisy; cases out) (auto simp: WebRtcAecm_Process_def delay_fields canceller_ok_def)
  qed
qed

lemma same_estimator_ok:
  assumes "canceller_ok a" "\<exists>a'. inst = Some a' \<and> aecm_inv a'"
    and "\<And>a'. inst = Some a' \<Longrightarrow> delay_estimator (adapt (aecmCore a')) = delay_estimator (adapt (aecmCore a))"
  shows "\<exists>a'. inst = Some a' \<and> canceller_ok a'"
  using assms by (auto simp: canceller_ok_def)

lemma Init_again:
  assumes "canceller_ok a"
  shows "\<exists>ret a'. WebRtcAecm_Init (init_estimators fl) (Some a) freq = (ret, Some a') \<and> canceller_ok a' \<and>
    ret = (if freq = 8000 \<or> freq = 16000 then 0 else -1)"
proof (cases "freq = 8000 \<or> freq = 16000")
  case True
  then show ?thesis using Init_ok [OF canceller_ok_ready [OF assms] True, of fl] by auto
next
  case False
  then show ?thesis using assms by (simp add: WebRtcAecm_Init_def delay_fields canceller_ok_def)
qed

text \<open>C5: Well-typed instances do not go wrong.  With every call of the interface an initialised instance stays
  well-formed (the sizes of all arrays and rings, the Q-domains, the logarithmic energies, a channel of 16- and
  32-bit values, suppression gains in their range, the histories and delays of the delay estimator), whatever
  the arguments: any numbers, and null or arrays of 16-bit values with the elements the call reads, 65 for an
  echo path.  \<open>Process\<close> returns without an access outside the arrays it was given, and reports failure exactly
  when an argument is bad.  Initialising the instance again succeeds.\<close>

theorem aecm_type:
  assumes "canceller_ok a" "frame_arrays n noisy" "frame_arrays n clean" "frame_arrays n out"
    and "\<forall>xs. path = Some xs \<longrightarrow> 65 \<le> length xs \<and> list_all (\<lambda>x. -32768 \<le> x \<and> x \<le> 32767) xs"
  shows "(\<exists>ret out' a'. WebRtcAecm_Process (aecm_block fl) (Some a) noisy clean out n ms = Some (ret, out', Some a') \<and>
      canceller_ok a' \<and> map_option length out' = map_option length out \<and>
      ret = (if noisy \<noteq> None \<and> out \<noteq> None \<and> n \<in> {80, 160} \<and> 0 \<le> ms \<and> ms \<le> 500 then 0 else -1)) \<and>
    (\<exists>a'. snd (WebRtcAecm_BufferFarend (Some a) far k) = Some a' \<and> canceller_ok a') \<and>
    (\<exists>a'. snd (WebRtcAecm_set_config (Some a) cfg) = Some a' \<and> canceller_ok a') \<and>
    (\<exists>a'. snd (snd (WebRtcAecm_get_config (Some a) b)) = Some a' \<and> canceller_ok a') \<and>
    (\<exists>a'. snd (WebRtcAecm_InitEchoPath (Some a) path bytes) = Some a' \<and> canceller_ok a') \<and>
    (\<exists>a'. snd (snd (WebRtcAecm_GetEchoPath (Some a) path bytes)) = Some a' \<and> canceller_ok a') \<and>
    (\<exists>ret a'. WebRtcAecm_Init (init_estimators fl) (Some a) freq = (ret, Some a') \<and> canceller_ok a' \<and>
      ret = (if freq = 8000 \<or> freq = 16000 then 0 else -1))"
proof (intro conjI)
  have inv: "aecm_inv a" using assms(1) by (simp add: canceller_ok_def)
  note same = same_estimator_ok [OF assms(1)]
  show "\<exists>ret out' a'. WebRtcAecm_Process (aecm_block fl) (Some a) noisy clean out n ms = Some (ret, out', Some a') \<and>
      canceller_ok a' \<and> map_option length out' = map_option length out \<and>
      ret = (if noisy \<noteq> None \<and> out \<noteq> None \<and> n \<in> {80, 160} \<and> 0 \<le> ms \<and> ms \<le> 500 then 0 else -1)"
    by (rule Process_ok [OF assms(1-4)])
  show "\<exists>a'. snd (WebRtcAecm_BufferFarend (Some a) far k) = Some a' \<and> canceller_ok a'"
    by (rule same, rule BufferFarend_inv [OF inv prod.collapse [symmetric]])
      (auto simp: WebRtcAecm_BufferFarend_def DelayComp_keeps Let_def split: option.splits if_splits)
  show "\<exists>a'. snd (WebRtcAecm_set_config (Some a) cfg) = Some a' \<and> canceller_ok a'"
    by (rule same, rule set_config_inv [OF inv prod.collapse [symmetric]], rule set_config_estimator)
  show "\<exists>a'. snd (snd (WebRtcAecm_get_config (Some a) b)) = Some a' \<and> canceller_ok a'"
    using assms(1) by (simp add: WebRtcAecm_get_config_def delay_fields canceller_ok_def)
  have "\<And>xs. path = Some xs \<Longrightarrow> 65 \<le> length xs \<and> (\<forall>x \<in> set xs. -32768 \<le> x \<and> x \<le> 32767)"
    using assms(5) by (auto simp: list_all_iff)
  then show "\<exists>a'. snd (WebRtcAecm_InitEchoPath (Some a) path bytes) = Some a' \<and> canceller_ok a'"
    by (intro same, intro InitEchoPath_inv [OF inv _ prod.collapse [symmetric]]) (blast, rule InitEchoPath_estimator)
  show "\<exists>a'. snd (snd (WebRtcAecm_GetEchoPath (Some a) path bytes)) = Some a' \<and> canceller_ok a'"
    using assms(1) by (auto simp: WebRtcAecm_GetEchoPath_def delay_fields canceller_ok_def split: option.split)
  show "\<exists>ret a'. WebRtcAecm_Init (init_estimators fl) (Some a) freq = (ret, Some a') \<and> canceller_ok a' \<and>
      ret = (if freq = 8000 \<or> freq = 16000 then 0 else -1)"
    by (rule Init_again [OF assms(1)])
qed

theorem aecm_type_witness:
  "\<exists>out' a'. WebRtcAecm_Process exact_block (Some fresh_aecm) (Some (replicate 160 9)) None
      (Some (replicate 170 1)) 160 75 = Some (0, out', Some a') \<and> canceller_ok a' \<and> map_option length out' = Some 170"
  using aecm_type [OF fresh_ok(2), of 160 "Some (replicate 160 9)" None "Some (replicate 170 1)"
      "Some (replicate 65 (- 5))" exact_floats 75]
  by (auto simp: frame_arrays_def list_all_iff)

subsection \<open>Errors and bounds\<close>

text \<open>C7: A refused call returns -1, gives the reason as the last error and changes nothing else; the reasons are
  checked in one order, null pointers first.  A call that is not refused leaves the last error alone.  With a
  delay outside 0 to 500 ms \<open>Process\<close> does the same as with the delay at the end of that range, to the output
  and to everything in the instance, except that it leaves a warning as the last error and returns -1.\<close>

theorem aecm_errors:
  assumes "WebRtcAecm_Process block (Some a) noisy clean out n ms = Some (ret, out', Some a')"
    and "WebRtcAecm_BufferFarend (Some a) far k = (ret_far, Some a_far)"
  shows "(case refusal a (noisy = None \<or> out = None) n of
       Some e \<Rightarrow> ret = -1 \<and> out' = out \<and> a' = a\<lparr>lastError := e\<rparr> \<and> WebRtcAecm_get_error_code (Some a') = e
     | None \<Rightarrow>
         if 0 \<le> ms \<and> ms \<le> 500 then lastError a' = lastError a
         else ret = -1 \<and> WebRtcAecm_get_error_code (Some a') = AECM_BAD_PARAMETER_WARNING \<and>
           (\<exists>r. WebRtcAecm_Process block (Some (a\<lparr>lastError := AECM_BAD_PARAMETER_WARNING\<rparr>)) noisy clean out n
             (if ms < 0 then 0 else 500) = Some (r, out', Some a'))) \<and>
    (case refusal a (far = None) k of
       Some e \<Rightarrow> ret_far = -1 \<and> a_far = a\<lparr>lastError := e\<rparr> \<and> WebRtcAecm_get_error_code (Some a_far) = e
     | None \<Rightarrow> ret_far = 0 \<and> lastError a_far = lastError a \<and> aecmCore a_far = aecmCore a)"
proof (intro conjI)
  show "case refusal a (noisy = None \<or> out = None) n of
      Some e \<Rightarrow> ret = -1 \<and> out' = out \<and> a' = a\<lparr>lastError := e\<rparr> \<and> WebRtcAecm_get_error_code (Some a') = e
    | None \<Rightarrow>
        if 0 \<le> ms \<and> ms \<le> 500 then lastError a' = lastError a
        else ret = -1 \<and> WebRtcAecm_get_error_code (Some a') = AECM_BAD_PARAMETER_WARNING \<and>
          (\<exists>r. WebRtcAecm_Process block (Some (a\<lparr>lastError := AECM_BAD_PARAMETER_WARNING\<rparr>)) noisy clean out n
            (if ms < 0 then 0 else 500) = Some (r, out', Some a'))"
    using Process_refusals [OF assms(1)] Process_clamped [OF assms(1)] by (auto split: option.splits if_splits)
  show "case refusal a (far = None) k of
      Some e \<Rightarrow> ret_far = -1 \<and> a_far = a\<lparr>lastError := e\<rparr> \<and> WebRtcAecm_get_error_code (Some a_far) = e
    | None \<Rightarrow> ret_far = 0 \<and> lastError a_far = lastError a \<and> aecmCore a_far = aecmCore a"
    using assms(2)
    by (auto simp: WebRtcAecm_BufferFarend_def refusal_def WebRtcAecm_get_error_code_def Let_def DelayComp_keeps
        split: option.splits if_splits)
qed

theorem aecm_errors_witness:
  "\<exists>out' a'. WebRtcAecm_Process exact_block (Some fresh_aecm) (Some (replicate 160 9)) None
      (Some (replicate 160 0)) 160 600 = Some (-1, out', Some a') \<and>
    WebRtcAecm_get_error_code (Some a') = AECM_BAD_PARAMETER_WARNING \<and>
    WebRtcAecm_BufferFarend (Some fresh_aecm) None 160 = (-1, Some (fresh_aecm\<lparr>lastError := AECM_NULL_POINTER_ERROR\<rparr>))"
proof -
  have arrays: "frame_arrays 160 (Some (replicate 160 9))" "frame_arrays 160 None" "frame_arrays 160 (Some (replicate 160 0))"
    by (simp_all add: frame_arrays_def)
  have "(160 :: int) \<in> {80, 160}" by simp
  from Process_total [OF aecm_dsp_ok [of exact_floats] fresh_inv this arrays, of 600]
  obtain ret out' a' where p: "WebRtcAecm_Process exact_block (Some fresh_aecm) (Some (replicate 160 9)) None
      (Some (replicate 160 0)) 160 600 = Some (ret, out', Some a')" by blast
  obtain r b where f: "WebRtcAecm_BufferFarend (Some fresh_aecm) None 160 = (r, Some b)"
    by (simp add: WebRtcAecm_BufferFarend_def)
  have "refusal fresh_aecm False 160 = None" using fresh_inv by (simp add: refusal_def aecm_inv_def)
  then show ?thesis
    using aecm_errors [OF p f] p f by (simp add: refusal_def)
qed

text \<open>C6: The suppression never amplifies.  The suppression gain stays between 0 and the largest parameter of the
  mode, at most 6144; the coefficients of all 65 bins, after the limits of wideband and of the non-linear
  processing, lie between 0 and 1 in Q14, whatever the energies, the echo estimate and the state of the
  filters; so every bin of the near end, multiplied with its coefficient, keeps its sign and grows in neither
  component.\<close>

theorem aecm_gains:
  assumes "adapt_inv c" "WebRtcAecm_CalcSuppressionGain c = (gain, c')" "length dfw = PART_LEN1"
    and "list_all (\<lambda>(re, im). -32768 \<le> re \<and> re \<le> 32767 \<and> -32768 \<le> im \<and> im \<le> 32767) dfw"
  shows "let coefs = final_gains c' (map (\<lambda>i. snd (snd (wiener_bin c' gain zeros dfa est i))) [0..<PART_LEN1]) in
    0 \<le> gain \<and> gain \<le> supGainErrParamA c \<and> gain \<le> 6144 \<and>
    length coefs = PART_LEN1 \<and> list_all (\<lambda>h. 0 \<le> h \<and> h \<le> 16384) coefs \<and>
    list_all2 (\<lambda>z w. no_more (fst w) (fst z) \<and> no_more (snd w) (snd z)) dfw (map2 apply_gain dfw coefs)"
proof -
  define hs where "hs = map (\<lambda>i. snd (snd (wiener_bin c' gain zeros dfa est i))) [0..<65]"
  note g = CalcSuppressionGain_inv [OF assms(1,2)]
  have "supGainErrParamA c \<le> 6144" using assms(1) by (simp add: adapt_inv_defs)
  moreover have "\<forall>h \<in> set hs. 0 \<le> h \<and> h \<le> 16384"
    using wiener_gain_range by (auto simp: hs_def wiener_bin_def Let_def split: prod.split)
  note f = final_gains_range [OF this, of c']
  have len: "length (final_gains c' hs) = 65" using f(2) by (simp add: hs_def)
  have "no_more (fst (apply_gain (dfw ! i) (final_gains c' hs ! i))) (fst (dfw ! i)) \<and>
      no_more (snd (apply_gain (dfw ! i) (final_gains c' hs ! i))) (snd (dfw ! i))" if "i < 65" for i
  proof -
    have h: "0 \<le> final_gains c' hs ! i" "final_gains c' hs ! i \<le> 16384" using f(1) len that by simp_all
    have z: "-32768 \<le> fst (dfw ! i)" "fst (dfw ! i) \<le> 32767" "-32768 \<le> snd (dfw ! i)" "snd (dfw ! i) \<le> 32767"
      using assms(3,4) that by (auto simp: list_all_length split_beta)
    show ?thesis using rounded_product [OF z(1,2) h] rounded_product [OF z(3,4) h] by (simp add: apply_gain_def)
  qed
  then have "list_all2 (\<lambda>z w. no_more (fst w) (fst z) \<and> no_more (snd w) (snd z)) dfw (map2 apply_gain dfw (final_gains c' hs))"
    using len assms(3) by (simp add: list_all2_conv_all_nth)
  ultimately show ?thesis
    using g(3,4) f(1) len by (auto simp: Let_def hs_def list_all_iff)
qed

theorem aecm_gains_witness:
  "\<exists>gain c'. WebRtcAecm_CalcSuppressionGain (adapt (aecmCore fresh_aecm)) = (gain, c') \<and> 0 \<le> gain \<and> gain \<le> 6144 \<and>
    (let coefs = final_gains c' (map (\<lambda>i. snd (snd (wiener_bin c' gain 2 (replicate 65 8) (replicate 65 9) i))) [0..<PART_LEN1]) in
      list_all (\<lambda>h. 0 \<le> h \<and> h \<le> 16384) coefs \<and>
      list_all2 (\<lambda>z w. no_more (fst w) (fst z) \<and> no_more (snd w) (snd z)) (replicate 65 (100, -7))
        (map2 apply_gain (replicate 65 (100, -7)) coefs))"
proof -
  obtain gain c' where g: "WebRtcAecm_CalcSuppressionGain (adapt (aecmCore fresh_aecm)) = (gain, c')" by fastforce
  have "adapt_inv (adapt (aecmCore fresh_aecm))" using fresh_inv by (simp add: aecm_inv_def core_inv_def)
  then show ?thesis
    using aecm_gains [OF _ g, of "replicate 65 (100, -7)" 2 "replicate 65 8" "replicate 65 9"] g
    by (simp add: Let_def list_all_iff)
qed

text \<open>C8: What \<open>Create\<close> does when memory is short, whichever allocations fail.  It succeeds exactly when none does,
  and otherwise leaves no block allocated, but the caller with a pointer to the freed instance.  When a part of
  the core cannot be created, the core is freed with the pointers to all later parts unassigned, and then
  again, with all parts that had been created, and the unassigned pointer to the far-end buffer is freed; that
  happens to the last one also when there is no memory for the core.\<close>

theorem aecm_create_faults:
  "case WebRtcAecm_Create caller instance_ok core_ok ok farend_ok of (ret, p, m) \<Rightarrow>
    ret = (if caller \<and> instance_ok \<and> core_ok \<and> list_all ok core_parts \<and> farend_ok then 0 else -1) \<and>
    p = (if caller then Some (if instance_ok then To Instance else Null) else None) \<and>
    set (allocated m) = (if ret = 0 then {Instance, Core, Far_End} \<union> Core_Part ` set core_parts else {}) \<and>
    set (memory_faults m) =
      (if \<not> caller \<or> \<not> instance_ok then {}
       else if \<not> core_ok then {Freed_Unassigned Farend_Field}
       else if list_all ok core_parts then {}
       else {Freed_Unassigned Farend_Field, Read_Freed Core, Freed_Twice Core} \<union>
         (Freed_Twice \<circ> Core_Part) ` set (takeWhile ok core_parts) \<union>
         (Freed_Unassigned \<circ> Part_Field) ` set (tl (dropWhile ok core_parts)))"
proof (cases "caller \<and> instance_ok \<and> core_ok")
  case False
  then show ?thesis by (auto simp: memory_defs free_field_simps)
next
  case True
  consider "\<not> ok Far_Frames" | "ok Far_Frames" "\<not> ok Noisy_Frames"
    | "ok Far_Frames" "ok Noisy_Frames" "\<not> ok Clean_Frames"
    | "ok Far_Frames" "ok Noisy_Frames" "ok Clean_Frames" "\<not> ok Out_Frames"
    | "ok Far_Frames" "ok Noisy_Frames" "ok Clean_Frames" "ok Out_Frames" "\<not> ok Delay_Farend"
    | "ok Far_Frames" "ok Noisy_Frames" "ok Clean_Frames" "ok Out_Frames" "ok Delay_Farend" "\<not> ok Delay_Near"
    | "ok Far_Frames" "ok Noisy_Frames" "ok Clean_Frames" "ok Out_Frames" "ok Delay_Farend" "ok Delay_Near" "\<not> ok Real_FFT"
    | "ok Far_Frames" "ok Noisy_Frames" "ok Clean_Frames" "ok Out_Frames" "ok Delay_Farend" "ok Delay_Near" "ok Real_FFT"
    by blast
  then show ?thesis using True
    by cases (simp_all add: memory_defs free_field_simps; blast)+
qed

theorem aecm_create_faults_witness:
  "case WebRtcAecm_Create True True True (\<lambda>x. x \<noteq> Delay_Near) True of (ret, p, m) \<Rightarrow>
    ret = -1 \<and> p = Some (To Instance) \<and> allocated m = [] \<and>
    Freed_Twice (Core_Part Far_Frames) \<in> set (memory_faults m) \<and>
    Freed_Unassigned (Part_Field Real_FFT) \<in> set (memory_faults m) \<and>
    Freed_Unassigned (Part_Field Delay_Near) \<notin> set (memory_faults m)"
proof -
  obtain ret p m where "WebRtcAecm_Create True True True (\<lambda>x. x \<noteq> Delay_Near) True = (ret, p, m)" by (metis prod_cases3)
  with aecm_create_faults [of True True True "\<lambda>x. x \<noteq> Delay_Near" True] show ?thesis
    by (auto simp: core_parts_def)
qed

text \<open>C9: The fixed-point helpers compute what their names say: the saturated sum, the number of leading zeros
  (of the sign, for signed numbers) and the integer square root.\<close>

theorem spl_arithmetic:
  assumes "-(2 ^ 31) \<le> a" "a < 2 ^ 31" "-(2 ^ 31) \<le> b" "b < 2 ^ 31" "0 < u" "u < 2 ^ 32"
  shows "AddSatW32 a b = max (-(2 ^ 31)) (min (2 ^ 31 - 1) (a + b)) \<and>
    (a \<noteq> 0 \<longrightarrow> a * 2 ^ nat (NormW32 a) \<in> {-(2 ^ 31) ..< -(2 ^ 30)} \<union> {2 ^ 30 ..< 2 ^ 31}) \<and>
    u * 2 ^ nat (NormU32 u) \<in> {2 ^ 31 ..< 2 ^ 32} \<and>
    (0 \<le> a \<longrightarrow> 0 \<le> SqrtFloor a \<and> (SqrtFloor a)\<^sup>2 \<le> a \<and> a < (SqrtFloor a + 1)\<^sup>2)"
  using assms AddSatW32_clamp [of a b] NormW32_norm [of a] NormU32_norm [of u] SqrtFloor_floor [of a]
  by auto

theorem spl_arithmetic_witness:
  "AddSatW32 2000000000 2000000000 = 2147483647 \<and> (SqrtFloor 2000000000)\<^sup>2 \<le> 2000000000 \<and>
    2000000000 < (SqrtFloor 2000000000 + 1)\<^sup>2 \<and> 2000000000 * 2 ^ nat (NormW32 2000000000) \<in> {-(2 ^ 31) ..< -(2 ^ 30)} \<union> {2 ^ 30 ..< (2 ^ 31 :: int)} \<and>
    5 * 2 ^ nat (NormU32 5) \<in> {2 ^ 31 ..< (2 ^ 32 :: int)}"
  using spl_arithmetic [where a = 2000000000 and b = 2000000000 and u = 5] by simp

end
