(* ===== verification/Spec2Isabelle.thy ===== *)
theory Spec2Isabelle
  imports Aes_Theorems Sha_Theorems Media_Theorems Speex_Theorems Call_Theorems Aecm_Theorems
begin

text \<open>
  A verification library for the native audio core of RedPhone.

  \<^bold>\<open>The program.\<close>  RedPhone is an encrypted telephone for Android.  Its calls are carried by the native
  core under \<open>src/jni/redphone\<close>.  The Java side creates a \<open>CallAudioManager\<close> with a socket, the address
  of the peer and the keys of the two directions, calls \<open>start\<close> on one thread, which stays in the
  receive loop for the whole call, and \<open>stop\<close> and \<open>dispose\<close> on another.  On the way out the recorder's
  callback (\<open>MicrophoneReader\<close>) encodes two Speex frames (\<open>AudioCodec\<close>), wraps them in an RTP packet
  (\<open>RtpPacket\<close>), encrypts it with AES in counter mode and signs it with HMAC-SHA1 (\<open>SrtpStream\<close>), and
  sends it (\<open>RtpAudioSender\<close>).  On the way in \<open>RtpAudioReceiver\<close> recovers the 64-bit sequence number
  (\<open>SequenceCounter\<close>), authenticates and decrypts, \<open>WebRtcJitterBuffer\<close> hands the frames to NetEq, which
  calls \<open>AudioCodec::decode\<close>, and \<open>AudioPlayer\<close> plays what NetEq gives.  The ciphers are OpenSSL's, the
  codec is Speex, the echo canceller and NetEq are WebRTC's, all vendored under \<open>src/jni\<close>.

  \<^bold>\<open>The theories\<close>, from the bottom up:

  \<^item> \<open>Prelude\<close>: words, bytes, buffers with bounded access (\<open>read_bytes\<close>, \<open>write_bytes\<close>: \<open>None\<close> outside
    the buffer), generic lemmas.

  \<^item> AES, \<open>src/jni/openssl/crypto/aes\<close>: \<open>Aes_Spec\<close> and \<open>Fips197\<close> state the field, the S-box, the cipher and
    the key expansion of FIPS 197; \<open>Aes_Tables\<close> has the tables of \<open>aes_core.c\<close>, \<open>Aes_Core\<close> its block
    functions, rolled and unrolled, \<open>Aes_Keys\<close> its key schedules, \<open>Aes_Asm\<close> the schedules of the
    \<open>AES_ASM\<close> text; \<open>Aes_Correct\<close> proves the block functions against the standard.

  \<^item> Counter mode, \<open>src/jni/openssl/crypto/modes/ctr128.c\<close> and \<open>aes/aes_ctr.c\<close>: \<open>Ctr128\<close> (increments, the
    byte-wise, word-wise and 32-bit paths, a locale for a block function, interpreted on AES) and
    \<open>Aes_Ctr\<close>.  \<open>Aes_Theorems\<close> holds the properties of both.

  \<^item> SHA-1, \<open>src/jni/openssl/crypto/sha\<close> and \<open>md32_common.h\<close>: \<open>Sha1_Spec\<close> states FIPS 180, \<open>Sha1_Core\<close> has
    the macros and the streaming functions, \<open>Sha1_Unrolled\<close> and \<open>Sha1_Correct\<close> relate them to it.
    \<open>Evp_Digest\<close> is the digest layer of \<open>evp/digest.c\<close>, \<open>Hmac\<close> is \<open>hmac/hmac.c\<close>; properties in
    \<open>Sha_Theorems\<close>.

  \<^item> The media path, \<open>src/jni/redphone\<close>: \<open>Rtp_Packet\<close> (\<open>RtpPacket.cpp\<close>), \<open>Srtp_Stream\<close> (\<open>SrtpStream.cpp\<close>),
    \<open>Rtp_Transport\<close> (\<open>SequenceCounter.h\<close>, \<open>RtpAudioSender.cpp\<close>, \<open>RtpAudioReceiver.cpp\<close>), \<open>Rtp_Session\<close>
    (both ends together); properties in \<open>Media_Theorems\<close>.

  \<^item> The codec: \<open>Speex_Bits\<close> is all of \<open>src/jni/libspeex/bits.c\<close>, \<open>Speex_Frame\<close> the search for the next
    frame in \<open>nb_decode\<close> of \<open>nb_celp.c\<close> with the two handlers of \<open>speex_callbacks.c\<close>, \<open>Audio_Codec\<close> is
    \<open>AudioCodec.cpp\<close> and \<open>WebRtcCodec.h\<close>; properties in \<open>Speex_Theorems\<close>.

  \<^item> The echo canceller, \<open>src/jni/webrtc/modules/audio_processing/aecm\<close>: \<open>Aecm_Fixed\<close> has the fixed-point
    helpers of \<open>common_audio/signal_processing\<close>, \<open>Spl_Fft\<close> the Fourier transform (\<open>complex_fft.c\<close>,
    \<open>real_fft.c\<close>), \<open>Delay_Estimator\<close> the delay estimator (\<open>utility/delay_estimator.c\<close> and its wrapper).
    \<open>Aecm_Adapt\<close> is the adaptive part of \<open>aecm_core.c\<close> (energies, channel, suppression gain), \<open>Aecm_Block\<close>
    the processing of one block (\<open>aecm_core_c.c\<close>), \<open>Aecm_Frames\<close> the frames and rings of the core,
    \<open>Aecm_Control\<close> the interface (\<open>echo_control_mobile.c\<close>), \<open>Aecm_Memory\<close> creation and freeing over a memory
    of blocks.  \<open>Bit_Counting\<close> and \<open>Delay_Invariant\<close> prove that the delay stays inside the history,
    \<open>Aecm_Invariant\<close> and \<open>Aecm_State\<close> that every call keeps the instance well-formed, \<open>Aecm_Session\<close> what a
    sequence of calls does, and \<open>Aecm_Dsp\<close> puts transform and estimator into the block as the code does;
    properties in \<open>Aecm_Theorems\<close>.

  \<^item> The call: \<open>Audio_Devices\<close> (\<open>MicrophoneReader.cpp\<close>, \<open>AudioPlayer.cpp\<close>, \<open>Clock.h\<close>, and the objects of
    OpenSL ES, the engine among them), \<open>Audio_Playback\<close> (\<open>WebRtcJitterBuffer.cpp\<close> and the body of the receive
    loop), \<open>Call_Manager\<close> (\<open>CallAudioManager.cpp\<close> as a step relation of its threads: one step for every call of
    OpenSL ES, every assignment of a pointer or a flag), \<open>Call_Release\<close> (the invariant of the calls that are
    stopped in their loop), \<open>Call_Hazards\<close> (runs that go wrong), \<open>Call_Setup\<close> (\<open>NetworkUtil.cpp\<close>, the JNI
    \<open>create\<close>), \<open>Stats_Thread\<close> (the statistics thread of \<open>WebRtcJitterBuffer.cpp\<close>), \<open>Jitter_Buffer\<close>
    (\<open>JitterBuffer.cpp\<close>, over a locale for \<open>std::priority_queue\<close>), \<open>Ring_Buffer\<close> (WebRTC's
    \<open>ring_buffer.c\<close>, an interpretation of a locale for bounded queues); properties in \<open>Call_Theorems\<close>.

  \<^bold>\<open>How the code is modelled.\<close>  A struct or class is a record with the source's field names, an operation a
  function that returns the updated record, a fixed-width integer a word (in the echo canceller an \<open>int\<close> that the
  functions \<open>int16\<close>, \<open>int32\<close> and their like wrap where C does), a pointer that may be null an option.  What C
  leaves undefined in a way that matters, an access outside a buffer, is \<open>None\<close> or the fault \<open>Overrun\<close>.
  Loops over data are structural recursions or have a measure.  Loops that may not end, in
  \<open>speex_bits_insert_terminator\<close>, the frame search, \<open>AudioCodec::decode\<close> and the framing of the echo canceller,
  are partial functions into \<open>option\<close>, where \<open>None\<close> is not returning, and the properties say when they
  return.  No function uses fuel.  The threads of a call are steps of an inductive relation; invariants are
  proved over its runs.

  \<^bold>\<open>What the lemmas show.\<close>  The ciphers compute their standards for every input, whatever the pieces in
  which the data comes.  Packets that arrive within half the 16-bit window are authenticated, decrypted
  and handed on with the right numbers; keystream is not used twice within 2^48 packets; the sequence
  counter can be moved by forged packets.  Every packet is decoded in finite time and within a stated
  bound, which NetEq's buffer does not meet.  A \<open>stop\<close> during the loop ends the call and releases the
  devices, and \<open>dispose\<close> the engine; a \<open>stop\<close> before the loop need not, and can destroy what \<open>start\<close> is using.
  The echo canceller never reads or writes outside its arrays and never fails on good arguments; its rings
  and blocks lose nothing but what the properties name; it can read memory that was never initialised, and it
  frees what it must not when memory is short.

  \<^bold>\<open>Parameters.\<close>  \<open>sendto\<close> and \<open>recv\<close>, the allocator, which calls of OpenSL ES succeed, the resolver, NetEq,
  the signal processing of Speex, and the arithmetic on \<open>float\<close> in the validation of the delay (which the
  echo canceller turns off) are arguments.  What is needed of them is
  stated where it is used: \<open>realloc_ok\<close> and \<open>reliable\<close> for the allocator, \<open>synth_ok\<close> (a frame has 160
  samples and reads forward) and \<open>frames_of\<close> (a frame is a whole number of bytes) for Speex; instances
  that meet them stand in the theorem files.

  \<^bold>\<open>Not modelled.\<close>  The signal processing of Speex and of NetEq (filters, codebooks, vendored); the NEON and
  MIPS variants of the echo canceller and the delay estimator's functions for spectra of \<open>float\<close>, which it does
  not call; \<open>SampleRateUtil.h\<close>, which nothing uses; the log output; the rest of OpenSSL, which the core does not
  call; the Java application.  A step of a thread (a call of OpenSL ES with the test of its pointer, an
  assignment, a turn of the loop, an audio callback) is atomic, so data races inside one are outside the model,
  as is the memory model of \<open>volatile\<close>.
\<close>

end
